(* ===== verification/Gdm_Prelude.thy ===== *)
theory Gdm_Prelude
  imports Main "HOL-Library.AList"
begin

text \<open>
  Shared ground of the development: the exceptions of the Python program as a datatype,
  results as sums (\<open>Inl\<close> an exception, \<open>Inr\<close> a value), the sequencing of fallible
  steps, and the string and dictionary operations of the standard library that several
  components use. The collections \<open>result_simps\<close> and \<open>step_defs\<close> are filled by the
  component theories.
\<close>

named_theorems result_simps "rewriting of fallible computations"
named_theorems step_defs "definitions of the steps of a component"

section \<open>Exceptions and results\<close>

text \<open>
  One constructor per exception class that the modelled code raises or lets through. The
  message texts are not kept. \<open>OutOfFuel\<close> is no Python exception: it is the value of a
  loop whose fuel ran out, and the theorems show that the chosen fuel excludes it.
\<close>

datatype exn =
    ValueError | TypeError | KeyError | IndexError | AttributeError | IOError
  | RuntimeError | StructError | OverflowError | UnicodeError | StopIterationError
  | DeviceError | ParserError | CommunicationTimeoutError | ProcessCommunicationError
  | PackageRegistrationError | SwitchboardCreationError | UnboundLocalError | EOFError
  | CapabilityNotReadyError | ZeroDivisionError | CheckDeviceReadyError nat
  | OtherError nat
  | OutOfFuel

type_synonym 'a result = "exn + 'a"

definition bindE :: "'e + 'a \<Rightarrow> ('a \<Rightarrow> 'e + 'b) \<Rightarrow> 'e + 'b" where
  "bindE m f = (case m of Inl e \<Rightarrow> Inl e | Inr x \<Rightarrow> f x)"

lemma bindE_simps [simp]:
  "bindE (Inl e) f = Inl e"
  "bindE (Inr x) f = f x"
  by (simp_all add: bindE_def)

lemma bindE_cong [fundef_cong]:
  "m = m' \<Longrightarrow> (\<And>x. m' = Inr x \<Longrightarrow> f x = g x) \<Longrightarrow> bindE m f = bindE m' g"
  by (auto simp: bindE_def split: sum.splits)

lemma bindE_eq_Inr [result_simps]:
  "bindE m f = Inr y \<longleftrightarrow> (\<exists>x. m = Inr x \<and> f x = Inr y)"
  by (auto simp: bindE_def split: sum.splits)

lemma bindE_eq_Inl [result_simps]:
  "bindE m f = Inl e \<longleftrightarrow> m = Inl e \<or> (\<exists>x. m = Inr x \<and> f x = Inl e)"
  by (auto simp: bindE_def split: sum.splits)

lemma bindE_assoc: "bindE (bindE m f) g = bindE m (\<lambda>x. bindE (f x) g)"
  by (auto simp: bindE_def split: sum.splits)

text \<open>Running a fallible step over a list: the first exception ends the loop.\<close>

fun foldE :: "('a \<Rightarrow> 's \<Rightarrow> 'e + 's) \<Rightarrow> 'a list \<Rightarrow> 's \<Rightarrow> 'e + 's" where
  "foldE f [] s = Inr s"
| "foldE f (x # xs) s = bindE (f x s) (foldE f xs)"

fun mapE :: "('a \<Rightarrow> 'e + 'b) \<Rightarrow> 'a list \<Rightarrow> 'e + 'b list" where
  "mapE f [] = Inr []"
| "mapE f (x # xs) = bindE (f x) (\<lambda>y. bindE (mapE f xs) (\<lambda>ys. Inr (y # ys)))"

lemma foldE_cong [fundef_cong]:
  assumes "xs = ys" and "s = t" and "\<And>x u. x \<in> set ys \<Longrightarrow> f x u = g x u"
  shows "foldE f xs s = foldE g ys t"
  unfolding assms(1,2) using assms(3)
proof (induction ys arbitrary: t)
  case (Cons y ys)
  then show ?case by (simp cong: bindE_cong)
qed simp

lemma foldE_append: "foldE f (xs @ ys) s = bindE (foldE f xs s) (foldE f ys)"
  by (induction xs arbitrary: s) (simp_all add: bindE_assoc cong: bindE_cong)

lemma foldE_invariant:
  assumes "foldE f xs s = Inr t" and "P s"
    and "\<And>x u v. x \<in> set xs \<Longrightarrow> P u \<Longrightarrow> f x u = Inr v \<Longrightarrow> P v"
  shows "P t"
  using assms
proof (induction xs arbitrary: s)
  case (Cons x xs)
  then obtain u where u: "f x s = Inr u" and t: "foldE f xs u = Inr t"
    by (auto simp: result_simps)
  from Cons.prems(2,3) u have "P u" by auto
  with t Cons.prems(3) show ?case by (intro Cons.IH [OF t]) auto
qed simp

lemma mapE_all_Inr: "(\<And>x. x \<in> set xs \<Longrightarrow> f x = Inr (g x)) \<Longrightarrow> mapE f xs = Inr (map g xs)"
  by (induction xs) auto

lemma mapE_length: "mapE f xs = Inr ys \<Longrightarrow> length ys = length xs"
  by (induction xs arbitrary: ys) (auto simp: result_simps)

section \<open>Methods of objects\<close>

text \<open>
  A method that changes the state of its object is a function from the state to a result and the
  state it leaves, also when it raises.
\<close>

type_synonym ('s, 'a) stateful = "'s \<Rightarrow> 'a result \<times> 's"

definition bindS :: "('s, 'a) stateful \<Rightarrow> ('a \<Rightarrow> ('s, 'b) stateful) \<Rightarrow> ('s, 'b) stateful" where
  "bindS m f st = (case m st of (Inl e, st') \<Rightarrow> (Inl e, st') | (Inr x, st') \<Rightarrow> f x st')"

definition returnS :: "'a \<Rightarrow> ('s, 'a) stateful" where
  "returnS x st = (Inr x, st)"

definition raiseS :: "exn \<Rightarrow> ('s, 'a) stateful" where
  "raiseS e st = (Inl e, st)"

text \<open>A step that only reads the state or only computes.\<close>

definition liftS :: "'a result \<Rightarrow> ('s, 'a) stateful" where
  "liftS r st = (r, st)"

definition readS :: "('s \<Rightarrow> 'a result) \<Rightarrow> ('s, 'a) stateful" where
  "readS f st = (f st, st)"

text \<open>\<open>try: body finally: clean\<close>\<close>

definition finallyS :: "('s, 'a) stateful \<Rightarrow> ('s, unit) stateful \<Rightarrow> ('s, 'a) stateful" where
  "finallyS body clean st =
     (case body st of (r, st') \<Rightarrow>
        (case clean st' of (Inl e, st'') \<Rightarrow> (Inl e, st'') | (Inr _, st'') \<Rightarrow> (r, st'')))"

lemma bindS_simps [simp]:
  "m st = (Inl e, st') \<Longrightarrow> bindS m f st = (Inl e, st')"
  "m st = (Inr x, st') \<Longrightarrow> bindS m f st = f x st'"
  by (simp_all add: bindS_def)

lemma bindS_eq_Inr [result_simps]:
  "bindS m f st = (Inr y, st'') \<longleftrightarrow> (\<exists>x st'. m st = (Inr x, st') \<and> f x st' = (Inr y, st''))"
  by (auto simp: bindS_def split: prod.splits sum.splits)

text \<open>
  Partial specifications of methods: from a state with \<open>P\<close>, a value satisfies \<open>Q\<close> together with the
  state left, and an exception \<open>E\<close>.
\<close>

definition triple ::
  "('s \<Rightarrow> bool) \<Rightarrow> ('s, 'a) stateful \<Rightarrow> ('a \<Rightarrow> 's \<Rightarrow> bool) \<Rightarrow> (exn \<Rightarrow> 's \<Rightarrow> bool) \<Rightarrow> bool" where
  "triple P m Q E \<longleftrightarrow>
     (\<forall>st. P st \<longrightarrow> (case m st of (Inr x, st') \<Rightarrow> Q x st' | (Inl e, st') \<Rightarrow> E e st'))"

lemma triple_bind:
  assumes "triple P m R E" and "\<And>x. triple (R x) (f x) Q E"
  shows "triple P (bindS m f) Q E"
  unfolding triple_def
proof (intro allI impI)
  fix st assume "P st"
  obtain r st1 where m: "m st = (r, st1)" by fastforce
  with \<open>P st\<close> assms(1) have "case r of Inr x \<Rightarrow> R x st1 | Inl e \<Rightarrow> E e st1"
    by (fastforce simp: triple_def split: sum.splits)
  with m assms(2) show "case bindS m f st of (Inr x, st') \<Rightarrow> Q x st' | (Inl e, st') \<Rightarrow> E e st'"
    by (cases r) (auto simp: triple_def bindS_def split: prod.splits sum.splits)
qed

lemma triple_return: "(\<And>st. P st \<Longrightarrow> Q x st) \<Longrightarrow> triple P (returnS x) Q E"
  by (simp add: triple_def returnS_def)

lemma triple_raise: "(\<And>st. P st \<Longrightarrow> E e st) \<Longrightarrow> triple P (raiseS e) Q E"
  by (simp add: triple_def raiseS_def)

lemma triple_lift:
  "(\<And>x st. P st \<Longrightarrow> r = Inr x \<Longrightarrow> Q x st) \<Longrightarrow> (\<And>e st. P st \<Longrightarrow> r = Inl e \<Longrightarrow> E e st) \<Longrightarrow>
   triple P (liftS r) Q E"
  by (auto simp: triple_def liftS_def split: sum.splits)

lemma triple_read:
  "(\<And>x st. P st \<Longrightarrow> f st = Inr x \<Longrightarrow> Q x st) \<Longrightarrow> (\<And>e st. P st \<Longrightarrow> f st = Inl e \<Longrightarrow> E e st) \<Longrightarrow>
   triple P (readS f) Q E"
  by (auto simp: triple_def readS_def split: sum.splits)

lemma triple_pre: "triple P m Q E \<Longrightarrow> (\<And>st. P' st \<Longrightarrow> P st) \<Longrightarrow> triple P' m Q E"
  by (simp add: triple_def)

lemma triple_post:
  "triple P m Q E \<Longrightarrow> (\<And>x st. Q x st \<Longrightarrow> Q' x st) \<Longrightarrow> (\<And>e st. E e st \<Longrightarrow> E' e st) \<Longrightarrow> triple P m Q' E'"
  unfolding triple_def by (fastforce split: prod.splits sum.splits)

lemma triple_finally:
  assumes "triple P body Q E"
    and "\<And>x. triple (Q x) clean (\<lambda>_. Q' x) E'" and "\<And>e. triple (E e) clean (\<lambda>_. E' e) E'"
  shows "triple P (finallyS body clean) Q' E'"
  unfolding triple_def
proof (intro allI impI)
  fix st assume "P st"
  obtain r st1 where b: "body st = (r, st1)" by fastforce
  obtain c st2 where c: "clean st1 = (c, st2)" by fastforce
  from \<open>P st\<close> b assms(1) have "case r of Inr x \<Rightarrow> Q x st1 | Inl e \<Rightarrow> E e st1"
    by (fastforce simp: triple_def split: sum.splits)
  with c assms(2,3) have "case c of Inl e \<Rightarrow> E' e st2
      | Inr _ \<Rightarrow> (case r of Inr x \<Rightarrow> Q' x st2 | Inl e \<Rightarrow> E' e st2)"
    by (fastforce simp: triple_def split: sum.splits)
  with b c show "case finallyS body clean st of (Inr x, st') \<Rightarrow> Q' x st' | (Inl e, st') \<Rightarrow> E' e st'"
    by (auto simp: finallyS_def split: sum.splits)
qed

lemma tripleD_value: "triple P m Q E \<Longrightarrow> m st = (Inr x, st') \<Longrightarrow> P st \<Longrightarrow> Q x st'"
  by (fastforce simp: triple_def)

lemma tripleD_exn: "triple P m Q E \<Longrightarrow> m st = (Inl e, st') \<Longrightarrow> P st \<Longrightarrow> E e st'"
  by (fastforce simp: triple_def)

lemma tripleI:
  assumes "\<And>st x st'. P st \<Longrightarrow> m st = (Inr x, st') \<Longrightarrow> Q x st'"
    and "\<And>st e st'. P st \<Longrightarrow> m st = (Inl e, st') \<Longrightarrow> E e st'"
  shows "triple P m Q E"
  using assms unfolding triple_def by (auto split: prod.splits sum.splits)

text \<open>
  The subclasses of \<open>errors.CheckDeviceReadyError\<close> and of \<open>errors.DeviceError\<close>, which
  \<open>except\<close> clauses catch. \<open>CheckDeviceReadyError 0\<close> is the class itself, the other numbers its
  further subclasses.
\<close>

fun is_ready_error :: "exn \<Rightarrow> bool" where
  "is_ready_error (CheckDeviceReadyError n) = True"
| "is_ready_error ProcessCommunicationError = True"
| "is_ready_error SwitchboardCreationError = True"
| "is_ready_error CapabilityNotReadyError = True"
| "is_ready_error e = False"

definition is_device_error :: "exn \<Rightarrow> bool" where
  "is_device_error e \<longleftrightarrow>
     is_ready_error e \<or> e \<in> {DeviceError, ParserError, CommunicationTimeoutError}"

text \<open>Further steps: asking for and changing a part of the state, and a step under a condition.\<close>

definition askS :: "('s \<Rightarrow> 'a) \<Rightarrow> ('s, 'a) stateful" where
  "askS f s = (Inr (f s), s)"

definition doS :: "('s \<Rightarrow> 's) \<Rightarrow> ('s, unit) stateful" where
  "doS f s = (Inr (), f s)"

definition whenS :: "bool \<Rightarrow> ('s, unit) stateful \<Rightarrow> ('s, unit) stateful" where
  "whenS b m = (if b then m else returnS ())"

text \<open>\<open>try: body except ...: handler\<close>\<close>

definition exceptS :: "('s, 'a) stateful \<Rightarrow> (exn \<Rightarrow> ('s, 'a) stateful) \<Rightarrow> ('s, 'a) stateful" where
  "exceptS body handler s =
     (case body s of (Inl e, s') \<Rightarrow> handler e s' | (Inr x, s') \<Rightarrow> (Inr x, s'))"

definition catching :: "exn set \<Rightarrow> ('s, 'a) stateful \<Rightarrow> ('s, 'a) stateful \<Rightarrow> ('s, 'a) stateful" where
  "catching es body handler = exceptS body (\<lambda>e. if e \<in> es then handler else raiseS e)"

text \<open>
  What \<open>decorators.LogDecorator\<close> does to a method: an exception that is not a \<open>DeviceError\<close> or a
  \<open>CheckDeviceReadyError\<close> becomes a \<open>DeviceError\<close>.
\<close>

definition logged :: "('s, 'a) stateful \<Rightarrow> ('s, 'a) stateful" where
  "logged m = exceptS m (\<lambda>e. raiseS (if is_device_error e then e else DeviceError))"

section \<open>Strings\<close>

text \<open>\<open>needle in hay\<close>, \<open>s.endswith(p)\<close> and the other tests of Python strings.\<close>

fun contains :: "'a list \<Rightarrow> 'a list \<Rightarrow> bool" where
  "contains needle [] = (needle = [])"
| "contains needle (c # cs) =
     (take (length needle) (c # cs) = needle \<or> contains needle cs)"

definition ends_with :: "'a list \<Rightarrow> 'a list \<Rightarrow> bool" where
  "ends_with s p \<longleftrightarrow> length p \<le> length s \<and> drop (length s - length p) s = p"

definition starts_with :: "'a list \<Rightarrow> 'a list \<Rightarrow> bool" where
  "starts_with s p \<longleftrightarrow> take (length p) s = p"

abbreviation newline :: char where
  "newline \<equiv> CHR 0x0A"

abbreviation cret :: char where
  "cret \<equiv> CHR 0x0D"

lemma contains_iff: "contains needle hay \<longleftrightarrow> (\<exists>us vs. hay = us @ needle @ vs)"
proof (induction hay)
  case Nil
  show ?case by auto
next
  case (Cons c cs)
  show ?case
  proof
    assume "contains needle (c # cs)"
    then consider "take (length needle) (c # cs) = needle" | "contains needle cs" by auto
    then show "\<exists>us vs. c # cs = us @ needle @ vs"
    proof cases
      case 1
      then have "c # cs = [] @ needle @ drop (length needle) (c # cs)"
        by (metis append_Nil append_take_drop_id)
      then show ?thesis by blast
    next
      case 2
      with Cons.IH obtain us vs where "cs = us @ needle @ vs" by blast
      then have "c # cs = (c # us) @ needle @ vs" by simp
      then show ?thesis by blast
    qed
  next
    assume "\<exists>us vs. c # cs = us @ needle @ vs"
    then obtain us vs where h: "c # cs = us @ needle @ vs" by blast
    show "contains needle (c # cs)"
    proof (cases us)
      case Nil
      with h have "take (length needle) (c # cs) = needle" by simp
      then show ?thesis by simp
    next
      case (Cons d ds)
      with h have "cs = ds @ needle @ vs" by simp
      with Cons.IH show ?thesis by auto
    qed
  qed
qed

lemma ends_with_iff: "ends_with s p \<longleftrightarrow> (\<exists>us. s = us @ p)"
proof
  assume e: "ends_with s p"
  have "s = take (length s - length p) s @ drop (length s - length p) s" by simp
  with e show "\<exists>us. s = us @ p" by (metis ends_with_def)
next
  assume "\<exists>us. s = us @ p"
  then show "ends_with s p" by (auto simp: ends_with_def)
qed

lemma starts_with_iff: "starts_with s p \<longleftrightarrow> (\<exists>vs. s = p @ vs)"
  by (metis append_eq_conv_conj append_take_drop_id starts_with_def)

section \<open>Python dictionaries\<close>

text \<open>
  Where the order of a dictionary is observable it is an association list with distinct
  keys. \<open>AList.update\<close> is \<open>d[k] = v\<close>: an existing key keeps its place, a new one goes
  to the end.
\<close>

lemma distinct_keys_update [simp]:
  "distinct (map fst (AList.update k v al)) = distinct (map fst al)"
  by (induction al) (auto simp: dom_update)

lemma update_fresh: "k \<notin> fst ` set al \<Longrightarrow> AList.update k v al = al @ [(k, v)]"
  by (induction al) auto

lemma foldl_update_distinct:
  "distinct (map fst (al @ kvs)) \<Longrightarrow>
   foldl (\<lambda>d (k, v). AList.update k v d) al kvs = al @ kvs"
proof (induction kvs arbitrary: al)
  case (Cons kv kvs)
  obtain k v where kv: "kv = (k, v)" by (cases kv)
  from Cons.prems have "k \<notin> fst ` set al" by (auto simp: kv)
  then have "AList.update k v al = al @ [kv]" by (simp add: update_fresh kv)
  with Cons.IH [of "al @ [kv]"] Cons.prems show ?case by (simp add: kv)
qed simp

section \<open>Python lists\<close>

text \<open>Python's list subscript: a negative index counts from the end.\<close>

definition py_index :: "'a list \<Rightarrow> int \<Rightarrow> 'a result" where
  "py_index xs i =
     (let n = int (length xs); j = (if i < 0 then i + n else i)
      in if 0 \<le> j \<and> j < n then Inr (xs ! nat j) else Inl IndexError)"

lemma py_index_nonneg: "0 \<le> i \<Longrightarrow> i < int (length xs) \<Longrightarrow> py_index xs i = Inr (xs ! nat i)"
  by (simp add: py_index_def Let_def)

lemma py_index_set: "py_index xs i = Inr x \<Longrightarrow> x \<in> set xs"
  by (auto simp: py_index_def Let_def split: if_splits)

end
