(* ===== verification/Log_Name.thy ===== *)
theory Log_Name
  imports Gdm_Prelude
begin

text \<open>
  The names of log files and the headers of log lines: the functions at the top of
  \<open>gazoo_device/switchboard/log_process.py\<close>, with the parts of \<open>os.path\<close> and of string
  formatting they use.
\<close>

section \<open>Decimal numbers\<close>

definition digit :: "nat \<Rightarrow> char" where
  "digit n = char_of (48 + n)"

definition is_digit :: "char \<Rightarrow> bool" where
  "is_digit c \<longleftrightarrow> 48 \<le> (of_char c :: nat) \<and> of_char c \<le> (57 :: nat)"

fun show_nat :: "nat \<Rightarrow> string" where
  "show_nat n = (if n < 10 then [digit n] else show_nat (n div 10) @ [digit (n mod 10)])"

declare show_nat.simps [simp del]

definition zero_pad :: "nat \<Rightarrow> string \<Rightarrow> string" where
  "zero_pad w s = replicate (w - length s) CHR ''0'' @ s"

definition parse_nat :: "string \<Rightarrow> nat" where
  "parse_nat s = foldl (\<lambda>n c. 10 * n + (of_char c - 48)) 0 s"

lemma digit_literals: "digit 0 = CHR ''0''" "digit (Suc 0) = CHR ''1''"
  by code_simp+

lemma replicate_zeros: "replicate 4 CHR ''0'' = ''0000''"
  by (simp add: eval_nat_numeral)

lemma of_char_digit: "n < 10 \<Longrightarrow> of_char (digit n) = (48 + n :: nat)"
  by (simp add: digit_def)

lemma is_digit_digit [simp]: "n < 10 \<Longrightarrow> is_digit (digit n)"
  by (simp add: is_digit_def of_char_digit)

lemma is_digit_zero [simp]: "is_digit CHR ''0''"
  by (simp add: is_digit_def)

lemma show_nat_digits: "c \<in> set (show_nat n) \<Longrightarrow> is_digit c"
  by (induction n rule: show_nat.induct)
    (subst (asm) (2) show_nat.simps, auto split: if_splits)

lemma parse_show: "parse_nat (show_nat n) = n"
proof (induction n rule: show_nat.induct)
  case (1 n)
  then show ?case
    by (subst show_nat.simps) (auto simp: parse_nat_def of_char_digit)
qed

lemma foldl_zeros: "foldl (\<lambda>n c. 10 * n + (of_char c - 48)) 0 (replicate k CHR ''0'' @ s) =
   foldl (\<lambda>n c. 10 * n + (of_char c - 48)) (0::nat) s"
  by (induction k) simp_all

lemma parse_zero_pad: "parse_nat (zero_pad w (show_nat n)) = n"
  using parse_show [of n] unfolding parse_nat_def zero_pad_def foldl_zeros .

lemma length_show_nat: "n < 10 ^ Suc k \<Longrightarrow> length (show_nat n) \<le> Suc k"
proof (induction k arbitrary: n)
  case (Suc k)
  then have "n div 10 < 10 ^ Suc k" by auto
  from Suc.IH [OF this] show ?case by (subst show_nat.simps) simp
qed (simp add: show_nat.simps)

lemma length_zero_pad: "n < 100000 \<Longrightarrow> length (zero_pad 5 (show_nat n)) = 5"
  using length_show_nat [of n 4] by (simp add: zero_pad_def)

section \<open>Paths\<close>

text \<open>
  \<open>os.path\<close> on POSIX: the file name is what follows the last slash; \<open>splitext\<close> cuts before
  the last dot of the name, unless only dots stand before it.
\<close>

definition after_last :: "char \<Rightarrow> string \<Rightarrow> string" where
  "after_last c s = rev (takeWhile (\<lambda>d. d \<noteq> c) (rev s))"

definition basename :: "string \<Rightarrow> string" where
  "basename p = after_last CHR ''/'' p"

definition splitext :: "string \<Rightarrow> string \<times> string" where
  "splitext p =
     (let name = basename p;
          ext = after_last CHR ''.'' name;
          root = take (length name - length ext - 1) name
      in if CHR ''.'' \<in> set name \<and> (\<exists>c\<in>set root. c \<noteq> CHR ''.'') then
           (take (length p - length ext - 1) p, CHR ''.'' # ext)
         else (p, []))"

text \<open>\<open>s.rsplit(".", 1)\<close> for a string with a dot.\<close>

definition rsplit_dot :: "string \<Rightarrow> string \<times> string" where
  "rsplit_dot s = (let b = after_last CHR ''.'' s in (take (length s - length b - 1) s, b))"

section \<open>Log names\<close>

definition get_event_filename :: "string \<Rightarrow> string" where
  "get_event_filename log_path = fst (splitext log_path) @ ''-events.txt''"

text \<open>The pattern \<open>\.\d{5}$\<close>; the dollar also matches before a final newline.\<close>

definition five_digits_end :: "string \<Rightarrow> bool" where
  "five_digits_end s = (5 < length s \<and> list_all is_digit (drop (length s - 5) s) \<and>
     s ! (length s - 6) = CHR ''.'')"

definition has_counter :: "string \<Rightarrow> bool" where
  "has_counter s = (five_digits_end s \<or> (s \<noteq> [] \<and> last s = newline \<and> five_digits_end (butlast s)))"

definition get_log_filename_and_counter :: "string \<Rightarrow> string \<times> nat" where
  "get_log_filename_and_counter log_path =
     (let (log_path_no_ext, log_path_ext) = splitext log_path
      in if has_counter log_path_no_ext then
           (let (base_log_path, counter_str) = rsplit_dot log_path_no_ext
            in (base_log_path @ log_path_ext, parse_nat (filter is_digit counter_str)))
         else (log_path, 0))"

definition get_next_log_filename :: "string \<Rightarrow> string" where
  "get_next_log_filename current_log_path =
     (let (log_filename, counter) = get_log_filename_and_counter current_log_path;
          (log_file, extension) = splitext log_filename
      in log_file @ ''.'' @ zero_pad 5 (show_nat (counter + 1)) @ extension)"

text \<open>The header of a log line; \<open>host_timestamp\<close> is the formatted time.\<close>

definition add_log_header :: "string \<Rightarrow> string \<Rightarrow> string \<Rightarrow> string" where
  "add_log_header host_timestamp port raw_log_line =
     host_timestamp @ '' GDM-'' @ port @ '': '' @ raw_log_line"

section \<open>The sequence of rotated names\<close>

lemma after_last_append: "c \<notin> set e \<Longrightarrow> after_last c (b @ e) = after_last c b @ e"
  unfolding after_last_def rev_append by (subst takeWhile_append2) auto

lemma after_last_split: "c \<notin> set e \<Longrightarrow> after_last c (b @ c # e) = e"
  using after_last_append [of c e "b @ [c]"] by (simp add: after_last_def)

lemma rsplit_dot_append: "CHR ''.'' \<notin> set e \<Longrightarrow> rsplit_dot (b @ CHR ''.'' # e) = (b, e)"
  by (simp add: rsplit_dot_def after_last_split)

text \<open>A path whose file name has a character other than a dot, and a plain extension.\<close>

definition named :: "string \<Rightarrow> bool" where
  "named b \<longleftrightarrow> (\<exists>c\<in>set (basename b). c \<noteq> CHR ''.'')"

definition plain :: "string \<Rightarrow> bool" where
  "plain e \<longleftrightarrow> CHR ''.'' \<notin> set e \<and> CHR ''/'' \<notin> set e"

lemma splitext_plain:
  assumes "named b" and "plain e"
  shows "splitext (b @ CHR ''.'' # e) = (b, CHR ''.'' # e)"
proof -
  have "basename (b @ CHR ''.'' # e) = basename b @ CHR ''.'' # e"
    using assms(2) after_last_append [of "CHR ''/''" "CHR ''.'' # e" b]
    by (simp add: basename_def plain_def)
  with assms show ?thesis
    by (simp add: splitext_def plain_def named_def after_last_split Let_def)
qed

lemma named_append: "named b \<Longrightarrow> plain e \<Longrightarrow> named (b @ CHR ''.'' # e)"
  using after_last_append [of "CHR ''/''" "CHR ''.'' # e" b]
  by (auto simp: named_def basename_def plain_def)

abbreviation count_str :: "nat \<Rightarrow> string" where
  "count_str n \<equiv> zero_pad 5 (show_nat n)"

lemma count_str_digits: "list_all is_digit (count_str n)"
  using show_nat_digits [of _ n] by (auto simp: zero_pad_def list_all_iff)

lemma plain_digits: "list_all is_digit s \<Longrightarrow> plain s"
  by (auto simp: plain_def list_all_iff is_digit_def)

lemma has_counter_digits:
  assumes "list_all is_digit ds" and "ds \<noteq> []"
  shows "has_counter (b @ CHR ''.'' # ds) \<longleftrightarrow> length ds = 5"
proof -
  have "is_digit (last ds)"
    using assms by (simp add: list_all_iff)
  then have "last ds \<noteq> newline"
    by (rule contrapos_pn) (simp add: is_digit_def)
  moreover have "five_digits_end (b @ CHR ''.'' # ds) \<longleftrightarrow> length ds = 5"
  proof (cases "length ds" "5 :: nat" rule: linorder_cases)
    case less
    then have "CHR ''.'' \<in> set (drop (length b + Suc (length ds) - 5) (b @ CHR ''.'' # ds))"
      by (cases "length b + Suc (length ds) - 5 \<le> length b") auto
    moreover have "\<not> is_digit CHR ''.''"
      by (simp add: is_digit_def)
    ultimately have
      "\<not> list_all is_digit (drop (length b + Suc (length ds) - 5) (b @ CHR ''.'' # ds))"
      unfolding list_all_iff by blast
    then have "\<not> five_digits_end (b @ CHR ''.'' # ds)"
      unfolding five_digits_end_def length_append length_Cons by blast
    with less show ?thesis by simp
  next
    case greater
    then have k: "length ds = 6 + (length ds - 6)" by linarith
    define k where "k = length ds - 6"
    from k have "length b + Suc (length ds) - 6 = length b + Suc k"
      by (simp add: k_def)
    then have "(b @ CHR ''.'' # ds) ! (length b + Suc (length ds) - 6) = ds ! (length ds - 6)"
      by (simp only: nth_append_length_plus nth_Cons_Suc k_def)
    moreover have "is_digit (ds ! (length ds - 6))"
      using assms greater by (simp add: list_all_length)
    ultimately show ?thesis using greater
      by (auto simp: five_digits_end_def is_digit_def)
  qed (use assms in \<open>simp add: five_digits_end_def\<close>)
  ultimately show ?thesis using assms(2) by (simp add: has_counter_def)
qed

definition rotated :: "string \<Rightarrow> string \<Rightarrow> nat \<Rightarrow> string" where
  "rotated b e k = (if k = 0 then b @ CHR ''.'' # e
     else b @ CHR ''.'' # count_str k @ CHR ''.'' # e)"

lemma filter_digits: "list_all is_digit ds \<Longrightarrow> filter is_digit ds = ds"
  by (simp add: list_all_iff)

lemma rotated_counter:
  assumes "named b" "plain e" "\<not> has_counter b" "k < 100000"
  shows "get_log_filename_and_counter (rotated b e k) = (b @ CHR ''.'' # e, k)"
proof (cases "k = 0")
  case True
  with assms show ?thesis
    by (simp add: rotated_def get_log_filename_and_counter_def splitext_plain)
next
  case False
  have "splitext ((b @ CHR ''.'' # count_str k) @ CHR ''.'' # e) =
      (b @ CHR ''.'' # count_str k, CHR ''.'' # e)"
    using named_append [OF assms(1) plain_digits [OF count_str_digits]] assms(2)
    by (rule splitext_plain)
  moreover have "has_counter (b @ CHR ''.'' # count_str k)"
    using assms(4) length_zero_pad [of k] count_str_digits [of k]
    by (subst has_counter_digits) auto
  moreover have "rsplit_dot (b @ CHR ''.'' # count_str k) = (b, count_str k)"
    using plain_digits [OF count_str_digits] by (intro rsplit_dot_append) (simp add: plain_def)
  ultimately show ?thesis using False
    by (simp add: rotated_def get_log_filename_and_counter_def filter_digits
        count_str_digits parse_zero_pad)
qed

lemma next_rotated:
  assumes "named b" "plain e" "\<not> has_counter b" "k < 100000"
  shows "get_next_log_filename (rotated b e k) = rotated b e (Suc k)"
  using rotated_counter [OF assms] splitext_plain [OF assms(1,2)]
  by (simp add: get_next_log_filename_def rotated_def)

text \<open>Asking for the next name again and again numbers the files of a log: after k
  rotations of "base.ext", up to the last five-digit number, the file is the one with number
  k, and its name gives back the first file's name and k.\<close>

theorem log_rotation_counter:
  assumes "named b" "plain e" "\<not> has_counter b" "k < 100000"
  shows "(get_next_log_filename ^^ k) (b @ ''.'' @ e) = rotated b e k \<and>
    get_log_filename_and_counter ((get_next_log_filename ^^ k) (b @ ''.'' @ e))
      = (b @ ''.'' @ e, k)"
proof -
  have "(get_next_log_filename ^^ k) (rotated b e 0) = rotated b e k"
    using assms(4)
  proof (induction k)
    case (Suc k)
    then show ?case using next_rotated [OF assms(1-3), of k] by simp
  qed simp
  then have "(get_next_log_filename ^^ k) (b @ ''.'' @ e) = rotated b e k"
    by (simp add: rotated_def)
  with rotated_counter [OF assms] show ?thesis by simp
qed

theorem log_rotation_counter_witness:
  "(get_next_log_filename ^^ 2) (''/tmp/gdm-echo'' @ ''.'' @ ''txt'') = ''/tmp/gdm-echo.00002.txt''"
proof -
  have "named ''/tmp/gdm-echo''" "plain ''txt''" "\<not> has_counter ''/tmp/gdm-echo''"
    "rotated ''/tmp/gdm-echo'' ''txt'' 2 = ''/tmp/gdm-echo.00002.txt''"
    by code_simp+
  with log_rotation_counter [of "''/tmp/gdm-echo''" "''txt''" 2] show ?thesis by simp
qed

text \<open>The number of a log file is read back from five digits only: after rotation 99999
  the next name has six, counts as a first file again, and the name after it gets a second
  number of 1.\<close>

theorem log_rotation_overflow:
  assumes "named b" "plain e"
  shows "get_log_filename_and_counter (rotated b e 100000) = (rotated b e 100000, 0) \<and>
    get_next_log_filename (rotated b e 100000) = b @ ''.100000.00001.'' @ e"
proof -
  let ?b = "b @ CHR ''.'' # ''100000''"
  have c: "count_str 100000 = ''100000''" and n: "count_str 1 = ''00001''"
    by (simp_all add: zero_pad_def show_nat.simps digit_literals replicate_zeros)
  have s: "splitext (?b @ CHR ''.'' # e) = (?b, CHR ''.'' # e)"
    using named_append [OF assms(1)] assms(2) by (intro splitext_plain) (simp_all add: plain_def)
  have h: "\<not> has_counter ?b"
    by (subst has_counter_digits) (simp_all add: is_digit_def)
  have r: "rotated b e 100000 = ?b @ CHR ''.'' # e"
    unfolding rotated_def c by simp
  have g: "get_log_filename_and_counter (rotated b e 100000) = (rotated b e 100000, 0)"
    unfolding r get_log_filename_and_counter_def s Let_def prod.case using h by (simp only: if_False)
  have "get_next_log_filename (rotated b e 100000) = ?b @ ''.'' @ ''00001'' @ CHR ''.'' # e"
    unfolding get_next_log_filename_def g Let_def prod.case unfolding r s prod.case add_0 n ..
  with g show ?thesis by (simp only: append.simps append_assoc)
qed

theorem log_rotation_overflow_witness:
  "get_next_log_filename ''log.100000.txt'' = ''log.100000.00001.txt''"
proof -
  have "named ''log''" "plain ''txt''" by code_simp+
  moreover have "rotated ''log'' ''txt'' 100000 = ''log.100000.txt''"
    by (simp add: rotated_def zero_pad_def show_nat.simps digit_literals)
  ultimately have *: "named ''log''" "plain ''txt''"
    "rotated ''log'' ''txt'' 100000 = ''log.100000.txt''" by blast+
  from log_rotation_overflow [OF *(1,2), unfolded *(3)] show ?thesis by simp
qed

end
