(* ===== verification/Json_Text.thy ===== *)
theory Json_Text
  imports Log_Name
begin

text \<open>
  The JSON texts of event files and filter files: the part of Python's \<open>json\<close> module that
  \<open>gazoo_device/capabilities/event_parser_default.py\<close> uses, \<open>json.dumps\<close> with its default
  separators and \<open>json.loads\<close>. A character is a code point below 256. A float keeps the text of
  its literal.
\<close>

datatype json =
    JNull | JBool bool | JInt int | JFloat string | JStr string
  | JList "json list" | JDict "(string \<times> json) list"

section \<open>Writing\<close>

definition hex_digit :: "nat \<Rightarrow> char" where
  "hex_digit n = char_of (if n < 10 then 48 + n else 87 + n)"

definition escape_char :: "char \<Rightarrow> string" where
  "escape_char c =
     (let n = of_char c :: nat in
      if c = CHR 0x22 then [CHR 0x5C, CHR 0x22]
      else if c = CHR 0x5C then [CHR 0x5C, CHR 0x5C]
      else if c = CHR 0x0A then [CHR 0x5C, CHR ''n'']
      else if c = CHR 0x0D then [CHR 0x5C, CHR ''r'']
      else if c = CHR 0x09 then [CHR 0x5C, CHR ''t'']
      else if c = CHR 0x0C then [CHR 0x5C, CHR ''f'']
      else if c = CHR 0x08 then [CHR 0x5C, CHR ''b'']
      else if 32 \<le> n \<and> n \<le> 126 then [c]
      else [CHR 0x5C, CHR ''u'', CHR ''0'', CHR ''0'', hex_digit (n div 16), hex_digit (n mod 16)])"

definition dumps_string :: "string \<Rightarrow> string" where
  "dumps_string s = CHR 0x22 # concat (map escape_char s) @ [CHR 0x22]"

definition show_int :: "int \<Rightarrow> string" where
  "show_int i = (if i < 0 then CHR ''-'' # show_nat (nat (- i)) else show_nat (nat i))"

text \<open>The texts between the brackets, separated by a comma and a blank.\<close>

fun separated :: "string list \<Rightarrow> string" where
  "separated [] = []"
| "separated [x] = x"
| "separated (x # xs) = x @ '', '' @ separated xs"

fun dumps :: "json \<Rightarrow> string" where
  "dumps JNull = ''null''"
| "dumps (JBool b) = (if b then ''true'' else ''false'')"
| "dumps (JInt i) = show_int i"
| "dumps (JFloat s) = s"
| "dumps (JStr s) = dumps_string s"
| "dumps (JList js) = ''['' @ separated (map dumps js) @ '']''"
| "dumps (JDict kvs) =
     ''{'' @ separated (map (\<lambda>(k, j). dumps_string k @ '': '' @ dumps j) kvs) @ ''}''"

section \<open>Reading\<close>

definition hex_value :: "char \<Rightarrow> nat option" where
  "hex_value c =
     (let n = of_char c :: nat in
      if 48 \<le> n \<and> n \<le> 57 then Some (n - 48)
      else if 65 \<le> n \<and> n \<le> 70 then Some (n - 55)
      else if 97 \<le> n \<and> n \<le> 102 then Some (n - 87)
      else None)"

text \<open>A character of a text after a backslash, and the number of characters it takes.\<close>

definition simple_escape :: "char \<Rightarrow> char option" where
  "simple_escape c =
     (if c = CHR 0x22 \<or> c = CHR 0x5C \<or> c = CHR ''/'' then Some c
      else if c = CHR ''n'' then Some (CHR 0x0A)
      else if c = CHR ''r'' then Some (CHR 0x0D)
      else if c = CHR ''t'' then Some (CHR 0x09)
      else if c = CHR ''f'' then Some (CHR 0x0C)
      else if c = CHR ''b'' then Some (CHR 0x08)
      else None)"

definition unicode_escape :: "char \<Rightarrow> char \<Rightarrow> char \<Rightarrow> char \<Rightarrow> char option" where
  "unicode_escape a b c d =
     (case (hex_value a, hex_value b, hex_value c, hex_value d) of
        (Some w, Some x, Some y, Some z) \<Rightarrow>
          (let n = 4096 * w + 256 * x + 16 * y + z in if n < 256 then Some (char_of n) else None)
      | _ \<Rightarrow> None)"

text \<open>The rest of a text after its opening quote; control characters are not allowed in it.\<close>

fun read_string :: "string \<Rightarrow> (string \<times> string) option" where
  "read_string [] = None"
| "read_string (ch # cs) =
     (if ch = CHR 0x22 then Some ([], cs)
      else if ch = CHR 0x5C then
        (case cs of
           [] \<Rightarrow> None
         | e # es \<Rightarrow>
             (if e = CHR ''u'' then
                (case es of
                   a # b # c # d # rest \<Rightarrow>
                     (case unicode_escape a b c d of
                        None \<Rightarrow> None
                      | Some x \<Rightarrow> map_option (\<lambda>(s, r). (x # s, r)) (read_string rest))
                 | _ \<Rightarrow> None)
              else case simple_escape e of
                  None \<Rightarrow> None
                | Some x \<Rightarrow> map_option (\<lambda>(s, r). (x # s, r)) (read_string es)))
      else if (of_char ch :: nat) < 32 then None
      else map_option (\<lambda>(s, r). (ch # s, r)) (read_string cs))"

definition skip_blanks :: "string \<Rightarrow> string" where
  "skip_blanks = dropWhile (\<lambda>c. c = CHR '' '' \<or> c = CHR 0x09 \<or> c = CHR 0x0A \<or> c = CHR 0x0D)"

text \<open>The pattern \<open>(-?(?:0|[1-9]\d*))(\.\d+)?([eE][-+]?\d+)?\<close> of numbers.\<close>

definition digits_of :: "string \<Rightarrow> string \<times> string" where
  "digits_of s = (takeWhile is_digit s, dropWhile is_digit s)"

definition read_fraction :: "string \<Rightarrow> string \<times> string" where
  "read_fraction s =
     (case s of
        c # cs \<Rightarrow> (if c = CHR ''.'' \<and> fst (digits_of cs) \<noteq> [] then
            (c # fst (digits_of cs), snd (digits_of cs)) else ([], s))
      | [] \<Rightarrow> ([], []))"

definition read_exponent :: "string \<Rightarrow> string \<times> string" where
  "read_exponent s =
     (case s of
        c # cs \<Rightarrow>
          (if c = CHR ''e'' \<or> c = CHR ''E'' then
             (let (sign, ds) = (case cs of
                    d # rest \<Rightarrow> if d = CHR ''-'' \<or> d = CHR ''+'' then ([d], rest) else ([], cs)
                  | [] \<Rightarrow> ([], []))
              in if fst (digits_of ds) \<noteq> [] then (c # sign @ fst (digits_of ds), snd (digits_of ds))
                 else ([], s))
           else ([], s))
      | [] \<Rightarrow> ([], []))"

definition read_number :: "string \<Rightarrow> (json \<times> string) option" where
  "read_number s =
     (let (sign, cs) = (if s \<noteq> [] \<and> hd s = CHR ''-'' then (''-'', tl s) else ([], s));
          (ds, rest) = (if cs \<noteq> [] \<and> hd cs = CHR ''0'' then (''0'', tl cs) else digits_of cs)
      in if ds = [] then None
         else let (frac, rest1) = read_fraction rest; (ex, rest2) = read_exponent rest1
           in if frac = [] \<and> ex = [] then
                Some (JInt (if sign = [] then int (parse_nat ds) else - int (parse_nat ds)), rest2)
              else Some (JFloat (sign @ ds @ frac @ ex), rest2))"

definition literals :: "(string \<times> json) list" where
  "literals = [(''null'', JNull), (''true'', JBool True), (''false'', JBool False),
     (''NaN'', JFloat ''NaN''), (''Infinity'', JFloat ''Infinity''),
     (''-Infinity'', JFloat ''-Infinity'')]"

definition read_literal :: "string \<Rightarrow> (json \<times> string) option" where
  "read_literal s =
     (case filter (\<lambda>(w, _). starts_with s w) literals of
        (w, j) # _ \<Rightarrow> Some (j, drop (length w) s)
      | [] \<Rightarrow> None)"

text \<open>
  Values, the rest of a list and the rest of an object; the number of nested calls is bounded by
  the length of the text.
\<close>

fun read_value :: "nat \<Rightarrow> string \<Rightarrow> (json \<times> string) option"
  and read_items :: "nat \<Rightarrow> string \<Rightarrow> (json list \<times> string) option"
  and read_members :: "nat \<Rightarrow> string \<Rightarrow> ((string \<times> json) list \<times> string) option" where
  "read_value 0 s = None"
| "read_value (Suc n) s =
     (case s of
        [] \<Rightarrow> None
      | c # cs \<Rightarrow>
          (if c = CHR 0x22 then map_option (\<lambda>(t, r). (JStr t, r)) (read_string cs)
           else if c = CHR ''['' then
             (case skip_blanks cs of
                [] \<Rightarrow> None
              | d # ds \<Rightarrow>
                  if d = CHR '']'' then Some (JList [], ds)
                  else map_option (\<lambda>(js, r). (JList js, r)) (read_items n (d # ds)))
           else if c = CHR ''{'' then
             (case skip_blanks cs of
                [] \<Rightarrow> None
              | d # ds \<Rightarrow>
                  if d = CHR ''}'' then Some (JDict [], ds)
                  else map_option (\<lambda>(kvs, r).
                    (JDict (foldl (\<lambda>m (k, j). AList.update k j m) [] kvs), r)) (read_members n (d # ds)))
           else case read_literal s of Some v \<Rightarrow> Some v | None \<Rightarrow> read_number s))"
| "read_items 0 s = None"
| "read_items (Suc n) s =
     (case read_value n s of
        None \<Rightarrow> None
      | Some (j, r) \<Rightarrow>
          (case skip_blanks r of
             [] \<Rightarrow> None
           | c # cs \<Rightarrow>
               if c = CHR '']'' then Some ([j], cs)
               else if c = CHR '','' then
                 map_option (\<lambda>(js, r'). (j # js, r')) (read_items n (skip_blanks cs))
               else None))"
| "read_members 0 s = None"
| "read_members (Suc n) s =
     (if s = [] \<or> hd s \<noteq> CHR 0x22 then None
      else case read_string (tl s) of
        None \<Rightarrow> None
      | Some (k, r) \<Rightarrow>
          (case skip_blanks r of
             [] \<Rightarrow> None
           | c # cs \<Rightarrow>
               if c \<noteq> CHR '':'' then None
               else case read_value n (skip_blanks cs) of
                   None \<Rightarrow> None
                 | Some (j, r1) \<Rightarrow>
                     (case skip_blanks r1 of
                        [] \<Rightarrow> None
                      | d # ds \<Rightarrow>
                          if d = CHR ''}'' then Some ([(k, j)], ds)
                          else if d = CHR '','' then
                            map_option (\<lambda>(kvs, r'). ((k, j) # kvs, r')) (read_members n (skip_blanks ds))
                          else None)))"

definition loads :: "string \<Rightarrow> json result" where
  "loads s =
     (case read_value (length s + 1) (skip_blanks s) of
        Some (j, r) \<Rightarrow> if skip_blanks r = [] then Inr j else Inl ValueError
      | None \<Rightarrow> Inl ValueError)"


section \<open>Reading what was written\<close>

lemma hex_value_digit: "n < 16 \<Longrightarrow> hex_value (hex_digit n) = Some n"
  by (auto simp: hex_value_def hex_digit_def)

lemma unicode_escape_digits:
  assumes "k < 256"
  shows "unicode_escape CHR ''0'' CHR ''0'' (hex_digit (k div 16)) (hex_digit (k mod 16)) = Some (char_of k)"
proof -
  have "hex_value CHR ''0'' = Some 0" by (simp add: hex_value_def)
  with assms show ?thesis by (simp add: unicode_escape_def hex_value_digit)
qed

lemma read_escape_char:
  "read_string (escape_char c @ t) = map_option (\<lambda>(s, r). (c # s, r)) (read_string t)"
proof -
  define n where "n = (of_char c :: nat)"
  have n: "n < 256" "char_of n = c" by (simp_all add: n_def nat_of_char_less_256)
  consider "c \<in> {CHR 0x22, CHR 0x5C, CHR 0x0A, CHR 0x0D, CHR 0x09, CHR 0x0C, CHR 0x08}"
    | "c \<notin> {CHR 0x22, CHR 0x5C, CHR 0x0A, CHR 0x0D, CHR 0x09, CHR 0x0C, CHR 0x08}" "32 \<le> n \<and> n \<le> 126"
    | "c \<notin> {CHR 0x22, CHR 0x5C, CHR 0x0A, CHR 0x0D, CHR 0x09, CHR 0x0C, CHR 0x08}" "\<not> (32 \<le> n \<and> n \<le> 126)"
    by blast
  then show ?thesis
  proof cases
    case 1
    then show ?thesis by (auto simp: escape_char_def simple_escape_def)
  next
    case 2
    then show ?thesis by (simp add: escape_char_def n_def [symmetric])
  next
    case 3
    then have "escape_char c = [CHR 0x5C, CHR ''u'', CHR ''0'', CHR ''0'', hex_digit (n div 16), hex_digit (n mod 16)]"
      by (simp add: escape_char_def n_def [symmetric])
    with n show ?thesis by (simp add: unicode_escape_digits)
  qed
qed

lemma read_dumps_string: "read_string (concat (map escape_char s) @ CHR 0x22 # r) = Some (s, r)"
  by (induction s) (simp_all add: read_escape_char)

text \<open>What may follow a value in a text that \<open>dumps\<close> writes.\<close>

definition follows :: "string \<Rightarrow> bool" where
  "follows r \<longleftrightarrow> r = [] \<or> hd r \<in> {CHR '','', CHR '']'', CHR ''}'', newline}"

lemma follows_simps [simp]:
  "follows []" "follows (CHR '','' # r)" "follows (CHR '']'' # r)" "follows (CHR ''}'' # r)"
  "follows (newline # r)"
  by (simp_all add: follows_def)

lemma follows_no_digit:
  assumes "follows r"
  shows "takeWhile is_digit r = []" "dropWhile is_digit r = r"
    "read_fraction r = ([], r)" "read_exponent r = ([], r)"
proof -
  consider "r = []" | cs where "r = newline # cs" | cs where "r = CHR '','' # cs" | cs where "r = CHR '']'' # cs" | cs where "r = CHR ''}'' # cs"
    using assms by (cases r) (auto simp: follows_def)
  note cases = this
  show "takeWhile is_digit r = []" by (rule cases) (simp_all add: is_digit_def)
  show "dropWhile is_digit r = r" by (rule cases) (simp_all add: is_digit_def)
  show "read_fraction r = ([], r)" by (rule cases) (simp_all add: read_fraction_def)
  show "read_exponent r = ([], r)" by (rule cases) (simp_all add: read_exponent_def)
qed

lemma show_nat_head: "n \<noteq> 0 \<Longrightarrow> \<exists>c cs. show_nat n = c # cs \<and> is_digit c \<and> c \<noteq> CHR ''0''"
proof (induction n rule: show_nat.induct)
  case (1 n)
  show ?case
  proof (cases "n < 10")
    case True
    have "digit n \<noteq> CHR ''0''"
    proof
      assume "digit n = CHR ''0''"
      then have "(of_char (digit n) :: nat) = 48" by simp
      with True 1(2) show False by (simp add: of_char_digit)
    qed
    with True show ?thesis by (simp add: show_nat.simps)
  next
    case False
    then have "n div 10 \<noteq> 0" by simp
    with 1(1) [OF False] obtain c cs where "show_nat (n div 10) = c # cs" "is_digit c" "c \<noteq> CHR ''0''"
      by blast
    with False show ?thesis by (subst show_nat.simps) simp
  qed
qed

lemma takeWhile_digits:
  "list_all is_digit ds \<Longrightarrow> follows r \<Longrightarrow> takeWhile is_digit (ds @ r) = ds \<and> dropWhile is_digit (ds @ r) = r"
  by (induction ds) (simp_all add: follows_no_digit)

lemma read_number_nat:
  assumes "follows r"
  shows "read_number (show_nat n @ r) = Some (JInt (int n), r)"
    and "read_number (CHR ''-'' # show_nat n @ r) = Some (JInt (- int n), r)"
proof -
  have d: "list_all is_digit (show_nat n)"
    using show_nat_digits by (auto simp: list_all_iff)
  show "read_number (show_nat n @ r) = Some (JInt (int n), r)"
  proof (cases "n = 0")
    case True
    with assms show ?thesis
      by (simp add: show_nat.simps digit_literals read_number_def follows_no_digit parse_nat_def)
  next
    case False
    then obtain c cs where c: "show_nat n = c # cs" "is_digit c" "c \<noteq> CHR ''0''"
      using show_nat_head by blast
    then have "c \<noteq> CHR ''-''" by (auto simp: is_digit_def)
    with assms c takeWhile_digits [OF d assms] parse_show [of n] show ?thesis
      by (simp add: read_number_def digits_of_def follows_no_digit)
  qed
  show "read_number (CHR ''-'' # show_nat n @ r) = Some (JInt (- int n), r)"
  proof (cases "n = 0")
    case True
    with assms show ?thesis
      by (simp add: show_nat.simps digit_literals read_number_def follows_no_digit parse_nat_def)
  next
    case False
    then obtain c cs where c: "show_nat n = c # cs" "is_digit c" "c \<noteq> CHR ''0''"
      using show_nat_head by blast
    with assms c takeWhile_digits [OF d assms] parse_show [of n] show ?thesis
      by (simp add: read_number_def digits_of_def follows_no_digit)
  qed
qed

text \<open>The values the round trip covers: no floats, and the keys of an object are distinct.\<close>

fun storable :: "json \<Rightarrow> bool" where
  "storable (JFloat s) = False"
| "storable (JList js) = list_all storable js"
| "storable (JDict kvs) = (distinct (map fst kvs) \<and> list_all (\<lambda>(k, j). storable j) kvs)"
| "storable _ = True"

lemma show_nat_first: "\<exists>c cs. show_nat n = c # cs \<and> is_digit c"
proof (cases "n = 0")
  case True
  then show ?thesis by (simp add: show_nat.simps)
qed (use show_nat_head in blast)

lemma digit_is_none_of:
  assumes "is_digit c"
  shows "c \<notin> {CHR 0x22, CHR ''['', CHR ''{'', CHR '']'', CHR ''-'', CHR ''n'', CHR ''t'', CHR ''f'',
    CHR ''N'', CHR ''I'', CHR '' '', CHR 0x09, CHR 0x0A, CHR 0x0D}"
  using assms by (auto simp: is_digit_def)

lemma read_literal_digit: "is_digit c \<Longrightarrow> read_literal (c # cs) = None"
  using digit_is_none_of [of c] by (auto simp: read_literal_def literals_def starts_with_def)

lemma read_literal_minus: "is_digit c \<Longrightarrow> read_literal (CHR ''-'' # c # cs) = None"
  using digit_is_none_of [of c] by (auto simp: read_literal_def literals_def starts_with_def)

lemma read_value_int:
  assumes "follows r"
  shows "read_value (Suc n) (show_int i @ r) = Some (JInt i, r)"
proof -
  obtain c cs where c: "show_nat (nat (abs i)) = c # cs" "is_digit c"
    using show_nat_first by blast
  note d = digit_is_none_of [OF c(2)]
  show ?thesis
  proof (cases "i < 0")
    case True
    with c have s: "show_int i = CHR ''-'' # c # cs" by (simp add: show_int_def)
    have "read_number (show_int i @ r) = Some (JInt i, r)"
      using read_number_nat(2) [OF assms, of "nat (- i)"] True by (simp add: show_int_def)
    with s c(2) show ?thesis by (simp add: read_literal_minus)
  next
    case False
    with c have s: "show_int i = c # cs" by (simp add: show_int_def)
    have "read_number (show_int i @ r) = Some (JInt i, r)"
      using read_number_nat(1) [OF assms, of "nat i"] False by (simp add: show_int_def)
    with s c(2) d show ?thesis by (simp add: read_literal_digit)
  qed
qed

text \<open>The first character of a value is no blank and closes nothing.\<close>

lemma dumps_head:
  assumes "storable j"
  shows "\<exists>c cs. dumps j = c # cs \<and> c \<notin> {CHR '' '', CHR 0x09, CHR 0x0A, CHR 0x0D, CHR '']''}"
proof (cases j)
  case (JInt i)
  obtain c cs where c: "show_nat (nat (abs i)) = c # cs" "is_digit c"
    using show_nat_first by blast
  then show ?thesis using JInt digit_is_none_of [OF c(2)]
    by (cases "i < 0") (auto simp: show_int_def)
qed (use assms in \<open>auto simp: dumps_string_def\<close>)

lemma skip_blanks_dumps: "storable j \<Longrightarrow> skip_blanks (dumps j @ r) = dumps j @ r"
  using dumps_head [of j] by (auto simp: skip_blanks_def)

lemma skip_blanks_other [simp]:
  "skip_blanks (CHR 0x22 # s) = CHR 0x22 # s" "skip_blanks (CHR '','' # s) = CHR '','' # s"
  "skip_blanks (CHR '']'' # s) = CHR '']'' # s" "skip_blanks (CHR ''}'' # s) = CHR ''}'' # s"
  "skip_blanks (CHR '':'' # s) = CHR '':'' # s" "skip_blanks (CHR '' '' # s) = skip_blanks s"
  "skip_blanks (newline # s) = skip_blanks s" "skip_blanks [] = []"
  by (simp_all add: skip_blanks_def)

definition dumps_member :: "string \<times> json \<Rightarrow> string" where
  "dumps_member kv = dumps_string (fst kv) @ '': '' @ dumps (snd kv)"

lemma dumps_dict: "dumps (JDict kvs) = ''{'' @ separated (map dumps_member kvs) @ ''}''"
proof -
  have "map (\<lambda>(k, j). dumps_string k @ '': '' @ dumps j) kvs = map dumps_member kvs"
    by (rule map_cong) (auto simp: dumps_member_def)
  then show ?thesis by (simp only: dumps.simps)
qed

declare dumps.simps(7) [simp del]
declare dumps_dict [simp]

text \<open>The statement for one value, used below for the values in a list and in an object.\<close>

definition reads_back :: "json \<Rightarrow> bool" where
  "reads_back j \<longleftrightarrow> (\<forall>n r. length (dumps j) \<le> n \<longrightarrow> follows r \<longrightarrow> read_value n (dumps j @ r) = Some (j, r))"

lemma reads_backD:
  "reads_back j \<Longrightarrow> length (dumps j) \<le> n \<Longrightarrow> follows r \<Longrightarrow> read_value n (dumps j @ r) = Some (j, r)"
  by (simp add: reads_back_def)

lemma read_items_written:
  assumes "js \<noteq> []" and "list_all storable js" and "list_all reads_back js"
    and "length (separated (map dumps js)) < n"
  shows "read_items n (separated (map dumps js) @ CHR '']'' # r) = Some (js, r)"
  using assms
proof (induction js arbitrary: n)
  case (Cons j js)
  then obtain m where n: "n = Suc m" by (cases n) auto
  show ?case
  proof (cases js)
    case Nil
    with Cons.prems have "read_value m (dumps j @ CHR '']'' # r) = Some (j, CHR '']'' # r)"
      by (intro reads_backD) (simp_all add: n)
    with Nil show ?thesis by (simp add: n)
  next
    case (Cons k ks)
    let ?rest = "separated (map dumps js) @ CHR '']'' # r"
    have written: "separated (map dumps (j # js)) = dumps j @ '', '' @ separated (map dumps js)"
      by (simp add: Cons)
    have len: "length (dumps j) + 2 + length (separated (map dumps js)) \<le> m"
      using Cons.prems(4) unfolding written n by simp
    have v: "read_value m (dumps j @ CHR '','' # CHR '' '' # ?rest) = Some (j, CHR '','' # CHR '' '' # ?rest)"
      using Cons.prems(3) len by (intro reads_backD) simp_all
    have i: "read_items m ?rest = Some (js, r)"
      using Cons.prems len by (intro Cons.IH) (auto simp: Cons)
    have "storable k" using Cons.prems by (simp add: Cons)
    then have b: "skip_blanks ?rest = ?rest"
      using skip_blanks_dumps [of k] by (cases ks) (simp_all add: Cons)
    show ?thesis using v i b unfolding written n by simp
  qed
qed simp

lemma read_members_written:
  assumes "kvs \<noteq> []" and "list_all (\<lambda>(k, j). storable j \<and> reads_back j) kvs"
    and "length (separated (map dumps_member kvs)) < n"
  shows "read_members n (separated (map dumps_member kvs) @ CHR ''}'' # r) = Some (kvs, r)"
  using assms
proof (induction kvs arbitrary: n)
  case (Cons kv kvs)
  then obtain m where n: "n = Suc m" by (cases n) auto
  obtain k j where kv: "kv = (k, j)" by (cases kv)
  have j: "storable j" "reads_back j" using Cons.prems by (simp_all add: kv)
  show ?case
  proof (cases kvs)
    case Nil
    with Cons.prems have "read_value m (dumps j @ CHR ''}'' # r) = Some (j, CHR ''}'' # r)"
      by (intro reads_backD j) (simp_all add: n kv dumps_member_def)
    with Nil j(1) show ?thesis
      by (simp add: n kv dumps_member_def dumps_string_def read_dumps_string skip_blanks_dumps)
  next
    case (Cons kv' kvs')
    let ?rest = "separated (map dumps_member kvs) @ CHR ''}'' # r"
    have written: "separated (map dumps_member (kv # kvs)) =
        dumps_member kv @ '', '' @ separated (map dumps_member kvs)"
      by (simp add: Cons)
    have len: "length (dumps j) + 2 + length (separated (map dumps_member kvs)) \<le> m"
      using Cons.prems(3) unfolding written n by (simp add: kv dumps_member_def)
    have v: "read_value m (dumps j @ CHR '','' # CHR '' '' # ?rest) = Some (j, CHR '','' # CHR '' '' # ?rest)"
      using len by (intro reads_backD j) simp_all
    have i: "read_members m ?rest = Some (kvs, r)"
      using Cons.prems len by (intro Cons.IH) (auto simp: Cons)
    have b: "skip_blanks ?rest = ?rest"
      by (cases kvs') (simp_all add: Cons dumps_member_def dumps_string_def)
    show ?thesis using v i b j(1) unfolding written n unfolding kv
      by (simp add: dumps_member_def [of "(k, j)"] dumps_string_def [of k] read_dumps_string skip_blanks_dumps)
  qed
qed simp

lemma storable_reads_back: "storable j \<Longrightarrow> reads_back j"
proof (induction j)
  case JNull
  show ?case unfolding reads_back_def
    by (auto simp: read_literal_def literals_def starts_with_def dest!: Suc_le_D)
next
  case (JBool b)
  show ?case unfolding reads_back_def
    by (auto simp: read_literal_def literals_def starts_with_def dest!: Suc_le_D)
next
  case (JInt i)
  have "length (show_int i) \<noteq> 0"
    using dumps_head [of "JInt i"] by auto
  show ?case unfolding reads_back_def
  proof (intro allI impI)
    fix n r
    assume "length (dumps (JInt i)) \<le> n" "follows r"
    with \<open>length (show_int i) \<noteq> 0\<close> show "read_value n (dumps (JInt i) @ r) = Some (JInt i, r)"
      by (cases n) (simp_all add: read_value_int del: read_value.simps)
  qed
next
  case (JStr s)
  show ?case unfolding reads_back_def
    by (auto simp: dumps_string_def read_dumps_string dest!: Suc_le_D)
next
  case (JList js)
  then have all: "list_all reads_back js" "list_all storable js"
    by (auto simp: list_all_iff)
  show ?case unfolding reads_back_def
  proof (intro allI impI)
    fix n r
    assume l: "length (dumps (JList js)) \<le> n"
    then obtain m where m: "n = Suc m" by (auto dest!: Suc_le_D)
    show "read_value n (dumps (JList js) @ r) = Some (JList js, r)"
    proof (cases js)
      case (Cons k ks)
      have i: "read_items m (separated (map dumps js) @ CHR '']'' # r) = Some (js, r)"
        using l all by (intro read_items_written) (auto simp: m Cons)
      have "storable k" using all(2) by (simp add: Cons)
      then obtain c cs where c: "dumps k = c # cs" "c \<notin> {CHR '' '', CHR 0x09, CHR 0x0A, CHR 0x0D, CHR '']''}"
        using dumps_head by blast
      have "\<exists>ds. separated (map dumps js) @ CHR '']'' # r = c # ds"
        by (cases ks) (simp_all add: Cons c)
      then obtain ds where d: "separated (map dumps js) @ CHR '']'' # r = c # ds" by blast
      then have b: "skip_blanks (separated (map dumps js) @ CHR '']'' # r) = c # ds"
        using c by (simp add: skip_blanks_def)
      show ?thesis using i b c by (simp add: m d)
    qed (simp add: m)
  qed
next
  case (JDict kvs)
  then have all: "list_all (\<lambda>(k, j). storable j \<and> reads_back j) kvs" and d: "distinct (map fst kvs)"
    by (fastforce simp: list_all_iff)+
  show ?case unfolding reads_back_def
  proof (intro allI impI)
    fix n r
    assume l: "length (dumps (JDict kvs)) \<le> n"
    then obtain m where m: "n = Suc m" by (auto dest!: Suc_le_D)
    show "read_value n (dumps (JDict kvs) @ r) = Some (JDict kvs, r)"
    proof (cases kvs)
      case (Cons kv kvs')
      have i: "read_members m (separated (map dumps_member kvs) @ CHR ''}'' # r) = Some (kvs, r)"
        using l all by (intro read_members_written) (auto simp: m Cons)
      have "\<exists>ds. separated (map dumps_member kvs) @ CHR ''}'' # r = CHR 0x22 # ds"
        by (cases kvs'; cases kv) (simp_all add: Cons dumps_member_def dumps_string_def)
      then obtain ds where ds: "separated (map dumps_member kvs) @ CHR ''}'' # r = CHR 0x22 # ds" by blast
      have u: "foldl (\<lambda>m (k, j). AList.update k j m) [] kvs = kvs"
        using foldl_update_distinct [of "[]" kvs] d by simp
      show ?thesis using i u by (simp add: m ds)
    qed (simp add: m)
  qed
qed simp

text \<open>What \<open>dumps\<close> writes is read back by \<open>loads\<close>.\<close>

lemma loads_dumps: "storable j \<Longrightarrow> loads (dumps j) = Inr j"
  using reads_backD [OF storable_reads_back, of j "length (dumps j) + 1" "[]"]
    skip_blanks_dumps [of j "[]"] by (simp add: loads_def)

lemma loads_dumps_line: "storable j \<Longrightarrow> loads (dumps j @ [newline]) = Inr j"
  using reads_backD [OF storable_reads_back, of j "length (dumps j) + 2" "[newline]"]
    skip_blanks_dumps [of j "[newline]"] by (simp add: loads_def)

text \<open>A written value is printable, so it stands on one line.\<close>

definition printable :: "char \<Rightarrow> bool" where
  "printable c \<longleftrightarrow> 32 \<le> (of_char c :: nat) \<and> of_char c \<le> (126 :: nat)"

lemma printable_digit: "is_digit c \<Longrightarrow> printable c"
  by (auto simp: is_digit_def printable_def)

lemma printable_hex_digit: "n < 16 \<Longrightarrow> printable (hex_digit n)"
  by (auto simp: printable_def hex_digit_def)

lemma escape_printable: "list_all printable (escape_char c)"
proof -
  have "of_char c < (256 :: nat)" by (rule nat_of_char_less_256)
  then have "(of_char c :: nat) div 16 < 16" "(of_char c :: nat) mod 16 < 16"
    by (simp_all add: div_less_iff_less_mult)
  note hex = this [THEN printable_hex_digit]
  have "list_all printable [CHR 0x22, CHR 0x5C, CHR ''n'', CHR ''r'', CHR ''t'', CHR ''f'', CHR ''b'',
      CHR ''u'', CHR ''0'']"
    by (simp add: printable_def)
  with hex show ?thesis
    unfolding escape_char_def Let_def printable_def [of c, symmetric] by simp
qed

lemma separated_printable: "list_all (list_all printable) xs \<Longrightarrow> list_all printable (separated xs)"
  by (induction xs rule: separated.induct) (simp_all add: printable_def [of "CHR '',''"] printable_def [of "CHR '' ''"])

lemma dumps_string_printable: "list_all printable (dumps_string s)"
  using escape_printable by (induction s) (auto simp: dumps_string_def printable_def [of "CHR 0x22"])

lemma dumps_printable: "storable j \<Longrightarrow> list_all printable (dumps j)"
proof (induction j)
  case (JInt i)
  have "list_all printable (show_nat n)" for n
    using show_nat_digits [of _ n] by (auto simp: list_all_iff intro: printable_digit)
  then show ?case by (simp add: show_int_def printable_def [of "CHR ''-''"])
next
  case (JStr s)
  show ?case by (simp add: dumps_string_printable)
next
  case (JList js)
  then have "list_all printable (separated (map dumps js))"
    by (intro separated_printable) (simp add: list_all_iff)
  then show ?case by simp (simp add: printable_def)
next
  case (JDict kvs)
  then have "list_all (list_all printable) (map dumps_member kvs)"
    using dumps_string_printable
    by (fastforce simp: list_all_iff dumps_member_def printable_def [of "CHR '':''"] printable_def [of "CHR '' ''"])
  then have "list_all printable (separated (map dumps_member kvs))" by (rule separated_printable)
  then show ?case by simp (simp add: printable_def)
qed (simp_all add: printable_def)

lemma dumps_one_line: "storable j \<Longrightarrow> newline \<notin> set (dumps j)"
  using dumps_printable [of j] by (auto simp: list_all_iff printable_def)

end
