(* ===== verification/Data_Framer.thy ===== *)
theory Data_Framer
  imports Gdm_Prelude
begin

text \<open>
  \<open>gazoo_device/switchboard/data_framer.py\<close>: splitting of raw device output into lines. A
  generator of the source is a pair: the lines it yields, and the exception that ends it, if
  one does. The index arguments are \<open>Idx i\<close> for an int and \<open>NotAnInt\<close> for anything else.
\<close>

datatype index = Idx int | NotAnInt

type_synonym gen = "string list \<times> exn option"

definition validate_end_and_begin_are_valid :: "index \<Rightarrow> index option \<Rightarrow> nat \<Rightarrow> unit result" where
  "validate_end_and_begin_are_valid begin stop_arg string_len =
     (case begin of
        NotAnInt \<Rightarrow> Inl ValueError
      | Idx b \<Rightarrow>
          (if b < 0 \<or> b > int string_len then Inl ValueError
           else case stop_arg of
             None \<Rightarrow> Inr ()
           | Some NotAnInt \<Rightarrow> Inl ValueError
           | Some (Idx e) \<Rightarrow>
               (if e < 0 \<or> e > int string_len then Inl ValueError
                else if b > e then Inl ValueError
                else Inr ())))"

text \<open>\<open>s[a:b]\<close> for indexes that are not negative.\<close>

definition slice :: "nat \<Rightarrow> nat \<Rightarrow> 'a list \<Rightarrow> 'a list" where
  "slice a b s = take (b - a) (drop a s)"

abbreviation line_end :: "char \<Rightarrow> bool" where
  "line_end c \<equiv> c = cret \<or> c = newline"

text \<open>
  The search for the end of the text before \<open>begin\<close>: \<open>range(begin, 0, -1)\<close>, so index 0 is
  not looked at, and \<open>string[begin]\<close> is out of range when \<open>begin\<close> is the length.
\<close>

fun scan_back :: "string \<Rightarrow> nat \<Rightarrow> nat \<Rightarrow> nat" where
  "scan_back s begin 0 = begin"
| "scan_back s begin (Suc i) =
     (if \<not> line_end (s ! Suc i) then Suc i + 1 else scan_back s begin i)"

text \<open>The loop over \<open>range(begin, end)\<close>; its \<open>else\<close> branch yields the tail.\<close>

function split_loop ::
  "string \<Rightarrow> bool \<Rightarrow> bool \<Rightarrow> nat \<Rightarrow> nat \<Rightarrow> nat \<Rightarrow> nat \<Rightarrow> string list" where
  "split_loop s keepends cleanends stop i start_index pre_line_return =
     (if stop \<le> i then [drop start_index s]
      else
        let pre = (if cleanends \<and> \<not> line_end (s ! i) then i + 1 else pre_line_return);
            end_offset = (if keepends then 1 else 0)
        in if s ! i = newline then
             (if cleanends then slice start_index pre s @ slice i (i + end_offset) s
              else slice start_index (i + end_offset) s) #
             (if i + 1 = stop then []
              else split_loop s keepends cleanends stop (i + 1) (i + 1) pre)
           else split_loop s keepends cleanends stop (i + 1) start_index pre)"
  by pat_completeness auto
termination by (relation "measure (\<lambda>(s, k, c, stop, i, _). stop - i)") auto

declare split_loop.simps [simp del]

definition split_newlines_only ::
  "string \<Rightarrow> index \<Rightarrow> index option \<Rightarrow> bool \<Rightarrow> bool \<Rightarrow> gen" where
  "split_newlines_only string begin stop_arg keepends cleanends =
     (case validate_end_and_begin_are_valid begin stop_arg (length string) of
        Inl e \<Rightarrow> ([], Some e)
      | Inr _ \<Rightarrow>
          (let b = (case begin of Idx i \<Rightarrow> nat i | NotAnInt \<Rightarrow> 0);
               stop = (case stop_arg of Some (Idx i) \<Rightarrow> nat i | _ \<Rightarrow> length string)
           in if cleanends \<and> 0 < b \<and> b = length string then ([], Some IndexError)
              else (split_loop string keepends cleanends stop b 0
                      (if cleanends then scan_back string b b else 0), None)))"

record newline_framer =
  nf_keepends :: bool
  nf_cleanends :: bool

definition newline_get_lines :: "newline_framer \<Rightarrow> string \<Rightarrow> index \<Rightarrow> index option \<Rightarrow> gen" where
  "newline_get_lines fr raw_data begin stop_arg =
     split_newlines_only raw_data begin stop_arg (nf_keepends fr) (nf_cleanends fr)"

text \<open>
  The framer that takes log lines out of the middle of response lines. The pattern is a
  parameter: \<open>search line\<close> is the start and the end of the first match with its group 1.
\<close>

record interwoven_framer =
  if_add_newline :: bool
  if_keepends :: bool
  if_cleanends :: bool

fun interwoven_lines ::
  "(string \<Rightarrow> (nat \<times> nat \<times> string) option) \<Rightarrow> bool \<Rightarrow> string list \<Rightarrow> exn option \<Rightarrow> gen" where
  "interwoven_lines search add_newline [] exc = ([], exc)"
| "interwoven_lines search add_newline (raw_line # rest) exc =
     (if raw_line = [] then ([], Some IndexError)
      else
        let (more, exc') = interwoven_lines search add_newline rest exc;
            now = (if last raw_line \<noteq> newline then [raw_line]
                   else case search raw_line of
                     None \<Rightarrow> [raw_line]
                   | Some (m, n, grp) \<Rightarrow>
                       (let line1 = (if add_newline then grp @ [newline] else grp);
                            line2 = take m raw_line @ drop n raw_line
                        in if line2 \<noteq> [] then [line1, line2] else [line1]))
        in (now @ more, exc'))"

definition interwoven_get_lines ::
  "(string \<Rightarrow> (nat \<times> nat \<times> string) option) \<Rightarrow> interwoven_framer \<Rightarrow> string \<Rightarrow> index \<Rightarrow>
   index option \<Rightarrow> gen" where
  "interwoven_get_lines search fr raw_data begin stop_arg =
     (case split_newlines_only raw_data begin stop_arg (if_keepends fr) (if_cleanends fr) of
        (raw_lines, exc) \<Rightarrow> interwoven_lines search (if_add_newline fr) raw_lines exc)"

section \<open>The lines of a text\<close>

text \<open>The reference: the text up to and including each newline, then what is left.\<close>

fun text_lines :: "string \<Rightarrow> string list" where
  "text_lines [] = []"
| "text_lines (c # cs) =
     (if c = newline then [c] # text_lines cs
      else case text_lines cs of [] \<Rightarrow> [[c]] | l # ls \<Rightarrow> (c # l) # ls)"

text \<open>What \<open>cleanends\<close> is for: the line ends before the newline are dropped.\<close>

definition strip_ends :: "string \<Rightarrow> string" where
  "strip_ends l = rev (dropWhile line_end (rev l))"

section \<open>The loop yields the lines of the text\<close>

text \<open>
  How a yielded line \<open>l\<close> stems from a line \<open>t\<close> of the text: a complete line keeps its text,
  trimmed as \<open>Q\<close> says when \<open>cleanends\<close> is set, and its newline when \<open>keepends\<close> is; the
  tail is yielded as it is.
\<close>

definition framed ::
  "(string \<Rightarrow> string \<Rightarrow> bool) \<Rightarrow> bool \<Rightarrow> bool \<Rightarrow> string \<Rightarrow> string \<Rightarrow> bool" where
  "framed Q keepends cleanends l t \<longleftrightarrow>
     (if t \<noteq> [] \<and> last t = newline then
        \<exists>x. (if cleanends then Q x (butlast t) else x = butlast t) \<and>
          l = x @ (if keepends then [newline] else [])
      else l = t)"

definition trimming :: "(string \<Rightarrow> string \<Rightarrow> bool) \<Rightarrow> bool" where
  "trimming Q \<longleftrightarrow> Q [] [] \<and> (\<forall>x t c. line_end c \<longrightarrow> Q x t \<longrightarrow> Q x (t @ [c])) \<and>
     (\<forall>t c. \<not> line_end c \<longrightarrow> Q (t @ [c]) (t @ [c]))"

lemma text_lines_no_newline:
  "newline \<notin> set xs \<Longrightarrow> text_lines xs = (if xs = [] then [] else [xs])"
  by (induction xs) auto

lemma text_lines_newline:
  "newline \<notin> set xs \<Longrightarrow> text_lines (xs @ newline # ys) = (xs @ [newline]) # text_lines ys"
  by (induction xs) auto

lemma concat_text_lines [simp]: "concat (text_lines s) = s"
  by (induction s) (auto split: list.splits)

lemma slice_Suc: "a \<le> i \<Longrightarrow> i < length s \<Longrightarrow> slice a (Suc i) s = slice a i s @ [s ! i]"
  by (simp add: slice_def Suc_diff_le take_Suc_conv_app_nth)

lemma slice_one: "i < length s \<Longrightarrow> slice i (Suc i) s = [s ! i]"
  by (simp add: slice_Suc) (simp add: slice_def)

lemma slice_empty [simp]: "slice i i s = []"
  by (simp add: slice_def)

lemma slice_rest: "a \<le> i \<Longrightarrow> i \<le> length s \<Longrightarrow> slice a i s @ drop i s = drop a s"
  by (simp add: slice_def) (metis append_take_drop_id drop_drop le_add_diff_inverse2)

lemma slice_append: "a \<le> m \<Longrightarrow> m \<le> n \<Longrightarrow> slice a m s @ slice m n s = slice a n s"
  using take_add [of "m - a" "n - m" "drop a s"] by (simp add: slice_def)

lemma strip_ends_snoc: "strip_ends (xs @ [c]) = (if line_end c then strip_ends xs else xs @ [c])"
  by (simp add: strip_ends_def)

text \<open>
  The loop at index \<open>i\<close>: the line under construction starts at \<open>start\<close>, holds no newline yet,
  and what \<open>pre\<close> cuts off are line ends.
\<close>

lemma split_loop_lines:
  assumes "start < length s" "start \<le> i" "i \<le> length s" "newline \<notin> set (slice start i s)"
    and "ce \<Longrightarrow> i < length s \<Longrightarrow> line_end (s ! i) \<Longrightarrow>
      Q (slice start pre s) (slice start i s) \<and> pre \<le> i"
    and Q: "trimming Q"
  shows "list_all2 (framed Q ke ce) (split_loop s ke ce (length s) i start pre)
    (text_lines (drop start s))"
  using assms(1-5)
proof (induction "length s - i" arbitrary: i start pre rule: less_induct)
  case less
  show ?case
  proof (cases "i = length s")
    case True
    with less.prems have "drop start s = slice start i s"
      by (simp add: slice_def)
    with less.prems(4) have n: "newline \<notin> set (drop start s)" by simp
    moreover from n have "framed Q ke ce (drop start s) (drop start s)"
      using less.prems(1) last_in_set [of "drop start s"] by (auto simp: framed_def)
    ultimately show ?thesis using True less.prems(1)
      by (simp add: split_loop.simps text_lines_no_newline)
  next
    case False
    with less.prems have i: "i < length s" by simp
    define pre' where "pre' = (if ce \<and> \<not> line_end (s ! i) then i + 1 else pre)"
    have p: "Q (slice start pre' s) (slice start (Suc i) s) \<and> pre' \<le> Suc i" if ce
      using less.prems(2) less.prems(5) [OF that i] that i Q
      by (auto simp: pre'_def slice_Suc trimming_def)
    have rest: "drop start s = slice start i s @ s ! i # drop (Suc i) s"
      using less.prems(2) i slice_rest [of start i s] by (simp add: Cons_nth_drop_Suc)
    let ?first = "if ce then slice start pre' s @ slice i (i + (if ke then 1 else 0)) s
          else slice start (i + (if ke then 1 else 0)) s"
    have step: "split_loop s ke ce (length s) i start pre =
        (if s ! i = newline then ?first #
           (if Suc i = length s then []
            else split_loop s ke ce (length s) (Suc i) (Suc i) pre')
         else split_loop s ke ce (length s) (Suc i) start pre')"
      using i unfolding pre'_def by (subst split_loop.simps) (simp only: Let_def Suc_eq_plus1
        not_le [symmetric] if_False)
    show ?thesis
    proof (cases "s ! i = newline")
      case nl: True
      have lines: "text_lines (drop start s) =
          (slice start i s @ [newline]) # text_lines (drop (Suc i) s)"
        unfolding rest nl using less.prems(4) by (rule text_lines_newline)
      have first: "framed Q ke ce ?first (slice start i s @ [newline])"
        using less.prems(2,5) i nl
        by (auto simp: framed_def slice_one slice_Suc pre'_def)
      show ?thesis
      proof (cases "Suc i = length s")
        case True
        then have "text_lines (drop (Suc i) s) = []" by simp
        with True nl first show ?thesis unfolding step lines by simp
      next
        case more: False
        have "slice (Suc i) pre' s = [] \<and> pre' \<le> Suc i" if ce
          using p that by (simp add: slice_def)
        then have "list_all2 (framed Q ke ce)
            (split_loop s ke ce (length s) (Suc i) (Suc i) pre') (text_lines (drop (Suc i) s))"
          using i more Q by (intro less.hyps) (auto simp: trimming_def)
        with nl more first show ?thesis unfolding step lines by simp
      qed
    next
      case no: False
      have "list_all2 (framed Q ke ce) (split_loop s ke ce (length s) (Suc i) start pre')
          (text_lines (drop start s))"
        using less.prems i no p by (intro less.hyps) (auto simp: slice_Suc)
      with no show ?thesis unfolding step by simp
    qed
  qed
qed

definition frame_line :: "bool \<Rightarrow> bool \<Rightarrow> string \<Rightarrow> string" where
  "frame_line keepends cleanends l =
     (if l \<noteq> [] \<and> last l = newline then
        (if cleanends then strip_ends l else butlast l) @ (if keepends then [newline] else [])
      else l)"

lemma trimming_strip_ends: "trimming (\<lambda>x t. x = strip_ends t)"
  by (auto simp: trimming_def strip_ends_snoc) (simp add: strip_ends_def)

lemma framed_strip_ends: "framed (\<lambda>x t. x = strip_ends t) ke ce = (\<lambda>l t. l = frame_line ke ce t)"
proof (intro ext)
  fix l t
  show "framed (\<lambda>x t. x = strip_ends t) ke ce l t = (l = frame_line ke ce t)"
  proof (cases "t \<noteq> [] \<and> last t = newline")
    case True
    then obtain u where "t = u @ [newline]" by (metis append_butlast_last_id)
    then show ?thesis by (auto simp: framed_def frame_line_def strip_ends_snoc)
  qed (auto simp: framed_def frame_line_def)
qed

lemma list_all2_map_eq: "list_all2 (\<lambda>l t. l = f t) ls ts \<longleftrightarrow> ls = map f ts"
  by (induction ls arbitrary: ts) (auto simp: list_all2_Cons1 Cons_eq_map_conv)

text \<open>The weaker trimming that holds for every \<open>begin\<close>: only line ends are cut off.\<close>

definition cuts_line_ends :: "string \<Rightarrow> string \<Rightarrow> bool" where
  "cuts_line_ends x t \<longleftrightarrow> (\<exists>es. t = x @ es \<and> list_all line_end es)"

lemma trimming_cuts: "trimming cuts_line_ends"
proof -
  have "cuts_line_ends x (t @ [c])" if l: "line_end c" and h: "cuts_line_ends x t" for x t c
  proof -
    from h obtain es where "t = x @ es" "list_all line_end es"
      by (auto simp: cuts_line_ends_def)
    with l have "t @ [c] = x @ (es @ [c])" "list_all line_end (es @ [c])" by auto
    then show ?thesis unfolding cuts_line_ends_def by blast
  qed
  then show ?thesis unfolding trimming_def by (simp add: cuts_line_ends_def)
qed

lemma scan_back_text:
  assumes "i < length s" and "0 < j" "j \<le> i" "\<not> line_end (s ! j)"
  shows "slice 0 (scan_back s begin i) s = strip_ends (slice 0 (Suc i) s) \<and>
    scan_back s begin i \<le> Suc i"
  using assms
proof (induction i)
  case (Suc i)
  show ?case
  proof (cases "line_end (s ! Suc i)")
    case True
    with Suc.prems have "j \<le> i" by (metis le_SucE)
    with Suc True show ?thesis
      by (auto simp: slice_Suc [of 0 "Suc i"] strip_ends_snoc)
  next
    case False
    with Suc.prems show ?thesis by (simp add: slice_Suc [of 0 "Suc i"] strip_ends_snoc)
  qed
qed simp

definition text_before :: "string \<Rightarrow> nat \<Rightarrow> bool" where
  "text_before s b \<longleftrightarrow> (\<exists>j\<in>{1..b}. \<not> line_end (s ! j))"

lemma split_newlines_only_lines:
  assumes "b < length s" and "newline \<notin> set (take b s)"
    and "ce \<Longrightarrow> b = 0 \<or> text_before s b"
  shows "split_newlines_only s (Idx (int b)) None ke ce =
    (map (frame_line ke ce) (text_lines s), None)"
proof -
  have "slice 0 (scan_back s b b) s = strip_ends (slice 0 b s) \<and> scan_back s b b \<le> b"
    if ce and "line_end (s ! b)"
  proof (cases b)
    case 0
    then show ?thesis by (simp add: strip_ends_def)
  next
    case (Suc b')
    from assms(3) [OF that(1)] have "text_before s b" by (simp add: Suc)
    then obtain j where j: "0 < j" "j \<le> b" "\<not> line_end (s ! j)"
      unfolding text_before_def by (metis atLeastAtMost_iff less_eq_Suc_le One_nat_def)
    with that(2) have "j \<noteq> b" by metis
    with j(2) have "j \<le> b'" by (simp add: Suc)
    with j assms(1) have "slice 0 (scan_back s b b') s = strip_ends (slice 0 (Suc b') s) \<and>
        scan_back s b b' \<le> Suc b'"
      by (intro scan_back_text) (simp_all add: Suc)
    moreover from that(2) have "scan_back s b b = scan_back s b b'"
      by (simp add: Suc)
    ultimately show ?thesis by (simp only: Suc)
  qed
  then have "list_all2 (framed (\<lambda>x t. x = strip_ends t) ke ce)
      (split_loop s ke ce (length s) b 0 (if ce then scan_back s b b else 0))
      (text_lines (drop 0 s))"
    using assms(1,2) by (intro split_loop_lines trimming_strip_ends) (auto simp: slice_def)
  then have "split_loop s ke ce (length s) b 0 (if ce then scan_back s b b else 0) =
      map (frame_line ke ce) (text_lines s)"
    by (simp only: framed_strip_ends list_all2_map_eq drop_0)
  with assms(1) show ?thesis
    by (simp add: split_newlines_only_def validate_end_and_begin_are_valid_def)
qed

lemma scan_back_cases: "scan_back s begin i = begin \<or> scan_back s begin i \<le> Suc i \<and>
   list_all line_end (slice (scan_back s begin i) (Suc i) s)"
  if "i < length s"
  using that
proof (induction i)
  case (Suc i)
  then show ?case
    by (auto simp: slice_Suc)
qed simp

lemma split_newlines_only_cut:
  assumes "b < length s" and "newline \<notin> set (take b s)"
  shows "\<exists>ls. split_newlines_only s (Idx (int b)) None ke ce = (ls, None) \<and>
    list_all2 (framed cuts_line_ends ke ce) ls (text_lines s)"
proof -
  let ?r = "scan_back s b b"
  have "cuts_line_ends (slice 0 ?r s) (slice 0 b s) \<and> ?r \<le> b"
    if "line_end (s ! b)"
  proof (cases "?r = b")
    case True
    then show ?thesis by (simp add: cuts_line_ends_def)
  next
    case False
    then obtain b' where b': "b = Suc b'" by (cases b) auto
    with that have e: "scan_back s b b = scan_back s b b'" by simp
    have "?r \<le> b \<and> list_all line_end (slice ?r b s)"
      using scan_back_cases [of b' s b] False assms(1) unfolding e b' [symmetric]
      using b' by (metis Suc_lessD)
    moreover from this have "slice 0 b s = slice 0 ?r s @ slice ?r b s"
      using slice_rest [of 0 ?r "take b s"] assms(1) by (simp add: slice_def min_def drop_take)
    ultimately show ?thesis unfolding cuts_line_ends_def by metis
  qed
  then have "list_all2 (framed cuts_line_ends ke ce)
      (split_loop s ke ce (length s) b 0 (if ce then scan_back s b b else 0))
      (text_lines (drop 0 s))"
    using assms(1,2) by (intro split_loop_lines trimming_cuts) (auto simp: slice_def)
  with assms(1) show ?thesis
    by (simp add: split_newlines_only_def validate_end_and_begin_are_valid_def)
qed

section \<open>The framer interface\<close>

text \<open>
  What the readers of a framer rely on: each yielded line stands for one line of the text, in
  order; it is complete when that one is, and differs from it at most in carriage returns.
\<close>

definition payload :: "string \<Rightarrow> string" where
  "payload s = filter (\<lambda>c. c \<noteq> cret) s"

definition same_line :: "string \<Rightarrow> string \<Rightarrow> bool" where
  "same_line l t \<longleftrightarrow> l \<noteq> [] \<and> payload l = payload t \<and> (last l = newline \<longleftrightarrow> last t = newline) \<and>
     (newline \<notin> set t \<longrightarrow> l = t)"

lemma payload_append [simp]: "payload (s @ t) = payload s @ payload t"
  by (simp add: payload_def)

lemma payload_Nil [simp]: "payload [] = []"
  by (simp add: payload_def)

lemma list_all2_left:
  "list_all2 R xs ys \<Longrightarrow> (\<And>x y. R x y \<Longrightarrow> y \<in> set ys \<Longrightarrow> Q x) \<Longrightarrow> \<forall>x\<in>set xs. Q x"
  by (induction rule: list_all2_induct) auto

lemma text_lines_parts:
  "\<exists>full tail. text_lines s = full @ tail \<and> (\<forall>l\<in>set full. l \<noteq> [] \<and> last l = newline) \<and>
     (tail = [] \<or> (\<exists>r. tail = [r] \<and> r \<noteq> [] \<and> newline \<notin> set r))"
proof (induction s rule: length_induct)
  case (1 s)
  show ?case
  proof (cases "newline \<in> set s")
    case False
    then show ?thesis
      by (intro exI [of _ "[]"] exI [of _ "if s = [] then [] else [s]"])
        (simp add: text_lines_no_newline)
  next
    case True
    then obtain xs ys where s: "s = xs @ newline # ys" "newline \<notin> set xs"
      by (meson split_list_first)
    with 1 obtain full tail where *: "text_lines ys = full @ tail"
      "\<forall>l\<in>set full. l \<noteq> [] \<and> last l = newline"
      "tail = [] \<or> (\<exists>r. tail = [r] \<and> r \<noteq> [] \<and> newline \<notin> set r)"
      by (metis add_Suc_right length_Cons length_append less_add_Suc2)
    from s * have "text_lines s = ((xs @ [newline]) # full) @ tail"
      by (simp add: text_lines_newline)
    moreover from * have "\<forall>l\<in>set ((xs @ [newline]) # full). l \<noteq> [] \<and> last l = newline"
      by simp
    ultimately show ?thesis using *(3) by blast
  qed
qed

lemma same_line_payload: "list_all2 same_line ls ts \<Longrightarrow> payload (concat ls) = payload (concat ts)"
  by (induction rule: list_all2_induct) (auto simp: same_line_def)

locale line_framer =
  fixes lines :: "string \<Rightarrow> nat \<Rightarrow> string list"
  assumes framed_lines: "b < length s \<Longrightarrow> newline \<notin> set (take b s) \<Longrightarrow>
    list_all2 same_line (lines s b) (text_lines s)"
begin

lemma lines_payload:
  "b < length s \<Longrightarrow> newline \<notin> set (take b s) \<Longrightarrow> payload (concat (lines s b)) = payload s"
  using same_line_payload [OF framed_lines] by simp

lemma lines_parts:
  assumes "b < length s" and "newline \<notin> set (take b s)"
  shows "\<exists>full tail. lines s b = full @ tail \<and> (\<forall>l\<in>set full. l \<noteq> [] \<and> last l = newline) \<and>
     (tail = [] \<or> (\<exists>r. tail = [r] \<and> r \<noteq> [] \<and> newline \<notin> set r))"
proof -
  obtain full tail where t: "text_lines s = full @ tail"
    "\<forall>l\<in>set full. l \<noteq> [] \<and> last l = newline"
    "tail = [] \<or> (\<exists>r. tail = [r] \<and> r \<noteq> [] \<and> newline \<notin> set r)"
    using text_lines_parts by blast
  from framed_lines [OF assms] t(1) obtain full' tail' where l: "lines s b = full' @ tail'"
    "list_all2 same_line full' full" "list_all2 same_line tail' tail"
    by (auto simp: list_all2_append2)
  from l(2) have "\<forall>l\<in>set full'. l \<noteq> [] \<and> last l = newline"
    by (rule list_all2_left) (use t(2) in \<open>unfold same_line_def, blast\<close>)
  moreover have "tail' = [] \<or> (\<exists>r. tail' = [r] \<and> r \<noteq> [] \<and> newline \<notin> set r)"
    using t(3)
  proof (elim disjE exE conjE)
    fix r
    assume r: "tail = [r]" "r \<noteq> []" "newline \<notin> set r"
    with l(3) obtain r' where "tail' = [r']" "same_line r' r"
      by (auto simp only: list_all2_Cons2 list_all2_Nil2)
    with r show ?thesis unfolding same_line_def by blast
  qed (use l(3) in simp)
  ultimately show ?thesis using l(1) by blast
qed

end

lemma framed_same_line:
  assumes "framed cuts_line_ends True ce l t" and "t \<noteq> []"
    and "newline \<in> set t \<Longrightarrow> last t = newline \<and> newline \<notin> set (butlast t)"
  shows "same_line l t"
proof (cases "last t = newline")
  case True
  with assms(1,2) obtain x where x: "l = x @ [newline]"
    and c: "if ce then cuts_line_ends x (butlast t) else x = butlast t"
    by (auto simp: framed_def)
  have "payload x = payload (butlast t)"
  proof (cases ce)
    case True
    with c obtain es where es: "butlast t = x @ es" "list_all line_end es"
      by (auto simp: cuts_line_ends_def)
    from es(1) assms(2,3) \<open>last t = newline\<close> have "newline \<notin> set es"
      by (metis Un_iff last_in_set set_append)
    with es(2) have "payload es = []"
      by (auto simp: payload_def filter_empty_conv list_all_iff)
    with es(1) show ?thesis by simp
  qed (use c in simp)
  moreover from assms(2) True have "t = butlast t @ [newline]" by (metis append_butlast_last_id)
  ultimately have "payload l = payload t" using x by (metis payload_append)
  with x True assms(2) show ?thesis
    by (auto simp: same_line_def) (metis last_in_set)
next
  case False
  with assms have "l = t" "newline \<notin> set t" by (auto simp: framed_def)
  with assms(2) show ?thesis by (auto simp: same_line_def)
qed

lemma text_lines_shape:
  "t \<in> set (text_lines s) \<Longrightarrow> t \<noteq> [] \<and> (newline \<in> set t \<longrightarrow> last t = newline \<and> newline \<notin> set (butlast t))"
  by (induction s arbitrary: t rule: text_lines.induct) (auto split: list.splits if_splits)

definition framer_lines :: "bool \<Rightarrow> string \<Rightarrow> nat \<Rightarrow> string list" where
  "framer_lines cleanends s b =
     fst (newline_get_lines \<lparr>nf_keepends = True, nf_cleanends = cleanends\<rparr> s (Idx (int b)) None)"

lemma framer_no_exception:
  "b < length s \<Longrightarrow> newline \<notin> set (take b s) \<Longrightarrow>
   newline_get_lines \<lparr>nf_keepends = True, nf_cleanends = ce\<rparr> s (Idx (int b)) None =
     (framer_lines ce s b, None)"
  using split_newlines_only_cut [of b s True ce]
  by (auto simp: framer_lines_def newline_get_lines_def)

interpretation newline_framer: line_framer "framer_lines ce"
proof
  fix b s
  assume "b < length s" and "newline \<notin> set (take b s)"
  then obtain ls where ls: "list_all2 (framed cuts_line_ends True ce) ls (text_lines s)"
    and f: "framer_lines ce s b = ls"
    using split_newlines_only_cut [of b s True ce]
    by (auto simp: framer_lines_def newline_get_lines_def)
  from ls show "list_all2 same_line (framer_lines ce s b) (text_lines s)"
    unfolding f by (rule list.rel_mono_strong) (auto intro: framed_same_line dest: text_lines_shape)
qed

section \<open>Properties of the framers\<close>

text \<open>C10. Searching from \<open>begin\<close> gives the lines of the whole text, each once and in order, with
  newlines kept and line ends cleaned as asked, whenever no newline was skipped; with
  cleaning on, some text character must stand at an index from 1 to \<open>begin\<close>.\<close>

theorem split_is_lines:
  assumes "b < length s" and "newline \<notin> set (take b s)"
    and "ce \<longrightarrow> b = 0 \<or> text_before s b"
  shows "newline_get_lines \<lparr>nf_keepends = ke, nf_cleanends = ce\<rparr> s (Idx (int b)) None =
    (map (frame_line ke ce) (text_lines s), None)"
  using split_newlines_only_lines [of b s ce ke] assms by (simp add: newline_get_lines_def)

theorem split_is_lines_witness:
  "newline_get_lines \<lparr>nf_keepends = True, nf_cleanends = True\<rparr>
     (''ab'' @ [cret, newline, newline] @ ''c'') (Idx 1) None
   = ([''ab'' @ [newline], [newline], ''c''], None)"
  using split_is_lines [of 1 "''ab'' @ [cret, newline, newline] @ ''c''" True True]
  by (simp add: text_before_def frame_line_def strip_ends_def)

lemma split_loop_concat:
  assumes "start \<le> i" "i \<le> stop" "stop \<le> length s"
  shows "concat (split_loop s True False stop i start pre) =
    (if i < stop \<and> s ! (stop - 1) = newline then slice start stop s else drop start s)"
  using assms
proof (induction s "True" "False" stop i start pre rule: split_loop.induct)
  case (1 s stop i start pre)
  show ?case
  proof (cases "i < stop")
    case False
    then show ?thesis by (simp add: split_loop.simps)
  next
    case i: True
    have r: "slice start (Suc i) s @ slice (Suc i) stop s = slice start stop s"
      using 1(3) i by (intro slice_append) simp_all
    show ?thesis
    proof (cases "s ! i = newline")
      case True
      then show ?thesis
        using 1 i r slice_rest [of start "Suc i" s]
        by (cases "Suc i = stop") (auto simp: split_loop.simps [of s True False stop i])
    next
      case no: False
      with 1(2) [of pre] 1(3-5) i have
        "concat (split_loop s True False stop (Suc i) start pre) =
          (if Suc i < stop \<and> s ! (stop - 1) = newline then slice start stop s else drop start s)"
        by simp
      moreover have "s ! (stop - 1) \<noteq> newline" if "\<not> Suc i < stop"
        using that no i by (metis Suc_lessI diff_Suc_1)
      ultimately show ?thesis using i no
        by (auto simp: split_loop.simps [of s True False stop i])
    qed
  qed
qed

text \<open>With newlines kept and nothing cleaned, the yielded lines put together are the
  string itself; but when an \<open>end\<close> is given and the character before it is a newline, what
  follows \<open>end\<close> is never yielded, although the documentation promises it as the last line.\<close>

theorem split_conserves:
  assumes "0 \<le> b" "b \<le> e" "e \<le> int (length s)"
  shows "(case split_newlines_only s (Idx b) (Some (Idx e)) True False of (ls, exc) \<Rightarrow>
    exc = None \<and>
    concat ls = (if b < e \<and> s ! (nat e - 1) = newline then take (nat e) s else s))"
  using assms split_loop_concat [of 0 "nat b" "nat e" s 0]
  by (auto simp: split_newlines_only_def validate_end_and_begin_are_valid_def slice_def
      nat_less_eq_zless nat_le_iff)

theorem split_conserves_witness:
  "concat (fst (split_newlines_only (''a'' @ [newline] @ ''b'') (Idx 0) (Some (Idx 2)) True False))
     = ''a'' @ [newline]"
  using split_conserves [of 0 2 "''a'' @ [newline] @ ''b''"] by (simp split: prod.splits)

lemma scan_back_line_ends:
  "\<forall>j\<in>{1..i}. line_end (s ! j) \<Longrightarrow> scan_back s begin i = begin"
  by (induction i) auto

text \<open>Cleaning misses a line of one character whose carriage returns were already there
  when the newline came: the search back from \<open>begin\<close> stops before index 0, so the line is
  yielded with them.\<close>

theorem cleanends_misses_short_line:
  assumes "\<not> line_end c"
  shows "newline_get_lines \<lparr>nf_keepends = True, nf_cleanends = True\<rparr>
      ([c] @ replicate (Suc n) cret @ [newline]) (Idx (int (n + 2))) None
    = ([[c] @ replicate (Suc n) cret @ [newline]], None)"
proof -
  let ?s = "c # replicate (Suc n) cret @ [newline]"
  have e: "line_end (?s ! j)" if "j \<in> {1..n + 2}" for j
    using that by (auto simp: nth_append nth_Cons' simp del: replicate_Suc)
  have "scan_back ?s (n + 2) (n + 2) = n + 2"
    using e by (intro scan_back_line_ends ballI)
  moreover have "?s ! (n + 2) = newline"
    by (simp add: nth_append nth_Cons' del: replicate_Suc)
  ultimately show ?thesis
    by (simp add: newline_get_lines_def split_newlines_only_def split_loop.simps [of ?s]
        validate_end_and_begin_are_valid_def slice_def nat_add_distrib del: replicate_Suc
        scan_back.simps)
qed

theorem cleanends_misses_short_line_witness:
  "newline_get_lines \<lparr>nf_keepends = True, nf_cleanends = True\<rparr>
      [CHR ''a'', cret, newline] (Idx 2) None = ([[CHR ''a'', cret, newline]], None)"
  using cleanends_misses_short_line [of "CHR ''a''" 0] by simp


end
