(* ===== verification/Event_Filters.thy ===== *)
theory Event_Filters
  imports Json_Text Data_Framer
begin

text \<open>
  \<open>gazoo_device/capabilities/event_parser_default.py\<close>, first part: the filters of an event
  parser, and the events it writes for the lines of a log. A compiled pattern is a value of type
  \<open>'p\<close>: \<open>re_compile\<close> is \<open>re.compile\<close> of a string, \<open>None\<close> when the pattern is no regular
  expression, and \<open>search\<close> gives the groups of the first match, a group that took no part in
  it as \<open>None\<close>.
\<close>

type_synonym groups = "string option list"
type_synonym 'p filters = "(string \<times> 'p) list"

text \<open>The files a parser reads; \<open>dir_entries\<close> are the names \<open>os.listdir\<close> gives.\<close>

record file_system =
  file_text :: "string \<Rightarrow> string option"
  dir_entries :: "string \<Rightarrow> string list option"

definition path_exists :: "file_system \<Rightarrow> string \<Rightarrow> bool" where
  "path_exists fs p \<longleftrightarrow> file_text fs p \<noteq> None \<or> dir_entries fs p \<noteq> None"

text \<open>\<open>os.path.join(d, f)\<close>\<close>

definition path_join :: "string \<Rightarrow> string \<Rightarrow> string" where
  "path_join d f =
     (if starts_with f ''/'' then f
      else if d = [] \<or> last d = CHR ''/'' then d @ f
      else d @ ''/'' @ f)"

section \<open>Values read from JSON as Python objects\<close>

text \<open>\<open>key in value\<close> and \<open>value[key]\<close> for a key that is a string.\<close>

definition py_in :: "string \<Rightarrow> json \<Rightarrow> bool result" where
  "py_in key v =
     (case v of
        JDict kvs \<Rightarrow> Inr (key \<in> fst ` set kvs)
      | JList js \<Rightarrow> Inr (JStr key \<in> set js)
      | JStr s \<Rightarrow> Inr (contains key s)
      | _ \<Rightarrow> Inl TypeError)"

definition py_item :: "json \<Rightarrow> string \<Rightarrow> json result" where
  "py_item v key =
     (case v of
        JDict kvs \<Rightarrow> (case map_of kvs key of Some j \<Rightarrow> Inr j | None \<Rightarrow> Inl KeyError)
      | _ \<Rightarrow> Inl TypeError)"

text \<open>\<open>isinstance(v, int)\<close>; a bool is an int, and \<open>True\<close> equals 1.\<close>

definition int_value :: "json \<Rightarrow> int option" where
  "int_value v = (case v of JInt i \<Rightarrow> Some i | JBool b \<Rightarrow> Some (of_bool b) | _ \<Rightarrow> None)"

section \<open>Filters\<close>

definition FILTER_JSON_FORMAT_MAJOR_VERSION :: int where
  "FILTER_JSON_FORMAT_MAJOR_VERSION = 1"

text \<open>\<open>name\<close> is the text that \<open>str.format\<close> makes of the value.\<close>

definition get_full_filter_name :: "string \<Rightarrow> string \<Rightarrow> string" where
  "get_full_filter_name name filter_path = fst (splitext (basename filter_path)) @ ''.'' @ name"

record 'p regexes =
  re_compile :: "string \<Rightarrow> 'p option"
  search :: "'p \<Rightarrow> string \<Rightarrow> groups option"
  py_str :: "json \<Rightarrow> string"

definition format_value :: "'p regexes \<Rightarrow> json \<Rightarrow> string" where
  "format_value re v = (case v of JStr s \<Rightarrow> s | _ \<Rightarrow> py_str re v)"

definition require_key :: "string \<Rightarrow> json \<Rightarrow> unit result" where
  "require_key key v =
     bindE (py_in key v) (\<lambda>found. if found then Inr () else Inl ParserError)"

definition add_filter ::
  "'p regexes \<Rightarrow> string \<Rightarrow> json \<Rightarrow> 'p filters \<Rightarrow> 'p filters result" where
  "add_filter re filter_path filter_obj filters =
     bindE (require_key ''name'' filter_obj) (\<lambda>_.
     bindE (require_key ''regex_match'' filter_obj) (\<lambda>_.
     bindE (py_item filter_obj ''name'') (\<lambda>name.
       let full_filter_name = get_full_filter_name (format_value re name) filter_path
       in if full_filter_name \<in> fst ` set filters then Inl ParserError
          else bindE (py_item filter_obj ''regex_match'') (\<lambda>regex_match.
            case regex_match of
              JStr pattern \<Rightarrow>
                (case re_compile re pattern of
                   None \<Rightarrow> Inl ParserError
                 | Some p \<Rightarrow> Inr (AList.update full_filter_name p filters))
            | _ \<Rightarrow> Inl TypeError))))"

text \<open>
  The filters added before an exception stay: a method returns its result with the filters it
  leaves.
\<close>

fun add_each ::
  "'p regexes \<Rightarrow> string \<Rightarrow> json list \<Rightarrow> ('p filters, unit) stateful" where
  "add_each re filter_path [] filters = (Inr (), filters)"
| "add_each re filter_path (f # fs) filters =
     (case add_filter re filter_path f filters of
        Inl e \<Rightarrow> (Inl e, filters)
      | Inr filters' \<Rightarrow> add_each re filter_path fs filters')"

definition add_filters :: "'p regexes \<Rightarrow> json \<Rightarrow> string \<Rightarrow> ('p filters, unit) stateful" where
  "add_filters re filter_list filter_path =
     (case filter_list of
        JList fs \<Rightarrow> add_each re filter_path fs
      | _ \<Rightarrow> raiseS ParserError)"

text \<open>The checks of \<open>load_filter_file\<close> on the parsed file; the result is the list of filters.\<close>

definition check_filter_data :: "json \<Rightarrow> json result" where
  "check_filter_data data =
     bindE (require_key ''version'' data) (\<lambda>_.
     bindE (require_key ''filters'' data) (\<lambda>_.
     bindE (py_item data ''version'') (\<lambda>version_info.
     case version_info of
       JDict _ \<Rightarrow>
         bindE (require_key ''major'' version_info) (\<lambda>_.
         bindE (require_key ''minor'' version_info) (\<lambda>_.
         bindE (py_item version_info ''major'') (\<lambda>major.
         bindE (py_item version_info ''minor'') (\<lambda>minor.
           if int_value major = None then Inl ParserError
           else if int_value minor = None then Inl ParserError
           else if int_value major \<noteq> Some FILTER_JSON_FORMAT_MAJOR_VERSION then Inl ParserError
           else py_item data ''filters''))))
     | _ \<Rightarrow> Inl ParserError)))"

definition load_filter_file :: "'p regexes \<Rightarrow> file_system \<Rightarrow> string \<Rightarrow> ('p filters, unit) stateful" where
  "load_filter_file re fs filter_path =
     (case file_text fs filter_path of
        None \<Rightarrow> raiseS ParserError
      | Some file_content \<Rightarrow>
          (case loads file_content of
             Inl _ \<Rightarrow> raiseS ParserError
           | Inr data \<Rightarrow>
               bindS (liftS (check_filter_data data)) (\<lambda>filter_list.
                 add_filters re filter_list filter_path)))"

fun load_each :: "'p regexes \<Rightarrow> file_system \<Rightarrow> string list \<Rightarrow> ('p filters, unit) stateful" where
  "load_each re fs [] = returnS ()"
| "load_each re fs (p # ps) = bindS (load_filter_file re fs p) (\<lambda>_. load_each re fs ps)"

definition load_filter_directory ::
  "'p regexes \<Rightarrow> file_system \<Rightarrow> string \<Rightarrow> ('p filters, unit) stateful" where
  "load_filter_directory re fs filter_path =
     (case dir_entries fs filter_path of
        None \<Rightarrow> raiseS ParserError
      | Some entries \<Rightarrow>
          load_each re fs (map (path_join filter_path) (filter (\<lambda>f. ends_with f ''.json'') entries)))"

fun load_filters :: "'p regexes \<Rightarrow> file_system \<Rightarrow> string list \<Rightarrow> ('p filters, unit) stateful" where
  "load_filters re fs [] = returnS ()"
| "load_filters re fs (filter_path # rest) =
     bindS (if \<not> path_exists fs filter_path then raiseS ParserError
            else if dir_entries fs filter_path \<noteq> None then load_filter_directory re fs filter_path
            else load_filter_file re fs filter_path)
       (\<lambda>_. load_filters re fs rest)"

section \<open>Events of log lines\<close>

text \<open>\<open>s.rstrip()\<close>\<close>

definition is_space :: "char \<Rightarrow> bool" where
  "is_space c \<longleftrightarrow> (let n = of_char c :: nat in
     9 \<le> n \<and> n \<le> 13 \<or> 28 \<le> n \<and> n \<le> 32 \<or> n = 133 \<or> n = 160)"

definition rstrip :: "string \<Rightarrow> string" where
  "rstrip s = rev (dropWhile is_space (rev s))"

definition json_groups :: "groups \<Rightarrow> json" where
  "json_groups gs = JList (map (\<lambda>g. case g of None \<Rightarrow> JNull | Some s \<Rightarrow> JStr s) gs)"

definition matches :: "'p regexes \<Rightarrow> 'p filters \<Rightarrow> string \<Rightarrow> (string \<times> json) list" where
  "matches re filters raw_log_line =
     List.map_filter (\<lambda>(name, p).
       map_option (\<lambda>gs. (name, json_groups gs)) (search re p raw_log_line)) filters"

definition generate_event_data_from_raw_log_line ::
  "'p regexes \<Rightarrow> 'p filters \<Rightarrow> string \<Rightarrow> string \<Rightarrow> nat \<Rightarrow> string \<Rightarrow> (string \<times> json) list" where
  "generate_event_data_from_raw_log_line re filters now raw_log_line header_length log_filename =
     (let event_data = matches re filters raw_log_line
      in if event_data \<noteq> [] then
           (let d1 = (if log_filename \<noteq> [] then AList.update ''log_filename'' (JStr log_filename) event_data
                      else event_data);
                d2 = AList.update ''raw_log_line'' (JStr (drop header_length (rstrip raw_log_line))) d1;
                d3 = AList.update ''system_timestamp'' (JStr (slice 1 27 raw_log_line)) d2
            in AList.update ''matched_timestamp'' (JStr now) d3)
         else [])"

text \<open>What \<open>process_line\<close> writes to the event file.\<close>

definition process_line ::
  "'p regexes \<Rightarrow> 'p filters \<Rightarrow> string \<Rightarrow> string \<Rightarrow> nat \<Rightarrow> string \<Rightarrow> string" where
  "process_line re filters now raw_log_line header_length log_filename =
     (let event_data =
        generate_event_data_from_raw_log_line re filters now raw_log_line header_length log_filename
      in if event_data \<noteq> [] then dumps (JDict event_data) @ [newline] else [])"

section \<open>What loading does to the filters\<close>

text \<open>
  Loading only adds filters behind the ones there are, also when it raises, under names that are
  new and have a dot in them.
\<close>

definition extends :: "'p filters \<Rightarrow> 'p filters \<Rightarrow> bool" where
  "extends filters filters' \<longleftrightarrow>
     (\<exists>new. filters' = filters @ new \<and> list_all (\<lambda>(name, _). CHR ''.'' \<in> set name) new \<and>
       (distinct (map fst filters) \<longrightarrow> distinct (map fst filters')))"

lemma extends_refl [simp]: "extends f f"
  by (simp add: extends_def)

lemma extends_trans: "extends f g \<Longrightarrow> extends g h \<Longrightarrow> extends f h"
  unfolding extends_def by fastforce

definition only_extends :: "('p filters, 'a) stateful \<Rightarrow> bool" where
  "only_extends m \<longleftrightarrow> (\<forall>f. extends f (snd (m f)))"

lemma only_extends_bind:
  assumes "only_extends m" and "\<And>x. only_extends (k x)"
  shows "only_extends (bindS m k)"
  unfolding only_extends_def
proof
  fix f
  obtain r g where m: "m f = (r, g)" by fastforce
  then have g: "extends f g" using assms(1) by (metis only_extends_def snd_conv)
  show "extends f (snd (bindS m k f))"
  proof (cases r)
    case (Inr x)
    have "extends g (snd (k x g))" using assms(2) by (simp add: only_extends_def)
    with g m Inr show ?thesis by (auto intro: extends_trans)
  qed (use g m in simp)
qed

lemma only_extends_simps [simp]:
  "only_extends (raiseS e)" "only_extends (returnS x)" "only_extends (liftS r)"
  by (simp_all add: only_extends_def raiseS_def returnS_def liftS_def)

lemma add_filter_extends:
  assumes "add_filter re path f filters = Inr filters'"
  shows "extends filters filters'"
proof -
  from assms obtain name v where v: "(case v of JStr pattern \<Rightarrow>
        (case re_compile re pattern of None \<Rightarrow> Inl ParserError
         | Some p \<Rightarrow> Inr (AList.update (get_full_filter_name name path) p filters))
      | _ \<Rightarrow> Inl TypeError) = Inr filters'"
    and n: "get_full_filter_name name path \<notin> fst ` set filters"
    unfolding add_filter_def by (auto simp: result_simps Let_def split: if_splits)
  from v obtain p where f: "filters' = AList.update (get_full_filter_name name path) p filters"
    by (auto split: json.splits option.splits)
  from n have "filters' = filters @ [(get_full_filter_name name path, p)]"
    unfolding f by (rule update_fresh)
  with n show ?thesis by (auto simp: extends_def get_full_filter_name_def)
qed

lemma add_each_extends: "only_extends (add_each re path fs)"
proof -
  have "extends filters (snd (add_each re path fs filters))" for filters
  proof (induction fs arbitrary: filters)
    case (Cons f fs)
    show ?case
    proof (cases "add_filter re path f filters")
      case (Inr filters')
      then show ?thesis
        using Cons.IH [of filters'] add_filter_extends by (fastforce intro: extends_trans)
    qed simp
  qed simp
  then show ?thesis by (simp add: only_extends_def)
qed

lemma load_filter_file_extends: "only_extends (load_filter_file re fs p)"
proof -
  have "only_extends (add_filters re data p)" for data
    by (cases data) (simp_all add: add_filters_def add_each_extends)
  then show ?thesis
    by (auto simp: load_filter_file_def split: option.splits sum.splits intro: only_extends_bind)
qed

lemma load_each_extends: "only_extends (load_each re fs ps)"
  by (induction ps) (simp_all add: only_extends_bind load_filter_file_extends)

lemma load_filters_extends: "only_extends (load_filters re fs ps)"
proof (induction ps)
  case (Cons p ps)
  have "only_extends (load_filter_directory re fs p)"
    by (auto simp: load_filter_directory_def load_each_extends split: option.splits)
  with Cons show ?case
    by (auto intro!: only_extends_bind simp: load_filter_file_extends)
qed simp

text \<open>The filters of a parser: their names are distinct and have a dot.\<close>

definition well_named :: "'p filters \<Rightarrow> bool" where
  "well_named filters \<longleftrightarrow> distinct (map fst filters) \<and> list_all (\<lambda>(name, _). CHR ''.'' \<in> set name) filters"

lemma well_named_extends: "well_named f \<Longrightarrow> extends f g \<Longrightarrow> well_named g"
  by (auto simp: well_named_def extends_def)

text \<open>Loading filters, from files and directories, never changes or loses a filter that was
  loaded before, even when it raises half way: the new ones come behind the old ones, under
  names that no other filter has. And it succeeds only when every path exists.\<close>

theorem load_filters_keeps:
  assumes "well_named filters"
  shows "case load_filters re fs paths filters of (r, filters') \<Rightarrow>
    (\<exists>new. filters' = filters @ new) \<and> well_named filters' \<and>
    (\<forall>name\<in>fst ` set filters. map_of filters' name = map_of filters name) \<and>
    (r = Inr () \<longrightarrow> list_all (path_exists fs) paths)"
proof -
  obtain r filters' where l: "load_filters re fs paths filters = (r, filters')" by fastforce
  have e: "extends filters filters'"
    using load_filters_extends [of re fs paths] l by (metis only_extends_def snd_conv)
  then obtain new where new: "filters' = filters @ new" by (auto simp: extends_def)
  have "map_of filters' name = map_of filters name" if "name \<in> fst ` set filters" for name
    using that unfolding new by (induction filters) auto
  moreover have "r = Inr () \<Longrightarrow> list_all (path_exists fs) paths"
    using l
  proof (induction paths arbitrary: filters)
    case (Cons p ps)
    show ?case
    proof (cases "path_exists fs p")
      case True
      with Cons.prems Cons.IH show ?thesis by (auto simp: result_simps)
    next
      case False
      with Cons.prems show ?thesis by (simp add: raiseS_def bindS_def)
    qed
  qed simp
  ultimately show ?thesis
    unfolding l using new well_named_extends [OF assms e] by simp
qed

definition sample_regexes :: "string regexes" where
  "sample_regexes = \<lparr>re_compile = Some,
     search = (\<lambda>p line. if contains p line then Some [Some p] else None), py_str = (\<lambda>_. [])\<rparr>"

definition sample_files :: file_system where
  "sample_files = \<lparr>file_text = map_of
     [(''f/basic.json'', dumps (JDict [(''version'', JDict [(''major'', JInt 1), (''minor'', JInt 0)]),
        (''filters'', JList [JDict [(''name'', JStr ''boot''), (''regex_match'', JStr ''up'')]])]))],
     dir_entries = map_of [(''f'', [''basic.json'', ''README.md''])]\<rparr>"

theorem load_filters_keeps_witness:
  "well_named (snd (load_filters sample_regexes sample_files [''f''] [(''power.lost'', ''off'')]))"
proof -
  have "well_named [(''power.lost'', ''off'')]" by (simp add: well_named_def)
  from load_filters_keeps [OF this, where re = sample_regexes and fs = sample_files and paths = "[''f'']"] show ?thesis
    by (auto split: prod.splits)
qed

lemma load_filters_sample:
  "load_filters sample_regexes sample_files [''f''] [(''power.lost'', ''off'')]
     = (Inr (), [(''power.lost'', ''off''), (''basic.boot'', ''up'')])"
  by code_simp

end
