(* ===== verification/Event_Parser.thy ===== *)
theory Event_Parser
  imports Event_Filters
begin

text \<open>
  \<open>gazoo_device/capabilities/event_parser_default.py\<close>, second part: reading events back from
  the event file. The commands \<open>tac\<close>, \<open>tail\<close>, \<open>head\<close> and \<open>grep\<close> are functions on texts;
  \<open>word_match label line\<close> tells whether \<open>grep -w\<close> finds the label, as a regular expression, in a
  line. \<open>strptime value format\<close> is a point in time in microseconds.
\<close>

section \<open>Commands\<close>

definition chomp :: "string \<Rightarrow> string" where
  "chomp l = (if l \<noteq> [] \<and> last l = newline then butlast l else l)"

definition tac :: "string \<Rightarrow> string" where
  "tac s = concat (rev (text_lines s))"

definition tail_1 :: "string \<Rightarrow> string" where
  "tail_1 s = (case rev (text_lines s) of [] \<Rightarrow> [] | l # _ \<Rightarrow> l)"

text \<open>\<open>head -n limit\<close>; a negative number leaves out lines at the end.\<close>

definition head_n :: "int \<Rightarrow> string \<Rightarrow> string" where
  "head_n limit s =
     (let ls = text_lines s
      in concat (if limit < 0 then take (length ls - nat (- limit)) ls else take (nat limit) ls))"

definition grep_lines :: "(string \<Rightarrow> string \<Rightarrow> bool) \<Rightarrow> string list \<Rightarrow> string \<Rightarrow> string list" where
  "grep_lines word_match patterns s =
     filter (\<lambda>l. \<exists>p\<in>set patterns. word_match p l) (map chomp (text_lines s))"

definition print_lines :: "string list \<Rightarrow> string" where
  "print_lines ls = concat (map (\<lambda>l. l @ [newline]) ls)"

text \<open>\<open>grep -m limit\<close>; with a negative number there is no limit.\<close>

definition max_count :: "int \<Rightarrow> 'a list \<Rightarrow> 'a list" where
  "max_count limit xs = (if limit < 0 then xs else take (nat limit) xs)"

text \<open>
  \<open>splitlines\<close> of a text and of bytes: the characters that end a line, and \<open>\r\n\<close> as one end.
\<close>

definition str_line_end :: "char \<Rightarrow> bool" where
  "str_line_end c \<longleftrightarrow> (let n = of_char c :: nat in 10 \<le> n \<and> n \<le> 13 \<or> 28 \<le> n \<and> n \<le> 30 \<or> n = 133)"

fun splitlines :: "(char \<Rightarrow> bool) \<Rightarrow> string \<Rightarrow> string list" where
  "splitlines is_end [] = []"
| "splitlines is_end (c # cs) =
     (if is_end c then
        [] # (if c = cret then (case cs of d # ds \<Rightarrow> splitlines is_end (if d = newline then ds else d # ds)
                                 | [] \<Rightarrow> [])
              else splitlines is_end cs)
      else case splitlines is_end cs of [] \<Rightarrow> [[c]] | l # ls \<Rightarrow> (c # l) # ls)"

text \<open>
  How a command under \<open>timeout\<close> ends: on its own, or killed after some characters of its output,
  with the return code 124.
\<close>

type_synonym killed = "nat option"

definition delivered :: "killed \<Rightarrow> string \<Rightarrow> string" where
  "delivered k out = (case k of None \<Rightarrow> out | Some n \<Rightarrow> take n out)"

definition was_killed :: "killed \<Rightarrow> bool" where
  "was_killed k \<longleftrightarrow> k \<noteq> None"

section \<open>Events\<close>

text \<open>An event as it is returned: its time, and the other entries of its dictionary.\<close>

record parsed_event =
  system_timestamp :: int
  entries :: "(string \<times> json) list"

record parser_result =
  timedout :: bool
  results_list :: "parsed_event list"
  result_count :: int

text \<open>
  What a query depends on besides the filters: the clock readings of the wait for the event file
  and whether it exists then, its text, the standard input, how the command ends.
\<close>

record query_env =
  clock :: "nat \<Rightarrow> int"
  event_file_exists :: "nat \<Rightarrow> bool"
  event_text :: string
  stdin_text :: string
  command_end :: killed

record tools =
  word_match :: "string \<Rightarrow> string \<Rightarrow> bool"
  strptime :: "string \<Rightarrow> string \<Rightarrow> int option"

definition get_datetime_from_format :: "tools \<Rightarrow> json \<Rightarrow> string \<Rightarrow> int option result" where
  "get_datetime_from_format t dt_value dt_format =
     (case dt_value of JStr s \<Rightarrow> Inr (strptime t s dt_format) | _ \<Rightarrow> Inl TypeError)"

definition datetime_formats :: "string list" where
  "datetime_formats = [''%Y-%m-%d %H:%M:%S.%f %z'', ''%Y-%m-%d %H:%M:%S.%f'', ''%Y-%m-%d %H:%M:%S'']"

fun first_datetime :: "tools \<Rightarrow> json \<Rightarrow> string list \<Rightarrow> int result" where
  "first_datetime t dt_value [] = Inl RuntimeError"
| "first_datetime t dt_value (f # fs) =
     bindE (get_datetime_from_format t dt_value f) (\<lambda>r.
       case r of None \<Rightarrow> first_datetime t dt_value fs | Some d \<Rightarrow> Inr d)"

definition get_datetime :: "tools \<Rightarrow> json \<Rightarrow> int result" where
  "get_datetime t dt_value = first_datetime t dt_value datetime_formats"

text \<open>One line of JSON output; \<open>None\<close> when it is skipped.\<close>

definition event_of_output ::
  "tools \<Rightarrow> string \<Rightarrow> string list option \<Rightarrow> int option \<Rightarrow> parsed_event option result" where
  "event_of_output t json_object event_labels start_time =
     (if json_object = [] then Inr None
      else case loads json_object of
        Inl _ \<Rightarrow> Inr None
      | Inr event_dict \<Rightarrow>
          bindE (py_item event_dict ''system_timestamp'') (\<lambda>ts.
          bindE (get_datetime t ts) (\<lambda>event_timestamp.
            if case start_time of None \<Rightarrow> True | Some st \<Rightarrow> st \<le> event_timestamp then
              (case event_labels of
                 Some labels \<Rightarrow>
                   bindE (py_item event_dict ''raw_log_line'') (\<lambda>raw_log_line.
                     case event_dict of
                       JDict kvs \<Rightarrow>
                         Inr (Some \<lparr>system_timestamp = event_timestamp,
                           entries = foldl (\<lambda>d l. case map_of kvs l of Some j \<Rightarrow> AList.update l j d | None \<Rightarrow> d)
                             [(''raw_log_line'', raw_log_line)] labels\<rparr>)
                     | _ \<Rightarrow> Inl TypeError)
               | None \<Rightarrow>
                   (case event_dict of
                      JDict kvs \<Rightarrow> Inr (Some \<lparr>system_timestamp = event_timestamp,
                        entries = AList.delete ''system_timestamp'' kvs\<rparr>)
                    | _ \<Rightarrow> Inl TypeError))
            else Inr None)))"

definition get_events_from_json_output ::
  "tools \<Rightarrow> string list \<Rightarrow> string list option \<Rightarrow> int option \<Rightarrow> parsed_event list result" where
  "get_events_from_json_output t json_events event_labels start_time =
     bindE (mapE (\<lambda>out. event_of_output t out event_labels start_time) json_events) (\<lambda>es.
       Inr (List.map_filter id es))"

section \<open>Queries of the event file\<close>

text \<open>
  \<open>_wait_for_event_file\<close>: \<open>n\<close> counts the readings of the clock. The rounds are at least 0.1
  seconds apart; \<open>fuel\<close> bounds them.
\<close>

fun wait_rounds :: "nat \<Rightarrow> query_env \<Rightarrow> int \<Rightarrow> nat \<Rightarrow> (bool \<times> int) option" where
  "wait_rounds 0 env end_time n = None"
| "wait_rounds (Suc fuel) env end_time n =
     (let timeout_remaining = end_time - clock env (Suc n)
      in if timeout_remaining \<le> 0 then Some (False, 0)
         else if event_file_exists env n then Some (True, timeout_remaining)
         else wait_rounds fuel env end_time (Suc n))"

definition wait_for_event_file :: "query_env \<Rightarrow> int \<Rightarrow> (bool \<times> int) option" where
  "wait_for_event_file env timeout =
     wait_rounds (nat (timeout div 100000) + 2) env (clock env 0 + timeout) 0"

text \<open>The shape all queries share: nothing is looked up when the file does not appear in time.\<close>

definition when_file_exists :: "query_env \<Rightarrow> int \<Rightarrow> 'a \<Rightarrow> 'a result \<Rightarrow> ('a \<times> bool) result" where
  "when_file_exists env timeout nothing found =
     (case wait_for_event_file env timeout of
        None \<Rightarrow> Inl OutOfFuel
      | Some (False, _) \<Rightarrow> Inr (nothing, True)
      | Some (True, _) \<Rightarrow> bindE found (\<lambda>x. Inr (x, was_killed (command_end env))))"

definition get_last_event_of ::
  "tools \<Rightarrow> query_env \<Rightarrow> string option \<Rightarrow> int \<Rightarrow> (parsed_event option \<times> bool) result" where
  "get_last_event_of t env event_label timeout =
     (case event_label of
        None \<Rightarrow>
          when_file_exists env timeout None
            (let out = (if was_killed (command_end env) then [] else tail_1 (event_text env))
             in bindE (get_events_from_json_output t [out] None None) (\<lambda>es.
                  Inr (case es of [] \<Rightarrow> None | e # _ \<Rightarrow> Some e)))
      | Some label \<Rightarrow>
          if label \<noteq> [] then
            when_file_exists env timeout None
              (let out = delivered (command_end env)
                     (print_lines (take 1 (grep_lines (word_match t) [label] (tac (event_text env)))))
               in bindE (get_events_from_json_output t [out] (Some [label]) None) (\<lambda>es.
                    Inr (case es of [] \<Rightarrow> None | e # _ \<Rightarrow> Some e)))
          else
            (case wait_for_event_file env timeout of
               None \<Rightarrow> Inl OutOfFuel
             | Some (file_exists, _) \<Rightarrow> Inr (None, \<not> file_exists)))"

text \<open>
  With no label left, \<open>grep\<close> takes the path of the file for its pattern and reads the standard
  input.
\<close>

definition grep_history :: "tools \<Rightarrow> query_env \<Rightarrow> string \<Rightarrow> string list \<Rightarrow> string list" where
  "grep_history t env path event_labels =
     (let patterns = filter (\<lambda>l. l \<noteq> []) event_labels
      in if patterns \<noteq> [] then grep_lines (word_match t) patterns (event_text env)
         else grep_lines (word_match t) [path] (stdin_text env))"

definition get_all_event_history ::
  "tools \<Rightarrow> query_env \<Rightarrow> string \<Rightarrow> string list option \<Rightarrow> int option \<Rightarrow> int \<Rightarrow>
   (parsed_event list \<times> bool) result" where
  "get_all_event_history t env path event_labels start_time timeout =
     when_file_exists env timeout []
       (let json_events =
          (case event_labels of
             None \<Rightarrow> splitlines str_line_end
               (if was_killed (command_end env) then [] else tac (event_text env))
           | Some labels \<Rightarrow>
               rev (splitlines line_end (delivered (command_end env)
                 (print_lines (grep_history t env path labels)))))
        in get_events_from_json_output t json_events event_labels start_time)"

definition get_event_history_count_of ::
  "tools \<Rightarrow> query_env \<Rightarrow> string \<Rightarrow> int \<Rightarrow> (int \<times> bool) result" where
  "get_event_history_count_of t env event_label timeout =
     when_file_exists env timeout 0
       (Inr (if was_killed (command_end env) then 0
             else int (length (grep_lines (word_match t) [event_label] (event_text env)))))"

text \<open>With no label left, \<open>grep\<close> has no pattern and fails.\<close>

definition get_limited_event_history ::
  "tools \<Rightarrow> query_env \<Rightarrow> string list option \<Rightarrow> int \<Rightarrow> int \<Rightarrow> (parsed_event list \<times> bool) result" where
  "get_limited_event_history t env event_labels limit timeout =
     when_file_exists env timeout []
       (let out =
          (case event_labels of
             None \<Rightarrow> head_n limit (tac (event_text env))
           | Some labels \<Rightarrow>
               (let patterns = filter (\<lambda>l. l \<noteq> []) labels
                in if patterns = [] then []
                   else print_lines (max_count limit
                          (grep_lines (word_match t) patterns (tac (event_text env))))))
        in get_events_from_json_output t (splitlines line_end (delivered (command_end env) out))
             event_labels None)"

section \<open>The methods\<close>

text \<open>
  The argument \<open>event_labels\<close> of the methods: \<open>None\<close>, something that is no list, or a list, in
  which \<open>None\<close> stands for an element that is no string.
\<close>

datatype labels_arg = NoLabels | NotAList | Labels "string option list"

record 'p event_parser =
  filters_dict :: "'p filters"
  event_file_path :: string

definition get_event_labels :: "'p event_parser \<Rightarrow> string list" where
  "get_event_labels p = map fst (filters_dict p)"

text \<open>With a pattern: the labels that \<open>re.match\<close> of it accepts.\<close>

definition get_event_labels_matching ::
  "(string \<Rightarrow> (string \<Rightarrow> bool) option) \<Rightarrow> string \<Rightarrow> 'p event_parser \<Rightarrow> string list result" where
  "get_event_labels_matching re_match pattern p =
     (case re_match pattern of
        None \<Rightarrow> Inl ParserError
      | Some accepts \<Rightarrow> Inr (filter accepts (get_event_labels p)))"

definition get_event_label_dict ::
  "(string \<Rightarrow> (string \<Rightarrow> bool) option) \<Rightarrow> string option \<Rightarrow> 'p event_parser \<Rightarrow> 'p filters result" where
  "get_event_label_dict re_match pattern p =
     (case pattern of
        None \<Rightarrow> Inr (filters_dict p)
      | Some pat \<Rightarrow>
          (case re_match pat of
             None \<Rightarrow> Inl ParserError
           | Some accepts \<Rightarrow> Inr (filter (\<lambda>(l, _). accepts l) (filters_dict p))))"

definition verify_event_labels :: "'p event_parser \<Rightarrow> labels_arg \<Rightarrow> string list result" where
  "verify_event_labels p event_labels =
     (case event_labels of
        NotAList \<Rightarrow> Inl ParserError
      | NoLabels \<Rightarrow> Inl TypeError
      | Labels ls \<Rightarrow>
          if None \<in> set ls then Inl ParserError
          else if list_all (\<lambda>l. l \<in> set (get_event_labels p)) (List.map_filter id ls)
          then Inr (List.map_filter id ls)
          else Inl ParserError)"

text \<open>\<open>except Exception\<close>: whatever is raised becomes a \<open>ParserError\<close>.\<close>

definition as_parser_error :: "'a result \<Rightarrow> 'a result" where
  "as_parser_error r =
     (case r of Inl e \<Rightarrow> Inl (if e = OutOfFuel then e else ParserError) | Inr x \<Rightarrow> Inr x)"

definition history_result :: "parsed_event list \<times> bool \<Rightarrow> parser_result" where
  "history_result h =
     \<lparr>timedout = snd h, results_list = fst h, result_count = int (length (fst h))\<rparr>"

definition get_event_history ::
  "tools \<Rightarrow> query_env \<Rightarrow> 'p event_parser \<Rightarrow> labels_arg \<Rightarrow> int option \<Rightarrow> int option \<Rightarrow> int \<Rightarrow>
   parser_result result" where
  "get_event_history t env p event_labels count start_time timeout =
     bindE (case event_labels of
         NoLabels \<Rightarrow> Inr None
       | Labels [] \<Rightarrow> Inr (Some [])
       | _ \<Rightarrow> bindE (verify_event_labels p event_labels) (\<lambda>ls. Inr (Some ls))) (\<lambda>labels.
     as_parser_error
       (bindE (case (start_time, count) of
            (Some st, _) \<Rightarrow> get_all_event_history t env (event_file_path p) labels (Some st) timeout
          | (None, Some c) \<Rightarrow> get_limited_event_history t env labels c timeout
          | (None, None) \<Rightarrow> get_all_event_history t env (event_file_path p) labels None timeout)
         (\<lambda>h. Inr (history_result h))))"

definition get_event_history_count ::
  "tools \<Rightarrow> query_env \<Rightarrow> 'p event_parser \<Rightarrow> string \<Rightarrow> int \<Rightarrow> parser_result result" where
  "get_event_history_count t env p event_label timeout =
     bindE (verify_event_labels p (Labels [Some event_label])) (\<lambda>_.
     as_parser_error
       (bindE (get_event_history_count_of t env event_label timeout) (\<lambda>(count, tm).
          Inr \<lparr>timedout = tm, results_list = [], result_count = count\<rparr>)))"

text \<open>The label \<open>None\<close> stands for the last event of any label.\<close>

definition get_last_event ::
  "tools \<Rightarrow> query_env \<Rightarrow> 'p event_parser \<Rightarrow> labels_arg \<Rightarrow> int \<Rightarrow> parser_result result" where
  "get_last_event t env p event_labels timeout =
     bindE (case event_labels of
         NoLabels \<Rightarrow> Inr [None]
       | _ \<Rightarrow> bindE (verify_event_labels p event_labels) (\<lambda>ls. Inr (map Some ls))) (\<lambda>labels.
     as_parser_error
       (bindE (mapE (\<lambda>l. get_last_event_of t env l timeout) labels) (\<lambda>found.
          let results = List.map_filter fst found
          in Inr \<lparr>timedout = list_ex snd found, results_list = results,
               result_count = int (length results)\<rparr>)))"

text \<open>The state is a match group: a string, or \<open>None\<close> of a group that took no part.\<close>

definition get_last_event_state ::
  "tools \<Rightarrow> query_env \<Rightarrow> 'p event_parser \<Rightarrow> string \<Rightarrow> bool \<Rightarrow> int \<Rightarrow> int \<Rightarrow> json result" where
  "get_last_event_state t env p event_label raise_error timeout group_index =
     bindE (get_last_event t env p (Labels [Some event_label]) timeout) (\<lambda>result.
       let missing = (if raise_error then Inl ParserError else Inr (JStr []))
       in case results_list result of
            [] \<Rightarrow> missing
          | e # _ \<Rightarrow>
              (case map_of (entries e) event_label of
                 None \<Rightarrow> Inl KeyError
               | Some match_groups \<Rightarrow>
                   (case match_groups of
                      JList gs \<Rightarrow>
                        if group_index < int (length gs) then py_index gs group_index else missing
                    | JStr cs \<Rightarrow>
                        if group_index < int (length cs) then
                          bindE (py_index cs group_index) (\<lambda>c. Inr (JStr [c]))
                        else missing
                    | JDict kvs \<Rightarrow>
                        if group_index < int (length kvs) then Inl KeyError else missing
                    | _ \<Rightarrow> Inl TypeError)))"


end
