(* ===== verification/Event_History.thy ===== *)
theory Event_History
  imports Event_Parser
begin

text \<open>
  Properties of \<open>Event_Parser\<close>: what the queries find in an event file that \<open>process_line\<close> has
  written.
\<close>

section \<open>The wait for the event file\<close>

definition clock_ok :: "query_env \<Rightarrow> bool" where
  "clock_ok env \<longleftrightarrow> clock env 0 \<le> clock env 1 \<and> (\<forall>n. clock env (Suc n) + 100000 \<le> clock env (Suc (Suc n)))"

lemma clock_after: "clock_ok env \<Longrightarrow> clock env 0 + 100000 * int n \<le> clock env (Suc n)"
proof (induction n)
  case (Suc n)
  then have "clock env (Suc n) + 100000 \<le> clock env (Suc (Suc n))" by (simp add: clock_ok_def)
  with Suc show ?case by simp
qed (simp add: clock_ok_def)

lemma wait_rounds_total:
  assumes "clock_ok env" and "timeout \<le> 100000 * (int n + int fuel - 1)" and "0 < fuel"
  shows "\<exists>r. wait_rounds fuel env (clock env 0 + timeout) n = Some r"
  using assms
proof (induction fuel arbitrary: n)
  case (Suc fuel)
  show ?case
  proof (cases "fuel = 0")
    case True
    with Suc.prems clock_after [OF assms(1), of n] have "clock env 0 + timeout \<le> clock env (Suc n)"
      by simp
    then show ?thesis by (auto simp: Let_def)
  next
    case False
    with Suc show ?thesis by (auto simp: Let_def)
  qed
qed simp

lemma wait_for_event_file_total:
  assumes "clock_ok env"
  shows "\<exists>r. wait_for_event_file env timeout = Some r"
  unfolding wait_for_event_file_def
proof (rule wait_rounds_total [OF assms])
  have "timeout < 100000 * (timeout div 100000) + 100000" by presburger
  then show "timeout \<le> 100000 * (int 0 + int (nat (timeout div 100000) + 2) - 1)"
    by (cases "0 \<le> timeout div 100000") simp_all
qed simp

text \<open>The file is there at once, and the command is not killed.\<close>

definition prompt :: "query_env \<Rightarrow> int \<Rightarrow> bool" where
  "prompt env timeout \<longleftrightarrow> event_file_exists env 0 \<and> clock env 1 < clock env 0 + timeout \<and>
     command_end env = None"

lemma when_prompt:
  "prompt env timeout \<Longrightarrow> when_file_exists env timeout d r = bindE r (\<lambda>x. Inr (x, False))"
  by (simp add: when_file_exists_def wait_for_event_file_def prompt_def was_killed_def Let_def)

section \<open>The event file of a log\<close>

text \<open>
  The lines of a log with the times at which they are processed, and what the parser writes for
  them.
\<close>

definition events_text ::
  "'p regexes \<Rightarrow> 'p filters \<Rightarrow> nat \<Rightarrow> string \<Rightarrow> (string \<times> string) list \<Rightarrow> string" where
  "events_text re filters header_length log_filename lines =
     concat (map (\<lambda>(now, l). process_line re filters now l header_length log_filename) lines)"

text \<open>The dictionary of a line that some filter matches, entry by entry.\<close>

definition line_entries ::
  "'p regexes \<Rightarrow> 'p filters \<Rightarrow> nat \<Rightarrow> string \<Rightarrow> string \<times> string \<Rightarrow> (string \<times> json) list" where
  "line_entries re filters header_length log_filename = (\<lambda>(now, l).
     matches re filters l @
     (if log_filename = [] then [] else [(''log_filename'', JStr log_filename)]) @
     [(''raw_log_line'', JStr (drop header_length (rstrip l)))])"

definition line_event ::
  "tools \<Rightarrow> 'p regexes \<Rightarrow> 'p filters \<Rightarrow> nat \<Rightarrow> string \<Rightarrow> string \<times> string \<Rightarrow> parsed_event" where
  "line_event t re filters header_length log_filename = (\<lambda>(now, l).
     \<lparr>system_timestamp = the (strptime t (slice 1 27 l) ''%Y-%m-%d %H:%M:%S.%f''),
      entries = line_entries re filters header_length log_filename (now, l) @
        [(''matched_timestamp'', JStr now)]\<rparr>)"

definition matching :: "'p regexes \<Rightarrow> 'p filters \<Rightarrow> string \<times> string \<Rightarrow> bool" where
  "matching re filters nl \<longleftrightarrow> (\<exists>p\<in>snd ` set filters. search re p (snd nl) \<noteq> None)"

definition stamped :: "tools \<Rightarrow> string \<times> string \<Rightarrow> bool" where
  "stamped t nl \<longleftrightarrow> strptime t (slice 1 27 (snd nl)) ''%Y-%m-%d %H:%M:%S.%f %z'' = None \<and>
     strptime t (slice 1 27 (snd nl)) ''%Y-%m-%d %H:%M:%S.%f'' \<noteq> None"

lemma matches_simps [simp]:
  "matches re [] l = []"
  "matches re ((n, p) # fs) l = (case search re p l of None \<Rightarrow> matches re fs l
     | Some gs \<Rightarrow> (n, json_groups gs) # matches re fs l)"
  by (simp_all add: matches_def split: option.splits)

lemma matches_keys: "fst ` set (matches re filters l) \<subseteq> fst ` set filters"
proof (induction filters)
  case (Cons f fs)
  then show ?case by (cases f) (auto split: option.splits)
qed simp

lemma matches_nil: "matches re filters l = [] \<longleftrightarrow> \<not> matching re filters (now, l)"
proof (induction filters)
  case (Cons f fs)
  then show ?case by (cases f) (auto simp: matching_def split: option.splits)
qed (simp add: matching_def)

lemma matches_distinct: "distinct (map fst filters) \<Longrightarrow> distinct (map fst (matches re filters l))"
proof (induction filters)
  case (Cons f fs)
  obtain n p where f: "f = (n, p)" by (cases f)
  have "n \<notin> fst ` set (matches re fs l)"
    using Cons.prems matches_keys [of re fs l] by (auto simp: f)
  with Cons show ?case by (simp add: f split: option.splits)
qed simp

lemma no_dot_not_label:
  assumes "well_named filters" and "CHR ''.'' \<notin> set k"
  shows "k \<notin> fst ` set (matches re filters l)"
proof
  assume "k \<in> fst ` set (matches re filters l)"
  then have "k \<in> fst ` set filters" using matches_keys by blast
  with assms show False by (auto simp: well_named_def list_all_iff)
qed

lemma generate_entries:
  assumes "well_named filters" and "matching re filters (now, l)"
  shows "generate_event_data_from_raw_log_line re filters now l h name =
    line_entries re filters h name (now, l) @
    [(''system_timestamp'', JStr (slice 1 27 l)), (''matched_timestamp'', JStr now)]"
proof -
  note k = no_dot_not_label [OF assms(1), of _ re l]
  have k1: "''log_filename'' \<notin> fst ` set (matches re filters l)" by (rule k) simp
  have k2: "''raw_log_line'' \<notin> fst ` set (matches re filters l)" by (rule k) simp
  have k3: "''system_timestamp'' \<notin> fst ` set (matches re filters l)" by (rule k) simp
  have k4: "''matched_timestamp'' \<notin> fst ` set (matches re filters l)" by (rule k) simp
  have "matches re filters l \<noteq> []" using assms(2) matches_nil [of re filters l now] by simp
  with k1 k2 k3 k4 show ?thesis
    unfolding generate_event_data_from_raw_log_line_def line_entries_def Let_def
    by (simp add: update_fresh image_Un)
qed

section \<open>Texts made of lines\<close>

lemma text_lines_print [simp]:
  "list_all (\<lambda>l. newline \<notin> set l) ls \<Longrightarrow> text_lines (print_lines ls) = map (\<lambda>l. l @ [newline]) ls"
  by (induction ls) (simp_all add: print_lines_def text_lines_newline)

lemma tac_print: "list_all (\<lambda>l. newline \<notin> set l) ls \<Longrightarrow> tac (print_lines ls) = print_lines (rev ls)"
  unfolding tac_def by simp (simp add: print_lines_def rev_map)

lemma grep_print:
  "list_all (\<lambda>l. newline \<notin> set l) ls \<Longrightarrow>
   grep_lines wm ps (print_lines ls) = filter (\<lambda>l. \<exists>p\<in>set ps. wm p l) ls"
  by (simp add: grep_lines_def comp_def chomp_def)

definition splits_at_newline :: "(char \<Rightarrow> bool) \<Rightarrow> string \<Rightarrow> bool" where
  "splits_at_newline is_end l \<longleftrightarrow> list_all (\<lambda>c. \<not> is_end c) l"

lemma splitlines_line:
  "splits_at_newline is_end l \<Longrightarrow> is_end newline \<Longrightarrow>
   splitlines is_end (l @ newline # s) = l # splitlines is_end s"
  by (induction l) (simp_all add: splits_at_newline_def)

lemma splitlines_print:
  assumes "is_end newline" and "list_all (splits_at_newline is_end) ls"
  shows "splitlines is_end (print_lines ls) = ls"
  using assms(2) by (induction ls) (simp_all add: print_lines_def splitlines_line assms(1))

lemma printable_splits:
  assumes "list_all printable l"
  shows "newline \<notin> set l" "splits_at_newline str_line_end l" "splits_at_newline line_end l"
  using assms
  by (auto simp: list_all_iff printable_def splits_at_newline_def str_line_end_def Let_def)

section \<open>Reading an event back\<close>

definition line_data ::
  "'p regexes \<Rightarrow> 'p filters \<Rightarrow> nat \<Rightarrow> string \<Rightarrow> string \<times> string \<Rightarrow> (string \<times> json) list" where
  "line_data re filters h name nl = line_entries re filters h name nl @
     [(''system_timestamp'', JStr (slice 1 27 (snd nl))), (''matched_timestamp'', JStr (fst nl))]"

definition line_text ::
  "'p regexes \<Rightarrow> 'p filters \<Rightarrow> nat \<Rightarrow> string \<Rightarrow> string \<times> string \<Rightarrow> string" where
  "line_text re filters h name nl = dumps (JDict (line_data re filters h name nl))"

lemma events_text_lines:
  assumes "well_named filters"
  shows "events_text re filters h name lines =
    print_lines (map (line_text re filters h name) (filter (matching re filters) lines))"
proof (induction lines)
  case (Cons nl lines)
  obtain now l where nl: "nl = (now, l)" by (cases nl)
  have "process_line re filters now l h name =
      (if matching re filters nl then line_text re filters h name nl @ [newline] else [])"
  proof (cases "matching re filters nl")
    case True
    with generate_entries [OF assms, of re now l h name] show ?thesis
      by (simp add: process_line_def Let_def nl line_text_def line_data_def line_entries_def)
  next
    case False
    then have "matches re filters l = []" using matches_nil [of re filters l now] by (simp add: nl)
    with False show ?thesis
      by (simp add: process_line_def generate_event_data_from_raw_log_line_def)
  qed
  with Cons show ?case by (simp add: events_text_def print_lines_def nl)
qed (simp add: events_text_def print_lines_def)

lemma storable_matches: "list_all (\<lambda>(k, j). storable j) (matches re filters l)"
proof (induction filters)
  case (Cons f fs)
  moreover have "storable (json_groups gs)" for gs
    by (auto simp: json_groups_def list_all_iff split: option.splits)
  ultimately show ?case by (cases f) (simp split: option.splits)
qed simp

lemma line_data_keys:
  assumes "well_named filters"
  shows "distinct (map fst (line_data re filters h name nl))"
    "''system_timestamp'' \<notin> fst ` set (line_entries re filters h name nl)"
proof -
  obtain now l where nl: "nl = (now, l)" by (cases nl)
  note k = no_dot_not_label [OF assms, of _ re l]
  have k1: "''log_filename'' \<notin> fst ` set (matches re filters l)" by (rule k) simp
  have k2: "''raw_log_line'' \<notin> fst ` set (matches re filters l)" by (rule k) simp
  have k3: "''system_timestamp'' \<notin> fst ` set (matches re filters l)" by (rule k) simp
  have k4: "''matched_timestamp'' \<notin> fst ` set (matches re filters l)" by (rule k) simp
  have "distinct (map fst (matches re filters l))"
    using assms by (simp add: matches_distinct well_named_def)
  with k1 k2 k3 k4 show "distinct (map fst (line_data re filters h name nl))"
    "''system_timestamp'' \<notin> fst ` set (line_entries re filters h name nl)"
    by (auto simp: line_data_def line_entries_def nl)
qed

lemma storable_line_data:
  assumes "well_named filters"
  shows "storable (JDict (line_data re filters h name nl))"
  using line_data_keys(1) [OF assms, of re h name nl] storable_matches [of re filters "snd nl"]
  by (cases nl) (simp add: line_data_def line_entries_def)

lemma delete_middle: "k \<notin> fst ` set xs \<Longrightarrow> k \<notin> fst ` set ys \<Longrightarrow>
   AList.delete k (xs @ (k, v) # ys) = xs @ ys"
proof (induction xs)
  case Nil
  then show ?case by (induction ys) (auto simp: AList.delete_eq)
qed (auto simp: AList.delete_eq)

lemma line_data_lookup:
  assumes "well_named filters"
  shows "map_of (line_data re filters h name nl) ''system_timestamp'' = Some (JStr (slice 1 27 (snd nl)))"
proof -
  have "map_of (line_entries re filters h name nl) ''system_timestamp'' = None"
    using line_data_keys(2) [OF assms, of re h name nl] by (simp add: map_of_eq_None_iff)
  then show ?thesis by (simp add: line_data_def map_add_def)
qed

lemma get_datetime_stamped:
  "stamped t nl \<Longrightarrow> get_datetime t (JStr (slice 1 27 (snd nl))) =
     Inr (the (strptime t (slice 1 27 (snd nl)) ''%Y-%m-%d %H:%M:%S.%f''))"
  by (auto simp: stamped_def get_datetime_def datetime_formats_def get_datetime_from_format_def)

lemma event_of_line:
  assumes "well_named filters" and "stamped t nl"
  shows "event_of_output t (line_text re filters h name nl) None None =
    Inr (Some (line_event t re filters h name nl))"
proof -
  let ?d = "line_data re filters h name nl"
  have l: "loads (line_text re filters h name nl) = Inr (JDict ?d)"
    unfolding line_text_def by (rule loads_dumps [OF storable_line_data [OF assms(1)]])
  have n: "line_text re filters h name nl \<noteq> []" by (simp add: line_text_def)
  have "AList.delete ''system_timestamp'' ?d = line_entries re filters h name nl @
      [(''matched_timestamp'', JStr (fst nl))]"
    unfolding line_data_def using line_data_keys(2) [OF assms(1)]
    by (intro delete_middle) simp_all
  moreover have "py_item (JDict ?d) ''system_timestamp'' = Inr (JStr (slice 1 27 (snd nl)))"
    using line_data_lookup [OF assms(1)] by (simp add: py_item_def)
  ultimately show ?thesis
    using n by (simp add: event_of_output_def l get_datetime_stamped [OF assms(2)] line_event_def
        case_prod_beta del: One_nat_def)
qed

section \<open>The history of a log\<close>

lemma events_of_lines:
  assumes "\<And>nl. nl \<in> set lines \<Longrightarrow> event_of_output t (text nl) labels st = Inr (Some (ev nl))"
  shows "get_events_from_json_output t (map text lines) labels st = Inr (map ev lines)"
proof -
  have "mapE (\<lambda>out. event_of_output t out labels st) (map text lines) = Inr (map (\<lambda>nl. Some (ev nl)) lines)"
    using assms by (induction lines) simp_all
  moreover have "List.map_filter id (map (\<lambda>nl. Some (ev nl)) lines) = map ev lines"
    by (induction lines) simp_all
  ultimately show ?thesis by (simp add: get_events_from_json_output_def)
qed

lemma line_texts_printable:
  assumes "well_named filters"
  shows "list_all (\<lambda>l. newline \<notin> set l) (map (line_text re filters h name) lines)"
    "list_all (splits_at_newline str_line_end) (map (line_text re filters h name) lines)"
    "list_all (splits_at_newline line_end) (map (line_text re filters h name) lines)"
  using printable_splits [OF dumps_printable [OF storable_line_data [OF assms]]]
  by (simp_all add: list_all_iff line_text_def)

text \<open>C18. Of the events that the parser wrote for the lines of a log, the history returns each one
  once, the newest first: an event for every line that some filter matches, with the groups of
  each filter that does, the text of the line behind its header and the time in it. Asking for
  the last n gives the first n of these.\<close>

theorem history_of_log:
  assumes "well_named (filters_dict p)"
    and "list_all (stamped t) (filter (matching re (filters_dict p)) lines)"
    and "prompt env timeout" and "event_text env = events_text re (filters_dict p) h name lines"
  defines "es \<equiv> rev (map (line_event t re (filters_dict p) h name)
      (filter (matching re (filters_dict p)) lines))"
  shows "get_event_history t env p NoLabels None None timeout = Inr (history_result (es, False)) \<and>
    get_event_history t env p NoLabels (Some (int n)) None timeout =
      Inr (history_result (take n es, False))"
proof -
  let ?f = "filters_dict p" and ?ls = "filter (matching re (filters_dict p)) lines"
  let ?text = "line_text re (filters_dict p) h name"
  note prints = line_texts_printable [OF assms(1), of re h name]
  have c: "command_end env = None" using assms(3) by (simp add: prompt_def)
  have wr: "event_text env = print_lines (map ?text ?ls)"
    using assms(4) events_text_lines [OF assms(1)] by simp
  have tac: "tac (event_text env) = print_lines (map ?text (rev ?ls))"
    unfolding wr by (subst tac_print [OF prints(1)]) (simp add: rev_map)
  have ev: "event_of_output t (?text nl) None None = Inr (Some (line_event t re ?f h name nl))"
    if "nl \<in> set ?ls" for nl
    using that assms(2) unfolding list_all_iff by (intro event_of_line [OF assms(1)]) blast
  have all: "get_events_from_json_output t (map ?text ls) None None = Inr (map (line_event t re ?f h name) ls)"
    if "set ls \<subseteq> set ?ls" for ls
    using that ev by (intro events_of_lines) blast
  have "splitlines str_line_end (tac (event_text env)) = map ?text (rev ?ls)"
    unfolding tac by (rule splitlines_print [OF _ prints(2)]) (simp add: str_line_end_def)
  then have 1: "get_all_event_history t env (event_file_path p) None None timeout = Inr (es, False)"
    using all [of "rev ?ls"]
    by (simp add: get_all_event_history_def when_prompt [OF assms(3)] c was_killed_def es_def rev_map)
  have "head_n (int n) (tac (event_text env)) = print_lines (take n (map ?text (rev ?ls)))"
    unfolding tac head_n_def Let_def text_lines_print [OF prints(1)]
    by (simp add: print_lines_def take_map)
  also have "splitlines line_end \<dots> = map ?text (take n (rev ?ls))"
    unfolding take_map by (rule splitlines_print [OF _ prints(3)]) simp
  finally have "splitlines line_end (head_n (int n) (tac (event_text env))) = map ?text (take n (rev ?ls))" .
  moreover have "set (take n (rev ?ls)) \<subseteq> set ?ls"
    using set_take_subset [of n "rev ?ls"] by simp
  ultimately have 2: "get_limited_event_history t env None (int n) timeout = Inr (take n es, False)"
    using all [of "take n (rev ?ls)"]
    by (simp add: get_limited_event_history_def when_prompt [OF assms(3)] c delivered_def es_def
        rev_map take_map del: set_rev)
  from 1 2 show ?thesis by (simp add: get_event_history_def as_parser_error_def history_result_def)
qed


text \<open>A log of three lines, two of which a filter matches.\<close>

definition sample_parser :: "string event_parser" where
  "sample_parser = \<lparr>filters_dict = [(''basic.boot'', ''up''), (''power.lost'', ''off'')],
     event_file_path = ''log-events.txt''\<rparr>"

definition sample_tools :: tools where
  "sample_tools = \<lparr>word_match = (\<lambda>label line. contains (dumps_string label) line),
     strptime = (\<lambda>s f. if length s = 26 \<and> f = ''%Y-%m-%d %H:%M:%S.%f'' then Some (int (parse_nat (drop 20 s)))
       else None)\<rparr>"

definition sample_line :: "string \<Rightarrow> string \<Rightarrow> string" where
  "sample_line us rest = ''<2024-01-01 10:00:00.'' @ us @ ''> GDM-1: '' @ rest @ [newline]"

definition sample_lines :: "(string \<times> string) list" where
  "sample_lines = [(''t1'', sample_line ''000001'' ''up''), (''t2'', sample_line ''000002'' ''idle''),
     (''t3'', sample_line ''000003'' ''off'')]"

definition sample_env :: "string \<Rightarrow> query_env" where
  "sample_env s = \<lparr>clock = (\<lambda>n. 100000 * int n), event_file_exists = (\<lambda>_. True), event_text = s,
     stdin_text = [], command_end = None\<rparr>"

definition sample_text :: string where
  "sample_text = events_text sample_regexes (filters_dict sample_parser) 36 ''log.txt'' sample_lines"

lemma sample_ok:
  "well_named (filters_dict sample_parser)" "prompt (sample_env s) 1000000"
  "list_all (stamped sample_tools) sample_lines"
  by (simp_all add: well_named_def sample_parser_def prompt_def sample_env_def stamped_def sample_tools_def
      sample_lines_def sample_line_def slice_def)

theorem history_of_log_witness:
  "get_event_history sample_tools (sample_env sample_text) sample_parser NoLabels (Some 1) None 1000000 =
     Inr \<lparr>timedout = False, results_list = [\<lparr>system_timestamp = 3,
       entries = [(''power.lost'', JList [JStr ''off'']), (''log_filename'', JStr ''log.txt''),
         (''raw_log_line'', JStr ''off''), (''matched_timestamp'', JStr ''t3'')]\<rparr>], result_count = 1\<rparr>"
proof -
  have "list_all (stamped sample_tools)
      (filter (matching sample_regexes (filters_dict sample_parser)) sample_lines)"
    using sample_ok(3) by (auto simp: list_all_iff)
  from history_of_log [OF sample_ok(1) this sample_ok(2), where n = 1 and h = 36 and name = "''log.txt''"]
  have "get_event_history sample_tools (sample_env sample_text) sample_parser NoLabels (Some 1) None 1000000 =
      Inr (history_result (take 1 (rev (map (line_event sample_tools sample_regexes
        (filters_dict sample_parser) 36 ''log.txt'')
        (filter (matching sample_regexes (filters_dict sample_parser)) sample_lines))), False))"
    by (simp add: sample_env_def sample_text_def)
  also have "\<dots> = Inr \<lparr>timedout = False, results_list = [\<lparr>system_timestamp = 3,
       entries = [(''power.lost'', JList [JStr ''off'']), (''log_filename'', JStr ''log.txt''),
         (''raw_log_line'', JStr ''off''), (''matched_timestamp'', JStr ''t3'')]\<rparr>], result_count = 1\<rparr>"
    by code_simp
  finally show ?thesis .
qed

end
