(* ===== verification/Log_Writer.thy ===== *)
theory Log_Writer
  imports Event_Filters
begin

text \<open>
  \<open>gazoo_device/switchboard/log_process.py\<close>: the log writer process. Its state holds the text
  files on the disk, by path, the directory and the name of the log file, and the file handle.
  \<open>stamp n\<close> is the n-th formatted reading of the host's clock, and \<open>can_open\<close> tells which files
  can be opened for appending. The queues are the arguments of \<open>do_work\<close>: what \<open>get_message\<close>
  returned from them.
\<close>

definition dirname :: "string \<Rightarrow> string" where
  "dirname p =
     (let head = take (length p - length (basename p)) p
      in if list_all (\<lambda>c. c = CHR ''/'') head then head
         else rev (dropWhile (\<lambda>c. c = CHR ''/'') (rev head)))"

abbreviation (input) CHANGE_MAX_LOG_SIZE :: string where "CHANGE_MAX_LOG_SIZE \<equiv> ''Changing max_log_size''"
abbreviation (input) NEW_LOG_FILE_MESSAGE :: string where "NEW_LOG_FILE_MESSAGE \<equiv> ''Starting new log file at''"
abbreviation (input) ROTATE_LOG_MESSAGE :: string where "ROTATE_LOG_MESSAGE \<equiv> ''Rotating from log file''"

type_synonym disk = "string \<Rightarrow> string option"

text \<open>The number of bytes of a text in UTF-8, which is what \<open>tell\<close> counts.\<close>

definition utf8_size :: "string \<Rightarrow> int" where
  "utf8_size s = sum_list (map (\<lambda>c. if (of_char c :: nat) < 128 then 1 else 2) s)"

datatype log_handle = NoFile | Opened string | Closed string

record log_writer =
  w_disk :: disk
  w_directory :: string
  w_filename :: string
  w_file :: log_handle
  w_max_log_size :: int
  w_stamps :: nat

datatype writer_command = MaxLogSize int | NewLogFile string | UnknownCommand

definition new_log_writer :: "disk \<Rightarrow> string \<Rightarrow> int \<Rightarrow> log_writer" where
  "new_log_writer d log_path max_log_size =
     \<lparr>w_disk = d, w_directory = dirname log_path, w_filename = basename log_path, w_file = NoFile,
      w_max_log_size = max_log_size, w_stamps = 0\<rparr>"

definition close_file :: "log_writer \<Rightarrow> log_writer" where
  "close_file st = (case w_file st of Opened p \<Rightarrow> st\<lparr>w_file := Closed p\<rparr> | _ \<Rightarrow> st)"

text \<open>\<open>codecs.open(path, "a")\<close>, after making the directory\<close>

definition open_file :: "(string \<Rightarrow> bool) \<Rightarrow> (log_writer, unit) stateful" where
  "open_file can_open st =
     (let log_path = path_join (w_directory st) (w_filename st)
      in if can_open log_path then
           (Inr (), st\<lparr>w_disk := (w_disk st)(log_path \<mapsto> (case w_disk st log_path of None \<Rightarrow> [] | Some s \<Rightarrow> s)),
                       w_file := Opened log_path\<rparr>)
         else (Inl IOError, st))"

definition open_new_log_file :: "(string \<Rightarrow> bool) \<Rightarrow> string \<Rightarrow> (log_writer, unit) stateful" where
  "open_new_log_file can_open new_log_path st =
     open_file can_open ((close_file st)\<lparr>w_directory := dirname new_log_path, w_filename := basename new_log_path\<rparr>)"

text \<open>A line without its end is marked; writing to a closed file is a \<open>ValueError\<close>.\<close>

definition with_eol :: "string \<Rightarrow> string" where
  "with_eol log_line = (if last log_line \<noteq> newline then log_line @ ''[NO EOL]'' @ [newline] else log_line)"

definition write_log_line :: "string \<Rightarrow> (log_writer, unit) stateful" where
  "write_log_line log_line st =
     (case w_file st of
        NoFile \<Rightarrow> (Inr (), st)
      | Opened p \<Rightarrow>
          if log_line = [] then (Inl IndexError, st)
          else (Inr (), st\<lparr>w_disk := (w_disk st)(p \<mapsto>
                  (case w_disk st p of None \<Rightarrow> [] | Some s \<Rightarrow> s) @ with_eol log_line)\<rparr>)
      | Closed p \<Rightarrow> if log_line = [] then (Inl IndexError, st) else (Inl ValueError, st))"

text \<open>\<open>self._write_log_line(_add_log_header(raw_log_message))\<close>\<close>

definition write_message :: "(nat \<Rightarrow> string) \<Rightarrow> string \<Rightarrow> (log_writer, unit) stateful" where
  "write_message stamp raw_log_message st =
     write_log_line (add_log_header (stamp (w_stamps st)) ''M'' raw_log_message)
       (st\<lparr>w_stamps := Suc (w_stamps st)\<rparr>)"

definition log_size :: "log_writer \<Rightarrow> int result" where
  "log_size st =
     (case w_file st of
        NoFile \<Rightarrow> Inl ValueError
      | Opened p \<Rightarrow> Inr (utf8_size (case w_disk st p of None \<Rightarrow> [] | Some s \<Rightarrow> s))
      | Closed p \<Rightarrow> Inl ValueError)"

definition rotate_message :: "string \<Rightarrow> string \<Rightarrow> string" where
  "rotate_message old new = ROTATE_LOG_MESSAGE @ '' '' @ old @ '' to '' @ new @ [newline]"

definition do_log_rotation :: "(nat \<Rightarrow> string) \<Rightarrow> (string \<Rightarrow> bool) \<Rightarrow> (log_writer, unit) stateful" where
  "do_log_rotation stamp can_open st =
     (if w_file st = NoFile then (Inl ValueError, st)
      else if w_max_log_size st \<noteq> 0 then
        bindS (readS log_size) (\<lambda>n.
          if w_max_log_size st \<le> n then
            (let new_log_filename = get_next_log_filename (w_filename st)
             in bindS (write_message stamp (rotate_message (w_filename st) new_log_filename)) (\<lambda>_.
                  open_new_log_file can_open (path_join (w_directory st) new_log_filename)))
          else returnS ()) st
      else (Inr (), st))"

definition process_writer_command ::
  "(nat \<Rightarrow> string) \<Rightarrow> (string \<Rightarrow> bool) \<Rightarrow> writer_command \<Rightarrow> (log_writer, unit) stateful" where
  "process_writer_command stamp can_open command st =
     (case command of
        MaxLogSize max_size \<Rightarrow>
          (case write_message stamp (CHANGE_MAX_LOG_SIZE @ '' from '' @ show_int (w_max_log_size st) @ '' to '' @
                  show_int max_size @ [newline]) st of
             (Inl e, st') \<Rightarrow> (Inl e, st')
           | (Inr _, st') \<Rightarrow> (Inr (), st'\<lparr>w_max_log_size := max_size\<rparr>))
      | NewLogFile path \<Rightarrow>
          bindS (write_message stamp (NEW_LOG_FILE_MESSAGE @ '' '' @ path @ [newline])) (\<lambda>_.
            open_new_log_file can_open path) st
      | UnknownCommand \<Rightarrow> (Inl RuntimeError, st))"

text \<open>One round, with the message of each queue, if there is one.\<close>

definition writer_do_work ::
  "(nat \<Rightarrow> string) \<Rightarrow> (string \<Rightarrow> bool) \<Rightarrow> writer_command option \<Rightarrow> string option \<Rightarrow>
   (log_writer, bool) stateful" where
  "writer_do_work stamp can_open command log_line =
     bindS (case command of None \<Rightarrow> returnS () | Some c \<Rightarrow> process_writer_command stamp can_open c) (\<lambda>_.
     bindS (case log_line of
              None \<Rightarrow> returnS ()
            | Some l \<Rightarrow>
                if l = [] then returnS ()
                else bindS (write_log_line l) (\<lambda>_. do_log_rotation stamp can_open)) (\<lambda>_.
     returnS True))"

definition writer_pre_run_hook :: "(string \<Rightarrow> bool) \<Rightarrow> (log_writer, bool) stateful" where
  "writer_pre_run_hook can_open = bindS (open_file can_open) (\<lambda>_. returnS True)"

definition writer_post_run_hook :: "(log_writer, unit) stateful" where
  "writer_post_run_hook st = (Inr (), close_file st)"

text \<open>The process: rounds in sequence, each with what the queues held; an exception ends it.\<close>

fun writer_rounds ::
  "(nat \<Rightarrow> string) \<Rightarrow> (string \<Rightarrow> bool) \<Rightarrow> (writer_command option \<times> string option) list \<Rightarrow>
   (log_writer, unit) stateful" where
  "writer_rounds stamp can_open [] = returnS ()"
| "writer_rounds stamp can_open ((command, log_line) # rest) =
     bindS (writer_do_work stamp can_open command log_line) (\<lambda>_. writer_rounds stamp can_open rest)"

section \<open>Rotation as a division of the lines into pieces\<close>

text \<open>
  The abstract view of rotation: the text of the lines cut into pieces, a new piece beginning as
  soon as the present one has reached the size.
\<close>

fun log_pieces :: "int \<Rightarrow> string \<Rightarrow> string list \<Rightarrow> string list" where
  "log_pieces M cur [] = [cur]"
| "log_pieces M cur (l # ls) =
     (let cur' = cur @ with_eol l
      in if M \<le> utf8_size cur' then cur' # log_pieces M [] ls else log_pieces M cur' ls)"

lemma concat_log_pieces: "concat (log_pieces M cur ls) = cur @ concat (map with_eol ls)"
  by (induction M cur ls rule: log_pieces.induct) (simp_all add: Let_def)

lemma log_pieces_nonempty [simp]: "log_pieces M cur ls \<noteq> []"
  by (induction M cur ls rule: log_pieces.induct) (simp_all add: Let_def)

lemma log_pieces_sizes:
  "list_all (\<lambda>p. M \<le> utf8_size p) (butlast (log_pieces M cur ls)) \<and>
   (0 < M \<and> utf8_size cur < M \<longrightarrow> utf8_size (last (log_pieces M cur ls)) < M)"
  by (induction M cur ls rule: log_pieces.induct) (auto simp: Let_def utf8_size_def)

section \<open>The files of a log\<close>

definition plain_directory :: "string \<Rightarrow> bool" where
  "plain_directory d \<longleftrightarrow> d \<noteq> [] \<and> last d \<noteq> CHR ''/''"

lemma path_join_plain:
  assumes "plain_directory d" and "CHR ''/'' \<notin> set f"
  shows "path_join d f = d @ ''/'' @ f" "basename (path_join d f) = f" "dirname (path_join d f) = d"
proof -
  have d: "d \<noteq> []" "last d \<noteq> CHR ''/''" using assms(1) by (simp_all add: plain_directory_def)
  have "\<not> starts_with f ''/''" using assms(2) by (cases f) (auto simp: starts_with_def)
  with d show p: "path_join d f = d @ ''/'' @ f" by (simp add: path_join_def)
  show b: "basename (path_join d f) = f"
    unfolding p using assms(2) after_last_split [of "CHR ''/''" f d] by (simp add: basename_def)
  have "\<not> list_all (\<lambda>c. c = CHR ''/'') (d @ ''/'')"
    using d(2) last_in_set [OF d(1)] unfolding list_all_iff set_append by blast
  moreover have "rev (dropWhile (\<lambda>c. c = CHR ''/'') (rev d)) = d"
    using d by (cases d rule: rev_cases) auto
  ultimately show "dirname (path_join d f) = d"
    unfolding dirname_def b by (simp add: p Let_def)
qed

text \<open>The k-th file of a log in a directory, and the message at its end.\<close>

definition nth_log :: "string \<Rightarrow> string \<Rightarrow> string \<Rightarrow> nat \<Rightarrow> string" where
  "nth_log d b e k = path_join d (rotated b e k)"

definition rotate_line :: "string \<Rightarrow> string \<Rightarrow> string \<Rightarrow> nat \<Rightarrow> string" where
  "rotate_line ts b e k = add_log_header ts ''M'' (rotate_message (rotated b e k) (rotated b e (Suc k)))"

definition log_names :: "string \<Rightarrow> string \<Rightarrow> string \<Rightarrow> bool" where
  "log_names d b e \<longleftrightarrow> plain_directory d \<and> CHR ''/'' \<notin> set b \<and> named b \<and> plain e \<and> \<not> has_counter b"

lemma rotated_no_slash:
  assumes "log_names d b e"
  shows "CHR ''/'' \<notin> set (rotated b e k)"
proof -
  have "CHR ''/'' \<notin> set (count_str k)"
    using plain_digits [OF count_str_digits [of k]] by (simp add: plain_def)
  with assms show ?thesis by (auto simp: log_names_def rotated_def plain_def)
qed

lemma nth_log_parts:
  assumes "log_names d b e"
  shows "basename (nth_log d b e k) = rotated b e k" "dirname (nth_log d b e k) = d"
  using path_join_plain [OF _ rotated_no_slash [OF assms]] assms
  by (simp_all add: nth_log_def log_names_def)

lemma nth_log_inj:
  assumes "log_names d b e" and "i < 100000" "j < 100000" and "nth_log d b e i = nth_log d b e j"
  shows "i = j"
proof -
  have "rotated b e i = rotated b e j" using assms(4) nth_log_parts(1) [OF assms(1)] by metis
  then have "get_log_filename_and_counter (rotated b e i) = get_log_filename_and_counter (rotated b e j)" by simp
  with rotated_counter [of b e] assms(1-3) show ?thesis by (simp add: log_names_def)
qed

lemma with_eol_rotate_line: "with_eol (rotate_line ts b e k) = rotate_line ts b e k" "rotate_line ts b e k \<noteq> []"
  by (simp_all add: with_eol_def rotate_line_def add_log_header_def rotate_message_def)

text \<open>The state of a writer that is writing the k-th file, which holds \<open>cur\<close>.\<close>

definition writing :: "string \<Rightarrow> string \<Rightarrow> string \<Rightarrow> int \<Rightarrow> nat \<Rightarrow> string \<Rightarrow> log_writer \<Rightarrow> bool" where
  "writing d b e M k cur st \<longleftrightarrow> w_directory st = d \<and> w_filename st = rotated b e k \<and>
     w_file st = Opened (nth_log d b e k) \<and> w_max_log_size st = M \<and>
     w_disk st (nth_log d b e k) = Some cur"

lemma one_line:
  assumes "log_names d b e" and "0 < M" and "Suc k < 100000" and "writing d b e M k cur st"
    and "l \<noteq> []" and "\<forall>p. can_open p" and "w_disk st (nth_log d b e (Suc k)) = None"
  defines "cur' \<equiv> cur @ with_eol l"
  shows "\<exists>st'. writer_do_work stamp can_open None (Some l) st = (Inr True, st') \<and>
    (if M \<le> utf8_size cur' then
       writing d b e M (Suc k) [] st' \<and>
       w_disk st' = (w_disk st)(nth_log d b e k \<mapsto> cur' @ rotate_line (stamp (w_stamps st)) b e k,
         nth_log d b e (Suc k) \<mapsto> [])
     else writing d b e M k cur' st' \<and> w_disk st' = (w_disk st)(nth_log d b e k \<mapsto> cur'))"
proof -
  let ?p = "nth_log d b e k" and ?q = "nth_log d b e (Suc k)"
  let ?ts = "stamp (w_stamps st)"
  define st1 where "st1 = st\<lparr>w_disk := (w_disk st)(?p \<mapsto> cur')\<rparr>"
  have w: "w_directory st = d" "w_filename st = rotated b e k" "w_file st = Opened ?p"
    "w_max_log_size st = M" "w_disk st ?p = Some cur"
    using assms(4) by (simp_all add: writing_def)
  have wl: "write_log_line l st = (Inr (), st1)"
    using w assms(5) by (simp add: write_log_line_def st1_def cur'_def)
  have size: "readS log_size st1 = (Inr (utf8_size cur'), st1)"
    using w by (simp add: readS_def log_size_def st1_def)
  show ?thesis
  proof (cases "M \<le> utf8_size cur'")
    case False
    have "do_log_rotation stamp can_open st1 = (Inr (), st1)"
      using False w assms(2) size by (simp add: do_log_rotation_def returnS_def st1_def)
    with wl False assms(5) w show ?thesis
      by (intro exI [of _ st1]) (auto simp: writer_do_work_def returnS_def writing_def st1_def bindS_def)
  next
    case True
    have pq: "?p \<noteq> ?q" using nth_log_inj [OF assms(1), of k "Suc k"] assms(3) by auto
    define st2 where "st2 = st1\<lparr>w_stamps := Suc (w_stamps st),
      w_disk := (w_disk st)(?p \<mapsto> cur' @ rotate_line ?ts b e k)\<rparr>"
    define st3 where "st3 = st2\<lparr>w_file := Opened ?q, w_directory := d, w_filename := rotated b e (Suc k),
      w_disk := (w_disk st2)(?q \<mapsto> [])\<rparr>"
    have next_name: "get_next_log_filename (rotated b e k) = rotated b e (Suc k)"
      using assms(1,3) by (intro next_rotated) (simp_all add: log_names_def)
    have m: "write_message stamp (rotate_message (rotated b e k) (rotated b e (Suc k))) st1 = (Inr (), st2)"
      using w with_eol_rotate_line [of ?ts b e k]
      by (simp add: write_message_def write_log_line_def st1_def st2_def rotate_line_def)
    have q: "path_join d (rotated b e (Suc k)) = ?q" by (simp add: nth_log_def)
    have "open_new_log_file can_open ?q st2 = (Inr (), st3)"
      using w pq assms(6,7) nth_log_parts [OF assms(1), of "Suc k"]
      by (simp add: open_new_log_file_def open_file_def close_file_def st2_def st3_def st1_def q Let_def)
    with m size True w assms(2) have "do_log_rotation stamp can_open st1 = (Inr (), st3)"
      by (simp add: do_log_rotation_def next_name st1_def q Let_def)
    with wl True assms(5) w pq show ?thesis
      by (intro exI [of _ st3])
        (auto simp: writer_do_work_def returnS_def writing_def st1_def st2_def st3_def bindS_def)
  qed
qed

text \<open>
  The disk after a log was written in the pieces \<open>ps\<close>, from the k-th file on: each piece is a
  file, and all but the last end with the message of the rotation.
\<close>

definition holds_pieces :: "string \<Rightarrow> string \<Rightarrow> string \<Rightarrow> nat \<Rightarrow> string list \<Rightarrow> disk \<Rightarrow> bool" where
  "holds_pieces d b e k ps disk \<longleftrightarrow>
     (\<forall>i<length ps. \<exists>ts. disk (nth_log d b e (k + i)) =
        Some (ps ! i @ (if Suc i < length ps then rotate_line ts b e (k + i) else [])))"

definition line_rounds :: "string list \<Rightarrow> (writer_command option \<times> string option) list" where
  "line_rounds lines = map (\<lambda>l. (None, Some l)) lines"

lemma holds_pieces_Cons:
  assumes "disk (nth_log d b e k) = Some (p @ rotate_line ts b e k)" and "ps \<noteq> []"
    and "holds_pieces d b e (Suc k) ps disk"
  shows "holds_pieces d b e k (p # ps) disk"
  unfolding holds_pieces_def
proof (intro allI impI)
  fix i assume "i < length (p # ps)"
  show "\<exists>ts. disk (nth_log d b e (k + i)) =
      Some ((p # ps) ! i @ (if Suc i < length (p # ps) then rotate_line ts b e (k + i) else []))"
  proof (cases i)
    case 0
    with assms(1,2) show ?thesis by (intro exI [of _ ts]) simp
  next
    case (Suc j)
    with \<open>i < length (p # ps)\<close> assms(3) obtain ts' where "disk (nth_log d b e (Suc k + j)) =
        Some (ps ! j @ (if Suc j < length ps then rotate_line ts' b e (Suc k + j) else []))"
      unfolding holds_pieces_def by auto
    with Suc show ?thesis by (intro exI [of _ ts']) simp
  qed
qed

lemma writer_pieces:
  assumes "log_names d b e" and "0 < M" and "\<forall>p. can_open p"
    and "writing d b e M k cur st" and "k + length lines < 100000" and "list_all (\<lambda>l. l \<noteq> []) lines"
    and "\<forall>i. k < i \<and> i < 100000 \<longrightarrow> w_disk st (nth_log d b e i) = None"
  shows "\<exists>st'. writer_rounds stamp can_open (line_rounds lines) st = (Inr (), st') \<and>
    writing d b e M (k + length (log_pieces M cur lines) - 1) (last (log_pieces M cur lines)) st' \<and>
    holds_pieces d b e k (log_pieces M cur lines) (w_disk st') \<and>
    (\<forall>i. k + length (log_pieces M cur lines) - 1 < i \<and> i < 100000 \<longrightarrow> w_disk st' (nth_log d b e i) = None) \<and>
    (\<forall>p. (\<forall>i<100000. k \<le> i \<longrightarrow> p \<noteq> nth_log d b e i) \<longrightarrow> w_disk st' p = w_disk st p)"
  using assms(4-7)
proof (induction lines arbitrary: k cur st)
  case Nil
  then show ?case by (simp add: line_rounds_def returnS_def holds_pieces_def writing_def)
next
  case (Cons l lines)
  let ?cur = "cur @ with_eol l"
  let ?p = "nth_log d b e k" and ?q = "nth_log d b e (Suc k)" and ?ts = "stamp (w_stamps st)"
  have lt: "Suc k < 100000" and k: "k < 100000" using Cons.prems(2) by simp_all
  from one_line [OF assms(1,2) lt Cons.prems(1) _ assms(3), of l stamp] Cons.prems(3,4) lt
  obtain st1 where step: "writer_do_work stamp can_open None (Some l) st = (Inr True, st1)"
    and st1: "if M \<le> utf8_size ?cur then writing d b e M (Suc k) [] st1 \<and>
        w_disk st1 = (w_disk st)(?p \<mapsto> ?cur @ rotate_line ?ts b e k, ?q \<mapsto> [])
      else writing d b e M k ?cur st1 \<and> w_disk st1 = (w_disk st)(?p \<mapsto> ?cur)"
    by auto
  have run: "writer_rounds stamp can_open (line_rounds (l # lines)) st =
      writer_rounds stamp can_open (line_rounds lines) st1"
    using step by (simp add: line_rounds_def)
  have inj: "nth_log d b e i \<noteq> nth_log d b e j" if "i \<noteq> j" "i < 100000" "j < 100000" for i j
    using nth_log_inj [OF assms(1) that(2,3)] that(1) by blast
  show ?case
  proof (cases "M \<le> utf8_size ?cur")
    case False
    with st1 have w: "writing d b e M k ?cur st1" and disk: "w_disk st1 = (w_disk st)(?p \<mapsto> ?cur)" by simp_all
    have "\<forall>i. k < i \<and> i < 100000 \<longrightarrow> w_disk st1 (nth_log d b e i) = None"
      using Cons.prems(4) inj k disk by (simp add: disk)
    from Cons.IH [OF w _ _ this] Cons.prems(2,3) obtain st' where
      "writer_rounds stamp can_open (line_rounds lines) st1 = (Inr (), st')"
      "writing d b e M (k + length (log_pieces M ?cur lines) - 1) (last (log_pieces M ?cur lines)) st'"
      "holds_pieces d b e k (log_pieces M ?cur lines) (w_disk st')"
      "\<forall>i. k + length (log_pieces M ?cur lines) - 1 < i \<and> i < 100000 \<longrightarrow> w_disk st' (nth_log d b e i) = None"
      "\<forall>p. (\<forall>i<100000. k \<le> i \<longrightarrow> p \<noteq> nth_log d b e i) \<longrightarrow> w_disk st' p = w_disk st1 p"
      by auto
    with False k show ?thesis unfolding run by (intro exI [of _ st']) (simp add: Let_def disk)
  next
    case True
    with st1 have w: "writing d b e M (Suc k) [] st1"
      and disk: "w_disk st1 = (w_disk st)(?p \<mapsto> ?cur @ rotate_line ?ts b e k, ?q \<mapsto> [])" by simp_all
    let ?ps = "log_pieces M [] lines"
    have "\<forall>i. Suc k < i \<and> i < 100000 \<longrightarrow> w_disk st1 (nth_log d b e i) = None"
      using Cons.prems(4) inj k lt by (simp add: disk)
    from Cons.IH [OF w _ _ this] Cons.prems(2,3) obtain st' where
      r: "writer_rounds stamp can_open (line_rounds lines) st1 = (Inr (), st')"
      "writing d b e M (Suc k + length ?ps - 1) (last ?ps) st'"
      "holds_pieces d b e (Suc k) ?ps (w_disk st')"
      "\<forall>i. Suc k + length ?ps - 1 < i \<and> i < 100000 \<longrightarrow> w_disk st' (nth_log d b e i) = None"
      and others: "\<forall>p. (\<forall>i<100000. Suc k \<le> i \<longrightarrow> p \<noteq> nth_log d b e i) \<longrightarrow> w_disk st' p = w_disk st1 p"
      by auto
    have "w_disk st' ?p = Some (?cur @ rotate_line ?ts b e k)"
      using others inj k lt by (auto simp: disk)
    from holds_pieces_Cons [OF this log_pieces_nonempty r(3)] r(1,2,4) others True k lt
    show ?thesis unfolding run by (intro exI [of _ st']) (simp add: Let_def disk)
  qed
qed

text \<open>C20. With a size set, the writer puts the lines of a log, each with its end, into numbered files
  in order: the files are exactly the pieces of the abstract division, all but the last followed
  by the message of the rotation. Nothing is lost, each piece but the last has reached the
  size, and the last one has not, if the file had not at the start.\<close>

theorem writer_refines_pieces:
  assumes "log_names d b e" and "0 < M" and "\<forall>p. can_open p"
    and "writing d b e M k cur st" and "k + length lines < 100000" and "list_all (\<lambda>l. l \<noteq> []) lines"
    and "\<forall>i. k < i \<and> i < 100000 \<longrightarrow> w_disk st (nth_log d b e i) = None"
  defines "ps \<equiv> log_pieces M cur lines"
  shows "(case writer_rounds stamp can_open (line_rounds lines) st of (r, st') \<Rightarrow>
      r = Inr () \<and> holds_pieces d b e k ps (w_disk st') \<and> writing d b e M (k + length ps - 1) (last ps) st') \<and>
    concat ps = cur @ concat (map with_eol lines) \<and> list_all (\<lambda>p. M \<le> utf8_size p) (butlast ps) \<and>
    (utf8_size cur < M \<longrightarrow> utf8_size (last ps) < M)"
  using writer_pieces [OF assms(1-7), of stamp] concat_log_pieces [of M cur lines] log_pieces_sizes [of M cur lines]
    assms(2)
  by (auto simp: ps_def)

definition sample_writer :: log_writer where
  "sample_writer = \<lparr>w_disk = [''/tmp/echo.txt'' \<mapsto> []], w_directory = ''/tmp'', w_filename = ''echo.txt'',
     w_file = Opened ''/tmp/echo.txt'', w_max_log_size = 10, w_stamps = 0\<rparr>"

theorem writer_refines_pieces_witness:
  "map (w_disk (snd (writer_rounds (\<lambda>_. ''<t>'') (\<lambda>_. True)
       (line_rounds [''hello'', ''big'' @ [newline], ''world'' @ [newline]]) sample_writer)))
     [''/tmp/echo.txt'', ''/tmp/echo.00001.txt'']
   = [Some (''hello[NO EOL]'' @ [newline] @ ''<t> GDM-M: Rotating from log file echo.txt to echo.00001.txt'' @ [newline]),
      Some (''big'' @ [newline] @ ''world'' @ [newline] @
        ''<t> GDM-M: Rotating from log file echo.00001.txt to echo.00002.txt'' @ [newline])]"
proof -
  let ?lines = "[''hello'', ''big'' @ [newline], ''world'' @ [newline]]"
  have names: "log_names ''/tmp'' ''echo'' ''txt''" by code_simp
  have w: "writing ''/tmp'' ''echo'' ''txt'' 10 0 [] sample_writer" by code_simp
  have zero: "nth_log ''/tmp'' ''echo'' ''txt'' 0 = ''/tmp/echo.txt''" by code_simp
  have "w_disk sample_writer (nth_log ''/tmp'' ''echo'' ''txt'' i) = None" if "0 < i \<and> i < 100000" for i
    using nth_log_inj [OF names, of 0 i] that zero by (auto simp: sample_writer_def)
  then have "\<forall>i. 0 < i \<and> i < 100000 \<longrightarrow> w_disk sample_writer (nth_log ''/tmp'' ''echo'' ''txt'' i) = None" by blast
  from writer_refines_pieces [OF names _ _ w _ _ this, of "\<lambda>_. True" ?lines "\<lambda>_. ''<t>''"]
  have "fst (writer_rounds (\<lambda>_. ''<t>'') (\<lambda>_. True) (line_rounds ?lines) sample_writer) = Inr ()"
    by (auto split: prod.splits)
  moreover have "map (w_disk (snd (writer_rounds (\<lambda>_. ''<t>'') (\<lambda>_. True) (line_rounds ?lines) sample_writer)))
     [''/tmp/echo.txt'', ''/tmp/echo.00001.txt'']
   = [Some (''hello[NO EOL]'' @ [newline] @ ''<t> GDM-M: Rotating from log file echo.txt to echo.00001.txt'' @ [newline]),
      Some (''big'' @ [newline] @ ''world'' @ [newline] @
        ''<t> GDM-M: Rotating from log file echo.00001.txt to echo.00002.txt'' @ [newline])]"
    by code_simp
  ultimately show ?thesis by blast
qed

end
