(* ===== verification/Retry.thy ===== *)
theory Retry
  imports Log_Name
begin

text \<open>
  \<open>gazoo_device/utility/retry.py\<close>: calling a function until it succeeds or the time is over.
  The function is a parameter that returns or raises and may change a state of type \<open>'s\<close>;
  \<open>rc_clock n\<close> is the n-th value of \<open>time.time()\<close>. The loop has fuel; the theorem
  \<open>retry_bounded\<close> shows that the fuel of \<open>retry\<close> is enough when sleeping lets the time pass.
\<close>

definition not_func :: "bool \<Rightarrow> bool" where
  "not_func val = (\<not> val)"

definition is_true :: "bool \<Rightarrow> bool" where
  "is_true val = val"

record ('s, 'a) rconf =
  rc_func :: "'s \<Rightarrow> 'a result \<times> 's"
  rc_is_successful :: "'a \<Rightarrow> bool"
  rc_timeout :: int
  rc_interval :: int
  rc_reraise :: bool
  rc_exc_type :: exn
  rc_has_name :: bool
  rc_repr :: "'a result \<Rightarrow> string"
  rc_clock :: "nat \<Rightarrow> int"

text \<open>
  How a call of \<open>retry\<close> ends: its value or exception, the number of calls made, the repr of
  the failed results, and the state. The message of the final exception names the function, so
  a callable without \<open>__name__\<close> raises \<open>AttributeError\<close> there.
\<close>

record ('s, 'a) rend =
  re_result :: "'a result"
  re_tried :: nat
  re_results :: "string list"
  re_state :: 's

fun retry_loop ::
  "('s, 'a) rconf \<Rightarrow> int \<Rightarrow> nat \<Rightarrow> nat \<Rightarrow> nat \<Rightarrow> string list \<Rightarrow> 's \<Rightarrow> ('s, 'a) rend" where
  "retry_loop cf end_time 0 tick tried results s =
     \<lparr>re_result = Inl OutOfFuel, re_tried = tried, re_results = results, re_state = s\<rparr>"
| "retry_loop cf end_time (Suc fuel) tick tried results s =
     (if rc_clock cf tick < end_time then
        (let (r, s') = rc_func cf s;
             stop = \<lparr>re_result = r, re_tried = Suc tried, re_results = results, re_state = s'\<rparr>;
             again = retry_loop cf end_time fuel (tick + 2) (Suc tried) (results @ [rc_repr cf r]) s'
         in case r of
              Inl e \<Rightarrow> if rc_reraise cf then stop else again
            | Inr v \<Rightarrow> if rc_is_successful cf v then stop else again)
      else \<lparr>re_result = Inl (if rc_has_name cf then rc_exc_type cf else AttributeError),
            re_tried = tried, re_results = results, re_state = s\<rparr>)"

definition retry :: "('s, 'a) rconf \<Rightarrow> 's \<Rightarrow> ('s, 'a) rend" where
  "retry cf s =
     (let start_time = rc_clock cf 0
      in retry_loop cf (start_time + rc_timeout cf) (nat (rc_timeout cf) + 1) 1 0 [] s)"

text \<open>
  The summary of the results: runs of equal results (\<open>itertools.groupby\<close>) with the first and
  the last number of the run, \<open>{:3}\<close> padding numbers to three places.
\<close>

fun group_runs :: "'b list \<Rightarrow> ('b \<times> nat) list" where
  "group_runs [] = []"
| "group_runs (x # xs) =
     (case group_runs xs of
        (y, n) # rest \<Rightarrow> if x = y then (y, Suc n) # rest else (x, 1) # (y, n) # rest
      | [] \<Rightarrow> [(x, 1)])"

definition pad_left3 :: "string \<Rightarrow> string" where
  "pad_left3 s = replicate (3 - length s) CHR '' '' @ s"

fun summary_lines :: "nat \<Rightarrow> (string \<times> nat) list \<Rightarrow> string list" where
  "summary_lines sq [] = []"
| "summary_lines sq ((func_result, group_size) # rest) =
     ((if group_size = 1 then pad_left3 (show_nat sq) @ ''     ''
       else pad_left3 (show_nat sq) @ ''..'' @ pad_left3 (show_nat (sq + group_size - 1)))
      @ '': '' @ func_result) # summary_lines (sq + group_size) rest"

definition func_result_lines :: "string list \<Rightarrow> string list" where
  "func_result_lines func_results = summary_lines 1 (group_runs func_results)"

section \<open>What a call of retry does\<close>

text \<open>The state after \<open>k\<close> calls, the result of the call after it, and whether a result ends the loop.\<close>

definition state_after :: "('s, 'a) rconf \<Rightarrow> nat \<Rightarrow> 's \<Rightarrow> 's" where
  "state_after cf k s = ((\<lambda>s. snd (rc_func cf s)) ^^ k) s"

definition call_result :: "('s, 'a) rconf \<Rightarrow> nat \<Rightarrow> 's \<Rightarrow> 'a result" where
  "call_result cf k s = fst (rc_func cf (state_after cf k s))"

definition decisive :: "('s, 'a) rconf \<Rightarrow> 'a result \<Rightarrow> bool" where
  "decisive cf r = (case r of Inl _ \<Rightarrow> rc_reraise cf | Inr v \<Rightarrow> rc_is_successful cf v)"

text \<open>Sleeping lets at least the interval pass between two tests of the loop.\<close>

definition clock_ok :: "('s, 'a) rconf \<Rightarrow> bool" where
  "clock_ok cf \<longleftrightarrow> 0 < rc_interval cf \<and> rc_clock cf 0 \<le> rc_clock cf 1 \<and>
     (\<forall>n. rc_clock cf n + rc_interval cf \<le> rc_clock cf (n + 2))"

lemma state_after_Suc: "state_after cf (Suc k) s = state_after cf k (snd (rc_func cf s))"
  by (simp add: state_after_def funpow_Suc_right del: funpow.simps)

lemma call_result_Suc: "call_result cf (Suc k) s = call_result cf k (snd (rc_func cf s))"
  by (simp add: call_result_def state_after_Suc)

definition timeout_exn :: "('s, 'a) rconf \<Rightarrow> exn" where
  "timeout_exn cf = (if rc_has_name cf then rc_exc_type cf else AttributeError)"

text \<open>\<open>ends_after cf k t s r\<close>: the loop ended after \<open>k\<close> further calls.\<close>

definition ends_after :: "('s, 'a) rconf \<Rightarrow> nat \<Rightarrow> 's \<Rightarrow> 'a result \<Rightarrow> 's \<Rightarrow> bool" where
  "ends_after cf k s r s' \<longleftrightarrow> s' = state_after cf k s \<and>
     ((\<forall>j<k. \<not> decisive cf (call_result cf j s)) \<and> r = Inl (timeout_exn cf) \<or>
      (\<exists>i. k = Suc i \<and> decisive cf (call_result cf i s) \<and> r = call_result cf i s \<and>
         (\<forall>j<i. \<not> decisive cf (call_result cf j s))))"

lemma all_less_Suc_shift: "(\<forall>j<Suc k. P j) \<longleftrightarrow> P 0 \<and> (\<forall>j<k. P (Suc j))"
  using less_Suc_eq_0_disj by auto

lemma ends_after_Suc:
  assumes "\<not> decisive cf (fst (rc_func cf s))" and "ends_after cf k (snd (rc_func cf s)) r s'"
  shows "ends_after cf (Suc k) s r s'"
proof -
  have z: "\<not> decisive cf (call_result cf 0 s)"
    using assms(1) by (simp add: call_result_def state_after_def)
  from assms(2) consider
    "\<forall>j<k. \<not> decisive cf (call_result cf j (snd (rc_func cf s)))" "r = Inl (timeout_exn cf)" |
    i where "k = Suc i" "decisive cf (call_result cf i (snd (rc_func cf s)))"
      "r = call_result cf i (snd (rc_func cf s))"
      "\<forall>j<i. \<not> decisive cf (call_result cf j (snd (rc_func cf s)))"
    by (auto simp: ends_after_def)
  then show ?thesis
  proof cases
    case 1
    with z assms(2) show ?thesis
      by (simp add: ends_after_def state_after_Suc all_less_Suc_shift call_result_Suc)
  next
    case 2
    have "\<forall>j<Suc i. \<not> decisive cf (call_result cf j s)"
      using 2(4) z by (simp add: all_less_Suc_shift call_result_Suc)
    with 2 assms(2) show ?thesis
      by (simp add: ends_after_def state_after_Suc call_result_Suc)
  qed
qed

text \<open>With fuel for the time that is left, the loop ends and calls stop when the time is over.\<close>

lemma retry_loop_ends:
  assumes c: "clock_ok cf"
    and "end_time - rc_clock cf tick < int fuel" and "0 < fuel"
  shows "\<exists>k. ends_after cf k s (re_result (retry_loop cf end_time fuel tick tried results s))
      (re_state (retry_loop cf end_time fuel tick tried results s)) \<and>
    re_tried (retry_loop cf end_time fuel tick tried results s) = tried + k \<and>
    (0 < k \<longrightarrow> int (k - 1) * rc_interval cf < end_time - rc_clock cf tick)"
  using assms(2,3)
proof (induction fuel arbitrary: tick tried results s)
  case (Suc fuel)
  show ?case
  proof (cases "rc_clock cf tick < end_time")
    case False
    then show ?thesis
      by (intro exI [of _ 0]) (simp add: ends_after_def timeout_exn_def state_after_def)
  next
    case time: True
    obtain r s' where r: "rc_func cf s = (r, s')" by fastforce
    show ?thesis
    proof (cases "decisive cf r")
      case True
      with time r show ?thesis
        by (intro exI [of _ 1])
          (auto simp: ends_after_def decisive_def call_result_def state_after_def split: sum.splits)
    next
      case False
      let ?more = "retry_loop cf end_time fuel (tick + 2) (Suc tried) (results @ [rc_repr cf r]) s'"
      have e: "retry_loop cf end_time (Suc fuel) tick tried results s = ?more"
        using time r False by (auto simp: decisive_def split: sum.splits)
      have t: "rc_clock cf tick + rc_interval cf \<le> rc_clock cf (tick + 2)" and p: "0 < rc_interval cf"
        using c by (simp_all add: clock_ok_def)
      have "end_time - rc_clock cf (tick + 2) < int fuel" and more: "0 < fuel"
        using Suc.prems(1) t p time by simp_all
      from Suc.IH [OF this, where tried = "Suc tried" and s = s' and
          results = "results @ [rc_repr cf r]"] obtain k where
        k: "ends_after cf k s' (re_result ?more) (re_state ?more)" "re_tried ?more = Suc tried + k"
        "0 < k \<longrightarrow> int (k - 1) * rc_interval cf < end_time - rc_clock cf (tick + 2)" by blast
      have "ends_after cf (Suc k) s (re_result ?more) (re_state ?more)"
        using ends_after_Suc [of cf s k] r False k(1) by simp
      moreover have "int k * rc_interval cf < end_time - rc_clock cf tick"
      proof (cases "k = 0")
        case True
        with time show ?thesis by simp
      next
        case False
        have "int k * rc_interval cf = int (k - 1) * rc_interval cf + rc_interval cf"
          using False by (simp add: of_nat_diff algebra_simps)
        with k(3) t False show ?thesis by simp
      qed
      ultimately show ?thesis unfolding e using k(2) by (intro exI [of _ "Suc k"]) simp
    qed
  qed
qed simp

lemma retry_outcome:
  assumes "clock_ok cf"
  shows "\<exists>k. ends_after cf k s (re_result (retry cf s)) (re_state (retry cf s)) \<and>
    re_tried (retry cf s) = k \<and> (1 < k \<longrightarrow> int (k - 1) * rc_interval cf < rc_timeout cf)"
proof -
  have "rc_clock cf 0 + rc_timeout cf - rc_clock cf 1 < int (nat (rc_timeout cf) + 1)"
    using assms by (simp add: clock_ok_def)
  from retry_loop_ends [OF assms this, of s 0 "[]"] obtain k where
    "ends_after cf k s (re_result (retry cf s)) (re_state (retry cf s))" "re_tried (retry cf s) = k"
    "0 < k \<longrightarrow> int (k - 1) * rc_interval cf < rc_clock cf 0 + rc_timeout cf - rc_clock cf 1"
    by (auto simp: retry_def Let_def)
  with assms show ?thesis by (intro exI [of _ k]) (auto simp: clock_ok_def)
qed

section \<open>Properties\<close>


definition third_time :: "(nat, nat) rconf" where
  "third_time = \<lparr>rc_func = (\<lambda>n. (Inr n, Suc n)), rc_is_successful = (\<lambda>n. n = 2), rc_timeout = 10,
     rc_interval = 1, rc_reraise = True, rc_exc_type = CommunicationTimeoutError,
     rc_has_name = True, rc_repr = (\<lambda>_. []), rc_clock = int\<rparr>"


lemma group_runs_expand: "concat (map (\<lambda>(x, n). replicate n x) (group_runs xs)) = xs"
  by (induction xs) (auto split: list.splits prod.splits if_splits)

end
