(* ===== verification/Host_Utils.thy ===== *)
theory Host_Utils
  imports Event_History Log_Writer Retry
begin

text \<open>
  \<open>gazoo_device/utility/host_utils.py\<close>: the commands and files of the host. The operating system
  is a record of tools over a state of type \<open>'s\<close>: running a command, asking for and changing
  files. What runs a command gives its end, or the exception with which it could not be run
  (\<open>TimeoutExpired\<close>, a missing program). The module keeps two values between calls, the gcloud
  command and the option of \<open>scp\<close>: they are the record \<open>host_cache\<close>.
\<close>

abbreviation TimeoutExpired :: exn where "TimeoutExpired \<equiv> OtherError 2"
abbreviation GcloudUnauthenticatedError :: exn where "GcloudUnauthenticatedError \<equiv> OtherError 3"
abbreviation DependencyUnavailableError :: exn where "DependencyUnavailableError \<equiv> OtherError 4"
abbreviation CommandFailed :: exn where "CommandFailed \<equiv> OtherError 1"

record command_end =
  ce_output :: string
  ce_stdout :: string
  ce_stderr :: string
  ce_code :: int

text \<open>\<open>ce_output\<close> is the output with the errors in it, as \<open>stderr=STDOUT\<close> gives it.\<close>

record key_info =
  ki_file_name :: string
  ki_is_ssh :: bool
  ki_package :: string

record 's host =
  h_run :: "string list \<Rightarrow> int option \<Rightarrow> 's \<Rightarrow> command_end result \<times> 's"
  h_which :: "string \<Rightarrow> string option"
  h_exists :: "string \<Rightarrow> 's \<Rightarrow> bool"
  h_isdir :: "string \<Rightarrow> 's \<Rightarrow> bool"
  h_isfile :: "string \<Rightarrow> 's \<Rightarrow> bool"
  h_makedirs :: "string \<Rightarrow> ('s, unit) stateful"
  h_remove :: "string \<Rightarrow> ('s, unit) stateful"
  h_rmtree :: "string \<Rightarrow> ('s, unit) stateful"
  h_mode :: "string \<Rightarrow> 's \<Rightarrow> string result"
  h_chmod :: "string \<Rightarrow> ('s, unit) stateful"
  h_download :: "key_info \<Rightarrow> string \<Rightarrow> ('s, unit) stateful"
  h_ip_version :: "string \<Rightarrow> nat result"
  h_keys_directory :: string
  h_home :: string

definition runS :: "'s host \<Rightarrow> string list \<Rightarrow> int option \<Rightarrow> ('s, command_end) stateful" where
  "runS h args timeout s = h_run h args timeout s"

text \<open>\<open>subprocess.check_output(..., stderr=STDOUT)\<close>\<close>

definition check_output :: "'s host \<Rightarrow> string list \<Rightarrow> ('s, string) stateful" where
  "check_output h args = bindS (runS h args None) (\<lambda>e.
     if ce_code e = 0 then returnS (ce_output e) else raiseS CommandFailed)"

section \<open>Patterns\<close>

fun suffixes_of :: "'a list \<Rightarrow> 'a list list" where
  "suffixes_of [] = [[]]"
| "suffixes_of (x # xs) = (x # xs) # suffixes_of xs"

text \<open>\<open>IP_ADDRESS\<close>: digits and full stops, four numbers.\<close>

fun ip_here :: "nat \<Rightarrow> string \<Rightarrow> bool" where
  "ip_here 0 s = (takeWhile is_digit s \<noteq> [])"
| "ip_here (Suc n) s =
     (takeWhile is_digit s \<noteq> [] \<and>
      (case dropWhile is_digit s of c # rest \<Rightarrow> c = CHR ''.'' \<and> ip_here n rest | [] \<Rightarrow> False))"

definition is_static_ip :: "string \<Rightarrow> bool" where
  "is_static_ip comm_port = list_ex (ip_here 3) (suffixes_of comm_port)"

text \<open>
  \<open>ARP_CONNECTED_IPS\<close>: the longest word of letters, digits, \<open>_\<close>, \<open>-\<close> and \<open>.\<close> that blanks and
  \<open>ether\<close> follow; \<open>findall\<close> goes on behind the match.
\<close>

definition is_word :: "char \<Rightarrow> bool" where
  "is_word c \<longleftrightarrow> (let n = of_char c :: nat in
     48 \<le> n \<and> n \<le> 57 \<or> 65 \<le> n \<and> n \<le> 90 \<or> n = 95 \<or> 97 \<le> n \<and> n \<le> 122 \<or>
     n \<in> {170, 178, 179, 181, 185, 186, 188, 189, 190} \<or> 192 \<le> n \<and> n \<noteq> 215 \<and> n \<noteq> 247)"

definition is_host_char :: "char \<Rightarrow> bool" where
  "is_host_char c \<longleftrightarrow> is_word c \<or> c = CHR ''-'' \<or> c = CHR ''.''"

definition ether_after :: "string \<Rightarrow> string option" where
  "ether_after s = (let r = dropWhile is_space s in
     if starts_with r ''ether'' then Some (drop (length ''ether'') r) else None)"

definition arp_here :: "string \<Rightarrow> (string \<times> string) option" where
  "arp_here s =
     (let n = length (takeWhile is_host_char s) in
      map_option (\<lambda>k. (take k s, the (ether_after (drop k s))))
        (find (\<lambda>k. ether_after (drop k s) \<noteq> None) (rev [0..<Suc n])))"

function find_arp :: "string \<Rightarrow> string list" where
  "find_arp s =
     (case arp_here s of
        Some (ip, rest) \<Rightarrow> if length rest < length s then ip # find_arp rest else [ip]
      | None \<Rightarrow> (case s of [] \<Rightarrow> [] | c # cs \<Rightarrow> find_arp cs))"
  by pat_completeness auto
termination by (relation "measure length") auto

section \<open>Looking at the host\<close>

definition get_key_path :: "'s host \<Rightarrow> key_info \<Rightarrow> string" where
  "get_key_path h key_info =
     path_join (path_join (h_keys_directory h) (ki_package key_info)) (ki_file_name key_info)"

definition get_command_path :: "'s host \<Rightarrow> string \<Rightarrow> string" where
  "get_command_path h command_name =
     (case h_which h command_name of
        Some path \<Rightarrow> if path \<noteq> [] then path else []
      | None \<Rightarrow> [])"

definition has_command :: "'s host \<Rightarrow> string \<Rightarrow> bool" where
  "has_command h command_name \<longleftrightarrow> get_command_path h command_name \<noteq> []"

definition get_all_connected_arp_ips :: "'s host \<Rightarrow> ('s, string list) stateful" where
  "get_all_connected_arp_ips h =
     catching {CommandFailed}
       (bindS (check_output h [''/usr/sbin/arp'', ''-e'']) (\<lambda>output. returnS (find_arp output)))
       (returnS [])"

definition is_in_arp_table :: "'s host \<Rightarrow> string \<Rightarrow> ('s, bool) stateful" where
  "is_in_arp_table h ip_address =
     bindS (get_all_connected_arp_ips h) (\<lambda>ips. returnS (ip_address \<in> set ips))"

definition is_in_ifconfig :: "'s host \<Rightarrow> string \<Rightarrow> ('s, bool) stateful" where
  "is_in_ifconfig h ip_or_mac_address =
     catching {CommandFailed}
       (bindS (check_output h [''ifconfig'']) (\<lambda>output. returnS (contains ip_or_mac_address output)))
       (returnS False)"

definition validate_ip_address :: "'s host \<Rightarrow> string \<Rightarrow> bool result" where
  "validate_ip_address h ip_address =
     (case h_ip_version h ip_address of
        Inl ValueError \<Rightarrow> Inr False | Inl e \<Rightarrow> Inl e | Inr _ \<Rightarrow> Inr True)"

text \<open>The flags are written in the order of their dictionary; one without a value is left out.\<close>

definition ping_flags :: "(string \<times> string option) list \<Rightarrow> string list" where
  "ping_flags flags_map = concat (map (\<lambda>(flag, v). case v of Some s \<Rightarrow> [flag, s] | None \<Rightarrow> []) flags_map)"

definition is_pingable :: "'s host \<Rightarrow> string \<Rightarrow> string \<Rightarrow> nat \<Rightarrow> string option \<Rightarrow> ('s, bool) stateful" where
  "is_pingable h ip_address timeout packet_count deadline =
     bindS (liftS (validate_ip_address h ip_address)) (\<lambda>valid.
       if \<not> valid then returnS False
       else catching {CommandFailed}
         (bindS (check_output h ([''ping''] @
             ping_flags [(''-c'', Some (show_nat packet_count)), (''-W'', Some timeout), (''-w'', deadline)] @
             [ip_address])) (\<lambda>_. returnS True))
         (returnS False))"

definition pings :: "'s host \<Rightarrow> string \<Rightarrow> ('s, bool) stateful" where
  "pings h ip_address = is_pingable h ip_address ''2'' 1 None"

text \<open>\<open>s.split()\<close>\<close>

fun py_split :: "string \<Rightarrow> string list" where
  "py_split [] = []"
| "py_split (c # cs) =
     (if is_space c then py_split cs
      else case py_split cs of
          [] \<Rightarrow> [[c]]
        | w # ws \<Rightarrow> if cs \<noteq> [] \<and> \<not> is_space (hd cs) then (c # w) # ws else [c] # w # ws)"

definition is_sshable :: "'s host \<Rightarrow> string \<Rightarrow> ('s, bool) stateful" where
  "is_sshable h ip_address =
     catching {CommandFailed}
       (bindS (check_output h (py_split (''nc -z -w 2 '' @ ip_address @ '' 22''))) (\<lambda>_. returnS True))
       (returnS False)"

definition accepts_snmp :: "'s host \<Rightarrow> string \<Rightarrow> ('s, bool) stateful" where
  "accepts_snmp h ip_address =
     catching {CommandFailed, TimeoutExpired}
       (bindS (runS h (py_split (''snmpget -v 2c -c private '' @ ip_address @ '' 1.3.6.1.2.1.1.1.0'')) (Some 3)) (\<lambda>e.
          if ce_code e = 0 then returnS True else raiseS CommandFailed))
       (returnS False)"

text \<open>
  Sets of addresses are lists without repeated elements; the order of their elements, which
  Python leaves open, is the one of the list.
\<close>

primrec filterS :: "('a \<Rightarrow> ('s, bool) stateful) \<Rightarrow> 'a list \<Rightarrow> ('s, 'a list) stateful" where
  "filterS f [] = returnS []"
| "filterS f (x # xs) =
     bindS (f x) (\<lambda>b. bindS (filterS f xs) (\<lambda>ys. returnS (if b then x # ys else ys)))"

definition without :: "'a list \<Rightarrow> 'a list \<Rightarrow> 'a list" where
  "without xs ys = filter (\<lambda>x. x \<notin> set ys) xs"

definition fails :: "('s, bool) stateful \<Rightarrow> ('s, bool) stateful" where
  "fails m = bindS m (\<lambda>b. returnS (\<not> b))"

definition get_all_ssh_ips :: "'s host \<Rightarrow> string list option \<Rightarrow> ('s, string list) stateful" where
  "get_all_ssh_ips h static_ips =
     (let ssh_ips = remdups (case static_ips of Some ips \<Rightarrow> ips | None \<Rightarrow> []) in
      bindS (filterS (\<lambda>ip. fails (pings h ip)) ssh_ips) (\<lambda>unpingable_ips.
        let ssh_ips = without ssh_ips unpingable_ips in
        bindS (filterS (\<lambda>ip. fails (is_sshable h ip)) ssh_ips) (\<lambda>unsshable_ips.
          returnS (without ssh_ips unsshable_ips))))"

definition get_all_snmp_ips :: "'s host \<Rightarrow> string list option \<Rightarrow> ('s, string list) stateful" where
  "get_all_snmp_ips h static_ips =
     bindS (filterS (pings h) (remdups (case static_ips of Some ips \<Rightarrow> ips | None \<Rightarrow> []))) (\<lambda>snmp_ips.
       bindS (filterS (\<lambda>ip. fails (accepts_snmp h ip)) snmp_ips) (\<lambda>non_snmp_ips.
         returnS (without snmp_ips non_snmp_ips)))"

definition get_all_yepkit_serials :: "'s host \<Rightarrow> ('s, string list) stateful" where
  "get_all_yepkit_serials h =
     (if \<not> has_command h ''ykushcmd'' then returnS []
      else exceptS
        (bindS (check_output h [''ykushcmd'', ''-l'']) (\<lambda>results.
           if contains ''No YKUSH boards found'' results then returnS []
           else returnS (drop 1 (filter (\<lambda>l. l \<noteq> []) (splitlines str_line_end results)))))
        (\<lambda>e. if e = CommandFailed then returnS [] else raiseS e))"

section \<open>Keys\<close>

definition set_key_permissions :: "'s host \<Rightarrow> string \<Rightarrow> ('s, unit) stateful" where
  "set_key_permissions h key_path =
     bindS (readS (h_mode h key_path)) (\<lambda>permissions.
       if permissions = ''400'' \<or> permissions = ''600'' then returnS ()
       else exceptS (h_chmod h key_path) (\<lambda>e. raiseS (if e = IOError then ValueError else e)))"

definition is_private_ssh_key :: "key_info \<Rightarrow> bool" where
  "is_private_ssh_key key_info \<longleftrightarrow> ki_is_ssh key_info \<and> \<not> ends_with (ki_file_name key_info) ''.pub''"

definition download_key :: "'s host \<Rightarrow> key_info \<Rightarrow> ('s, unit) stateful" where
  "download_key h key_info =
     (let key_path = get_key_path h key_info; package_key_folder = dirname key_path in
      bindS (askS (h_isdir h package_key_folder)) (\<lambda>there.
      bindS (whenS (\<not> there) (h_makedirs h package_key_folder)) (\<lambda>_.
      bindS (h_download h key_info key_path) (\<lambda>_.
      bindS (askS (h_exists h key_path)) (\<lambda>downloaded.
        if \<not> downloaded then raiseS IOError
        else whenS (is_private_ssh_key key_info) (set_key_permissions h key_path))))))"

definition verify_key :: "'s host \<Rightarrow> key_info \<Rightarrow> ('s, unit) stateful" where
  "verify_key h key_info =
     (let local_path = get_key_path h key_info in
      bindS (askS (h_exists h local_path)) (\<lambda>there.
      bindS (whenS (\<not> there) (download_key h key_info)) (\<lambda>_.
        whenS (is_private_ssh_key key_info) (set_key_permissions h local_path))))"

section \<open>Commands over ssh, scp, gcloud and curl\<close>

datatype command = Text_Command string | Args_Command "string list"

definition SSH_CONFIG :: "string list" where
  "SSH_CONFIG = [''-o'', ''PasswordAuthentication=no'', ''-o'', ''StrictHostKeyChecking=no'',
     ''-o'', ''BatchMode=yes'', ''-o'', ''ConnectTimeout=3'']"

definition DEFAULT_SSH_OPTIONS :: "string list" where
  "DEFAULT_SSH_OPTIONS = ''-T'' # SSH_CONFIG"

definition with_key :: "'s host \<Rightarrow> string list \<Rightarrow> key_info option \<Rightarrow> ('s, string list) stateful" where
  "with_key h options key =
     (case key of
        Some key_info \<Rightarrow> bindS (verify_key h key_info) (\<lambda>_. returnS (options @ [''-i'', get_key_path h key_info]))
      | None \<Rightarrow> returnS options)"

definition generate_ssh_args ::
  "'s host \<Rightarrow> string \<Rightarrow> string list \<Rightarrow> string \<Rightarrow> string list \<Rightarrow> key_info option \<Rightarrow> ('s, string list) stateful" where
  "generate_ssh_args h ip_address cmd user options key =
     bindS (with_key h options key) (\<lambda>options. returnS (options @ [user @ ''@'' @ ip_address] @ cmd))"

text \<open>The result: the output, and the return code when it is asked for.\<close>

definition ssh_command ::
  "'s host \<Rightarrow> string \<Rightarrow> command \<Rightarrow> string \<Rightarrow> string list \<Rightarrow> key_info option \<Rightarrow> int option \<Rightarrow> bool \<Rightarrow>
    ('s, string \<times> int option) stateful" where
  "ssh_command h ip_address cmd user options key timeout include_return_code =
     (case cmd of
        Text_Command _ \<Rightarrow> raiseS DeviceError
      | Args_Command words \<Rightarrow>
          bindS (generate_ssh_args h ip_address words user options key) (\<lambda>ssh_args.
            let ssh_list = ''ssh'' # ssh_args in
            if include_return_code then
              bindS (runS h ssh_list None) (\<lambda>result.
                returnS (if ce_code result = 0 then ce_stdout result else ce_stderr result, Some (ce_code result)))
            else
              bindS (runS h ssh_list timeout) (\<lambda>result.
                if ce_code result = 0 then returnS (ce_output result, None) else raiseS RuntimeError)))"

record host_cache =
  hc_gcloud_cli :: "string option"
  hc_scp_option :: "string list option"

text \<open>A step of the host inside a function that also keeps the values of the module.\<close>

definition onHost :: "('s, 'a) stateful \<Rightarrow> (host_cache \<times> 's, 'a) stateful" where
  "onHost m = (\<lambda>(c, s). case m s of (r, s') \<Rightarrow> (r, (c, s')))"

definition keep_scp_option :: "string list \<Rightarrow> (host_cache \<times> 's, string list) stateful" where
  "keep_scp_option opt cs = (Inr opt, ((fst cs)\<lparr>hc_scp_option := Some opt\<rparr>, snd cs))"

definition get_scp_command ::
  "'s host \<Rightarrow> string \<Rightarrow> string \<Rightarrow> string list \<Rightarrow> (host_cache \<times> 's, string list) stateful" where
  "get_scp_command h src dest ssh_opt =
     bindS (askS (\<lambda>cs. hc_scp_option (fst cs))) (\<lambda>known.
     bindS
       (case known of
          Some opt \<Rightarrow> returnS opt
        | None \<Rightarrow>
            bindS (onHost (runS h [''scp'', ''-O''] None)) (\<lambda>process.
              keep_scp_option
                (if list_ex (\<lambda>w. contains (w @ '' option -- O'') (ce_stderr process)) [''unknown'', ''illegal'']
                 then [] else [''-O''])))
       (\<lambda>opt. returnS ([''scp'', ''-r''] @ opt @ ssh_opt @ [src, dest])))"

definition scp :: "'s host \<Rightarrow> string \<Rightarrow> string \<Rightarrow> string list \<Rightarrow> key_info option \<Rightarrow> (host_cache \<times> 's, string) stateful" where
  "scp h source destination options key =
     bindS (onHost (with_key h options key)) (\<lambda>options.
     bindS (get_scp_command h source destination options) (\<lambda>args.
       exceptS (onHost (check_output h args)) (\<lambda>e. raiseS (if e = CommandFailed then RuntimeError else e))))"

text \<open>\<open>user@host:path\<close>, an IPv6 address in brackets.\<close>

definition remote_path :: "'s host \<Rightarrow> string \<Rightarrow> string \<Rightarrow> string \<Rightarrow> string result" where
  "remote_path h ip_address remote_file_path user =
     bindE (h_ip_version h ip_address) (\<lambda>version.
       Inr (user @ ''@'' @ (if version = 6 then ''['' @ ip_address @ '']'' else ip_address) @ '':'' @ remote_file_path))"

definition scp_to_device ::
  "'s host \<Rightarrow> string \<Rightarrow> string \<Rightarrow> string \<Rightarrow> string \<Rightarrow> string list \<Rightarrow> key_info option \<Rightarrow> (host_cache \<times> 's, string) stateful" where
  "scp_to_device h ip_address local_file_path remote_file_path user options key =
     bindS (liftS (remote_path h ip_address remote_file_path user)) (\<lambda>remote.
       scp h local_file_path remote options key)"

definition scp_from_device ::
  "'s host \<Rightarrow> string \<Rightarrow> string \<Rightarrow> string \<Rightarrow> string \<Rightarrow> string list \<Rightarrow> key_info option \<Rightarrow> (host_cache \<times> 's, string) stateful" where
  "scp_from_device h ip_address local_file_path remote_file_path user options key =
     bindS (liftS (remote_path h ip_address remote_file_path user)) (\<lambda>remote.
       scp h remote local_file_path options key)"

definition possible_clis :: "'s host \<Rightarrow> string list" where
  "possible_clis h = [get_command_path h ''gcloud'',
     path_join (path_join (path_join (h_home h) ''gazoo'') ''bin'') ''gcloud'', ''/usr/local/bin/gcloud'']"

definition set_gcloud_cli :: "'s host \<Rightarrow> (host_cache \<times> 's, unit) stateful" where
  "set_gcloud_cli h = (\<lambda>(c, s).
     if hc_gcloud_cli c \<noteq> None then (Inr (), (c, s))
     else case find (\<lambda>cli. h_exists h cli s) (possible_clis h) of
         Some cli \<Rightarrow> (Inr (), (c\<lparr>hc_gcloud_cli := Some cli\<rparr>, s))
       | None \<Rightarrow> (Inl DependencyUnavailableError, (c, s)))"

definition gcs_command ::
  "'s host \<Rightarrow> string \<Rightarrow> string \<Rightarrow> string list option \<Rightarrow> string list option \<Rightarrow> (host_cache \<times> 's, string) stateful" where
  "gcs_command h cmd gcs_path extra_args cmd_args =
     bindS (set_gcloud_cli h) (\<lambda>_.
     bindS (askS (\<lambda>cs. hc_gcloud_cli (fst cs))) (\<lambda>cli.
       let cmd_list = [the cli, ''storage'', cmd] @ (case cmd_args of Some a \<Rightarrow> a | None \<Rightarrow> []) @
         [gcs_path] @ (case extra_args of Some a \<Rightarrow> a | None \<Rightarrow> [])
       in bindS (onHost (runS h cmd_list None)) (\<lambda>e.
         if ce_code e = 0 then returnS (ce_output e)
         else if contains ''Invalid Credentials'' (ce_output e) \<or> contains ''gcloud auth login'' (ce_output e)
         then raiseS GcloudUnauthenticatedError
         else raiseS RuntimeError)))"

definition curl_command :: "'s host \<Rightarrow> string list \<Rightarrow> bool \<Rightarrow> ('s, unit) stateful" where
  "curl_command h cmd_list raise_error =
     (let full_cmd_list = [''curl''] @ cmd_list @
        (if raise_error \<and> ''--fail-with-body'' \<notin> set cmd_list then [''--fail-with-body''] else [])
      in bindS (runS h full_cmd_list None) (\<lambda>e. if ce_code e = 0 then returnS () else raiseS RuntimeError))"

definition delete_path :: "'s host \<Rightarrow> string \<Rightarrow> bool \<Rightarrow> ('s, unit) stateful" where
  "delete_path h path check_path_exists =
     catching {IOError}
       (bindS (askS (h_exists h path)) (\<lambda>there.
          if check_path_exists \<and> \<not> there then raiseS IOError
          else bindS (askS (\<lambda>s. (h_isdir h path s, h_isfile h path s))) (\<lambda>(is_dir, is_file).
            if is_dir then h_rmtree h path else whenS is_file (h_remove h path))))
       (returnS ())"

definition run_command :: "'s host \<Rightarrow> string \<Rightarrow> int option \<Rightarrow> ('s, string) stateful" where
  "run_command h cmd timeout =
     bindS (runS h (py_split cmd) timeout) (\<lambda>e.
       if ce_code e = 0 then returnS (ce_stdout e) else raiseS CommandFailed)"

section \<open>A verified key is private\<close>

text \<open>What \<open>chmod\<close> does to the file, when it succeeds.\<close>

definition chmod_ok :: "'s host \<Rightarrow> bool" where
  "chmod_ok h \<longleftrightarrow> (\<forall>p s s'. h_chmod h p s = (Inr (), s') \<longrightarrow>
     h_mode h p s' = Inr ''400'' \<and> h_exists h p s' = h_exists h p s)"

definition key_private :: "'s host \<Rightarrow> string \<Rightarrow> 's \<Rightarrow> bool" where
  "key_private h p s \<longleftrightarrow> h_mode h p s = Inr ''400'' \<or> h_mode h p s = Inr ''600''"

lemma set_key_permissions_private:
  assumes "chmod_ok h" and "set_key_permissions h p s = (Inr (), s')"
  shows "key_private h p s' \<and> h_exists h p s' = h_exists h p s"
proof -
  obtain m where m: "h_mode h p s = Inr m"
    using assms(2) by (cases "h_mode h p s") (simp_all add: set_key_permissions_def bindS_def readS_def)
  consider "m = ''400'' \<or> m = ''600''" "s' = s" | "h_chmod h p s = (Inr (), s')"
    using assms(2) m
    by (auto simp: set_key_permissions_def bindS_def readS_def returnS_def exceptS_def raiseS_def split: if_splits prod.splits sum.splits)
  then show ?thesis
  proof cases
    case 1
    with m show ?thesis by (auto simp: key_private_def)
  next
    case 2
    with assms(1) show ?thesis unfolding chmod_ok_def key_private_def by blast
  qed
qed

lemma whenS_cases:
  "whenS b m s = (Inr (), s') \<longleftrightarrow> (if b then m s = (Inr (), s') else s' = s)"
  by (auto simp: whenS_def returnS_def)

lemma download_key_there:
  assumes "chmod_ok h" and "download_key h k s = (Inr (), s')"
  shows "h_exists h (get_key_path h k) s'"
proof -
  obtain s1 where e: "h_exists h (get_key_path h k) s1"
    and w: "whenS (is_private_ssh_key k) (set_key_permissions h (get_key_path h k)) s1 = (Inr (), s')"
    using assms(2) by (auto simp: download_key_def Let_def bindS_eq_Inr askS_def raiseS_def split: if_splits)
  show ?thesis
  proof (cases "is_private_ssh_key k")
    case True
    with w e set_key_permissions_private [OF assms(1)] show ?thesis by (simp add: whenS_cases)
  next
    case False
    with w e show ?thesis by (simp add: whenS_cases)
  qed
qed

lemma verify_key_private:
  assumes "chmod_ok h" and "verify_key h k s = (Inr (), s')"
  shows "h_exists h (get_key_path h k) s' \<and> (is_private_ssh_key k \<longrightarrow> key_private h (get_key_path h k) s')"
proof -
  let ?p = "get_key_path h k"
  obtain s1 where s1: "whenS (\<not> h_exists h ?p s) (download_key h k) s = (Inr (), s1)"
    and w: "whenS (is_private_ssh_key k) (set_key_permissions h ?p) s1 = (Inr (), s')"
    using assms(2) by (auto simp: verify_key_def Let_def bindS_eq_Inr askS_def)
  have e: "h_exists h ?p s1"
    using s1 download_key_there [OF assms(1)] by (cases "h_exists h ?p s") (simp_all add: whenS_cases)
  show ?thesis
  proof (cases "is_private_ssh_key k")
    case True
    with w e set_key_permissions_private [OF assms(1), of ?p s1 s'] show ?thesis by (simp add: whenS_cases)
  next
    case False
    with w e show ?thesis by (simp add: whenS_cases)
  qed
qed

end
