(* ===== verification/Adb_Utils.thy ===== *)
theory Adb_Utils
  imports Host_Utils
begin

text \<open>
  \<open>gazoo_device/utility/adb_utils.py\<close>: the commands \<open>adb\<close> and \<open>fastboot\<close>. To the host come the
  processes that are started and talked to (\<open>Popen\<close>), the configuration file, sleeping and the
  clock. A process is a number; \<open>communicate\<close> with a time-out raises \<open>TimeoutExpired\<close>.
\<close>

record 's adb_host =
  a_host :: "'s host"
  a_popen :: "string list \<Rightarrow> ('s, nat) stateful"
  a_communicate :: "nat \<Rightarrow> int option \<Rightarrow> ('s, string) stateful"
  a_terminate :: "nat \<Rightarrow> 's \<Rightarrow> 's"
  a_returncode :: "nat \<Rightarrow> 's \<Rightarrow> int"
  a_config :: "'s \<Rightarrow> string option result"
  a_sleep :: "int \<Rightarrow> 's \<Rightarrow> 's"
  a_time :: "'s \<Rightarrow> int"
  a_clock :: "'s \<Rightarrow> int \<Rightarrow> nat \<Rightarrow> int"

text \<open>\<open>a_config\<close> is the entry of the path of adb in the configuration file of the user, \<open>a_clock\<close>
  the clock of \<open>retry\<close>.\<close>

datatype adb_state =
  BOOTLOADER | DEVICE | HOST | OFFLINE | NO_PERMISSIONS | RECOVERY | SIDELOAD | UNAUTHORIZED | UNKNOWN | UNRECOGNIZED

fun state_value :: "adb_state \<Rightarrow> string" where
  "state_value BOOTLOADER = ''bootloader''"
| "state_value DEVICE = ''device''"
| "state_value HOST = ''host''"
| "state_value OFFLINE = ''offline''"
| "state_value NO_PERMISSIONS = ''no permissions''"
| "state_value RECOVERY = ''recovery''"
| "state_value SIDELOAD = ''sideload''"
| "state_value UNAUTHORIZED = ''unauthorized''"
| "state_value UNKNOWN = ''unknown''"
| "state_value UNRECOGNIZED = ''unrecognized''"

definition adb_states :: "adb_state list" where
  "adb_states = [BOOTLOADER, DEVICE, HOST, OFFLINE, NO_PERMISSIONS, RECOVERY, SIDELOAD, UNAUTHORIZED, UNKNOWN, UNRECOGNIZED]"

text \<open>\<open>AdbDeviceState(value)\<close>\<close>

definition adb_state_of :: "string \<Rightarrow> adb_state option" where
  "adb_state_of v = find (\<lambda>st. state_value st = v) adb_states"

section \<open>Paths\<close>

text \<open>\<open>path and os.path.exists(path)\<close>, of a path that may be \<open>None\<close>.\<close>

definition is_valid_path :: "'s adb_host \<Rightarrow> string option \<Rightarrow> 's \<Rightarrow> bool" where
  "is_valid_path h path s = (case path of None \<Rightarrow> False | Some p \<Rightarrow> p \<noteq> [] \<and> h_exists (a_host h) p s)"

definition which_or_fail :: "'s adb_host \<Rightarrow> string \<Rightarrow> ('s, string) stateful" where
  "which_or_fail h name =
     (if has_command (a_host h) name then returnS (get_command_path (a_host h) name) else raiseS RuntimeError)"

definition get_adb_path :: "'s adb_host \<Rightarrow> string option \<Rightarrow> ('s, string) stateful" where
  "get_adb_path h adb_path =
     bindS (askS (is_valid_path h adb_path)) (\<lambda>valid.
       if valid then returnS (the adb_path)
       else bindS (askS (a_config h)) (\<lambda>configured.
         case configured of
           Inl e \<Rightarrow> if e \<in> {IOError, KeyError, ValueError} then which_or_fail h ''adb'' else raiseS e
         | Inr path \<Rightarrow> bindS (askS (is_valid_path h path)) (\<lambda>valid.
             if valid then returnS (the path) else which_or_fail h ''adb'')))"

definition get_fastboot_path :: "'s adb_host \<Rightarrow> string option \<Rightarrow> ('s, string) stateful" where
  "get_fastboot_path h fastboot_path =
     bindS (askS (is_valid_path h fastboot_path)) (\<lambda>valid.
       if valid then returnS (the fastboot_path) else which_or_fail h ''fastboot'')"

section \<open>Running adb and fastboot\<close>

fun command_args :: "command \<Rightarrow> string list" where
  "command_args (Text_Command c) = [c]"
| "command_args (Args_Command cs) = cs"

definition ADB_RETRY_SLEEP :: int where
  "ADB_RETRY_SLEEP = 10"

definition adb_failed :: "string \<Rightarrow> bool" where
  "adb_failed output \<longleftrightarrow> list_ex (\<lambda>msg. contains msg output) [''error: closed'', ''adb: device offline'']"

text \<open>One run: starting adb, its output, and its return code; it is terminated when its time is up.\<close>

definition adb_run :: "'s adb_host \<Rightarrow> string list \<Rightarrow> int option \<Rightarrow> ('s, string \<times> int) stateful" where
  "adb_run h args timeout =
     bindS (a_popen h args) (\<lambda>proc.
     bindS (exceptS (a_communicate h proc timeout) (\<lambda>e.
         if e = TimeoutExpired then bindS (doS (a_terminate h proc)) (\<lambda>_. a_communicate h proc None)
         else raiseS e)) (\<lambda>output.
     bindS (askS (a_returncode h proc)) (\<lambda>returncode. returnS (output, returncode))))"

text \<open>
  The loop over the tries. After the loop the last output is named in the exception; without a
  try there is no output to name.
\<close>

fun adb_tries ::
  "'s adb_host \<Rightarrow> string list \<Rightarrow> int option \<Rightarrow> bool \<Rightarrow> nat \<Rightarrow> nat \<Rightarrow> ('s, string \<times> int option) stateful" where
  "adb_tries h args timeout include_return_code 0 retries =
     raiseS (if retries = 0 then UnboundLocalError else DeviceError)"
| "adb_tries h args timeout include_return_code (Suc left) retries =
     bindS (adb_run h args timeout) (\<lambda>(output, returncode).
       if include_return_code then returnS (output, Some returncode)
       else if \<not> adb_failed output then returnS (output, None)
       else bindS (if 0 < left then doS (a_sleep h ADB_RETRY_SLEEP) else returnS ()) (\<lambda>_.
         adb_tries h args timeout include_return_code left retries))"

definition adb_args :: "string \<Rightarrow> string option \<Rightarrow> command \<Rightarrow> string list" where
  "adb_args adb_path adb_serial cmd =
     (case adb_serial of None \<Rightarrow> [adb_path] | Some serial \<Rightarrow> [adb_path, ''-s'', serial]) @ command_args cmd"

definition adb_command ::
  "'s adb_host \<Rightarrow> command \<Rightarrow> string option \<Rightarrow> string option \<Rightarrow> bool \<Rightarrow> int option \<Rightarrow> int \<Rightarrow>
    ('s, string \<times> int option) stateful" where
  "adb_command h cmd adb_serial adb_path include_return_code timeout retries =
     bindS (get_adb_path h adb_path) (\<lambda>adb_path.
       adb_tries h (adb_args adb_path adb_serial cmd) timeout include_return_code (nat retries) (nat retries))"

text \<open>The two ways of calling it: the output alone, and the output with the return code.\<close>

definition adb_text :: "'s adb_host \<Rightarrow> command \<Rightarrow> string option \<Rightarrow> string option \<Rightarrow> int \<Rightarrow> ('s, string) stateful" where
  "adb_text h cmd adb_serial adb_path retries =
     bindS (adb_command h cmd adb_serial adb_path False None retries) (\<lambda>(output, _). returnS output)"

definition adb_coded ::
  "'s adb_host \<Rightarrow> command \<Rightarrow> string option \<Rightarrow> string option \<Rightarrow> int option \<Rightarrow> ('s, string \<times> int) stateful" where
  "adb_coded h cmd adb_serial adb_path timeout =
     bindS (adb_command h cmd adb_serial adb_path True timeout 1) (\<lambda>(output, code). returnS (output, the code))"

definition fastboot_command ::
  "'s adb_host \<Rightarrow> command \<Rightarrow> string option \<Rightarrow> string option \<Rightarrow> bool \<Rightarrow> string \<Rightarrow>
    ('s, string \<times> int option) stateful" where
  "fastboot_command h cmd fastboot_serial fastboot_path include_return_code timeout =
     bindS (case fastboot_path of None \<Rightarrow> get_fastboot_path h None | Some p \<Rightarrow> returnS p) (\<lambda>fastboot_path.
     bindS (askS (h_exists (a_host h) fastboot_path)) (\<lambda>there.
       if \<not> there then raiseS RuntimeError
       else
         let args = [''timeout'', timeout, fastboot_path] @
               (case fastboot_serial of None \<Rightarrow> [] | Some serial \<Rightarrow> [''-s'', serial]) @ command_args cmd
         in bindS (a_popen h args) (\<lambda>proc.
            bindS (a_communicate h proc None) (\<lambda>output.
            bindS (askS (a_returncode h proc)) (\<lambda>returncode.
              returnS (output, if include_return_code then Some returncode else None))))))"

definition fastboot_text :: "'s adb_host \<Rightarrow> command \<Rightarrow> string option \<Rightarrow> string option \<Rightarrow> string \<Rightarrow> ('s, string) stateful" where
  "fastboot_text h cmd fastboot_serial fastboot_path timeout =
     bindS (fastboot_command h cmd fastboot_serial fastboot_path False timeout) (\<lambda>(output, _). returnS output)"

section \<open>The devices of adb\<close>

definition output_start_marker :: string where
  "output_start_marker = ''List of devices attached''"

definition tab :: char where
  "tab = CHR 0x09"

fun after_first :: "'a \<Rightarrow> 'a list \<Rightarrow> 'a list" where
  "after_first x [] = []"
| "after_first x (y # ys) = (if x = y then ys else after_first x ys)"

definition device_state_of :: "string \<Rightarrow> adb_state" where
  "device_state_of device_state_str =
     (if contains ''no permissions'' device_state_str then NO_PERMISSIONS
      else case adb_state_of device_state_str of Some st \<Rightarrow> st | None \<Rightarrow> UNRECOGNIZED)"

definition parse_devices :: "string \<Rightarrow> adb_state option \<Rightarrow> (string \<times> adb_state) list" where
  "parse_devices output state =
     (let output_lines = splitlines str_line_end output;
          device_lines = filter (\<lambda>line. line \<noteq> [] \<and> tab \<in> set line) (after_first output_start_marker output_lines);
          identifiers_and_states = map (\<lambda>device_line.
            (takeWhile (\<lambda>c. c \<noteq> tab) device_line, device_state_of (tl (dropWhile (\<lambda>c. c \<noteq> tab) device_line)))) device_lines
      in filter (\<lambda>(_, device_state). state = None \<or> state = Some device_state) identifiers_and_states)"

text \<open>
  Only \<open>RuntimeError\<close> is caught: the \<open>DeviceError\<close> of a failed command goes on. Without the
  marker nothing follows it.
\<close>

definition adb_devices :: "'s adb_host \<Rightarrow> string option \<Rightarrow> adb_state option \<Rightarrow> ('s, (string \<times> adb_state) list) stateful" where
  "adb_devices h adb_path state =
     exceptS (bindS (adb_text h (Text_Command ''devices'') None adb_path 1) (\<lambda>output.
         returnS (parse_devices output state)))
       (\<lambda>e. if e = RuntimeError then returnS [] else raiseS e)"

definition get_adb_devices :: "'s adb_host \<Rightarrow> string option \<Rightarrow> ('s, string list) stateful" where
  "get_adb_devices h adb_path = bindS (adb_devices h adb_path (Some DEVICE)) (\<lambda>ds. returnS (map fst ds))"

definition get_sideload_devices :: "'s adb_host \<Rightarrow> string option \<Rightarrow> ('s, string list) stateful" where
  "get_sideload_devices h adb_path = bindS (adb_devices h adb_path (Some SIDELOAD)) (\<lambda>ds. returnS (map fst ds))"

definition is_adb_mode :: "'s adb_host \<Rightarrow> string \<Rightarrow> string option \<Rightarrow> ('s, bool) stateful" where
  "is_adb_mode h adb_identifier adb_path =
     bindS (get_adb_devices h adb_path) (\<lambda>devices.
       let is_available = (adb_identifier \<in> set devices) in
       if \<not> is_static_ip adb_identifier then returnS is_available
       else if \<not> is_available then returnS False
       else pings (a_host h) (takeWhile (\<lambda>c. c \<noteq> CHR '':'') adb_identifier))"

definition is_sideload_mode :: "'s adb_host \<Rightarrow> string \<Rightarrow> string option \<Rightarrow> ('s, bool) stateful" where
  "is_sideload_mode h adb_identifier adb_path =
     bindS (get_sideload_devices h adb_path) (\<lambda>devices. returnS (adb_identifier \<in> set devices))"

definition get_fastboot_devices :: "'s adb_host \<Rightarrow> string option \<Rightarrow> ('s, string list) stateful" where
  "get_fastboot_devices h fastboot_path =
     exceptS (bindS (exceptS (bindS (get_fastboot_path h fastboot_path) (\<lambda>p. returnS (Some p)))
         (\<lambda>e. if e = RuntimeError then returnS None else raiseS e)) (\<lambda>path.
       case path of
         None \<Rightarrow> returnS []
       | Some p \<Rightarrow>
           bindS (check_output (a_host h) [p, ''devices'']) (\<lambda>output.
             liftS (mapE (\<lambda>x. case py_split x of w # _ \<Rightarrow> Inr w | [] \<Rightarrow> Inl IndexError)
               (filter (\<lambda>x. contains ''astboot'' x) (splitlines str_line_end output))))))
       (\<lambda>e. if e = CommandFailed then returnS [] else raiseS e)"

definition is_fastboot_mode :: "'s adb_host \<Rightarrow> string \<Rightarrow> string option \<Rightarrow> ('s, bool) stateful" where
  "is_fastboot_mode h adb_serial fastboot_path =
     bindS (get_fastboot_devices h fastboot_path) (\<lambda>devices. returnS (adb_serial \<in> set devices))"

definition is_device_online :: "'s adb_host \<Rightarrow> string \<Rightarrow> string option \<Rightarrow> string option \<Rightarrow> ('s, bool) stateful" where
  "is_device_online h adb_serial adb_path fastboot_path =
     bindS (is_adb_mode h adb_serial adb_path) (\<lambda>b.
       if b then returnS True else is_fastboot_mode h adb_serial fastboot_path)"

section \<open>Connecting over IP\<close>

definition DEFAULT_PORT :: nat where
  "DEFAULT_PORT = 5555"

definition get_adb_over_ip_identifier :: "string \<Rightarrow> nat \<Rightarrow> string result" where
  "get_adb_over_ip_identifier adb_identifier port =
     (if \<not> is_static_ip adb_identifier then Inl ValueError
      else Inr (if contains '':'' adb_identifier then adb_identifier else adb_identifier @ '':'' @ show_nat port))"

definition is_connect_successful :: "string \<times> int \<Rightarrow> bool" where
  "is_connect_successful output_and_return_code =
     (case output_and_return_code of (output, return_code) \<Rightarrow>
        return_code = 0 \<and>
        list_all (\<lambda>marker. \<not> contains marker output)
          [''failed to connect'', ''failed to resolve host'', ''missing port in specification'', ''unable to connect''])"

text \<open>\<open>retry.retry\<close> of a function of the module, and its time-out as a \<open>DeviceError\<close>.\<close>

definition retry_conf ::
  "'s adb_host \<Rightarrow> ('s, 'a) stateful \<Rightarrow> ('a \<Rightarrow> bool) \<Rightarrow> int \<Rightarrow> int \<Rightarrow> bool \<Rightarrow> 's \<Rightarrow> ('s, 'a) rconf" where
  "retry_conf h f ok timeout interval reraise s =
     \<lparr>rc_func = f, rc_is_successful = ok, rc_timeout = timeout, rc_interval = interval, rc_reraise = reraise,
      rc_exc_type = CommunicationTimeoutError, rc_has_name = True, rc_repr = (\<lambda>_. []), rc_clock = a_clock h s interval\<rparr>"

definition retryS ::
  "'s adb_host \<Rightarrow> ('s, 'a) stateful \<Rightarrow> ('a \<Rightarrow> bool) \<Rightarrow> int \<Rightarrow> int \<Rightarrow> bool \<Rightarrow> ('s, 'a) stateful" where
  "retryS h f ok timeout interval reraise s =
     (let e = retry (retry_conf h f ok timeout interval reraise s) s in (re_result e, re_state e))"

definition or_device_error :: "('s, 'a) stateful \<Rightarrow> ('s, 'a) stateful" where
  "or_device_error m = exceptS m (\<lambda>e. raiseS (if e = CommunicationTimeoutError then DeviceError else e))"

definition connect :: "'s adb_host \<Rightarrow> string \<Rightarrow> int \<Rightarrow> int \<Rightarrow> ('s, string) stateful" where
  "connect h adb_identifier attempts verification_timeout_s =
     bindS (liftS (get_adb_over_ip_identifier adb_identifier DEFAULT_PORT)) (\<lambda>adb_identifier.
     bindS (or_device_error (retryS h (adb_coded h (Args_Command [''connect'', adb_identifier]) None None None)
         is_connect_successful (3 * attempts) 3 False)) (\<lambda>(output, _).
     bindS (or_device_error (retryS h (is_adb_mode h adb_identifier None) is_true verification_timeout_s 1 True)) (\<lambda>_.
       returnS output)))"

definition is_disconnected :: "'s adb_host \<Rightarrow> string \<Rightarrow> ('s, bool) stateful" where
  "is_disconnected h adb_identifier =
     bindS (adb_devices h None None) (\<lambda>devices. returnS (adb_identifier \<notin> set (map fst devices)))"

definition disconnect :: "'s adb_host \<Rightarrow> string \<Rightarrow> int \<Rightarrow> int \<Rightarrow> ('s, string) stateful" where
  "disconnect h adb_identifier attempts verification_timeout_s =
     bindS (liftS (get_adb_over_ip_identifier adb_identifier DEFAULT_PORT)) (\<lambda>adb_identifier.
     bindS (or_device_error (retryS h (adb_coded h (Args_Command [''disconnect'', adb_identifier]) None None None)
         (\<lambda>output_and_code. snd output_and_code = 0) (3 * attempts) 3 False)) (\<lambda>(output, _).
     bindS (or_device_error (retryS h (is_disconnected h adb_identifier) is_true verification_timeout_s 1 True)) (\<lambda>_.
       returnS output)))"

definition wait_for_device :: "'s adb_host \<Rightarrow> string \<Rightarrow> int \<Rightarrow> ('s, unit) stateful" where
  "wait_for_device h adb_identifier timeout =
     bindS (adb_coded h (Text_Command ''wait-for-device'') (Some adb_identifier) None (Some timeout)) (\<lambda>(_, return_code).
       if return_code \<noteq> 0 then raiseS CommunicationTimeoutError else returnS ())"

text \<open>A loop that may not end: \<open>None\<close> when it does not.\<close>

partial_function (option) wait_offline_loop ::
  "'s adb_host \<Rightarrow> string \<Rightarrow> int \<Rightarrow> int \<Rightarrow> 's \<Rightarrow> (unit result \<times> 's) option" where
  "wait_offline_loop h adb_identifier end_time check_interval s =
     (case is_adb_mode h adb_identifier None s of
        (Inl e, s') \<Rightarrow> Some (Inl e, s')
      | (Inr online, s') \<Rightarrow>
          if \<not> online then Some (Inr (), s')
          else if end_time < a_time h s' then Some (Inl CommunicationTimeoutError, s')
          else wait_offline_loop h adb_identifier end_time check_interval (a_sleep h check_interval s'))"

definition wait_for_device_offline ::
  "'s adb_host \<Rightarrow> string \<Rightarrow> int \<Rightarrow> int \<Rightarrow> 's \<Rightarrow> (unit result \<times> 's) option" where
  "wait_for_device_offline h adb_identifier timeout check_interval s =
     wait_offline_loop h adb_identifier (a_time h s + timeout) check_interval s"

section \<open>Commands to a device\<close>

definition shell ::
  "'s adb_host \<Rightarrow> string \<Rightarrow> string \<Rightarrow> string option \<Rightarrow> int option \<Rightarrow> int \<Rightarrow> bool \<Rightarrow> ('s, string \<times> int option) stateful" where
  "shell h adb_serial cmd adb_path timeout retries include_return_code =
     adb_command h (Args_Command [''shell'', cmd]) (Some adb_serial) adb_path include_return_code timeout retries"

definition enter_fastboot :: "'s adb_host \<Rightarrow> string \<Rightarrow> string option \<Rightarrow> ('s, string) stateful" where
  "enter_fastboot h adb_serial adb_path = adb_text h (Args_Command [''reboot'', ''bootloader'']) (Some adb_serial) adb_path 1"

definition exit_fastboot :: "'s adb_host \<Rightarrow> string \<Rightarrow> string option \<Rightarrow> string \<Rightarrow> ('s, string option) stateful" where
  "exit_fastboot h fastboot_serial fastboot_path timeout =
     bindS (case fastboot_path of None \<Rightarrow> get_fastboot_path h None | Some p \<Rightarrow> returnS p) (\<lambda>fastboot_path.
     bindS (askS (h_exists (a_host h) fastboot_path)) (\<lambda>there.
       if \<not> there then raiseS RuntimeError
       else catching {CommandFailed}
         (bindS (check_output (a_host h) [''timeout'', timeout, fastboot_path, ''-s'', fastboot_serial, ''reboot''])
           (\<lambda>output. returnS (Some output)))
         (returnS None)))"

definition fastboot_unlock_device :: "'s adb_host \<Rightarrow> string \<Rightarrow> string option \<Rightarrow> string \<Rightarrow> ('s, string) stateful" where
  "fastboot_unlock_device h serial fastboot_path timeout =
     fastboot_text h (Args_Command [''flashing'', ''unlock'']) (Some serial) fastboot_path timeout"

definition fastboot_lock_device :: "'s adb_host \<Rightarrow> string \<Rightarrow> string option \<Rightarrow> string \<Rightarrow> ('s, string) stateful" where
  "fastboot_lock_device h serial fastboot_path timeout =
     fastboot_text h (Args_Command [''flashing'', ''lock'']) (Some serial) fastboot_path timeout"

definition fastboot_wipe_userdata :: "'s adb_host \<Rightarrow> string \<Rightarrow> string option \<Rightarrow> string \<Rightarrow> ('s, string) stateful" where
  "fastboot_wipe_userdata h serial fastboot_path timeout =
     fastboot_text h (Text_Command ''-w'') (Some serial) fastboot_path timeout"

text \<open>\<open>re.search("unlocked: (yes|no)", output)\<close>\<close>

definition unlocked_answer :: "string \<Rightarrow> bool option" where
  "unlocked_answer output =
     map_option (\<lambda>s. starts_with s ''unlocked: yes'')
       (find (\<lambda>s. starts_with s ''unlocked: yes'' \<or> starts_with s ''unlocked: no'') (suffixes_of output))"

definition fastboot_check_is_unlocked :: "'s adb_host \<Rightarrow> string \<Rightarrow> string option \<Rightarrow> string \<Rightarrow> ('s, bool) stateful" where
  "fastboot_check_is_unlocked h serial fastboot_path timeout =
     bindS (fastboot_text h (Args_Command [''getvar'', ''unlocked'']) (Some serial) fastboot_path timeout) (\<lambda>raw_result.
       case unlocked_answer raw_result of None \<Rightarrow> raiseS RuntimeError | Some yes \<Rightarrow> returnS yes)"

definition enter_sideload :: "'s adb_host \<Rightarrow> string \<Rightarrow> string option \<Rightarrow> bool \<Rightarrow> ('s, string) stateful" where
  "enter_sideload h adb_serial adb_path auto_reboot =
     adb_text h (Args_Command [''reboot'', if auto_reboot then ''sideload-auto-reboot'' else ''sideload'']) (Some adb_serial) adb_path 1"

definition sideload_package :: "'s adb_host \<Rightarrow> string \<Rightarrow> string \<Rightarrow> string option \<Rightarrow> ('s, string) stateful" where
  "sideload_package h package_path adb_serial adb_path =
     bindS (askS (h_isfile (a_host h) package_path)) (\<lambda>is_file.
       if \<not> is_file then raiseS RuntimeError
       else adb_text h (Args_Command [''sideload'', package_path]) (Some adb_serial) adb_path 1)"

definition reboot_device :: "'s adb_host \<Rightarrow> string \<Rightarrow> string option \<Rightarrow> int \<Rightarrow> ('s, string) stateful" where
  "reboot_device h adb_serial adb_path retries = adb_text h (Text_Command ''reboot'') (Some adb_serial) adb_path retries"

definition root_device :: "'s adb_host \<Rightarrow> string \<Rightarrow> string option \<Rightarrow> ('s, string) stateful" where
  "root_device h adb_serial adb_path = adb_text h (Text_Command ''root'') (Some adb_serial) adb_path 1"

definition remount_device ::
  "'s adb_host \<Rightarrow> string \<Rightarrow> ('s, unit) stateful option \<Rightarrow> string option \<Rightarrow> ('s, string) stateful" where
  "remount_device h adb_serial reboot_fn adb_path =
     bindS (root_device h adb_serial adb_path) (\<lambda>_.
     bindS (adb_text h (Text_Command ''remount'') (Some adb_serial) adb_path 1) (\<lambda>output.
       if contains ''Now reboot your device for settings to take effect'' output then
         bindS (case reboot_fn of
             None \<Rightarrow> bindS (reboot_device h adb_serial adb_path 1) (\<lambda>_. returnS ())
           | Some f \<Rightarrow> f) (\<lambda>_.
         bindS (root_device h adb_serial adb_path) (\<lambda>_.
           adb_text h (Text_Command ''remount'') (Some adb_serial) adb_path 1))
       else returnS output))"

definition verify_user_has_fastboot :: "'s adb_host \<Rightarrow> unit result" where
  "verify_user_has_fastboot h = (if \<not> has_command (a_host h) ''fastboot'' then Inl DeviceError else Inr ())"

text \<open>A command whose return code has to be 0.\<close>

definition checked_adb :: "'s adb_host \<Rightarrow> string list \<Rightarrow> string option \<Rightarrow> string option \<Rightarrow> int option \<Rightarrow> ('s, string) stateful" where
  "checked_adb h args adb_serial adb_path timeout =
     bindS (adb_coded h (Args_Command args) adb_serial adb_path timeout) (\<lambda>(output, returncode).
       if returncode \<noteq> 0 then raiseS RuntimeError else returnS output)"

definition bugreport :: "'s adb_host \<Rightarrow> string \<Rightarrow> string \<Rightarrow> string option \<Rightarrow> int option \<Rightarrow> ('s, string) stateful" where
  "bugreport h adb_identifier destination_path adb_path timeout =
     bindS (askS (h_exists (a_host h) (dirname destination_path))) (\<lambda>there.
       if \<not> there then raiseS ValueError
       else checked_adb h [''bugreport'', destination_path] (Some adb_identifier) adb_path timeout)"

definition pull_from_device :: "'s adb_host \<Rightarrow> string \<Rightarrow> command \<Rightarrow> string \<Rightarrow> string option \<Rightarrow> ('s, string) stateful" where
  "pull_from_device h adb_serial sources destination_path adb_path =
     (let destination_dir = dirname destination_path in
      bindS (askS (h_exists (a_host h) destination_dir)) (\<lambda>there.
        if destination_dir \<noteq> ''.'' \<and> \<not> there then raiseS ValueError
        else checked_adb h ([''pull''] @ command_args sources @ [destination_path]) (Some adb_serial) adb_path None))"

definition push_to_device :: "'s adb_host \<Rightarrow> string \<Rightarrow> command \<Rightarrow> string \<Rightarrow> string option \<Rightarrow> ('s, string) stateful" where
  "push_to_device h adb_serial sources destination_path adb_path =
     bindS (askS (\<lambda>s. list_all (\<lambda>p. h_exists (a_host h) p s) (command_args sources))) (\<lambda>there.
       if \<not> there then raiseS ValueError
       else checked_adb h ([''push''] @ command_args sources @ [destination_path]) (Some adb_serial) adb_path None)"

text \<open>The flags are sorted.\<close>

definition install_flags :: "bool \<Rightarrow> bool \<Rightarrow> bool \<Rightarrow> bool \<Rightarrow> string list" where
  "install_flags allow_downgrade allow_test_apk reinstall all_permissions =
     map fst (filter snd [(''-d'', allow_downgrade), (''-g'', all_permissions), (''-r'', reinstall), (''-t'', allow_test_apk)])"

definition need_success :: "string \<Rightarrow> ('s, unit) stateful" where
  "need_success response = (if \<not> contains (''Success'' @ [newline]) response then raiseS DeviceError else returnS ())"

definition install_package_on_device ::
  "'s adb_host \<Rightarrow> string \<Rightarrow> string option \<Rightarrow> string option \<Rightarrow> bool \<Rightarrow> bool \<Rightarrow> bool \<Rightarrow> bool \<Rightarrow> ('s, unit) stateful" where
  "install_package_on_device h package_path adb_serial adb_path allow_downgrade allow_test_apk reinstall all_permissions =
     bindS (askS (h_exists (a_host h) package_path)) (\<lambda>there.
       if \<not> there then raiseS ValueError
       else bindS (adb_text h (Args_Command ([''install''] @
              install_flags allow_downgrade allow_test_apk reinstall all_permissions @ [package_path])) adb_serial adb_path 1)
            need_success)"

definition uninstall_package_on_device :: "'s adb_host \<Rightarrow> string \<Rightarrow> string option \<Rightarrow> string option \<Rightarrow> ('s, unit) stateful" where
  "uninstall_package_on_device h package_name adb_serial adb_path =
     bindS (adb_text h (Args_Command [''uninstall'', package_name]) adb_serial adb_path 1) need_success"

section \<open>Port forwarding\<close>

definition tcp_port :: "nat \<Rightarrow> string" where
  "tcp_port port = ''tcp:'' @ show_nat port"

definition add_port_forwarding :: "'s adb_host \<Rightarrow> nat \<Rightarrow> nat \<Rightarrow> string option \<Rightarrow> string option \<Rightarrow> ('s, string) stateful" where
  "add_port_forwarding h host_port device_port adb_serial adb_path =
     checked_adb h [''forward'', tcp_port host_port, tcp_port device_port] adb_serial adb_path None"

definition remove_port_forwarding :: "'s adb_host \<Rightarrow> nat \<Rightarrow> string option \<Rightarrow> string option \<Rightarrow> ('s, string) stateful" where
  "remove_port_forwarding h host_port adb_serial adb_path =
     checked_adb h [''forward'', ''--remove'', tcp_port host_port] adb_serial adb_path None"

text \<open>\<open>^([\w\.:]+) tcp:(\d+) tcp:(\d+)$\<close>\<close>

definition is_serial_char :: "char \<Rightarrow> bool" where
  "is_serial_char c \<longleftrightarrow> is_word c \<or> c = CHR ''.'' \<or> c = CHR '':''"

definition match_rule :: "string \<Rightarrow> (string \<times> nat \<times> nat) option" where
  "match_rule line =
     (let serial = takeWhile is_serial_char line; r = dropWhile is_serial_char line;
          host = takeWhile is_digit (drop 5 r); r' = dropWhile is_digit (drop 5 r);
          dev = drop 5 r'
      in if serial \<noteq> [] \<and> starts_with r '' tcp:'' \<and> host \<noteq> [] \<and> starts_with r' '' tcp:'' \<and>
            dev \<noteq> [] \<and> list_all is_digit dev
         then Some (serial, parse_nat host, parse_nat dev) else None)"

definition list_port_forwarding :: "'s adb_host \<Rightarrow> string option \<Rightarrow> string option \<Rightarrow> ('s, (nat \<times> nat) list) stateful" where
  "list_port_forwarding h adb_serial adb_path =
     bindS (checked_adb h [''forward'', ''--list''] None adb_path None) (\<lambda>output.
       returnS (List.map_filter (\<lambda>line. case match_rule line of
           Some (serial, ports) \<Rightarrow> if adb_serial = None \<or> adb_serial = Some serial then Some ports else None
         | None \<Rightarrow> None) (splitlines str_line_end output)))"

definition tcpip :: "'s adb_host \<Rightarrow> string option \<Rightarrow> nat \<Rightarrow> string option \<Rightarrow> ('s, string) stateful" where
  "tcpip h adb_serial port adb_path = checked_adb h [''tcpip'', show_nat port] adb_serial adb_path None"

end
