(* ===== verification/Adb_Facts.thy ===== *)
theory Adb_Facts
  imports Adb_Utils
begin

text \<open>
  What the functions on top of \<open>adb\<close> promise: the tries of a command, the list of devices, the
  verified connection, the forwarded ports, and that waiting for a device to go offline ends.
\<close>

section \<open>The tries of a command\<close>

text \<open>The state before the k-th run of a command: the runs before it failed, each with its sleep.\<close>

definition before_run :: "'s adb_host \<Rightarrow> string list \<Rightarrow> int option \<Rightarrow> nat \<Rightarrow> 's \<Rightarrow> 's" where
  "before_run h args timeout k s = ((\<lambda>s. a_sleep h ADB_RETRY_SLEEP (snd (adb_run h args timeout s))) ^^ k) s"

definition nth_run :: "'s adb_host \<Rightarrow> string list \<Rightarrow> int option \<Rightarrow> nat \<Rightarrow> 's \<Rightarrow> (string \<times> int) result" where
  "nth_run h args timeout k s = fst (adb_run h args timeout (before_run h args timeout k s))"

definition run_failed :: "(string \<times> int) result \<Rightarrow> bool" where
  "run_failed r = (case r of Inl _ \<Rightarrow> False | Inr (output, _) \<Rightarrow> adb_failed output)"

lemma before_run_Suc:
  "before_run h args timeout (Suc k) s =
   before_run h args timeout k (a_sleep h ADB_RETRY_SLEEP (snd (adb_run h args timeout s)))"
  by (simp add: before_run_def funpow_Suc_right del: funpow.simps)

lemma nth_run_Suc:
  "nth_run h args timeout (Suc k) s = nth_run h args timeout k (a_sleep h ADB_RETRY_SLEEP (snd (adb_run h args timeout s)))"
  by (simp add: nth_run_def before_run_Suc)

lemma adb_tries_outcome:
  assumes "0 < retries"
  shows "\<exists>k\<le>left. (\<forall>j<k. run_failed (nth_run h args timeout j s)) \<and>
    (if k < left then \<not> run_failed (nth_run h args timeout k s) \<and>
       fst (adb_tries h args timeout False left retries s) = bindE (nth_run h args timeout k s) (\<lambda>(output, _). Inr (output, None))
     else fst (adb_tries h args timeout False left retries s) = Inl DeviceError)"
proof (induction left arbitrary: s)
  case 0
  with assms show ?case by (simp add: raiseS_def)
next
  case (Suc left)
  obtain r s1 where r: "adb_run h args timeout s = (r, s1)" by fastforce
  have n0: "nth_run h args timeout 0 s = r" by (simp add: nth_run_def before_run_def r)
  show ?case
  proof (cases "run_failed r")
    case False
    then have "fst (adb_tries h args timeout False (Suc left) retries s) = bindE r (\<lambda>(output, _). Inr (output, None))"
      using r by (cases r) (auto simp: bindS_def run_failed_def returnS_def split: prod.splits)
    with False n0 show ?thesis by (intro exI [of _ 0]) simp
  next
    case True
    then obtain out code where o: "r = Inr (out, code)" "adb_failed out"
      by (auto simp: run_failed_def split: sum.splits prod.splits)
    let ?s2 = "a_sleep h ADB_RETRY_SLEEP s1"
    show ?thesis
    proof (cases "left = 0")
      case True
      with o r assms show ?thesis
        by (intro exI [of _ 1]) (simp add: bindS_def raiseS_def returnS_def n0 run_failed_def)
    next
      case False
      have e: "adb_tries h args timeout False (Suc left) retries s = adb_tries h args timeout False left retries ?s2"
        using o r False by (simp add: bindS_def doS_def)
      from Suc.IH [of ?s2] obtain k where k: "k \<le> left" "\<forall>j<k. run_failed (nth_run h args timeout j ?s2)"
        "if k < left then \<not> run_failed (nth_run h args timeout k ?s2) \<and>
           fst (adb_tries h args timeout False left retries ?s2) = bindE (nth_run h args timeout k ?s2) (\<lambda>(output, _). Inr (output, None))
         else fst (adb_tries h args timeout False left retries ?s2) = Inl DeviceError" by (elim exE conjE)
      have sh: "nth_run h args timeout (Suc j) s = nth_run h args timeout j ?s2" for j by (simp add: nth_run_Suc r)
      have "\<forall>j<Suc k. run_failed (nth_run h args timeout j s)"
        using k(2) True n0 by (simp add: all_less_Suc_shift sh)
      with k e show ?thesis by (intro exI [of _ "Suc k"]) (simp add: sh)
    qed
  qed
qed


section \<open>The list of devices\<close>

definition device_line :: "string \<times> adb_state \<Rightarrow> string" where
  "device_line d = fst d @ tab # state_value (snd d)"

definition plain_line :: "string \<Rightarrow> bool" where
  "plain_line l \<longleftrightarrow> splits_at_newline str_line_end l"

lemma adb_state_of_value: "adb_state_of (state_value st) = Some st"
  by (cases st) (simp_all add: adb_state_of_def adb_states_def)

lemma device_state_of_value: "device_state_of (state_value st) = st"
  by (cases st) (simp_all add: device_state_of_def adb_state_of_def adb_states_def)

lemma plain_state: "splits_at_newline str_line_end (state_value st)"
  by (cases st) (simp_all add: splits_at_newline_def str_line_end_def)

lemma plain_device_line: "plain_line (fst d) \<Longrightarrow> plain_line (device_line d)"
  using plain_state [of "snd d"]
  by (simp add: plain_line_def device_line_def splits_at_newline_def str_line_end_def tab_def)

lemma after_first_append: "x \<notin> set xs \<Longrightarrow> after_first x (xs @ x # ys) = ys"
  by (induction xs) auto

lemma takeWhile_tab: "tab \<notin> set i \<Longrightarrow> takeWhile (\<lambda>c. c \<noteq> tab) (i @ tab # v) = i"
  by (induction i) auto

lemma dropWhile_tab: "tab \<notin> set i \<Longrightarrow> dropWhile (\<lambda>c. c \<noteq> tab) (i @ tab # v) = tab # v"
  by (induction i) auto

definition devices_text :: "string list \<Rightarrow> (string \<times> adb_state) list \<Rightarrow> string" where
  "devices_text daemon ds = print_lines (daemon @ [output_start_marker] @ map device_line ds @ [[]])"

lemma parse_devices_text:
  assumes "list_all plain_line daemon" and "output_start_marker \<notin> set daemon"
    and "list_all (\<lambda>d. plain_line (fst d) \<and> tab \<notin> set (fst d)) ds"
  shows "parse_devices (devices_text daemon ds) state = filter (\<lambda>(_, st). state = None \<or> state = Some st) ds"
proof -
  have m: "plain_line output_start_marker" "plain_line []"
    by (simp_all add: plain_line_def output_start_marker_def splits_at_newline_def str_line_end_def)
  have l: "splitlines str_line_end (devices_text daemon ds) = daemon @ [output_start_marker] @ map device_line ds @ [[]]"
    unfolding devices_text_def
  proof (rule splitlines_print)
    show "list_all (splits_at_newline str_line_end) (daemon @ [output_start_marker] @ map device_line ds @ [[]])"
      using assms(1,3) m plain_device_line unfolding plain_line_def by (auto simp: list_all_iff)
  qed (simp add: str_line_end_def)
  have f: "filter (\<lambda>line. line \<noteq> [] \<and> tab \<in> set line) (map device_line ds) = map device_line ds"
    by (induction ds) (simp_all add: device_line_def)
  have g: "map (\<lambda>l. (takeWhile (\<lambda>c. c \<noteq> tab) l, device_state_of (tl (dropWhile (\<lambda>c. c \<noteq> tab) l)))) (map device_line ds) = ds"
    using assms(3)
    by (induction ds) (simp_all add: device_line_def takeWhile_tab dropWhile_tab device_state_of_value)
  have "after_first output_start_marker (splitlines str_line_end (devices_text daemon ds)) = map device_line ds @ [[]]"
    unfolding l using after_first_append [OF assms(2)] by simp
  then show ?thesis using f g by (simp add: parse_devices_def Let_def)
qed

text \<open>The list of devices that adb prints, behind any messages about its daemon, is read back exactly:
  every identifier with its state, in order, and with a state asked for the devices that have it.\<close>

theorem adb_devices_roundtrip:
  assumes "list_all plain_line daemon" and "output_start_marker \<notin> set daemon"
    and "list_all (\<lambda>d. plain_line (fst d) \<and> tab \<notin> set (fst d)) ds"
    and "adb_text h (Text_Command ''devices'') None adb_path 1 s = (Inr (devices_text daemon ds), s')"
  shows "adb_devices h adb_path state s = (Inr (filter (\<lambda>(_, st). state = None \<or> state = Some st) ds), s')"
  using assms(4) parse_devices_text [OF assms(1-3), of state]
  by (simp add: adb_devices_def exceptS_def bindS_def returnS_def)

section \<open>Connecting\<close>

definition again :: "('s, 'a) stateful \<Rightarrow> nat \<Rightarrow> 's \<Rightarrow> 's" where
  "again f k s = ((\<lambda>s. snd (f s)) ^^ k) s"

lemma again_Suc: "again f (Suc k) s = again f k (snd (f s))"
  by (simp add: again_def funpow_Suc_right del: funpow.simps)

text \<open>A value of \<open>retry\<close> is the value of a call that was successful, after calls that were not.\<close>

lemma retry_loop_value:
  assumes "re_result (retry_loop cf end_time fuel tick tried results s) = Inr v"
  shows "\<exists>k. rc_func cf (again (rc_func cf) k s) = (Inr v, re_state (retry_loop cf end_time fuel tick tried results s)) \<and>
    rc_is_successful cf v"
  using assms
proof (induction fuel arbitrary: tick tried results s)
  case (Suc fuel)
  have time: "rc_clock cf tick < end_time" 
  proof (rule ccontr)
    assume "\<not> rc_clock cf tick < end_time"
    with Suc.prems show False by simp
  qed
  obtain r s' where r: "rc_func cf s = (r, s')" by fastforce
  let ?more = "retry_loop cf end_time fuel (tick + 2) (Suc tried) (results @ [rc_repr cf r]) s'"
  show ?case
  proof (cases "decisive cf r")
    case True
    then have e: "re_result (retry_loop cf end_time (Suc fuel) tick tried results s) = r"
      "re_state (retry_loop cf end_time (Suc fuel) tick tried results s) = s'"
      using time r by (auto simp: decisive_def split: sum.splits)
    from Suc.prems e(1) have v: "r = Inr v" by (simp only:)
    with True have "rc_is_successful cf v" by (simp add: decisive_def)
    with r v show ?thesis unfolding e by (intro exI [of _ 0]) (simp add: again_def)
  next
    case False
    then have e: "retry_loop cf end_time (Suc fuel) tick tried results s = ?more"
      using time r by (auto simp: decisive_def split: sum.splits)
    with Suc.prems have "re_result ?more = Inr v" by simp
    from Suc.IH [OF this] obtain k where
      "rc_func cf (again (rc_func cf) k s') = (Inr v, re_state ?more)" "rc_is_successful cf v" by blast
    with r show ?thesis unfolding e by (intro exI [of _ "Suc k"]) (simp add: again_Suc)
  qed
qed simp

lemma retryS_value:
  assumes "retryS h f ok timeout interval reraise s = (Inr v, s')"
  shows "\<exists>k. f (again f k s) = (Inr v, s') \<and> ok v"
proof -
  let ?cf = "retry_conf h f ok timeout interval reraise s"
  have e: "re_result (retry ?cf s) = Inr v" "re_state (retry ?cf s) = s'"
    using assms by (simp_all add: retryS_def Let_def)
  have l: "re_result (retry_loop ?cf (rc_clock ?cf 0 + rc_timeout ?cf) (nat (rc_timeout ?cf) + 1) 1 0 [] s) = Inr v"
    using e(1) by (simp add: retry_def Let_def)
  from retry_loop_value [OF l] e(2) show ?thesis by (simp add: retry_def Let_def retry_conf_def)
qed

lemma or_device_error_value: "or_device_error m s = (Inr v, s') \<longleftrightarrow> m s = (Inr v, s')"
  by (auto simp: or_device_error_def exceptS_def raiseS_def split: prod.splits sum.splits)

lemma ip_here_append: "ip_here n s \<Longrightarrow> ip_here n (s @ t)"
proof (induction n arbitrary: s)
  case 0
  then show ?case by (cases s) (auto split: if_splits)
next
  case (Suc n)
  then obtain c rest where d: "takeWhile is_digit s \<noteq> []" "dropWhile is_digit s = c # rest" "c = CHR ''.''" "ip_here n rest"
    by (auto split: list.splits)
  have "dropWhile is_digit (s @ t) = c # rest @ t"
    using d(2) by (induction s) (auto split: if_splits)
  moreover have "takeWhile is_digit (s @ t) \<noteq> []"
    using d(1) by (cases s) (auto split: if_splits)
  ultimately show ?case using d(3,4) Suc.IH by simp
qed

lemma is_static_ip_append: "is_static_ip s \<Longrightarrow> is_static_ip (s @ t)"
proof -
  have "list_ex (ip_here 3) (suffixes_of (s @ t))" if "list_ex (ip_here 3) (suffixes_of s)"
    using that
  proof (induction s)
    case Nil
    then show ?case by (simp add: eval_nat_numeral)
  next
    case (Cons c s)
    then show ?case using ip_here_append [of 3 "c # s" t] by auto
  qed
  then show "is_static_ip s \<Longrightarrow> is_static_ip (s @ t)" by (simp add: is_static_ip_def)
qed

lemma over_ip_static: "get_adb_over_ip_identifier i port = Inr ident \<Longrightarrow> is_static_ip ident"
  by (auto simp: get_adb_over_ip_identifier_def is_static_ip_append split: if_splits)

lemma is_adb_mode_online:
  assumes "is_adb_mode h ident p s = (Inr True, s')"
  shows "\<exists>ds s1. adb_devices h p (Some DEVICE) s = (Inr ds, s1) \<and> ident \<in> set (map fst ds) \<and>
    (is_static_ip ident \<longrightarrow> pings (a_host h) (takeWhile (\<lambda>c. c \<noteq> CHR '':'') ident) s1 = (Inr True, s'))"
  using assms
  by (auto simp: is_adb_mode_def get_adb_devices_def bindS_eq_Inr returnS_def Let_def split: if_splits)

text \<open>C29. When connecting over IP returns, the last \<open>adb connect\<close> ended with code 0 and none of its failure
  messages, its output is what is returned, and after it the identifier, with its port, was
  in the list of devices as \<open>device\<close> and its address answered a ping: this is the last thing
  that happened. Otherwise connecting raises.\<close>

theorem connect_verified:
  assumes "connect h adb_identifier attempts verification_timeout_s s = (Inr out, s')"
  shows "\<exists>ident k s1 j ds s2.
    get_adb_over_ip_identifier adb_identifier DEFAULT_PORT = Inr ident \<and>
    (let run = adb_coded h (Args_Command [''connect'', ident]) None None None
     in run (again run k s) = (Inr (out, 0), s1) \<and> is_connect_successful (out, 0)) \<and>
    adb_devices h None (Some DEVICE) (again (is_adb_mode h ident None) j s1) = (Inr ds, s2) \<and>
    ident \<in> set (map fst ds) \<and>
    pings (a_host h) (takeWhile (\<lambda>c. c \<noteq> CHR '':'') ident) s2 = (Inr True, s')"
proof -
  obtain ident where i: "get_adb_over_ip_identifier adb_identifier DEFAULT_PORT = Inr ident"
    using assms by (auto simp: connect_def bindS_eq_Inr liftS_def)
  let ?run = "adb_coded h (Args_Command [''connect'', ident]) None None None"
  let ?check = "is_adb_mode h ident None"
  obtain code s1 where c: "retryS h ?run is_connect_successful (3 * attempts) 3 False s = (Inr (out, code), s1)"
    and v: "\<exists>b. retryS h ?check is_true verification_timeout_s 1 True s1 = (Inr b, s')"
    using assms i by (auto simp: connect_def bindS_eq_Inr liftS_def or_device_error_value returnS_def)
  from retryS_value [OF c] obtain k where k: "?run (again ?run k s) = (Inr (out, code), s1)"
    "is_connect_successful (out, code)" by (elim exE conjE)
  from k(2) have z: "code = 0" by (simp add: is_connect_successful_def)
  from v obtain b where b: "retryS h ?check is_true verification_timeout_s 1 True s1 = (Inr b, s')" ..
  from retryS_value [OF b] obtain j where j: "?check (again ?check j s1) = (Inr b, s')" "is_true b"
    by (elim exE conjE)
  from j(2) have "b = True" by (simp add: is_true_def)
  with j(1) have "?check (again ?check j s1) = (Inr True, s')" by simp
  from is_adb_mode_online [OF this] obtain ds s2 where
    "adb_devices h None (Some DEVICE) (again ?check j s1) = (Inr ds, s2)" "ident \<in> set (map fst ds)"
    "is_static_ip ident \<longrightarrow> pings (a_host h) (takeWhile (\<lambda>c. c \<noteq> CHR '':'') ident) s2 = (Inr True, s')"
    by (elim exE conjE)
  with i k z over_ip_static [OF i] show ?thesis unfolding Let_def by blast
qed

section \<open>Forwarded ports\<close>

definition rule_line :: "string \<times> nat \<times> nat \<Rightarrow> string" where
  "rule_line r = (case r of (serial, host, dev) \<Rightarrow> serial @ '' '' @ tcp_port host @ '' '' @ tcp_port dev)"

definition good_serial :: "string \<Rightarrow> bool" where
  "good_serial serial \<longleftrightarrow> serial \<noteq> [] \<and> list_all is_serial_char serial"

lemma takeWhile_stop: "list_all P xs \<Longrightarrow> \<not> P y \<Longrightarrow> takeWhile P (xs @ y # ys) = xs"
  by (induction xs) auto

lemma dropWhile_stop: "list_all P xs \<Longrightarrow> \<not> P y \<Longrightarrow> dropWhile P (xs @ y # ys) = y # ys"
  by (induction xs) auto

lemma show_nat_all_digits: "list_all is_digit (show_nat n)"
  using show_nat_digits by (simp add: list_all_iff)

lemma show_nat_nonempty [simp]: "show_nat n \<noteq> []"
  by (subst show_nat.simps) simp

lemma space_ends: "\<not> is_serial_char CHR '' ''" "\<not> is_digit CHR '' ''"
  by (simp_all add: is_serial_char_def is_word_def is_digit_def Let_def)

lemma match_rule_line: "good_serial serial \<Longrightarrow> match_rule (rule_line (serial, host, dev)) = Some (serial, host, dev)"
  by (simp add: rule_line_def match_rule_def tcp_port_def good_serial_def Let_def takeWhile_stop dropWhile_stop
      show_nat_all_digits space_ends starts_with_def parse_show)

lemma digits_plain: "is_digit c \<Longrightarrow> \<not> str_line_end c"
  by (auto simp: is_digit_def str_line_end_def Let_def)

lemma serial_plain: "is_serial_char c \<Longrightarrow> \<not> str_line_end c"
  by (auto simp: is_serial_char_def is_word_def str_line_end_def Let_def)

lemma rule_line_plain: "good_serial serial \<Longrightarrow> splits_at_newline str_line_end (rule_line (serial, host, dev))"
  using show_nat_all_digits [of host] show_nat_all_digits [of dev] digits_plain serial_plain
  by (auto simp: rule_line_def tcp_port_def good_serial_def splits_at_newline_def list_all_iff str_line_end_def)

text \<open>The forwarding rules that adb lists are read back exactly, in order; with a serial number, those of that
  device.\<close>

theorem port_forwarding_roundtrip:
  assumes "list_all (\<lambda>r. good_serial (fst r)) rules"
    and "adb_coded h (Args_Command [''forward'', ''--list'']) None adb_path None s = (Inr (print_lines (map rule_line rules), 0), s')"
  shows "list_port_forwarding h adb_serial adb_path s =
    (Inr (map snd (filter (\<lambda>r. adb_serial = None \<or> adb_serial = Some (fst r)) rules)), s')"
proof -
  have l: "splitlines str_line_end (print_lines (map rule_line rules)) = map rule_line rules"
    using assms(1) rule_line_plain
    by (intro splitlines_print) (auto simp: list_all_iff str_line_end_def)
  have "List.map_filter (\<lambda>line. case match_rule line of
          Some (serial, ports) \<Rightarrow> if adb_serial = None \<or> adb_serial = Some serial then Some ports else None
        | None \<Rightarrow> None) (map rule_line rules) =
      map snd (filter (\<lambda>r. adb_serial = None \<or> adb_serial = Some (fst r)) rules)"
    using assms(1)
  proof (induction rules)
    case (Cons r rules)
    obtain serial host dev where r: "r = (serial, host, dev)" by (cases r)
    with Cons show ?case by (simp add: List.map_filter_simps match_rule_line)
  qed (simp add: List.map_filter_simps)
  with l assms(2) show ?thesis
    by (simp add: list_port_forwarding_def checked_adb_def bindS_def returnS_def)
qed

section \<open>Waiting for a device to go offline\<close>

definition later :: "'s adb_host \<Rightarrow> ('s, 'a) stateful \<Rightarrow> bool" where
  "later h m \<longleftrightarrow> (\<forall>s. a_time h s \<le> a_time h (snd (m s)))"

text \<open>No tool sets the clock back, and sleeping lets the time pass.\<close>

definition time_passes :: "'s adb_host \<Rightarrow> int \<Rightarrow> bool" where
  "time_passes h interval \<longleftrightarrow> 0 < interval \<and> (\<forall>args t. later h (h_run (a_host h) args t)) \<and> (\<forall>args. later h (a_popen h args)) \<and>
     (\<forall>p t. later h (a_communicate h p t)) \<and> (\<forall>p s. a_time h s \<le> a_time h (a_terminate h p s)) \<and>
     (\<forall>t s. a_time h s \<le> a_time h (a_sleep h t s)) \<and> (\<forall>s. a_time h s + interval \<le> a_time h (a_sleep h interval s))"

lemma later_bind: "later h m \<Longrightarrow> (\<And>x. later h (f x)) \<Longrightarrow> later h (bindS m f)"
  unfolding later_def bindS_def
  by (auto split: prod.splits sum.splits) (metis order_trans snd_conv)+

lemma later_basic [intro!]:
  "later h (returnS x)" "later h (raiseS e)" "later h (liftS r)" "later h (askS g)"
  by (simp_all add: later_def returnS_def raiseS_def liftS_def askS_def)

lemma later_except: "later h m \<Longrightarrow> (\<And>e. later h (g e)) \<Longrightarrow> later h (exceptS m g)"
  unfolding later_def exceptS_def
  by (auto split: prod.splits sum.splits) (metis order_trans snd_conv)+

lemma later_catching: "later h m \<Longrightarrow> later h g \<Longrightarrow> later h (catching es m g)"
  by (auto simp: catching_def intro!: later_except)

lemma later_tools:
  assumes "time_passes h interval"
  shows "later h (a_popen h args)" "later h (a_communicate h p t)" "later h (doS (a_terminate h p))"
    "later h (doS (a_sleep h i))" "later h (runS (a_host h) args t)"
  using assms by (simp_all add: time_passes_def later_def doS_def runS_def)

lemma later_adb_run: "time_passes h interval \<Longrightarrow> later h (adb_run h args timeout)"
  unfolding adb_run_def by (auto intro!: later_bind later_except later_tools)

lemma later_adb_tries: "time_passes h interval \<Longrightarrow> later h (adb_tries h args timeout c left retries)"
  by (induction left) (auto intro!: later_bind later_adb_run later_tools)

lemma later_path: "later h (get_adb_path h p)"
  unfolding get_adb_path_def which_or_fail_def
  by (auto intro!: later_bind split: sum.splits)

lemma later_adb_devices: "time_passes h interval \<Longrightarrow> later h (adb_devices h p state)"
  unfolding adb_devices_def adb_text_def adb_command_def
  by (auto intro!: later_bind later_except later_path later_adb_run later_tools)

lemma later_pings: "time_passes h interval \<Longrightarrow> later h (pings (a_host h) ip)"
  unfolding pings_def is_pingable_def check_output_def
  by (auto intro!: later_bind later_catching later_tools)

lemma later_is_adb_mode: "time_passes h interval \<Longrightarrow> later h (is_adb_mode h i p)"
  unfolding is_adb_mode_def get_adb_devices_def Let_def
  by (auto intro!: later_bind later_adb_devices later_pings)

text \<open>Waiting for a device to go offline ends, when the clock runs and the interval is positive. It returns
  only after the device was seen offline; it raises the time-out only after the time is over,
  with the device just seen online; any other exception comes from asking for the devices.\<close>

theorem wait_offline_ends:
  assumes "time_passes h check_interval"
  shows "\<exists>r s'. wait_for_device_offline h adb_identifier timeout check_interval s = Some (r, s') \<and>
    (\<exists>s1. let (online, s2) = is_adb_mode h adb_identifier None s1
      in s2 = s' \<and>
         (case r of
            Inr _ \<Rightarrow> online = Inr False
          | Inl e \<Rightarrow> online = Inl e \<or>
              online = Inr True \<and> e = CommunicationTimeoutError \<and> a_time h s + timeout < a_time h s'))"
proof -
  have "\<exists>r s'. wait_offline_loop h adb_identifier end_time check_interval s = Some (r, s') \<and>
    (\<exists>s1. let (online, s2) = is_adb_mode h adb_identifier None s1
      in s2 = s' \<and>
         (case r of
            Inr _ \<Rightarrow> online = Inr False
          | Inl e \<Rightarrow> online = Inl e \<or>
              online = Inr True \<and> e = CommunicationTimeoutError \<and> end_time < a_time h s'))" for end_time s
  proof (induction "nat (end_time + 1 - a_time h s)" arbitrary: s rule: less_induct)
    case less
    obtain online s' where o: "is_adb_mode h adb_identifier None s = (online, s')" by fastforce
    note step = wait_offline_loop.simps [of h adb_identifier end_time check_interval s]
    show ?case
    proof (cases "online = Inr True \<and> \<not> end_time < a_time h s'")
      case False
      with o show ?thesis
        by (subst step) (cases online; auto intro!: exI [of _ s] simp: Let_def split: if_splits)
    next
      case True
      let ?s2 = "a_sleep h check_interval s'"
      have "a_time h s \<le> a_time h s'"
        using later_is_adb_mode [OF assms] o unfolding later_def by (metis snd_conv)
      moreover have "a_time h s' < a_time h ?s2"
        using assms unfolding time_passes_def by (smt (verit))
      ultimately have "nat (end_time + 1 - a_time h ?s2) < nat (end_time + 1 - a_time h s)"
        using True by simp
      from less [OF this] True o show ?thesis by (subst step) simp
    qed
  qed
  from this [of "a_time h s + timeout" s] show ?thesis unfolding wait_for_device_offline_def .
qed

section \<open>A host with one device\<close>

text \<open>The state is the time in seconds; shell commands fail in the first ten.\<close>

definition demo_pid :: "string list \<Rightarrow> nat" where
  "demo_pid args =
     (if ''devices'' \<in> set args then 0 else if ''connect'' \<in> set args then 1 else if ''--list'' \<in> set args then 2 else 3)"

definition demo_devices :: "(string \<times> adb_state) list" where
  "demo_devices = [(''10.0.0.1:5555'', DEVICE), (''abcde123'', OFFLINE)]"

definition demo_rules :: "(string \<times> nat \<times> nat) list" where
  "demo_rules = [(''abcde123'', 8008, 80), (''10.0.0.1:5555'', 9000, 22)]"

definition demo_output :: "nat \<Rightarrow> int \<Rightarrow> string" where
  "demo_output pid s =
     (if pid = 0 then devices_text [''* daemon started successfully''] demo_devices
      else if pid = 1 then ''connected to 10.0.0.1:5555''
      else if pid = 2 then print_lines (map rule_line demo_rules)
      else if s < 10 then ''error: closed'' else ''fine'')"

definition demo_host :: "int host" where
  "demo_host = \<lparr>h_run = (\<lambda>args t s. (Inr \<lparr>ce_output = [], ce_stdout = [], ce_stderr = [], ce_code = 0\<rparr>, s)),
     h_which = (\<lambda>_. None), h_exists = (\<lambda>p s. p = ''/adb''), h_isdir = (\<lambda>_ _. False), h_isfile = (\<lambda>_ _. False),
     h_makedirs = (\<lambda>_ s. (Inr (), s)), h_remove = (\<lambda>_ s. (Inr (), s)), h_rmtree = (\<lambda>_ s. (Inr (), s)),
     h_mode = (\<lambda>_ _. Inr ''400''), h_chmod = (\<lambda>_ s. (Inr (), s)), h_download = (\<lambda>_ _ s. (Inr (), s)),
     h_ip_version = (\<lambda>_. Inr 4), h_keys_directory = ''/keys'', h_home = ''/root''\<rparr>"

definition demo_adb :: "int adb_host" where
  "demo_adb = \<lparr>a_host = demo_host, a_popen = (\<lambda>args s. (Inr (demo_pid args), s)),
     a_communicate = (\<lambda>pid t s. (Inr (demo_output pid s), s)), a_terminate = (\<lambda>pid s. s), a_returncode = (\<lambda>pid s. 0),
     a_config = (\<lambda>_. Inr (Some ''/adb'')), a_sleep = (\<lambda>t s. s + max t 0), a_time = (\<lambda>s. s),
     a_clock = (\<lambda>s i n. s + i * int n)\<rparr>"


theorem adb_devices_roundtrip_witness:
  "adb_devices demo_adb None (Some DEVICE) 0 = (Inr [(''10.0.0.1:5555'', DEVICE)], 0)"
proof -
  have a: "list_all plain_line [''* daemon started successfully'']"
    "output_start_marker \<notin> set [''* daemon started successfully'']"
    "list_all (\<lambda>d. plain_line (fst d) \<and> tab \<notin> set (fst d)) demo_devices"
    by code_simp+
  have "adb_text demo_adb (Text_Command ''devices'') None None 1 0 =
      (Inr (devices_text [''* daemon started successfully''] demo_devices), 0)" by code_simp
  from adb_devices_roundtrip [OF a this, of "Some DEVICE"] show ?thesis by (simp add: demo_devices_def)
qed

theorem connect_verified_witness:
  "\<exists>k s1. adb_coded demo_adb (Args_Command [''connect'', ''10.0.0.1:5555'']) None None None
       (again (adb_coded demo_adb (Args_Command [''connect'', ''10.0.0.1:5555'']) None None None) k 0) =
     (Inr (''connected to 10.0.0.1:5555'', 0), s1)"
proof -
  have "connect demo_adb ''10.0.0.1:5555'' 3 10 0 = (Inr ''connected to 10.0.0.1:5555'', 0)" by code_simp
  from connect_verified [OF this] obtain ident k s1 where
    i: "get_adb_over_ip_identifier ''10.0.0.1:5555'' DEFAULT_PORT = Inr ident"
    and c: "adb_coded demo_adb (Args_Command [''connect'', ident]) None None None
       (again (adb_coded demo_adb (Args_Command [''connect'', ident]) None None None) k 0) =
     (Inr (''connected to 10.0.0.1:5555'', 0), s1)"
    unfolding Let_def by (elim exE conjE)
  have "get_adb_over_ip_identifier ''10.0.0.1:5555'' DEFAULT_PORT = Inr ''10.0.0.1:5555''" by code_simp
  with i have "ident = ''10.0.0.1:5555''" by (simp only: sum.inject)
  with c show ?thesis by (intro exI) simp
qed

theorem port_forwarding_roundtrip_witness:
  "list_port_forwarding demo_adb (Some ''abcde123'') None 0 = (Inr [(8008, 80)], 0)"
proof -
  have g: "list_all (\<lambda>r. good_serial (fst r)) demo_rules" by code_simp
  have "adb_coded demo_adb (Args_Command [''forward'', ''--list'']) None None None 0 =
      (Inr (print_lines (map rule_line demo_rules), 0), 0)"
    by (simp add: adb_coded_def adb_command_def get_adb_path_def bindS_def askS_def is_valid_path_def returnS_def adb_args_def
        adb_run_def exceptS_def demo_adb_def demo_host_def demo_pid_def demo_output_def)
  from port_forwarding_roundtrip [OF g this, of "Some ''abcde123''"] show ?thesis by (simp add: demo_rules_def)
qed

theorem wait_offline_ends_witness:
  "\<exists>r s'. wait_for_device_offline demo_adb ''10.0.0.1:5555'' 2 1 0 = Some (r, s')"
proof -
  have "time_passes demo_adb 1"
    by (simp add: time_passes_def later_def demo_adb_def demo_host_def)
  from wait_offline_ends [OF this, of "''10.0.0.1:5555''" 2 0] show ?thesis by (elim exE conjE) (intro exI)
qed

end
