(* ===== verification/Py_Struct.thy ===== *)
theory Py_Struct
  imports Gdm_Prelude "HOL-Library.Word"
begin

text \<open>
  The part of Python's \<open>struct\<close> module and of \<open>str.encode\<close>/\<open>str\<close> that the TLV codec uses:
  little-endian integers of a fixed width, the IEEE-754 formats \<open>f\<close> and \<open>d\<close>, and strict
  UTF-8. A byte is an \<open>8 word\<close>; a Python float is its 64-bit IEEE pattern; a Python
  string is its list of code points. The fixed-width codecs are stated as one interface, the
  locale \<open>fixed_codec\<close>, and each format is an interpretation of it.
\<close>

type_synonym byte = "8 word"

section \<open>Little-endian integers\<close>

definition le_bytes :: "nat \<Rightarrow> int \<Rightarrow> byte list" where
  "le_bytes n v = map (\<lambda>i. word_of_int (v div 256 ^ i)) [0..<n]"

fun le_value :: "byte list \<Rightarrow> int" where
  "le_value [] = 0"
| "le_value (b # bs) = uint b + 256 * le_value bs"

text \<open>
  \<open>struct.pack\<close> and \<open>struct.unpack\<close> with the formats \<open><B\<close>, \<open><H\<close>, \<open><L\<close>, \<open><Q\<close> (unsigned) and
  \<open><b\<close>, \<open><h\<close>, \<open><l\<close>, \<open><q\<close> (two's complement) of \<open>n\<close> bytes. Packing a value out of range and
  unpacking a buffer of another length raise \<open>struct.error\<close>.
\<close>

definition pack_uint :: "nat \<Rightarrow> int \<Rightarrow> byte list result" where
  "pack_uint n v = (if 0 \<le> v \<and> v < 256 ^ n then Inr (le_bytes n v) else Inl StructError)"

definition unpack_uint :: "nat \<Rightarrow> byte list \<Rightarrow> int result" where
  "unpack_uint n bs = (if length bs = n then Inr (le_value bs) else Inl StructError)"

definition pack_sint :: "nat \<Rightarrow> int \<Rightarrow> byte list result" where
  "pack_sint n v =
     (if - (256 ^ n div 2) \<le> v \<and> v < 256 ^ n div 2 then Inr (le_bytes n v)
      else Inl StructError)"

definition unpack_sint :: "nat \<Rightarrow> byte list \<Rightarrow> int result" where
  "unpack_sint n bs =
     (if length bs = n
      then Inr (let u = le_value bs in if u < 256 ^ n div 2 then u else u - 256 ^ n)
      else Inl StructError)"

lemma length_le_bytes [simp]: "length (le_bytes n v) = n"
  by (simp add: le_bytes_def)

lemma le_bytes_Suc: "le_bytes (Suc n) v = word_of_int v # le_bytes n (v div 256)"
proof -
  have "map (\<lambda>i. (word_of_int (v div 256 ^ i) :: byte)) [0..<Suc n]
      = word_of_int v # map (\<lambda>i. word_of_int (v div 256 ^ Suc i)) [0..<n]"
    by (simp add: upt_conv_Cons map_Suc_upt [symmetric] del: upt_Suc)
  then show ?thesis by (simp add: le_bytes_def div_mult2_eq zdiv_zmult2_eq)
qed

lemma le_value_bytes: "le_value (le_bytes n v) = v mod 256 ^ n"
proof (induction n arbitrary: v)
  case 0
  show ?case by (simp add: le_bytes_def)
next
  case (Suc n)
  have "v mod 256 ^ Suc n = v mod 256 + 256 * (v div 256 mod 256 ^ n)"
    by (simp add: zmod_zmult2_eq)
  with Suc show ?case
    by (simp add: le_bytes_Suc uint_word_of_int take_bit_eq_mod)
qed

lemma le_value_bounds: "0 \<le> le_value bs \<and> le_value bs < 256 ^ length bs"
proof (induction bs)
  case (Cons b bs)
  have "0 \<le> uint b" "uint b < 256" using uint_lt2p [of b] by auto
  with Cons show ?case by auto
qed simp

text \<open>The laws the codec relies on, and what follows from them.\<close>

locale fixed_codec =
  fixes width :: nat
    and pack :: "'v \<Rightarrow> byte list result"
    and unpack :: "byte list \<Rightarrow> 'v result"
    and dom :: "'v \<Rightarrow> bool"
  assumes pack_dom: "dom v \<Longrightarrow> \<exists>bs. pack v = Inr bs"
    and pack_length: "pack v = Inr bs \<Longrightarrow> length bs = width"
    and unpack_pack: "dom v \<Longrightarrow> pack v = Inr bs \<Longrightarrow> unpack bs = Inr v"
    and unpack_width: "unpack bs = Inr v \<Longrightarrow> length bs = width"
begin

lemma unpack_append:
  "dom v \<Longrightarrow> pack v = Inr bs \<Longrightarrow> unpack (take width (bs @ rest)) = Inr v"
  using pack_length unpack_pack by (metis append_eq_conv_conj)

lemma drop_append: "pack v = Inr bs \<Longrightarrow> drop width (bs @ rest) = rest"
  using pack_length by (metis append_eq_conv_conj)

lemma pack_inj: "dom v \<Longrightarrow> dom w \<Longrightarrow> pack v = Inr bs \<Longrightarrow> pack w = Inr bs \<Longrightarrow> v = w"
  using unpack_pack by (metis sum.inject(2))

lemma unpack_short: "length bs < width \<Longrightarrow> unpack (take width bs) \<noteq> Inr v"
  using unpack_width [of "take width bs" v] by auto

end

lemma two_dvd_256: "0 < n \<Longrightarrow> (256 :: int) ^ n = 2 * (256 ^ n div 2)"
  by (cases n) simp_all

lemma signed_mod:
  fixes v :: int
  assumes "0 < n" and "- (256 ^ n div 2) \<le> v" and "v < 256 ^ n div 2"
  shows "(let u = v mod 256 ^ n in if u < 256 ^ n div 2 then u else u - 256 ^ n) = v"
proof (cases "0 \<le> v")
  case True
  with assms have "v mod 256 ^ n = v"
    by (intro mod_pos_pos_trivial) (use two_dvd_256 [OF assms(1)] in linarith)+
  with assms(3) show ?thesis by (simp add: Let_def)
next
  case False
  have e: "(256 :: int) ^ n = 2 * (256 ^ n div 2)" by (rule two_dvd_256 [OF assms(1)])
  have "v mod 256 ^ n = (v + 256 ^ n) mod 256 ^ n" by simp
  also have "\<dots> = v + 256 ^ n"
    by (intro mod_pos_pos_trivial) (use False assms(2,3) e in linarith)+
  finally show ?thesis using False assms(2) e by (simp add: Let_def)
qed

lemma uint_codec: "fixed_codec n (pack_uint n) (unpack_uint n) (\<lambda>v. 0 \<le> v \<and> v < 256 ^ n)"
  by unfold_locales (auto simp: pack_uint_def unpack_uint_def le_value_bytes split: if_splits)

lemma sint_codec:
  "0 < n \<Longrightarrow> fixed_codec n (pack_sint n) (unpack_sint n)
     (\<lambda>v. - (256 ^ n div 2) \<le> v \<and> v < 256 ^ n div 2)"
  by unfold_locales
    (auto simp: pack_sint_def unpack_sint_def le_value_bytes signed_mod split: if_splits)

interpretation u8: fixed_codec 1 "pack_uint 1" "unpack_uint 1" "\<lambda>v. 0 \<le> v \<and> v < 256 ^ 1"
  by (rule uint_codec)

interpretation u16: fixed_codec 2 "pack_uint 2" "unpack_uint 2" "\<lambda>v. 0 \<le> v \<and> v < 256 ^ 2"
  by (rule uint_codec)

interpretation u32: fixed_codec 4 "pack_uint 4" "unpack_uint 4" "\<lambda>v. 0 \<le> v \<and> v < 256 ^ 4"
  by (rule uint_codec)

interpretation u64: fixed_codec 8 "pack_uint 8" "unpack_uint 8" "\<lambda>v. 0 \<le> v \<and> v < 256 ^ 8"
  by (rule uint_codec)

interpretation s8: fixed_codec 1 "pack_sint 1" "unpack_sint 1"
    "\<lambda>v. - (256 ^ 1 div 2) \<le> v \<and> v < 256 ^ 1 div 2"
  by (rule sint_codec) simp

interpretation s16: fixed_codec 2 "pack_sint 2" "unpack_sint 2"
    "\<lambda>v. - (256 ^ 2 div 2) \<le> v \<and> v < 256 ^ 2 div 2"
  by (rule sint_codec) simp

interpretation s32: fixed_codec 4 "pack_sint 4" "unpack_sint 4"
    "\<lambda>v. - (256 ^ 4 div 2) \<le> v \<and> v < 256 ^ 4 div 2"
  by (rule sint_codec) simp

interpretation s64: fixed_codec 8 "pack_sint 8" "unpack_sint 8"
    "\<lambda>v. - (256 ^ 8 div 2) \<le> v \<and> v < 256 ^ 8 div 2"
  by (rule sint_codec) simp

section \<open>IEEE-754 single and double precision\<close>

text \<open>
  A Python float is an IEEE double. \<open>struct.pack("d")\<close> writes its 64-bit pattern,
  \<open>struct.pack("f")\<close> rounds it to single precision, to the nearest value with ties to even,
  and raises \<open>OverflowError\<close> when a finite value rounds beyond the largest single.
  The patterns are natural numbers here: one sign bit, the biased exponent (11 or 8
  bits) and the fraction (52 or 23 bits). The signalling bit of a NaN is set, as the
  conversion instructions do.
\<close>

definition round_even :: "nat \<Rightarrow> nat \<Rightarrow> nat" where
  "round_even n k =
     (let q = n div 2 ^ k; r = n mod 2 ^ k
      in if 2 * r < 2 ^ k then q
         else if 2 * r > 2 ^ k then Suc q
         else if even q then q else Suc q)"

definition narrow_double :: "nat \<Rightarrow> nat result" where
  "narrow_double b =
     (let s = b div 2 ^ 63; e = b div 2 ^ 52 mod 2 ^ 11; m = b mod 2 ^ 52; sign = s * 2 ^ 31
      in if e = 2047 then
           (if m = 0 then Inr (sign + 255 * 2 ^ 23)
            else Inr (sign + 255 * 2 ^ 23 + (2 ^ 22 + m div 2 ^ 29 mod 2 ^ 22)))
         else
           (let r = (if 897 \<le> e then round_even ((e - 896) * 2 ^ 52 + m) 29
                     else if e = 0 then 0
                     else round_even (2 ^ 52 + m) (926 - e))
            in if r < 255 * 2 ^ 23 then Inr (sign + r) else Inl OverflowError))"

fun bit_length :: "nat \<Rightarrow> nat" where
  "bit_length n = (if n = 0 then 0 else Suc (bit_length (n div 2)))"

declare bit_length.simps [simp del]

definition widen_single :: "nat \<Rightarrow> nat" where
  "widen_single b =
     (let s = b div 2 ^ 31; e = b div 2 ^ 23 mod 2 ^ 8; m = b mod 2 ^ 23; sign = s * 2 ^ 63
      in if e = 255 then
           (if m = 0 then sign + 2047 * 2 ^ 52
            else sign + 2047 * 2 ^ 52 + (2 ^ 22 + m mod 2 ^ 22) * 2 ^ 29)
         else if e = 0 then
           (if m = 0 then sign
            else (let k = bit_length m - 1
                  in sign + (k + 874) * 2 ^ 52 + (m - 2 ^ k) * 2 ^ (52 - k)))
         else sign + (e + 896) * 2 ^ 52 + m * 2 ^ 29)"

text \<open>\<open>struct.pack\<close>/\<open>unpack\<close> with the formats \<open>f\<close> and \<open>d\<close> (little-endian host).\<close>

definition pack_float :: "nat \<Rightarrow> byte list result" where
  "pack_float b = bindE (narrow_double b) (\<lambda>s. Inr (le_bytes 4 (int s)))"

definition unpack_float :: "byte list \<Rightarrow> nat result" where
  "unpack_float bs =
     (if length bs = 4 then Inr (widen_single (nat (le_value bs))) else Inl StructError)"

definition pack_double :: "nat \<Rightarrow> byte list result" where
  "pack_double b = Inr (le_bytes 8 (int b))"

definition unpack_double :: "byte list \<Rightarrow> nat result" where
  "unpack_double bs = (if length bs = 8 then Inr (nat (le_value bs)) else Inl StructError)"

text \<open>A double that a single represents exactly: the patterns a \<open>float32\<close> round trip keeps.\<close>

definition single_exact :: "nat \<Rightarrow> bool" where
  "single_exact b \<longleftrightarrow>
     (case narrow_double b of Inr s \<Rightarrow> s < 2 ^ 32 \<and> widen_single s = b | Inl _ \<Rightarrow> False)"

lemma round_even_exact: "round_even (n * 2 ^ k) k = n"
  by (simp add: round_even_def)

lemma bit_length_bounds: "0 < n \<Longrightarrow> 2 ^ (bit_length n - 1) \<le> n \<and> n < 2 ^ bit_length n"
proof (induction n rule: bit_length.induct)
  case (1 n)
  show ?case
  proof (cases "n = 1")
    case True
    then show ?thesis by (simp add: bit_length.simps [of "Suc 0"] bit_length.simps [of 0])
  next
    case False
    with 1 have pos: "0 < n div 2" and IH: "2 ^ (bit_length (n div 2) - 1) \<le> n div 2"
      "n div 2 < 2 ^ bit_length (n div 2)" by auto
    from pos obtain k where k: "bit_length (n div 2) = Suc k"
      by (subst (asm) bit_length.simps, simp add: bit_length.simps [of "n div 2"])
    have "bit_length n = Suc (Suc k)" using "1.prems" k by (simp add: bit_length.simps [of n])
    with IH k show ?thesis by auto
  qed
qed

lemma pattern_fields:
  fixes s e m E M :: nat
  assumes "e < E" and "m < M"
  shows "((s * E + e) * M + m) div (M * E) = s"
    and "((s * E + e) * M + m) div M mod E = e"
    and "((s * E + e) * M + m) mod M = m"
proof -
  have d: "((s * E + e) * M + m) div M = s * E + e" using assms(2) by simp
  show "((s * E + e) * M + m) div (M * E) = s"
    using d assms(1) by (simp add: div_mult2_eq)
  show "((s * E + e) * M + m) div M mod E = e" using d assms(1) by simp
  show "((s * E + e) * M + m) mod M = m" using assms(2) by simp
qed

definition double_bits :: "nat \<Rightarrow> nat \<Rightarrow> nat \<Rightarrow> nat" where
  "double_bits s e m = (s * 2 ^ 11 + e) * 2 ^ 52 + m"

lemma double_bits_fields:
  assumes "e < 2 ^ 11" and "m < 2 ^ 52"
  shows "double_bits s e m div 2 ^ 63 = s" "double_bits s e m div 2 ^ 52 mod 2 ^ 11 = e"
    "double_bits s e m mod 2 ^ 52 = m"
  using pattern_fields [OF assms, of s] by (simp_all add: double_bits_def)

lemma widen_cases:
  fixes b :: nat
  defines "s \<equiv> b div 2 ^ 31" and "e \<equiv> b div 2 ^ 23 mod 2 ^ 8" and "m \<equiv> b mod 2 ^ 23"
  shows "e = 255 \<Longrightarrow> m = 0 \<Longrightarrow> widen_single b = double_bits s 2047 0"
    and "e = 0 \<Longrightarrow> m = 0 \<Longrightarrow> widen_single b = double_bits s 0 0"
    and "e = 0 \<Longrightarrow> 0 < m \<Longrightarrow> widen_single b =
      double_bits s (bit_length m - 1 + 874)
        ((m - 2 ^ (bit_length m - 1)) * 2 ^ (52 - (bit_length m - 1)))"
    and "0 < e \<Longrightarrow> e < 255 \<Longrightarrow> widen_single b = double_bits s (e + 896) (m * 2 ^ 29)"
  by (simp_all add: widen_single_def double_bits_def Let_def s_def e_def m_def algebra_simps)

lemma single_split: "b = b div 2 ^ 31 * 2 ^ 31 + (b div 2 ^ 23 mod 2 ^ 8 * 2 ^ 23 + b mod 2 ^ 23)"
  for b :: nat
proof -
  define x q r m where d: "x = b div 2 ^ 23" "q = x div 2 ^ 8" "r = x mod 2 ^ 8" "m = b mod 2 ^ 23"
  have "b = x * 2 ^ 23 + m" "x = q * 2 ^ 8 + r" by (simp_all add: d)
  then have "b = q * 2 ^ 31 + (r * 2 ^ 23 + m)" by simp
  moreover have "b div 2 ^ 31 = q" by (simp add: d div_mult2_eq [symmetric])
  ultimately show ?thesis by (simp only: d)
qed

text \<open>Every single-precision value, NaNs apart, survives the trip through a Python float.\<close>

lemma narrow_widen:
  assumes "\<not> (b div 2 ^ 23 mod 2 ^ 8 = 255 \<and> b mod 2 ^ 23 \<noteq> 0)"
  shows "narrow_double (widen_single b) = Inr b"
proof -
  define s e m where d: "s = b div 2 ^ 31" "e = b div 2 ^ 23 mod 2 ^ 8" "m = b mod 2 ^ 23"
  have b: "b = s * 2 ^ 31 + (e * 2 ^ 23 + m)" unfolding d by (rule single_split)
  have e: "e < 2 ^ 8" and m: "m < 2 ^ 23" by (simp_all add: d)
  consider "e = 255" "m = 0" | "e = 0" "m = 0" | "e = 0" "0 < m" | "0 < e" "e < 255"
    using assms e d by fastforce
  then show ?thesis
  proof cases
    case 1
    then have w: "widen_single b = double_bits s 2047 0" using widen_cases(1) [of b] d by simp
    show ?thesis unfolding w narrow_double_def using 1 b double_bits_fields [of 2047 0 s] by simp
  next
    case 2
    then have w: "widen_single b = double_bits s 0 0" using widen_cases(2) [of b] d by simp
    show ?thesis unfolding w narrow_double_def using 2 b double_bits_fields [of 0 0 s] by simp
  next
    case 3
    define k where "k = bit_length m - 1"
    from 3 have lo: "2 ^ k \<le> m" and hi: "m < 2 ^ Suc k"
      using bit_length_bounds [of m] by (auto simp: k_def bit_length.simps [of m])
    have k: "k < 23"
    proof (rule ccontr)
      assume "\<not> k < 23"
      then have "(2 :: nat) ^ 23 \<le> 2 ^ k" by (intro power_increasing) auto
      with lo m show False by linarith
    qed
    have w: "widen_single b = double_bits s (k + 874) ((m - 2 ^ k) * 2 ^ (52 - k))"
      using widen_cases(3) [of b] 3 d by (simp add: k_def)
    have p: "(2 :: nat) ^ 52 = 2 ^ k * 2 ^ (52 - k)"
      using k by (simp add: power_add [symmetric] del: power_numeral)
    have lt: "(m - 2 ^ k) * 2 ^ (52 - k) < 2 ^ 52"
      unfolding p using lo hi by (intro mult_strict_right_mono) auto
    have "2 ^ 52 + (m - 2 ^ k) * 2 ^ (52 - k) = m * 2 ^ (52 - k)"
      unfolding p using lo by (metis add_mult_distrib le_add_diff_inverse)
    then have r: "round_even (2 ^ 52 + (m - 2 ^ k) * 2 ^ (52 - k)) (926 - (k + 874)) = m"
      using k by (simp only: round_even_exact) (simp add: round_even_exact)
    show ?thesis
      unfolding w narrow_double_def Let_def
      using k m 3 b r double_bits_fields [OF _ lt, of "k + 874" s]
      by simp
  next
    case 4
    then have w: "widen_single b = double_bits s (e + 896) (m * 2 ^ 29)"
      using widen_cases(4) [of b] d by simp
    have "(e + 896 - 896) * 2 ^ 52 + m * 2 ^ 29 = (e * 2 ^ 23 + m) * 2 ^ 29"
      by (simp add: algebra_simps)
    then have r: "round_even ((e + 896 - 896) * 2 ^ 52 + m * 2 ^ 29) 29 = e * 2 ^ 23 + m"
      by (simp only: round_even_exact)
    have lt: "e * 2 ^ 23 + m < 255 * 2 ^ 23" using 4 m by simp
    show ?thesis
      unfolding w narrow_double_def Let_def
      using 4 m b r lt double_bits_fields [of "e + 896" "m * 2 ^ 29" s]
      by (simp del: round_even_def)
  qed
qed

lemma single_exact_widen:
  assumes "b < 2 ^ 32" and "\<not> (b div 2 ^ 23 mod 2 ^ 8 = 255 \<and> b mod 2 ^ 23 \<noteq> 0)"
  shows "single_exact (widen_single b)"
  using assms by (simp add: single_exact_def narrow_widen)

interpretation f32: fixed_codec 4 pack_float unpack_float single_exact
  by unfold_locales
    (auto simp: pack_float_def unpack_float_def single_exact_def le_value_bytes result_simps
      split: if_splits sum.splits)

interpretation f64: fixed_codec 8 pack_double unpack_double "\<lambda>b. b < 2 ^ 64"
  by unfold_locales
    (auto simp: pack_double_def unpack_double_def le_value_bytes split: if_splits)

section \<open>UTF-8\<close>

text \<open>
  \<open>str.encode("utf-8")\<close> refuses surrogates (\<open>UnicodeEncodeError\<close>); \<open>str(b, "utf-8")\<close>
  refuses overlong forms, surrogates, code points beyond \<open>0x10FFFF\<close>, and broken sequences.
\<close>

definition surrogate :: "nat \<Rightarrow> bool" where
  "surrogate c \<longleftrightarrow> 0xD800 \<le> c \<and> c < 0xE000"

definition scalar :: "nat \<Rightarrow> bool" where
  "scalar c \<longleftrightarrow> c < 0x110000 \<and> \<not> surrogate c"

definition utf8_char :: "nat \<Rightarrow> nat list" where
  "utf8_char c =
     (if c < 0x80 then [c]
      else if c < 0x800 then [0xC0 + c div 64, 0x80 + c mod 64]
      else if c < 0x10000 then [0xE0 + c div 4096, 0x80 + c div 64 mod 64, 0x80 + c mod 64]
      else [0xF0 + c div 262144, 0x80 + c div 4096 mod 64, 0x80 + c div 64 mod 64,
            0x80 + c mod 64])"

definition utf8_encode :: "nat list \<Rightarrow> byte list result" where
  "utf8_encode s =
     (if list_all scalar s then Inr (map of_nat (concat (map utf8_char s)))
      else Inl UnicodeError)"

definition continuation :: "nat \<Rightarrow> bool" where
  "continuation b \<longleftrightarrow> 0x80 \<le> b \<and> b < 0xC0"

fun utf8_decode_nat :: "nat list \<Rightarrow> nat list result" where
  "utf8_decode_nat [] = Inr []"
| "utf8_decode_nat (b # bs) =
     (if b < 0x80 then bindE (utf8_decode_nat bs) (\<lambda>s. Inr (b # s))
      else if b < 0xC2 then Inl UnicodeError
      else if b < 0xE0 then
        (case bs of
           b1 # bs1 \<Rightarrow>
             if continuation b1
             then bindE (utf8_decode_nat bs1) (\<lambda>s. Inr (((b - 0xC0) * 64 + (b1 - 0x80)) # s))
             else Inl UnicodeError
         | _ \<Rightarrow> Inl UnicodeError)
      else if b < 0xF0 then
        (case bs of
           b1 # b2 # bs2 \<Rightarrow>
             let c = (b - 0xE0) * 4096 + (b1 - 0x80) * 64 + (b2 - 0x80)
             in if continuation b1 \<and> continuation b2 \<and> 0x800 \<le> c \<and> \<not> surrogate c
                then bindE (utf8_decode_nat bs2) (\<lambda>s. Inr (c # s))
                else Inl UnicodeError
         | _ \<Rightarrow> Inl UnicodeError)
      else if b < 0xF5 then
        (case bs of
           b1 # b2 # b3 # bs3 \<Rightarrow>
             let c = (b - 0xF0) * 262144 + (b1 - 0x80) * 4096 + (b2 - 0x80) * 64 + (b3 - 0x80)
             in if continuation b1 \<and> continuation b2 \<and> continuation b3
                   \<and> 0x10000 \<le> c \<and> c < 0x110000
                then bindE (utf8_decode_nat bs3) (\<lambda>s. Inr (c # s))
                else Inl UnicodeError
         | _ \<Rightarrow> Inl UnicodeError)
      else Inl UnicodeError)"

definition utf8_decode :: "byte list \<Rightarrow> nat list result" where
  "utf8_decode bs = utf8_decode_nat (map unat bs)"

lemma utf8_char_bound: "scalar c \<Longrightarrow> b \<in> set (utf8_char c) \<Longrightarrow> b < 256"
proof -
  have "c div 64 mod 64 < 64" "c div 4096 mod 64 < 64" "c mod 64 < 64" by simp_all
  moreover assume "scalar c" "b \<in> set (utf8_char c)"
  ultimately show ?thesis
    unfolding scalar_def utf8_char_def by (auto split: if_splits)
qed

lemma utf8_split2: "c = c div 64 * 64 + c mod 64" for c :: nat
  by simp

lemma utf8_split3: "c = c div 4096 * 4096 + c div 64 mod 64 * 64 + c mod 64" for c :: nat
proof -
  have "c div 64 = c div 4096 * 64 + c div 64 mod 64"
    using div_mult_mod_eq [of "c div 64" 64] by (simp add: div_mult2_eq [symmetric])
  with utf8_split2 [of c] show ?thesis by linarith
qed

lemma utf8_split4:
  "c = c div 262144 * 262144 + c div 4096 mod 64 * 4096 + c div 64 mod 64 * 64 + c mod 64"
  for c :: nat
proof -
  have "c div 4096 = c div 262144 * 64 + c div 4096 mod 64"
    using div_mult_mod_eq [of "c div 4096" 64] by (simp add: div_mult2_eq [symmetric])
  with utf8_split3 [of c] show ?thesis by linarith
qed

lemma utf8_decode_char:
  assumes "scalar c"
  shows "utf8_decode_nat (utf8_char c @ bs) = bindE (utf8_decode_nat bs) (\<lambda>s. Inr (c # s))"
proof -
  have c2: "continuation (0x80 + x mod 64)" for x by (simp add: continuation_def)
  consider "c < 0x80" | "0x80 \<le> c" "c < 0x800" | "0x800 \<le> c" "c < 0x10000"
    | "0x10000 \<le> c" "c < 0x110000" using assms by (fastforce simp: scalar_def)
  then show ?thesis
  proof cases
    case 1
    then show ?thesis by (simp add: utf8_char_def)
  next
    case 2
    then have "2 \<le> c div 64" "c div 64 < 32" by linarith+
    with 2 c2 utf8_split2 [of c] show ?thesis by (simp add: utf8_char_def)
  next
    case 3
    then have "c div 4096 < 16" by linarith
    moreover have "\<not> surrogate c" using assms by (simp add: scalar_def)
    ultimately show ?thesis using 3 c2 utf8_split3 [of c] by (simp add: utf8_char_def Let_def)
  next
    case 4
    then have "c div 262144 < 5" by linarith
    with 4 c2 utf8_split4 [of c] show ?thesis by (simp add: utf8_char_def Let_def)
  qed
qed

lemma utf8_decode_concat:
  "list_all scalar s \<Longrightarrow> utf8_decode_nat (concat (map utf8_char s)) = Inr s"
  by (induction s) (simp_all add: utf8_decode_char)

text \<open>Decoding what was encoded gives the string back.\<close>

lemma utf8_roundtrip:
  assumes "utf8_encode s = Inr bs"
  shows "utf8_decode bs = Inr s"
proof -
  from assms have s: "list_all scalar s" and bs: "bs = map of_nat (concat (map utf8_char s))"
    by (auto simp: utf8_encode_def split: if_splits)
  have "\<forall>b \<in> set (concat (map utf8_char s)). b < 256"
    using s utf8_char_bound by (auto simp: list_all_iff)
  moreover have "map unat (map of_nat xs :: byte list) = xs" if "\<forall>b \<in> set xs. b < 256" for xs
    using that by (induction xs) (simp_all add: unat_of_nat)
  ultimately have "map unat bs = concat (map utf8_char s)" unfolding bs by blast
  with s show ?thesis by (simp add: utf8_decode_def utf8_decode_concat)
qed

end
