(* ===== verification/Tlv_Writer.thy ===== *)
theory Tlv_Writer
  imports Py_Struct "HOL-Library.Multiset"
begin

text \<open>
  The TLV encoder: class \<open>TLVWriter\<close> of \<open>gazoo_device/utility/tlv_utils.py\<close>, with the class
  \<open>TLVList\<close> of \<open>tlv_list.py\<close> as a list of (tag, value) items. The writer is a record that
  each method returns updated; an exception of the source is the \<open>Inl\<close> of the result.
  Control bytes and tags are Python ints; the encoding is a byte list.
\<close>

unbundle bit_operations_syntax

section \<open>Tags and values\<close>

text \<open>
  A tag argument, or a key of a dictionary: \<open>None\<close>, an int, a pair (profile, number), or
  any other object (a string: the reader uses \<open>"Any"\<close> for an anonymous element).
\<close>

datatype tag = TNone | TInt int | TProf "int option" int | TStr string

text \<open>
  The Python objects \<open>put\<close> distinguishes, in the order of its \<open>isinstance\<close> chain. An enum
  carries the int it compares as, or nothing for an enum that is not an int. \<open>VDict\<close> is
  exactly \<open>dict\<close>, \<open>VMapping\<close> any other mapping, \<open>VOther\<close> an object of no supported type.
\<close>

datatype pyval =
    VNone
  | VEnum "int option"
  | VBool bool
  | VUint int
  | VInt int
  | VFloat32 nat
  | VFloat nat
  | VStr "nat list"
  | VBytes "byte list"
  | VMapping "(tag \<times> pyval) list"
  | VDict "(tag \<times> pyval) list"
  | VTlvList "(tag \<times> pyval) list"
  | VSeq "pyval list"
  | VOther

abbreviation (input) TLV_TYPE_SIGNED_INTEGER :: int where "TLV_TYPE_SIGNED_INTEGER \<equiv> 0x00"
abbreviation (input) TLV_TYPE_UNSIGNED_INTEGER :: int where "TLV_TYPE_UNSIGNED_INTEGER \<equiv> 0x04"
abbreviation (input) TLV_TYPE_BOOLEAN :: int where "TLV_TYPE_BOOLEAN \<equiv> 0x08"
abbreviation (input) TLV_TYPE_FLOATING_POINT_NUMBER :: int
  where "TLV_TYPE_FLOATING_POINT_NUMBER \<equiv> 0x0A"
abbreviation (input) TLV_TYPE_UTF8_STRING :: int where "TLV_TYPE_UTF8_STRING \<equiv> 0x0C"
abbreviation (input) TLV_TYPE_BYTE_STRING :: int where "TLV_TYPE_BYTE_STRING \<equiv> 0x10"
abbreviation (input) TLV_TYPE_NULL :: int where "TLV_TYPE_NULL \<equiv> 0x14"
abbreviation (input) TLV_TYPE_STRUCTURE :: int where "TLV_TYPE_STRUCTURE \<equiv> 0x15"
abbreviation (input) TLV_TYPE_ARRAY :: int where "TLV_TYPE_ARRAY \<equiv> 0x16"
abbreviation (input) TLV_TYPE_PATH :: int where "TLV_TYPE_PATH \<equiv> 0x17"
abbreviation (input) TLVEndOfContainer :: int where "TLVEndOfContainer \<equiv> 0x18"

abbreviation (input) UINT8_MAX :: int where "UINT8_MAX \<equiv> 255"
abbreviation (input) UINT16_MAX :: int where "UINT16_MAX \<equiv> 65535"
abbreviation (input) UINT32_MAX :: int where "UINT32_MAX \<equiv> 4294967295"
abbreviation (input) UINT64_MAX :: int where "UINT64_MAX \<equiv> 18446744073709551615"

section \<open>The writer\<close>

record tlv_writer =
  encoding :: "byte list"
  implicitProfile :: "int option"
  containerStack :: "int list"

definition new_writer :: "int option \<Rightarrow> tlv_writer" where
  "new_writer profile = \<lparr>encoding = [], implicitProfile = profile, containerStack = []\<rparr>"

definition extend :: "byte list \<Rightarrow> tlv_writer \<Rightarrow> tlv_writer" where
  "extend bs w = w\<lparr>encoding := encoding w @ bs\<rparr>"

text \<open>
  \<open>_encodeControlAndTag\<close>. The last branch packs five values with the four-field format
  \<open>"<BHHL"\<close>, so \<open>struct.pack\<close> raises whatever they are.
\<close>

definition length_bits :: "int \<Rightarrow> nat \<Rightarrow> int" where
  "length_bits t n =
     (if n = 2 then t OR 1 else if n = 4 then t OR 2 else if n = 8 then t OR 3 else t)"

definition pack_tag :: "int \<Rightarrow> nat \<Rightarrow> int \<Rightarrow> byte list result" where
  "pack_tag control n tagNum =
     bindE (pack_uint 1 control) (\<lambda>c. bindE (pack_uint n tagNum) (\<lambda>t. Inr (c @ t)))"

definition encodeControlAndTag :: "int \<Rightarrow> tag \<Rightarrow> nat \<Rightarrow> tlv_writer \<Rightarrow> byte list result" where
  "encodeControlAndTag type tag lenOfLenOrVal w =
     (let controlByte = length_bits type lenOfLenOrVal; stack = containerStack w in
      case tag of
        TNone \<Rightarrow>
          (if type \<noteq> TLVEndOfContainer \<and> stack \<noteq> [] \<and> hd stack = TLV_TYPE_STRUCTURE
           then Inl ValueError
           else pack_uint 1 (controlByte OR 0x00))
      | TInt n \<Rightarrow>
          (if n < 0 \<or> n > UINT8_MAX then Inl ValueError
           else if stack = [] then Inl ValueError
           else if hd stack = TLV_TYPE_ARRAY then Inl ValueError
           else pack_tag (controlByte OR 0x20) 1 n)
      | TProf profile tagNum \<Rightarrow>
          (if tagNum < 0 \<or> tagNum > UINT32_MAX then Inl ValueError
           else if (case profile of Some p \<Rightarrow> p < 0 \<or> p > UINT32_MAX | None \<Rightarrow> False)
           then Inl ValueError
           else if stack \<noteq> [] \<and> hd stack = TLV_TYPE_ARRAY then Inl ValueError
           else if profile = None \<or> profile = implicitProfile w then
             (if tagNum \<le> UINT16_MAX then pack_tag (controlByte OR 0x80) 2 tagNum
              else pack_tag (controlByte OR 0xA0) 4 tagNum)
           else if profile = Some 0 then
             (if tagNum \<le> UINT16_MAX then pack_tag (controlByte OR 0x40) 2 tagNum
              else pack_tag (controlByte OR 0x60) 4 tagNum)
           else
             (let vendorId = drop_bit 16 (the profile) AND 0xFFFF;
                  profileNum = drop_bit 0 (the profile) AND 0xFFFF
              in if tagNum \<le> UINT16_MAX then
                   bindE (pack_tag (controlByte OR 0xC0) 2 vendorId) (\<lambda>b.
                   bindE (pack_uint 2 profileNum) (\<lambda>p.
                   bindE (pack_uint 2 tagNum) (\<lambda>t. Inr (b @ p @ t))))
                 else Inl StructError))
      | TStr _ \<Rightarrow> Inl ValueError)"

definition encodeUnsignedInt :: "int \<Rightarrow> byte list result" where
  "encodeUnsignedInt val =
     (if val < 0 then Inl ValueError
      else if val \<le> UINT8_MAX then pack_uint 1 val
      else if val \<le> UINT16_MAX then pack_uint 2 val
      else if val \<le> UINT32_MAX then pack_uint 4 val
      else if val \<le> UINT64_MAX then pack_uint 8 val
      else Inl ValueError)"

definition encodeSignedInt :: "int \<Rightarrow> byte list result" where
  "encodeSignedInt val =
     (if val \<ge> -128 \<and> val \<le> 127 then pack_sint 1 val
      else if val \<ge> -32768 \<and> val \<le> 32767 then pack_sint 2 val
      else if val \<ge> -2147483648 \<and> val \<le> 2147483647 then pack_sint 4 val
      else if val \<ge> -9223372036854775808 \<and> val \<le> 9223372036854775807 then pack_sint 8 val
      else Inl ValueError)"

text \<open>Each \<open>put...\<close> method packs its value, encodes the control byte and the tag, appends both.\<close>

definition put_element :: "int \<Rightarrow> tag \<Rightarrow> nat \<Rightarrow> byte list \<Rightarrow> tlv_writer \<Rightarrow> tlv_writer result" where
  "put_element type tag lenOfLenOrVal payload w =
     bindE (encodeControlAndTag type tag lenOfLenOrVal w)
       (\<lambda>controlAndTag. Inr (extend payload (extend controlAndTag w)))"

definition putSignedInt :: "tag \<Rightarrow> int \<Rightarrow> tlv_writer \<Rightarrow> tlv_writer result" where
  "putSignedInt tag val w =
     bindE (encodeSignedInt val)
       (\<lambda>bs. put_element TLV_TYPE_SIGNED_INTEGER tag (length bs) bs w)"

definition putUnsignedInt :: "tag \<Rightarrow> int \<Rightarrow> tlv_writer \<Rightarrow> tlv_writer result" where
  "putUnsignedInt tag val w =
     bindE (encodeUnsignedInt val)
       (\<lambda>bs. put_element TLV_TYPE_UNSIGNED_INTEGER tag (length bs) bs w)"

definition putFloat :: "tag \<Rightarrow> nat \<Rightarrow> tlv_writer \<Rightarrow> tlv_writer result" where
  "putFloat tag val w =
     bindE (pack_float val)
       (\<lambda>bs. put_element TLV_TYPE_FLOATING_POINT_NUMBER tag (length bs) bs w)"

definition putDouble :: "tag \<Rightarrow> nat \<Rightarrow> tlv_writer \<Rightarrow> tlv_writer result" where
  "putDouble tag val w =
     bindE (pack_double val)
       (\<lambda>bs. put_element TLV_TYPE_FLOATING_POINT_NUMBER tag (length bs) bs w)"

definition putBytes :: "tag \<Rightarrow> byte list \<Rightarrow> tlv_writer \<Rightarrow> tlv_writer result" where
  "putBytes tag val w =
     bindE (encodeUnsignedInt (int (length val)))
       (\<lambda>valLen. put_element TLV_TYPE_BYTE_STRING tag (length valLen) (valLen @ val) w)"

definition putString :: "tag \<Rightarrow> nat list \<Rightarrow> tlv_writer \<Rightarrow> tlv_writer result" where
  "putString tag val w =
     bindE (utf8_encode val) (\<lambda>bs.
     bindE (encodeUnsignedInt (int (length bs)))
       (\<lambda>valLen. put_element TLV_TYPE_UTF8_STRING tag (length valLen) (valLen @ bs) w))"

definition putBool :: "tag \<Rightarrow> bool \<Rightarrow> tlv_writer \<Rightarrow> tlv_writer result" where
  "putBool tag val w =
     put_element (if val then TLV_TYPE_BOOLEAN + 1 else TLV_TYPE_BOOLEAN) tag 0 [] w"

definition putNull :: "tag \<Rightarrow> tlv_writer \<Rightarrow> tlv_writer result" where
  "putNull tag w = put_element TLV_TYPE_NULL tag 0 [] w"

definition verifyValidContainerType :: "int \<Rightarrow> unit result" where
  "verifyValidContainerType t =
     (if t \<noteq> TLV_TYPE_STRUCTURE \<and> t \<noteq> TLV_TYPE_ARRAY \<and> t \<noteq> TLV_TYPE_PATH
      then Inl ValueError else Inr ())"

definition startContainer :: "tag \<Rightarrow> int \<Rightarrow> tlv_writer \<Rightarrow> tlv_writer result" where
  "startContainer tag containerType w =
     bindE (verifyValidContainerType containerType) (\<lambda>_.
     bindE (put_element containerType tag 0 [] w) (\<lambda>w'.
       Inr (w'\<lparr>containerStack := containerType # containerStack w'\<rparr>)))"

definition endContainer :: "tlv_writer \<Rightarrow> tlv_writer result" where
  "endContainer w =
     (case containerStack w of
        [] \<Rightarrow> Inl IndexError
      | _ # stack \<Rightarrow> put_element TLVEndOfContainer TNone 0 [] (w\<lparr>containerStack := stack\<rparr>))"

section \<open>The order of the elements of a structure\<close>

definition tlvTagToSortKey :: "tag \<Rightarrow> int result" where
  "tlvTagToSortKey tag =
     (case tag of
        TNone \<Rightarrow> Inr (-1)
      | TInt n \<Rightarrow> Inr (push_bit 32 0 + n)
      | TProf None n \<Rightarrow> Inr (push_bit 32 1 + n)
      | TProf (Some p) n \<Rightarrow> Inr (push_bit 32 (p + 2) + n)
      | TStr _ \<Rightarrow> Inl ValueError)"

text \<open>\<open>sorted(val.items(), key=...)\<close>: all keys are computed, then a stable sort.\<close>

definition sort_items :: "(tag \<times> 'v) list \<Rightarrow> (tag \<times> 'v) list result" where
  "sort_items items =
     bindE (mapE (\<lambda>kv. tlvTagToSortKey (fst kv)) items)
       (\<lambda>keys. Inr (map snd (sort_key fst (zip keys items))))"

lemma sort_items_mset: "sort_items items = Inr items' \<Longrightarrow> mset items' = mset items"
proof -
  assume "sort_items items = Inr items'"
  then obtain keys where k: "mapE (\<lambda>kv. tlvTagToSortKey (fst kv)) items = Inr keys"
    and i: "items' = map snd (sort_key fst (zip keys items))"
    by (auto simp: sort_items_def result_simps)
  from k have l: "length keys = length items" by (rule mapE_length)
  have "mset items' = mset (map snd (zip keys items))" unfolding i by simp
  with l show ?thesis by (simp only: map_snd_zip)
qed

lemma sort_items_set: "sort_items items = Inr items' \<Longrightarrow> set items' = set items"
  using sort_items_mset by (metis mset_eq_setD)

section \<open>put\<close>

lemma size_item [termination_simp]:
  "(t, v) \<in> set items \<Longrightarrow> size v < Suc (size_list (size_prod (\<lambda>_. 0) size) items)"
  by (induction items) auto

function put :: "tag \<Rightarrow> pyval \<Rightarrow> tlv_writer \<Rightarrow> tlv_writer result" where
  "put tag VNone w = putNull tag w"
| "put tag (VEnum e) w =
     (case e of Some n \<Rightarrow> putUnsignedInt tag n w | None \<Rightarrow> Inl TypeError)"
| "put tag (VBool b) w = putBool tag b w"
| "put tag (VUint n) w = putUnsignedInt tag n w"
| "put tag (VInt n) w = putSignedInt tag n w"
| "put tag (VFloat32 b) w = putFloat tag b w"
| "put tag (VFloat b) w = putDouble tag b w"
| "put tag (VStr s) w = putString tag s w"
| "put tag (VBytes bs) w = putBytes tag bs w"
| "put tag (VMapping items) w =
     bindE (startContainer tag TLV_TYPE_STRUCTURE w) (\<lambda>w1.
     bindE (foldE (\<lambda>kv w'. put (fst kv) (snd kv) w') items w1) endContainer)"
| "put tag (VDict items) w =
     bindE (startContainer tag TLV_TYPE_STRUCTURE w) (\<lambda>w1.
     bindE (sort_items items) (\<lambda>items'.
     bindE (foldE (\<lambda>kv w'. put (fst kv) (snd kv) w') items' w1) endContainer))"
| "put tag (VTlvList items) w =
     bindE (startContainer tag TLV_TYPE_PATH w) (\<lambda>w1.
     bindE (foldE (\<lambda>kv w'. put (fst kv) (snd kv) w') items w1) endContainer)"
| "put tag (VSeq vs) w =
     bindE (startContainer tag TLV_TYPE_ARRAY w) (\<lambda>w1.
     bindE (foldE (\<lambda>v w'. put TNone v w') vs w1) endContainer)"
| "put tag VOther w = Inl ValueError"
  by pat_completeness auto
termination
  by (relation "measure (\<lambda>(t, v, w). size v)")
    (auto dest: sort_items_set size_item simp: termination_simp less_Suc_eq_le size_list_estimation')

section \<open>What a successful put leaves\<close>

text \<open>
  \<open>tlv_frame w w'\<close>: the open containers and the profile are those of before, and the
  encoding was only appended to.
\<close>

definition tlv_frame :: "tlv_writer \<Rightarrow> tlv_writer \<Rightarrow> bool" where
  "tlv_frame w w' \<longleftrightarrow> containerStack w' = containerStack w \<and>
     implicitProfile w' = implicitProfile w \<and>
     take (length (encoding w)) (encoding w') = encoding w"

lemma tlv_frame_refl [intro]: "tlv_frame w w" by (simp add: tlv_frame_def)

lemma tlv_frame_trans [trans]: "tlv_frame a b \<Longrightarrow> tlv_frame b c \<Longrightarrow> tlv_frame a c"
  by (auto simp: tlv_frame_def) (metis min_absorb1 take_take append_take_drop_id
      length_append le_add1)

lemma put_element_frame: "put_element type t len payload w = Inr w' \<Longrightarrow> tlv_frame w w'"
  by (auto simp: put_element_def result_simps tlv_frame_def extend_def)

lemma scalar_put_frame:
  "putNull t w = Inr w' \<Longrightarrow> tlv_frame w w'"
  "putBool t b w = Inr w' \<Longrightarrow> tlv_frame w w'"
  "putUnsignedInt t n w = Inr w' \<Longrightarrow> tlv_frame w w'"
  "putSignedInt t n w = Inr w' \<Longrightarrow> tlv_frame w w'"
  "putFloat t x w = Inr w' \<Longrightarrow> tlv_frame w w'"
  "putDouble t x w = Inr w' \<Longrightarrow> tlv_frame w w'"
  "putString t s w = Inr w' \<Longrightarrow> tlv_frame w w'"
  "putBytes t bs w = Inr w' \<Longrightarrow> tlv_frame w w'"
  unfolding putNull_def putBool_def putUnsignedInt_def putSignedInt_def
    putFloat_def putDouble_def putString_def putBytes_def
  by (auto simp only: result_simps dest!: put_element_frame)

lemma container_frame:
  assumes "bindE (startContainer t type w) (\<lambda>w1. bindE (foldE step xs w1) endContainer) = Inr w'"
    and "\<And>w1 x u v. startContainer t type w = Inr w1 \<Longrightarrow> x \<in> set xs \<Longrightarrow>
      step x u = Inr v \<Longrightarrow> tlv_frame u v"
  shows "tlv_frame w w'"
proof -
  from assms(1) obtain w1 w2 where s: "startContainer t type w = Inr w1"
    and f: "foldE step xs w1 = Inr w2" and e: "endContainer w2 = Inr w'"
    by (auto simp: result_simps)
  from s obtain w3 where w3: "put_element type t 0 [] w = Inr w3"
    and w1: "w1 = w3\<lparr>containerStack := type # containerStack w3\<rparr>"
    by (auto simp: startContainer_def result_simps)
  have f12: "tlv_frame w1 w2"
    by (rule foldE_invariant [OF f, of "tlv_frame w1"])
      (auto intro: tlv_frame_trans assms(2) [OF s])
  let ?w2 = "w2\<lparr>containerStack := containerStack w3\<rparr>"
  note put_element_frame [OF w3]
  also from f12 w1 have "tlv_frame w3 ?w2" by (simp add: tlv_frame_def)
  also from e f12 w1 have "put_element TLVEndOfContainer TNone 0 [] ?w2 = Inr w'"
    by (simp add: endContainer_def tlv_frame_def)
  then have "tlv_frame ?w2 w'" by (rule put_element_frame)
  finally show ?thesis .
qed

lemma put_framed: "put t v w = Inr w' \<Longrightarrow> tlv_frame w w'"
proof (induction t v w arbitrary: w' rule: put.induct)
  case (2 t e w)
  then show ?case by (cases e) (auto simp: scalar_put_frame)
next
  case (10 t items w)
  from 10(2) show ?case
    by (simp only: put.simps) (erule container_frame, rule 10(1))
next
  case (11 t items w)
  from 11(2) obtain items' where s: "sort_items items = Inr items'"
    and p: "bindE (startContainer t TLV_TYPE_STRUCTURE w) (\<lambda>w1.
      bindE (foldE (\<lambda>kv w'. put (fst kv) (snd kv) w') items' w1) endContainer) = Inr w'"
    by (auto simp: result_simps)
  from p show ?case
  proof (rule container_frame)
    fix w1 x u v
    assume "startContainer t TLV_TYPE_STRUCTURE w = Inr w1" and "x \<in> set items'" and "put (fst x) (snd x) u = Inr v"
    then show "tlv_frame u v" by (rule 11(1) [OF _ s])
  qed
next
  case (12 t items w)
  from 12(2) show ?case
    by (simp only: put.simps) (erule container_frame, rule 12(1))
next
  case (13 t vs w)
  from 13(2) show ?case
    by (simp only: put.simps) (erule container_frame, rule 13(1))
qed (simp_all only: put.simps scalar_put_frame, simp)

section \<open>Properties of the writer\<close>

lemma mapE_Inr_keys: "mapE f xs = Inr ys \<longleftrightarrow> map f xs = map Inr ys"
  by (induction xs arbitrary: ys) (auto simp: result_simps Cons_eq_map_conv)

lemma put_dict_as_mapping:
  "put t (VDict items) w = Inr w' \<Longrightarrow>
   \<exists>items'. sort_items items = Inr items' \<and> put t (VMapping items') w = Inr w'"
  by (auto simp: result_simps)

lemma sort_items_keys:
  assumes "sort_items items = Inr items'"
  shows "\<exists>keys. mapE (\<lambda>kv. tlvTagToSortKey (fst kv)) items' = Inr keys \<and> sorted keys"
proof -
  let ?f = "\<lambda>kv. tlvTagToSortKey (fst kv)"
  from assms obtain keys where k: "mapE ?f items = Inr keys"
    and i: "items' = map snd (sort_key fst (zip keys items))"
    by (auto simp: sort_items_def result_simps)
  from k have m: "map ?f items = map Inr keys" by (simp add: mapE_Inr_keys)
  have l: "length items = length keys" using m by (metis length_map)
  let ?s = "sort_key fst (zip keys items)"
  have *: "?f (snd x) = Inr (fst x)" if "x \<in> set ?s" for x
  proof -
    from that have "x \<in> set (zip keys items)" by simp
    then obtain j where "j < length keys" "x = (keys ! j, items ! j)"
      by (auto simp: in_set_zip prod_eq_iff)
    with m l show ?thesis by (metis fst_conv nth_map snd_conv)
  qed
  then have "map ?f items' = map Inr (map fst ?s)"
    unfolding i by (simp add: o_def)
  moreover have "sorted (map fst ?s)" by simp
  ultimately show ?thesis unfolding mapE_Inr_keys by blast
qed

text \<open>A dictionary is written as the structure of its items in ascending order of their
  sort keys: whatever order it was built in, some reordering of its items (a permutation,
  with the keys sorted) is what the writer emits, as it would for a mapping in that order.\<close>

theorem put_dict_sorted:
  assumes "put t (VDict items) w = Inr w'"
  shows "\<exists>items' keys. mset items' = mset items \<and>
    mapE (\<lambda>kv. tlvTagToSortKey (fst kv)) items' = Inr keys \<and> sorted keys \<and>
    put t (VMapping items') w = Inr w'"
  using put_dict_as_mapping [OF assms] sort_items_keys sort_items_mset by metis

theorem put_dict_sorted_witness:
  "\<exists>items' keys. mset items' = mset [(TInt 2, VBool True), (TInt 1, VNone)] \<and>
    mapE (\<lambda>kv. tlvTagToSortKey (fst kv)) items' = Inr keys \<and> sorted keys \<and>
    put TNone (VMapping items') (new_writer None)
      = Inr \<lparr>encoding = [0x15, 0x34, 1, 0x29, 2, 0x18], implicitProfile = None, containerStack = []\<rparr>"
proof -
  have "put TNone (VDict [(TInt 2, VBool True), (TInt 1, VNone)]) (new_writer None)
    = Inr \<lparr>encoding = [0x15, 0x34, 1, 0x29, 2, 0x18], implicitProfile = None, containerStack = []\<rparr>"
    by code_simp
  then show ?thesis by (rule put_dict_sorted)
qed

text \<open>A put that succeeds closes every container it opened and keeps the profile, and
  the bytes written before it stay what they were: the encoding only grows at its end.\<close>

theorem put_frame:
  assumes "put t v w = Inr w'"
  shows "containerStack w' = containerStack w \<and> implicitProfile w' = implicitProfile w \<and>
    (\<exists>bs. encoding w' = encoding w @ bs)"
  using put_framed [OF assms] unfolding tlv_frame_def by (metis append_take_drop_id)

theorem put_frame_witness:
  "\<exists>w'. put (TInt 5) (VUint 1) \<lparr>encoding = [0x15], implicitProfile = None, containerStack = [0x15]\<rparr>
      = Inr w' \<and> containerStack w' = [0x15] \<and> (\<exists>bs. encoding w' = [0x15] @ bs)"
proof -
  have "put (TInt 5) (VUint 1)
      \<lparr>encoding = [0x15], implicitProfile = None, containerStack = [0x15]\<rparr> =
    Inr \<lparr>encoding = [0x15, 0x24, 5, 1], implicitProfile = None, containerStack = [0x15]\<rparr>"
    by code_simp
  from this put_frame [OF this] show ?thesis by simp
qed

lemma full_tag_fails:
  assumes "implicitProfile w \<noteq> Some p" and "p \<noteq> 0" and "65535 < n"
  shows "\<exists>e. put_element type (TProf (Some p) n) len payload w = Inl e"
  using assms by (auto simp: put_element_def encodeControlAndTag_def Let_def)

lemma bindE_const_fails: "(\<And>x. \<exists>e. f x = Inl e) \<Longrightarrow> \<exists>e. bindE m f = Inl e"
  by (cases m) auto

text \<open>A fully qualified tag (a profile that is neither the implicit one nor 0) with a
  number above 65535 cannot be written: whatever the value, put raises, although the format
  has a control byte for such tags and the range check of the method lets them pass.\<close>

theorem put_full_tag_fails:
  assumes "implicitProfile w \<noteq> Some p" and "p \<noteq> 0" and "65535 < n"
  shows "\<exists>e. put (TProf (Some p) n) v w = Inl e"
proof -
  note f = full_tag_fails [OF assms]
  have c: "\<exists>e. startContainer (TProf (Some p) n) type w = Inl e" for type
    by (cases "verifyValidContainerType type")
      (use f [of type 0 "[]"] in \<open>auto simp: startContainer_def\<close>)
  show ?thesis
  proof (cases v)
    case (VEnum e)
    then show ?thesis
      by (cases e) (auto simp: putUnsignedInt_def intro!: bindE_const_fails f)
  next
    case (VDict items)
    with c show ?thesis by simp (metis bindE_simps(1))
  next
    case (VMapping items)
    with c show ?thesis by simp (metis bindE_simps(1))
  next
    case (VTlvList items)
    with c show ?thesis by simp (metis bindE_simps(1))
  next
    case (VSeq items)
    with c show ?thesis by simp (metis bindE_simps(1))
  qed (auto simp: putUnsignedInt_def putSignedInt_def putFloat_def putDouble_def putString_def
      putBytes_def putBool_def putNull_def intro!: bindE_const_fails f)
qed

theorem put_full_tag_fails_witness:
  "\<exists>e. put (TProf (Some 0x00010002) 70000) (VUint 1) (new_writer None) = Inl e"
  using put_full_tag_fails [where w = "new_writer None" and p = "0x00010002" and n = "70000"] by (simp add: new_writer_def del: put.simps)

end
