(* ===== verification/Tlv_Reader.thy ===== *)
theory Tlv_Reader
  imports Tlv_Writer
begin

text \<open>
  The TLV decoder: class \<open>TLVReader\<close> of \<open>gazoo_device/utility/tlv_utils.py\<close>. The position
  \<open>_bytesRead\<close> is represented by the bytes still to read: every slice the code takes starts
  there, and a slice that runs past the end is short, which \<open>struct.unpack\<close> refuses. The
  loop of \<open>_get\<close> and the recursion through \<open>_decodeVal\<close> run on fuel; one unit per element is
  enough, since each element takes at least its control byte.
\<close>

definition ElementTypes :: "int \<Rightarrow> string option" where
  "ElementTypes = map_of
    [(0x00, ''Signed Integer 1-byte value''), (0x01, ''Signed Integer 2-byte value''),
     (0x02, ''Signed Integer 4-byte value''), (0x03, ''Signed Integer 8-byte value''),
     (0x04, ''Unsigned Integer 1-byte value''), (0x05, ''Unsigned Integer 2-byte value''),
     (0x06, ''Unsigned Integer 4-byte value''), (0x07, ''Unsigned Integer 8-byte value''),
     (0x08, ''Boolean False''), (0x09, ''Boolean True''),
     (0x0A, ''Floating Point 4-byte value''), (0x0B, ''Floating Point 8-byte value''),
     (0x0C, ''UTF-8 String 1-byte length''), (0x0D, ''UTF-8 String 2-byte length''),
     (0x0E, ''UTF-8 String 4-byte length''), (0x0F, ''UTF-8 String 8-byte length''),
     (0x10, ''Byte String 1-byte length''), (0x11, ''Byte String 2-byte length''),
     (0x12, ''Byte String 4-byte length''), (0x13, ''Byte String 8-byte length''),
     (0x14, ''Null''), (0x15, ''Structure''), (0x16, ''Array''), (0x17, ''Path''),
     (0x18, ''End of Collection'')]"

definition TagControls :: "int \<Rightarrow> string option" where
  "TagControls = map_of
    [(0x00, ''Anonymous''), (0x20, ''Context 1-byte''),
     (0x40, ''Common Profile 2-byte''), (0x60, ''Common Profile 4-byte''),
     (0x80, ''Implicit Profile 2-byte''), (0xA0, ''Implicit Profile 4-byte''),
     (0xC0, ''Fully Qualified 6-byte''), (0xE0, ''Fully Qualified 8-byte'')]"

text \<open>
  The dictionary \<open>decoding\<close> of one element. \<open>d_tag\<close> and \<open>d_profileTag\<close> are the entries
  \<open>"tag"\<close> and \<open>"profileTag"\<close>, of which exactly one is set; \<open>d_nested\<close> is the list under
  \<open>"Structure"\<close>, \<open>"Array"\<close> or \<open>"Path"\<close>.
\<close>

datatype decoding = Decoding
  (d_tagControl: string) (d_type: string) (d_tag: "tag option") (d_profileTag: "tag option")
  (d_tagLen: nat) (d_strDataLen: nat) (d_strDataLenLen: nat) (d_value: pyval)
  (d_nested: "decoding list")

definition decodeControlByte :: "byte list \<Rightarrow> ((string \<times> string) \<times> byte list) result" where
  "decodeControlByte tlv =
     bindE (unpack_uint 1 (take 1 tlv)) (\<lambda>controlByte.
       (case TagControls (controlByte AND 0xE0) of
          None \<Rightarrow> Inl KeyError
        | Some tc \<Rightarrow>
            (case ElementTypes (controlByte AND 0x1F) of
               None \<Rightarrow> Inl KeyError
             | Some et \<Rightarrow> Inr ((tc, et), drop 1 tlv))))"

text \<open>
  The header of an element: tag control, element type, the entry \<open>"tag"\<close> or \<open>"profileTag"\<close>,
  and the tag length.
\<close>

type_synonym header = "string \<times> string \<times> tag option \<times> tag option \<times> nat"

definition profile_tag ::
  "string \<Rightarrow> string \<Rightarrow> int option \<Rightarrow> nat \<Rightarrow> byte list \<Rightarrow> (header \<times> byte list) result" where
  "profile_tag tc et profile n tlv =
     bindE (unpack_uint n (take n tlv))
       (\<lambda>t. Inr ((tc, et, None, Some (TProf profile t), n), drop n tlv))"

definition qualified_tag ::
  "string \<Rightarrow> string \<Rightarrow> nat \<Rightarrow> byte list \<Rightarrow> (header \<times> byte list) result" where
  "qualified_tag tc et n tlv =
     bindE (unpack_uint 2 (take 2 (take 4 tlv))) (\<lambda>vendorId.
     bindE (unpack_uint 2 (drop 2 (take 4 tlv))) (\<lambda>profileNum.
     bindE (unpack_uint n (take n (drop 4 tlv))) (\<lambda>t.
       Inr ((tc, et, None, Some (TProf (Some (push_bit 16 vendorId OR profileNum)) t), n),
            drop (4 + n) tlv))))"

definition decodeControlAndTag :: "byte list \<Rightarrow> (header \<times> byte list) result" where
  "decodeControlAndTag tlv =
     bindE (decodeControlByte tlv) (\<lambda>((tc, et), tlv1).
       if tc = ''Anonymous'' then Inr ((tc, et, Some TNone, None, 0), tlv1)
       else if tc = ''Context 1-byte'' then
         bindE (unpack_uint 1 (take 1 tlv1))
           (\<lambda>t. Inr ((tc, et, Some (TInt t), None, 1), drop 1 tlv1))
       else if tc = ''Common Profile 2-byte'' then profile_tag tc et (Some 0) 2 tlv1
       else if tc = ''Common Profile 4-byte'' then profile_tag tc et (Some 0) 4 tlv1
       else if tc = ''Implicit Profile 2-byte'' then profile_tag tc et None 2 tlv1
       else if tc = ''Implicit Profile 4-byte'' then profile_tag tc et None 4 tlv1
       else if tc = ''Fully Qualified 6-byte'' then qualified_tag tc et 2 tlv1
       else qualified_tag tc et 4 tlv1)"

definition decodeStrLength :: "string \<Rightarrow> byte list \<Rightarrow> ((nat \<times> nat) \<times> byte list) result" where
  "decodeStrLength et tlv =
     (let read = (\<lambda>n. bindE (unpack_uint n (take n tlv)) (\<lambda>l. Inr ((nat l, n), drop n tlv)))
      in if contains ''length'' et then
           (if contains ''1-byte'' et then read 1
            else if contains ''2-byte'' et then read 2
            else if contains ''4-byte'' et then read 4
            else read 8)
         else Inr ((0, 0), tlv))"

text \<open>The value of an element, given the recursive \<open>_get\<close> as a function.\<close>

type_synonym get_result = "(decoding list \<times> pyval \<times> byte list) result"

definition decode_number ::
  "(byte list \<Rightarrow> 'v result) \<Rightarrow> nat \<Rightarrow> ('v \<Rightarrow> pyval) \<Rightarrow> byte list \<Rightarrow> get_result" where
  "decode_number unpack n mk tlv =
     bindE (unpack (take n tlv)) (\<lambda>v. Inr ([], mk v, drop n tlv))"

definition decode_raw :: "nat \<Rightarrow> (byte list \<Rightarrow> pyval) \<Rightarrow> byte list \<Rightarrow> get_result" where
  "decode_raw n mk tlv =
     (if length (take n tlv) = n then Inr ([], mk (take n tlv), drop n tlv)
      else Inl StructError)"

definition decodeVal ::
  "(byte list \<Rightarrow> decoding list \<Rightarrow> pyval \<Rightarrow> get_result) \<Rightarrow> string \<Rightarrow> nat \<Rightarrow> byte list \<Rightarrow> get_result"
  where
  "decodeVal get et strDataLen tlv =
     (if et = ''Structure'' then get tlv [] (VDict [])
      else if et = ''Array'' then get tlv [] (VSeq [])
      else if et = ''Path'' then get tlv [] (VSeq [])
      else if et = ''Null'' then Inr ([], VNone, tlv)
      else if et = ''End of Collection'' then Inr ([], VNone, tlv)
      else if et = ''Boolean True'' then Inr ([], VBool True, tlv)
      else if et = ''Boolean False'' then Inr ([], VBool False, tlv)
      else if et = ''Unsigned Integer 1-byte value'' then
        decode_number (unpack_uint 1) 1 VUint tlv
      else if et = ''Signed Integer 1-byte value'' then
        decode_number (unpack_sint 1) 1 VInt tlv
      else if et = ''Unsigned Integer 2-byte value'' then
        decode_number (unpack_uint 2) 2 VUint tlv
      else if et = ''Signed Integer 2-byte value'' then
        decode_number (unpack_sint 2) 2 VInt tlv
      else if et = ''Unsigned Integer 4-byte value'' then
        decode_number (unpack_uint 4) 4 VUint tlv
      else if et = ''Signed Integer 4-byte value'' then
        decode_number (unpack_sint 4) 4 VInt tlv
      else if et = ''Unsigned Integer 8-byte value'' then
        decode_number (unpack_uint 8) 8 VUint tlv
      else if et = ''Signed Integer 8-byte value'' then
        decode_number (unpack_sint 8) 8 VInt tlv
      else if et = ''Floating Point 4-byte value'' then
        decode_number unpack_float 4 VFloat32 tlv
      else if et = ''Floating Point 8-byte value'' then
        decode_number unpack_double 8 VFloat tlv
      else if contains ''UTF-8 String'' et then
        decode_raw strDataLen
          (\<lambda>val. case utf8_decode val of Inr s \<Rightarrow> VStr s | Inl _ \<Rightarrow> VBytes val) tlv
      else if contains ''Byte String'' et then decode_raw strDataLen VBytes tlv
      else Inl ValueError)"

text \<open>
  Storing a decoded value into the container \<open>out\<close>. A profile tag is used as a subscript
  whatever the container is: on a list that raises \<open>TypeError\<close>.
\<close>

definition store :: "tag option \<Rightarrow> tag option \<Rightarrow> pyval \<Rightarrow> pyval \<Rightarrow> pyval result" where
  "store tag profileTag val out =
     (case profileTag of
        Some k \<Rightarrow>
          (case out of VDict al \<Rightarrow> Inr (VDict (AList.update k val al)) | _ \<Rightarrow> Inl TypeError)
      | None \<Rightarrow>
          (case tag of
             None \<Rightarrow> Inl ValueError
           | Some t \<Rightarrow>
               (case out of
                  VDict al \<Rightarrow>
                    Inr (VDict (AList.update (if t = TNone then TStr ''Any'' else t) val al))
                | VSeq vs \<Rightarrow> Inr (VSeq (vs @ [val]))
                | _ \<Rightarrow> Inl AttributeError)))"

fun get_loop :: "nat \<Rightarrow> byte list \<Rightarrow> decoding list \<Rightarrow> pyval \<Rightarrow> get_result" where
  "get_loop 0 tlv decodings out = Inl OutOfFuel"
| "get_loop (Suc n) tlv decodings out =
     (if tlv = [] then Inr (decodings, out, tlv)
      else
        bindE (decodeControlAndTag tlv) (\<lambda>((tc, et, tg, ptg, tagLen), tlv1).
        bindE (decodeStrLength et tlv1) (\<lambda>((strLen, strLenLen), tlv2).
        bindE (decodeVal (\<lambda>b ds o'. get_loop n b ds o') et strLen tlv2)
          (\<lambda>(nested, val, tlv3).
          let decodings' =
            decodings @ [Decoding tc et tg ptg tagLen strLen strLenLen val nested]
          in if et = ''End of Collection'' then Inr (decodings', out, tlv3)
             else bindE (store tg ptg val out) (\<lambda>out'. get_loop n tlv3 decodings' out')))))"

definition tlv_get :: "byte list \<Rightarrow> (pyval \<times> decoding list) result" where
  "tlv_get tlv =
     bindE (get_loop (Suc (length tlv)) tlv [] (VDict []))
       (\<lambda>(decodings, out, _). Inr (out, decodings))"

section \<open>The fuel is enough\<close>

lemma decodeControlAndTag_shorter:
  "decodeControlAndTag tlv = Inr (h, tlv') \<Longrightarrow> length tlv' < length tlv"
  by (cases tlv)
    (auto simp: decodeControlAndTag_def decodeControlByte_def profile_tag_def qualified_tag_def
        unpack_uint_def result_simps split: if_splits option.splits)

lemma decodeStrLength_shorter:
  "decodeStrLength et tlv = Inr (l, tlv') \<Longrightarrow> length tlv' \<le> length tlv"
  by (auto simp: decodeStrLength_def Let_def result_simps split: if_splits)

lemma decodeVal_shorter:
  assumes "decodeVal get et l tlv = Inr (nested, val, tlv')"
    and "\<And>ds out ds' out' rest. get tlv ds out = Inr (ds', out', rest) \<Longrightarrow> length rest \<le> length tlv"
  shows "length tlv' \<le> length tlv"
  using assms(1)
  by (auto simp: decodeVal_def decode_number_def decode_raw_def result_simps
      split: if_splits dest: assms(2))

lemma decodeVal_fuel:
  assumes "decodeVal get et l tlv = Inl OutOfFuel"
    and "\<And>ds out. get tlv ds out \<noteq> Inl OutOfFuel"
  shows False
  using assms
  by (auto simp: decodeVal_def decode_number_def decode_raw_def unpack_uint_def unpack_sint_def
      unpack_float_def unpack_double_def result_simps split: if_splits)

lemma get_loop_shorter:
  "get_loop n tlv ds out = Inr (ds', out', rest) \<Longrightarrow> length rest \<le> length tlv"
proof (induction n arbitrary: tlv ds out ds' out' rest)
  case (Suc n)
  show ?case
  proof (cases "tlv = []")
    case False
    with Suc.prems obtain tc et tg ptg tl tlv1 sl sll tlv2 nested val tlv3 where
      1: "decodeControlAndTag tlv = Inr ((tc, et, tg, ptg, tl), tlv1)" and
      2: "decodeStrLength et tlv1 = Inr ((sl, sll), tlv2)" and
      3: "decodeVal (\<lambda>b ds o'. get_loop n b ds o') et sl tlv2 = Inr (nested, val, tlv3)" and
      4: "rest = tlv3 \<or> (\<exists>ds3 out3. get_loop n tlv3 ds3 out3 = Inr (ds', out', rest))"
      by (fastforce simp: result_simps Let_def split: if_splits)
    from 3 have "length tlv3 \<le> length tlv2" by (rule decodeVal_shorter) (rule Suc.IH)
    moreover from 4 have "length rest \<le> length tlv3" using Suc.IH by auto
    ultimately show ?thesis
      using decodeControlAndTag_shorter [OF 1] decodeStrLength_shorter [OF 2] by linarith
  qed (use Suc.prems in simp)
qed simp

lemma decodeControlAndTag_fuel: "decodeControlAndTag tlv \<noteq> Inl OutOfFuel"
  by (auto simp: decodeControlAndTag_def decodeControlByte_def profile_tag_def qualified_tag_def
      unpack_uint_def result_simps split: if_splits option.splits)

lemma decodeStrLength_fuel: "decodeStrLength et tlv \<noteq> Inl OutOfFuel"
  by (auto simp: decodeStrLength_def unpack_uint_def result_simps Let_def split: if_splits)

lemma store_fuel: "store tg ptg val out \<noteq> Inl OutOfFuel"
  by (auto simp: store_def split: option.splits pyval.splits)

lemma get_loop_fuel: "length tlv < n \<Longrightarrow> get_loop n tlv ds out \<noteq> Inl OutOfFuel"
proof (induction n arbitrary: tlv ds out)
  case (Suc n)
  show ?case
  proof
    assume a: "get_loop (Suc n) tlv ds out = Inl OutOfFuel"
    then have "tlv \<noteq> []" by auto
    with a obtain tc et tg ptg tl tlv1 sl sll tlv2 where
      1: "decodeControlAndTag tlv = Inr ((tc, et, tg, ptg, tl), tlv1)" and
      2: "decodeStrLength et tlv1 = Inr ((sl, sll), tlv2)" and
      3: "decodeVal (\<lambda>b ds o'. get_loop n b ds o') et sl tlv2 = Inl OutOfFuel \<or>
        (\<exists>nested val tlv3 ds3 out3.
          decodeVal (\<lambda>b ds o'. get_loop n b ds o') et sl tlv2 = Inr (nested, val, tlv3) \<and>
          get_loop n tlv3 ds3 out3 = Inl OutOfFuel)"
      using decodeControlAndTag_fuel [of tlv] decodeStrLength_fuel store_fuel
      by (fastforce simp: result_simps Let_def split: if_splits)
    have s: "length tlv2 < n"
      using decodeControlAndTag_shorter [OF 1] decodeStrLength_shorter [OF 2] Suc.prems by linarith
    from 3 show False
    proof
      assume "decodeVal (\<lambda>b ds o'. get_loop n b ds o') et sl tlv2 = Inl OutOfFuel"
      then show False by (rule decodeVal_fuel) (rule Suc.IH [OF s])
    next
      assume "\<exists>nested val tlv3 ds3 out3.
          decodeVal (\<lambda>b ds o'. get_loop n b ds o') et sl tlv2 = Inr (nested, val, tlv3) \<and>
          get_loop n tlv3 ds3 out3 = Inl OutOfFuel"
      then obtain nested val tlv3 ds3 out3 where
        v: "decodeVal (\<lambda>b ds o'. get_loop n b ds o') et sl tlv2 = Inr (nested, val, tlv3)" and
        g: "get_loop n tlv3 ds3 out3 = Inl OutOfFuel" by blast
      from v have "length tlv3 \<le> length tlv2"
        by (rule decodeVal_shorter) (rule get_loop_shorter)
      with s g Suc.IH show False by (meson le_less_trans)
    qed
  qed
qed simp

text \<open>C2. Decoding always ends: whatever the bytes, one unit of fuel per byte is enough.\<close>

theorem tlv_get_terminates: "tlv_get tlv \<noteq> Inl OutOfFuel"
  using get_loop_fuel [of tlv "Suc (length tlv)"]
  by (auto simp: tlv_get_def result_simps)

end
