(* ===== verification/Tlv_Roundtrip.thy ===== *)
theory Tlv_Roundtrip
  imports Tlv_Reader
begin

text \<open>
  The encoder and the decoder of \<open>tlv_utils.py\<close> together: what the decoder returns for the
  bytes the encoder wrote, for every value both support (\<open>supported\<close>), up to the changes of
  representation that \<open>normal\<close> writes out (an int enum is read as a \<open>uint\<close>, any mapping as a
  dictionary in tag order or in its own order, an array or a path as a list).
\<close>

unbundle bit_operations_syntax

section \<open>The supported values and their normal form\<close>

definition tag_key :: "tag \<Rightarrow> int" where
  "tag_key t = (case tlvTagToSortKey t of Inr k \<Rightarrow> k | Inl _ \<Rightarrow> 0)"

fun member_tag :: "tag \<Rightarrow> bool" where
  "member_tag TNone = False"
| "member_tag (TInt n) = (0 \<le> n \<and> n \<le> 255)"
| "member_tag (TProf None n) = (0 \<le> n \<and> n \<le> 4294967295)"
| "member_tag (TProf (Some p) n) =
     (0 \<le> p \<and> p \<le> 4294967295 \<and> 0 \<le> n \<and> n \<le> (if p = 0 then 4294967295 else 65535))"
| "member_tag (TStr _) = False"

fun path_tag :: "tag \<Rightarrow> bool" where
  "path_tag TNone = True"
| "path_tag (TInt n) = (0 \<le> n \<and> n \<le> 255)"
| "path_tag _ = False"

fun supported :: "pyval \<Rightarrow> bool" where
  "supported VNone = True"
| "supported (VEnum e) = (case e of Some n \<Rightarrow> 0 \<le> n \<and> n < 2 ^ 64 | None \<Rightarrow> False)"
| "supported (VBool _) = True"
| "supported (VUint n) = (0 \<le> n \<and> n < 2 ^ 64)"
| "supported (VInt n) = (- (2 ^ 63) \<le> n \<and> n < 2 ^ 63)"
| "supported (VFloat32 b) = single_exact b"
| "supported (VFloat b) = (b < 2 ^ 64)"
| "supported (VStr s) = (list_all scalar s \<and> length (concat (map utf8_char s)) < 2 ^ 64)"
| "supported (VBytes bs) = (length bs < 2 ^ 64)"
| "supported (VMapping items) =
     (distinct (map fst items) \<and> list_all (\<lambda>kv. member_tag (fst kv) \<and> supported (snd kv)) items)"
| "supported (VDict items) =
     (distinct (map fst items) \<and> list_all (\<lambda>kv. member_tag (fst kv) \<and> supported (snd kv)) items)"
| "supported (VTlvList items) =
     list_all (\<lambda>kv. path_tag (fst kv) \<and> supported (snd kv)) items"
| "supported (VSeq vs) = list_all supported vs"
| "supported VOther = False"

fun normal :: "pyval \<Rightarrow> pyval" where
  "normal (VEnum e) = (case e of Some n \<Rightarrow> VUint n | None \<Rightarrow> VNone)"
| "normal (VMapping items) = VDict (map (\<lambda>kv. (fst kv, normal (snd kv))) items)"
| "normal (VDict items) =
     VDict (map (\<lambda>kv. (fst kv, normal (snd kv))) (sort_key (\<lambda>kv. tag_key (fst kv)) items))"
| "normal (VTlvList items) = VSeq (map (\<lambda>kv. normal (snd kv)) items)"
| "normal (VSeq vs) = VSeq (map normal vs)"
| "normal v = v"

definition tlv_put :: "pyval \<Rightarrow> byte list result" where
  "tlv_put v = bindE (put TNone v (new_writer None)) (\<lambda>w. Inr (encoding w))"

section \<open>Control bytes and tags\<close>

lemma control_byte_table:
  "\<forall>t \<in> set [0..31]. \<forall>c \<in> set [0, 0x20, 0x40, 0x60, 0x80, 0xA0, 0xC0, 0xE0 :: int].
     (t OR c) AND 0xE0 = c \<and> (t OR c) AND 0x1F = t \<and> 0 \<le> t OR c \<and> t OR c < 256"
  by code_simp

lemma control_byte:
  fixes t c :: int
  assumes "0 \<le> t" and "t < 32" and "c \<in> {0, 0x20, 0x40, 0x60, 0x80, 0xA0, 0xC0, 0xE0}"
  shows "(t OR c) AND 0xE0 = c" "(t OR c) AND 0x1F = t" "0 \<le> t OR c" "t OR c < 256"
  using control_byte_table assms by auto

lemma profile_halves:
  fixes p :: int
  assumes "0 \<le> p" and "p \<le> 4294967295"
  shows "push_bit 16 (drop_bit 16 p AND 0xFFFF) OR (drop_bit 0 p AND 0xFFFF) = p"
proof -
  have m: "x AND 0xFFFF = take_bit 16 x" for x :: int
    by (simp add: take_bit_eq_mask mask_eq_exp_minus_1)
  have "take_bit 16 (drop_bit 16 p) = drop_bit 16 p"
    using assms by (simp add: take_bit_int_eq_self drop_bit_eq_div)
  then show ?thesis
    by (intro bit_eqI)
      (auto simp: m bit_or_iff bit_take_bit_iff bit_push_bit_iff bit_drop_bit_eq)
qed

lemma unpack_le_bytes [simp]:
  "0 \<le> v \<Longrightarrow> v < 256 ^ n \<Longrightarrow> unpack_uint n (le_bytes n v) = Inr v"
  by (simp add: unpack_uint_def le_value_bytes)

lemma le_bytes_eq_Nil [simp]: "le_bytes n v = [] \<longleftrightarrow> n = 0"
  by (simp add: le_bytes_def)

lemma decodeControlByte_head:
  assumes "0 \<le> t" "t < 32" "c \<in> {0, 0x20, 0x40, 0x60, 0x80, 0xA0, 0xC0, 0xE0}"
    and "TagControls c = Some tc" and "ElementTypes t = Some et"
  shows "decodeControlByte (le_bytes 1 (t OR c) @ rest) = Inr ((tc, et), rest)"
  using assms control_byte [OF assms(1-3)] by (simp add: decodeControlByte_def)

section \<open>One element\<close>

text \<open>The entries \<open>"tag"\<close> and \<open>"profileTag"\<close> the reader sets for a tag.\<close>

fun tag_entry :: "tag \<Rightarrow> tag option" where
  "tag_entry (TProf _ _) = None"
| "tag_entry t = Some t"

fun profile_entry :: "tag \<Rightarrow> tag option" where
  "profile_entry (TProf p n) = Some (TProf p n)"
| "profile_entry _ = None"

lemma TagControls_simps [simp]:
  "TagControls 0 = Some ''Anonymous''" "TagControls 0x20 = Some ''Context 1-byte''"
  "TagControls 0x40 = Some ''Common Profile 2-byte''"
  "TagControls 0x60 = Some ''Common Profile 4-byte''"
  "TagControls 0x80 = Some ''Implicit Profile 2-byte''"
  "TagControls 0xA0 = Some ''Implicit Profile 4-byte''"
  "TagControls 0xC0 = Some ''Fully Qualified 6-byte''"
  by (simp_all add: TagControls_def)

lemma pack_tag_eq:
  "pack_tag c n v = Inr bs \<Longrightarrow>
   bs = le_bytes 1 c @ le_bytes n v \<and> 0 \<le> v \<and> v < 256 ^ n \<and> 0 \<le> c \<and> c < 256"
  by (auto simp: pack_tag_def pack_uint_def result_simps split: if_splits)

lemma profile_tag_le:
  "0 \<le> v \<Longrightarrow> v < 256 ^ n \<Longrightarrow>
   profile_tag tc et p n (le_bytes n v @ rest) = Inr ((tc, et, None, Some (TProf p v), n), rest)"
  by (simp add: profile_tag_def)

lemma qualified_tag_le:
  "0 \<le> v \<Longrightarrow> v < 256 ^ 2 \<Longrightarrow> 0 \<le> q \<Longrightarrow> q < 256 ^ 2 \<Longrightarrow> 0 \<le> t \<Longrightarrow> t < 256 ^ n \<Longrightarrow>
   qualified_tag tc et n (le_bytes 2 v @ le_bytes 2 q @ le_bytes n t @ rest) =
     Inr ((tc, et, None, Some (TProf (Some (push_bit 16 v OR q)) t), n), rest)"
  by (simp add: qualified_tag_def)

lemma decode_head:
  assumes enc: "encodeControlAndTag type tag len w = Inr bs"
    and imp: "implicitProfile w = None"
    and t: "0 \<le> length_bits type len" "length_bits type len < 32"
    and et: "ElementTypes (length_bits type len) = Some et"
  shows "\<exists>tc n. decodeControlAndTag (bs @ rest) =
           Inr ((tc, et, tag_entry tag, profile_entry tag, n), rest)"
    and "bs \<noteq> []"
proof -
  note head = decodeControlByte_head [OF t _ _ et]
  have "(\<exists>tc n. decodeControlAndTag (bs @ rest) =
           Inr ((tc, et, tag_entry tag, profile_entry tag, n), rest)) \<and> bs \<noteq> []"
  proof (cases tag)
    case TNone
    with enc have bs: "bs = le_bytes 1 (length_bits type len OR 0)"
      by (auto simp: encodeControlAndTag_def Let_def pack_uint_def split: if_splits)
    have "decodeControlByte (bs @ rest) = Inr ((''Anonymous'', et), rest)"
      unfolding bs by (rule head) simp_all
    with TNone bs show ?thesis by (auto simp: decodeControlAndTag_def)
  next
    case (TInt n)
    with enc have "pack_tag (length_bits type len OR 0x20) 1 n = Inr bs"
      by (auto simp: encodeControlAndTag_def Let_def split: if_splits)
    then have bs: "bs = le_bytes 1 (length_bits type len OR 0x20) @ le_bytes 1 n"
      and n: "0 \<le> n" "n < 256" by (auto dest: pack_tag_eq)
    have "decodeControlByte (bs @ rest) = Inr ((''Context 1-byte'', et), le_bytes 1 n @ rest)"
      unfolding bs append_assoc by (rule head) simp_all
    with TInt bs n show ?thesis by (auto simp: decodeControlAndTag_def)
  next
    case (TStr s)
    with enc show ?thesis by (simp add: encodeControlAndTag_def Let_def)
  next
    case (TProf profile n)
    note e = enc [unfolded encodeControlAndTag_def Let_def TProf tag.case imp]
    have one: ?thesis
      if p: "pack_tag (length_bits type len OR c) k n = Inr bs"
        and c: "(c, tc, k, profile) \<in>
          {(0x40, ''Common Profile 2-byte'', 2, Some 0), (0x60, ''Common Profile 4-byte'', 4, Some 0),
           (0x80, ''Implicit Profile 2-byte'', 2, None), (0xA0, ''Implicit Profile 4-byte'', 4, None)}"
      for c tc k
    proof -
      from p have bs: "bs = le_bytes 1 (length_bits type len OR c) @ le_bytes k n"
        and n: "0 \<le> n" "n < 256 ^ k" by (auto dest: pack_tag_eq)
      have "decodeControlByte (bs @ rest) = Inr ((tc, et), le_bytes k n @ rest)"
        unfolding bs append_assoc by (rule head) (use c in auto)
      then have "decodeControlAndTag (bs @ rest) = profile_tag tc et profile k (le_bytes k n @ rest)"
        using c by (auto simp: decodeControlAndTag_def)
      with TProf bs n show ?thesis by (auto simp: profile_tag_le)
    qed
    show ?thesis
    proof (cases profile)
      case None
      with e have "pack_tag (length_bits type len OR 0x80) 2 n = Inr bs \<or>
        pack_tag (length_bits type len OR 0xA0) 4 n = Inr bs" by (auto split: if_splits)
      then show ?thesis
      proof
        assume "pack_tag (length_bits type len OR 0x80) 2 n = Inr bs"
        then show ?thesis by (rule one [where tc = "''Implicit Profile 2-byte''"]) (simp add: None)
      next
        assume "pack_tag (length_bits type len OR 0xA0) 4 n = Inr bs"
        then show ?thesis by (rule one [where tc = "''Implicit Profile 4-byte''"]) (simp add: None)
      qed
    next
      case (Some p)
      show ?thesis
      proof (cases "p = 0")
        case True
        with e Some have "pack_tag (length_bits type len OR 0x40) 2 n = Inr bs \<or>
          pack_tag (length_bits type len OR 0x60) 4 n = Inr bs" by (auto split: if_splits)
        then show ?thesis
        proof
          assume "pack_tag (length_bits type len OR 0x40) 2 n = Inr bs"
          then show ?thesis by (rule one [where tc = "''Common Profile 2-byte''"]) (simp add: True Some)
        next
          assume "pack_tag (length_bits type len OR 0x60) 4 n = Inr bs"
          then show ?thesis by (rule one [where tc = "''Common Profile 4-byte''"]) (simp add: True Some)
        qed
      next
        case False
        define v q where d: "v = drop_bit 16 p AND 0xFFFF" "q = drop_bit 0 p AND 0xFFFF"
        from e Some False have r: "0 \<le> p" "p \<le> 4294967295" "0 \<le> n" "n \<le> 65535"
          and bs: "bs = le_bytes 1 (length_bits type len OR 0xC0) @ le_bytes 2 v @ le_bytes 2 q
            @ le_bytes 2 n"
          by (auto simp: d pack_tag_def pack_uint_def result_simps split: if_splits)
        have "decodeControlByte (bs @ rest) =
          Inr ((''Fully Qualified 6-byte'', et), le_bytes 2 v @ le_bytes 2 q @ le_bytes 2 n @ rest)"
          unfolding bs append_assoc by (rule head) simp_all
        moreover have "0 \<le> v" "v < 256 ^ 2" "0 \<le> q" "q < 256 ^ 2"
          unfolding d by (simp_all add: and_mask_less')
        moreover have "push_bit 16 v OR q = p" unfolding d using r by (intro profile_halves)
        ultimately show ?thesis
          using TProf Some bs r by (auto simp: decodeControlAndTag_def qualified_tag_le)
      qed
    qed
  qed
  then show "\<exists>tc n. decodeControlAndTag (bs @ rest) =
           Inr ((tc, et, tag_entry tag, profile_entry tag, n), rest)" and "bs \<noteq> []" by auto
qed

text \<open>
  The payload of a scalar element: what \<open>_decodeStrLength\<close> and \<open>_decodeVal\<close> together read
  from it, whatever follows.
\<close>

definition reads_as :: "string \<Rightarrow> byte list \<Rightarrow> pyval \<Rightarrow> bool" where
  "reads_as et payload v \<longleftrightarrow>
     (\<exists>sl sll. \<forall>get rest. \<exists>tlv. decodeStrLength et (payload @ rest) = Inr ((sl, sll), tlv) \<and>
        decodeVal get et sl tlv = Inr ([], v, rest))"

text \<open>The decoder's decisions on the names of the element types, evaluated once.\<close>

lemma decodeStrLength_fixed [simp]:
  "decodeStrLength ''Signed Integer 1-byte value'' tlv = Inr ((0, 0), tlv)"
  "decodeStrLength ''Signed Integer 2-byte value'' tlv = Inr ((0, 0), tlv)"
  "decodeStrLength ''Signed Integer 4-byte value'' tlv = Inr ((0, 0), tlv)"
  "decodeStrLength ''Signed Integer 8-byte value'' tlv = Inr ((0, 0), tlv)"
  "decodeStrLength ''Unsigned Integer 1-byte value'' tlv = Inr ((0, 0), tlv)"
  "decodeStrLength ''Unsigned Integer 2-byte value'' tlv = Inr ((0, 0), tlv)"
  "decodeStrLength ''Unsigned Integer 4-byte value'' tlv = Inr ((0, 0), tlv)"
  "decodeStrLength ''Unsigned Integer 8-byte value'' tlv = Inr ((0, 0), tlv)"
  "decodeStrLength ''Boolean False'' tlv = Inr ((0, 0), tlv)"
  "decodeStrLength ''Boolean True'' tlv = Inr ((0, 0), tlv)"
  "decodeStrLength ''Floating Point 4-byte value'' tlv = Inr ((0, 0), tlv)"
  "decodeStrLength ''Floating Point 8-byte value'' tlv = Inr ((0, 0), tlv)"
  "decodeStrLength ''Null'' tlv = Inr ((0, 0), tlv)"
  "decodeStrLength ''Structure'' tlv = Inr ((0, 0), tlv)"
  "decodeStrLength ''Array'' tlv = Inr ((0, 0), tlv)"
  "decodeStrLength ''Path'' tlv = Inr ((0, 0), tlv)"
  "decodeStrLength ''End of Collection'' tlv = Inr ((0, 0), tlv)"
  by (simp_all add: decodeStrLength_def)

definition read_length :: "nat \<Rightarrow> byte list \<Rightarrow> ((nat \<times> nat) \<times> byte list) result" where
  "read_length n tlv =
     bindE (unpack_uint n (take n tlv)) (\<lambda>l. Inr ((nat l, n), drop n tlv))"

lemma decodeStrLength_prefixed [simp]:
  "decodeStrLength ''UTF-8 String 1-byte length'' tlv = read_length 1 tlv"
  "decodeStrLength ''UTF-8 String 2-byte length'' tlv = read_length 2 tlv"
  "decodeStrLength ''UTF-8 String 4-byte length'' tlv = read_length 4 tlv"
  "decodeStrLength ''UTF-8 String 8-byte length'' tlv = read_length 8 tlv"
  "decodeStrLength ''Byte String 1-byte length'' tlv = read_length 1 tlv"
  "decodeStrLength ''Byte String 2-byte length'' tlv = read_length 2 tlv"
  "decodeStrLength ''Byte String 4-byte length'' tlv = read_length 4 tlv"
  "decodeStrLength ''Byte String 8-byte length'' tlv = read_length 8 tlv"
  by (simp_all add: decodeStrLength_def read_length_def)

lemma decodeVal_number [simp]:
  "decodeVal get ''Unsigned Integer 1-byte value'' l tlv =
     decode_number (unpack_uint 1) 1 VUint tlv"
  "decodeVal get ''Signed Integer 1-byte value'' l tlv =
     decode_number (unpack_sint 1) 1 VInt tlv"
  "decodeVal get ''Unsigned Integer 2-byte value'' l tlv =
     decode_number (unpack_uint 2) 2 VUint tlv"
  "decodeVal get ''Signed Integer 2-byte value'' l tlv =
     decode_number (unpack_sint 2) 2 VInt tlv"
  "decodeVal get ''Unsigned Integer 4-byte value'' l tlv =
     decode_number (unpack_uint 4) 4 VUint tlv"
  "decodeVal get ''Signed Integer 4-byte value'' l tlv =
     decode_number (unpack_sint 4) 4 VInt tlv"
  "decodeVal get ''Unsigned Integer 8-byte value'' l tlv =
     decode_number (unpack_uint 8) 8 VUint tlv"
  "decodeVal get ''Signed Integer 8-byte value'' l tlv =
     decode_number (unpack_sint 8) 8 VInt tlv"
  "decodeVal get ''Floating Point 4-byte value'' l tlv =
     decode_number unpack_float 4 VFloat32 tlv"
  "decodeVal get ''Floating Point 8-byte value'' l tlv =
     decode_number unpack_double 8 VFloat tlv"
  by (simp_all add: decodeVal_def)

definition text_or_bytes :: "byte list \<Rightarrow> pyval" where
  "text_or_bytes val = (case utf8_decode val of Inr s \<Rightarrow> VStr s | Inl _ \<Rightarrow> VBytes val)"

lemma decodeVal_raw [simp]:
  "decodeVal get ''UTF-8 String 1-byte length'' l tlv = decode_raw l text_or_bytes tlv"
  "decodeVal get ''Byte String 1-byte length'' l tlv = decode_raw l VBytes tlv"
  "decodeVal get ''UTF-8 String 2-byte length'' l tlv = decode_raw l text_or_bytes tlv"
  "decodeVal get ''Byte String 2-byte length'' l tlv = decode_raw l VBytes tlv"
  "decodeVal get ''UTF-8 String 4-byte length'' l tlv = decode_raw l text_or_bytes tlv"
  "decodeVal get ''Byte String 4-byte length'' l tlv = decode_raw l VBytes tlv"
  "decodeVal get ''UTF-8 String 8-byte length'' l tlv = decode_raw l text_or_bytes tlv"
  "decodeVal get ''Byte String 8-byte length'' l tlv = decode_raw l VBytes tlv"
  by (simp_all add: decodeVal_def text_or_bytes_def [abs_def])

lemma decodeVal_other [simp]:
  "decodeVal get ''Structure'' l tlv = get tlv [] (VDict [])"
  "decodeVal get ''Array'' l tlv = get tlv [] (VSeq [])"
  "decodeVal get ''Path'' l tlv = get tlv [] (VSeq [])"
  "decodeVal get ''Null'' l tlv = Inr ([], VNone, tlv)"
  "decodeVal get ''End of Collection'' l tlv = Inr ([], VNone, tlv)"
  "decodeVal get ''Boolean True'' l tlv = Inr ([], VBool True, tlv)"
  "decodeVal get ''Boolean False'' l tlv = Inr ([], VBool False, tlv)"
  by (simp_all add: decodeVal_def)

lemma ElementTypes_simps [simp]:
  "ElementTypes 0 = Some ''Signed Integer 1-byte value''"
  "ElementTypes 1 = Some ''Signed Integer 2-byte value''"
  "ElementTypes 2 = Some ''Signed Integer 4-byte value''"
  "ElementTypes 3 = Some ''Signed Integer 8-byte value''"
  "ElementTypes 4 = Some ''Unsigned Integer 1-byte value''"
  "ElementTypes 5 = Some ''Unsigned Integer 2-byte value''"
  "ElementTypes 6 = Some ''Unsigned Integer 4-byte value''"
  "ElementTypes 7 = Some ''Unsigned Integer 8-byte value''"
  "ElementTypes 8 = Some ''Boolean False''" "ElementTypes 9 = Some ''Boolean True''"
  "ElementTypes 10 = Some ''Floating Point 4-byte value''"
  "ElementTypes 11 = Some ''Floating Point 8-byte value''"
  "ElementTypes 12 = Some ''UTF-8 String 1-byte length''"
  "ElementTypes 13 = Some ''UTF-8 String 2-byte length''"
  "ElementTypes 14 = Some ''UTF-8 String 4-byte length''"
  "ElementTypes 15 = Some ''UTF-8 String 8-byte length''"
  "ElementTypes 16 = Some ''Byte String 1-byte length''"
  "ElementTypes 17 = Some ''Byte String 2-byte length''"
  "ElementTypes 18 = Some ''Byte String 4-byte length''"
  "ElementTypes 19 = Some ''Byte String 8-byte length''"
  "ElementTypes 20 = Some ''Null''" "ElementTypes 21 = Some ''Structure''"
  "ElementTypes 22 = Some ''Array''" "ElementTypes 23 = Some ''Path''"
  "ElementTypes 24 = Some ''End of Collection''"
  by (simp_all add: ElementTypes_def)

lemma reads_number:
  assumes "unpack payload = Inr v" and "length payload = n"
    and "\<And>tlv. decodeStrLength et tlv = Inr ((0, 0), tlv)"
    and "\<And>get tlv. decodeVal get et 0 tlv = decode_number unpack n mk tlv"
  shows "reads_as et payload (mk v)"
  using assms by (auto simp: reads_as_def decode_number_def)

text \<open>Unsigned and signed integers: the width is the one the writer chose.\<close>

lemma length_bits_simps [simp]:
  "length_bits t 0 = t" "length_bits t 1 = t" "length_bits t (Suc 0) = t"
  "length_bits t 2 = t OR 1" "length_bits t 4 = t OR 2" "length_bits t 8 = t OR 3"
  by (simp_all add: length_bits_def)

definition scalar_element :: "int \<Rightarrow> nat \<Rightarrow> byte list \<Rightarrow> pyval \<Rightarrow> bool" where
  "scalar_element type len payload v \<longleftrightarrow>
     0 \<le> length_bits type len \<and> length_bits type len < 32 \<and>
     (\<exists>et. ElementTypes (length_bits type len) = Some et \<and> et \<noteq> ''End of Collection'' \<and>
           reads_as et payload v)"

lemma scalar_elementI:
  "length_bits type len = t \<Longrightarrow> ElementTypes t = Some et \<Longrightarrow> 0 \<le> t \<Longrightarrow> t < 32 \<Longrightarrow>
   et \<noteq> ''End of Collection'' \<Longrightarrow> reads_as et payload v \<Longrightarrow> scalar_element type len payload v"
  by (auto simp: scalar_element_def)

lemma encodeUnsignedInt_cases:
  assumes "encodeUnsignedInt v = Inr bs"
  shows "0 \<le> v \<and> (\<exists>n. (n = 1 \<or> n = 2 \<or> n = 4 \<or> n = 8) \<and> v < 256 ^ n \<and> bs = le_bytes n v)"
proof -
  from assms have "0 \<le> v" by (simp add: encodeUnsignedInt_def split: if_splits)
  moreover from assms have "v < 256 ^ 1 \<and> bs = le_bytes 1 v \<or> v < 256 ^ 2 \<and> bs = le_bytes 2 v \<or>
      v < 256 ^ 4 \<and> bs = le_bytes 4 v \<or> v < 256 ^ 8 \<and> bs = le_bytes 8 v"
    by (simp add: encodeUnsignedInt_def pack_uint_def split: if_splits)
  ultimately show ?thesis by blast
qed

lemma encodeUnsignedInt_ok: "0 \<le> v \<Longrightarrow> v < 2 ^ 64 \<Longrightarrow> \<exists>bs. encodeUnsignedInt v = Inr bs"
  by (auto simp: encodeUnsignedInt_def pack_uint_def)

lemma encodeSignedInt_cases:
  assumes "encodeSignedInt v = Inr bs"
  shows "\<exists>n. (n = 1 \<or> n = 2 \<or> n = 4 \<or> n = 8) \<and> pack_sint n v = Inr bs"
  using assms by (auto simp: encodeSignedInt_def split: if_splits)

lemma encodeSignedInt_ok:
  "- (2 ^ 63) \<le> v \<Longrightarrow> v < 2 ^ 63 \<Longrightarrow> \<exists>bs. encodeSignedInt v = Inr bs"
  by (auto simp: encodeSignedInt_def pack_sint_def)

lemma pack_sint_unpack:
  "0 < n \<Longrightarrow> pack_sint n v = Inr bs \<Longrightarrow> unpack_sint n bs = Inr v \<and> length bs = n"
  using fixed_codec.unpack_pack [OF sint_codec] fixed_codec.pack_length [OF sint_codec]
  by (metis Inl_Inr_False pack_sint_def)

lemma scalar_unsigned:
  assumes "encodeUnsignedInt v = Inr bs"
  shows "scalar_element TLV_TYPE_UNSIGNED_INTEGER (length bs) bs (VUint v)"
proof -
  from encodeUnsignedInt_cases [OF assms] obtain n where v: "0 \<le> v" "v < 256 ^ n"
    and n: "n = 1 \<or> n = 2 \<or> n = 4 \<or> n = 8" and bs: "bs = le_bytes n v" by blast
  have u: "unpack_uint n bs = Inr v" and l: "length bs = n" using v bs by simp_all
  from n show ?thesis
  proof (elim disjE)
    assume "n = 1"
    with u l show ?thesis
      by (intro scalar_elementI [of _ _ 4 "''Unsigned Integer 1-byte value''"]
          reads_number [where unpack = "unpack_uint 1"])
        simp_all
  next
    assume "n = 2"
    with u l show ?thesis
      by (intro scalar_elementI [of _ _ 5 "''Unsigned Integer 2-byte value''"]
          reads_number [where unpack = "unpack_uint 2"])
        simp_all
  next
    assume "n = 4"
    with u l show ?thesis
      by (intro scalar_elementI [of _ _ 6 "''Unsigned Integer 4-byte value''"]
          reads_number [where unpack = "unpack_uint 4"])
        simp_all
  next
    assume "n = 8"
    with u l show ?thesis
      by (intro scalar_elementI [of _ _ 7 "''Unsigned Integer 8-byte value''"]
          reads_number [where unpack = "unpack_uint 8"])
        simp_all
  qed
qed

lemma scalar_signed:
  assumes "encodeSignedInt v = Inr bs"
  shows "scalar_element TLV_TYPE_SIGNED_INTEGER (length bs) bs (VInt v)"
proof -
  from encodeSignedInt_cases [OF assms] obtain n where p: "pack_sint n v = Inr bs"
    and n: "n = 1 \<or> n = 2 \<or> n = 4 \<or> n = 8" by blast
  then have u: "unpack_sint n bs = Inr v" and l: "length bs = n"
    using pack_sint_unpack [of n v bs] by auto
  from n show ?thesis
  proof (elim disjE)
    assume "n = 1"
    with u l show ?thesis
      by (intro scalar_elementI [of _ _ 0 "''Signed Integer 1-byte value''"]
          reads_number [where unpack = "unpack_sint 1"])
        simp_all
  next
    assume "n = 2"
    with u l show ?thesis
      by (intro scalar_elementI [of _ _ 1 "''Signed Integer 2-byte value''"]
          reads_number [where unpack = "unpack_sint 2"])
        simp_all
  next
    assume "n = 4"
    with u l show ?thesis
      by (intro scalar_elementI [of _ _ 2 "''Signed Integer 4-byte value''"]
          reads_number [where unpack = "unpack_sint 4"])
        simp_all
  next
    assume "n = 8"
    with u l show ?thesis
      by (intro scalar_elementI [of _ _ 3 "''Signed Integer 8-byte value''"]
          reads_number [where unpack = "unpack_sint 8"])
        simp_all
  qed
qed

lemma scalar_float:
  assumes "pack_float b = Inr bs" and "single_exact b"
  shows "scalar_element TLV_TYPE_FLOATING_POINT_NUMBER (length bs) bs (VFloat32 b)"
  using f32.unpack_pack [OF assms(2,1)] f32.pack_length [OF assms(1)]
  by (intro scalar_elementI [of _ _ 10 "''Floating Point 4-byte value''"]
          reads_number [where unpack = unpack_float]) simp_all

lemma scalar_double:
  assumes "pack_double b = Inr bs" and "b < 2 ^ 64"
  shows "scalar_element TLV_TYPE_FLOATING_POINT_NUMBER (length bs) bs (VFloat b)"
  using f64.unpack_pack [OF assms(2,1)] f64.pack_length [OF assms(1)]
  by (intro scalar_elementI [of _ _ 11 "''Floating Point 8-byte value''"]
          reads_number [where unpack = unpack_double]) simp_all

lemma reads_raw:
  assumes "encodeUnsignedInt (int (length val)) = Inr bs"
    and "\<And>tlv. decodeStrLength et tlv = read_length (length bs) tlv"
    and "\<And>get l tlv. decodeVal get et l tlv = decode_raw l mk tlv"
  shows "reads_as et (bs @ val) (mk val)"
proof -
  from encodeUnsignedInt_cases [OF assms(1)] obtain n where
    "int (length val) < 256 ^ n" "bs = le_bytes n (int (length val))" by blast
  with assms(2,3) show ?thesis by (simp add: reads_as_def decode_raw_def read_length_def)
qed

lemma encodeUnsignedInt_length:
  "encodeUnsignedInt v = Inr bs \<Longrightarrow>
   length bs = 1 \<or> length bs = 2 \<or> length bs = 4 \<or> length bs = 8"
  using encodeUnsignedInt_cases by fastforce

lemma scalar_bytes:
  assumes "encodeUnsignedInt (int (length val)) = Inr bs"
  shows "scalar_element TLV_TYPE_BYTE_STRING (length bs) (bs @ val) (VBytes val)"
  using encodeUnsignedInt_length [OF assms]
proof (elim disjE)
  assume "length bs = 1"
  then show ?thesis
    by (intro scalar_elementI [of _ _ 16 "''Byte String 1-byte length''"]
        reads_raw [OF assms]) simp_all
next
  assume "length bs = 2"
  then show ?thesis
    by (intro scalar_elementI [of _ _ 17 "''Byte String 2-byte length''"]
        reads_raw [OF assms]) simp_all
next
  assume "length bs = 4"
  then show ?thesis
    by (intro scalar_elementI [of _ _ 18 "''Byte String 4-byte length''"]
        reads_raw [OF assms]) simp_all
next
  assume "length bs = 8"
  then show ?thesis
    by (intro scalar_elementI [of _ _ 19 "''Byte String 8-byte length''"]
        reads_raw [OF assms]) simp_all
qed

lemma scalar_text:
  assumes "encodeUnsignedInt (int (length val)) = Inr bs"
  shows "scalar_element TLV_TYPE_UTF8_STRING (length bs) (bs @ val) (text_or_bytes val)"
  using encodeUnsignedInt_length [OF assms]
proof (elim disjE)
  assume "length bs = 1"
  then show ?thesis
    by (intro scalar_elementI [of _ _ 12 "''UTF-8 String 1-byte length''"]
        reads_raw [OF assms]) simp_all
next
  assume "length bs = 2"
  then show ?thesis
    by (intro scalar_elementI [of _ _ 13 "''UTF-8 String 2-byte length''"]
        reads_raw [OF assms]) simp_all
next
  assume "length bs = 4"
  then show ?thesis
    by (intro scalar_elementI [of _ _ 14 "''UTF-8 String 4-byte length''"]
        reads_raw [OF assms]) simp_all
next
  assume "length bs = 8"
  then show ?thesis
    by (intro scalar_elementI [of _ _ 15 "''UTF-8 String 8-byte length''"]
        reads_raw [OF assms]) simp_all
qed

lemma scalar_bool:
  "scalar_element (if b then TLV_TYPE_BOOLEAN + 1 else TLV_TYPE_BOOLEAN) 0 [] (VBool b)"
  by (simp add: scalar_element_def reads_as_def)

lemma scalar_null: "scalar_element TLV_TYPE_NULL 0 [] VNone"
  by (simp add: scalar_element_def reads_as_def)

section \<open>Elements and containers\<close>

text \<open>
  \<open>element t v enc\<close>: the bytes \<open>enc\<close> are one element with tag \<open>t\<close> and value \<open>v\<close>. With enough
  fuel the loop reads them, stores the value and goes on with the rest.
\<close>

definition store_at :: "tag \<Rightarrow> pyval \<Rightarrow> pyval \<Rightarrow> pyval result" where
  "store_at t v out = store (tag_entry t) (profile_entry t) v out"

definition element :: "tag \<Rightarrow> pyval \<Rightarrow> byte list \<Rightarrow> bool" where
  "element t v enc \<longleftrightarrow> enc \<noteq> [] \<and>
     (\<forall>n rest ds out. length (enc @ rest) \<le> n \<longrightarrow>
        (\<exists>d. get_loop (Suc n) (enc @ rest) ds out =
           bindE (store_at t v out) (\<lambda>out'. get_loop n rest (ds @ [d]) out')))"

lemma elementD:
  "element t v enc \<Longrightarrow> length (enc @ rest) \<le> n \<Longrightarrow>
   \<exists>d. get_loop (Suc n) (enc @ rest) ds out =
     bindE (store_at t v out) (\<lambda>out'. get_loop n rest (ds @ [d]) out')"
  by (simp only: element_def)

lemma get_loop_head:
  assumes "decodeControlAndTag (bs @ payload) =
      Inr ((tc, et, tag_entry t, profile_entry t, k), payload)"
    and "bs \<noteq> []" and "et \<noteq> ''End of Collection''"
    and "decodeStrLength et payload = Inr ((sl, sll), tlv)"
    and "decodeVal (\<lambda>b ds o'. get_loop n b ds o') et sl tlv = Inr (nested, v, rest)"
  shows "\<exists>d. get_loop (Suc n) (bs @ payload) ds out =
           bindE (store_at t v out) (\<lambda>out'. get_loop n rest (ds @ [d]) out')"
  using assms by (simp add: store_at_def Let_def) blast

lemma element_scalar:
  assumes enc: "encodeControlAndTag type t len w = Inr bs" and imp: "implicitProfile w = None"
    and sc: "scalar_element type len payload v"
  shows "element t v (bs @ payload)"
proof -
  from sc obtain et where b: "0 \<le> length_bits type len" "length_bits type len < 32"
    and et: "ElementTypes (length_bits type len) = Some et" "et \<noteq> ''End of Collection''"
    and r: "reads_as et payload v" by (auto simp: scalar_element_def)
  have ne: "bs \<noteq> []" by (rule decode_head(2) [OF enc imp b et(1)])
  have "\<exists>d. get_loop (Suc n) (bs @ payload @ rest) ds out =
      bindE (store_at t v out) (\<lambda>out'. get_loop n rest (ds @ [d]) out')" for n rest ds out
  proof -
    from decode_head(1) [OF enc imp b et(1), of "payload @ rest"] obtain tc k where
      h: "decodeControlAndTag (bs @ payload @ rest) =
        Inr ((tc, et, tag_entry t, profile_entry t, k), payload @ rest)" by blast
    from r obtain sl sll tlv where "decodeStrLength et (payload @ rest) = Inr ((sl, sll), tlv)"
      "decodeVal (\<lambda>b ds o'. get_loop n b ds o') et sl tlv = Inr ([], v, rest)"
      unfolding reads_as_def by blast
    then show ?thesis by (rule get_loop_head [OF h ne et(2)])
  qed
  with ne show ?thesis by (simp add: element_def)
qed

fun store_all :: "(tag \<times> pyval) list \<Rightarrow> pyval \<Rightarrow> pyval result" where
  "store_all [] out = Inr out"
| "store_all ((t, v) # items) out = bindE (store_at t v out) (store_all items)"

lemma elements_loop:
  assumes "list_all2 (\<lambda>kv e. element (fst kv) (snd kv) e) items encs"
    and "length (concat encs @ rest) \<le> n"
    and "store_all items out = Inr out'"
  shows "\<exists>n' ds'. length rest \<le> n' \<and>
    get_loop (Suc n) (concat encs @ rest) ds out = get_loop (Suc n') rest ds' out'"
  using assms
proof (induction items encs arbitrary: n ds out rule: list_all2_induct)
  case Nil
  then show ?case by auto
next
  case (Cons kv items e encs)
  obtain t v where kv: "kv = (t, v)" by (cases kv)
  from Cons.prems(2) kv obtain out1 where o1: "store_at t v out = Inr out1"
    and o2: "store_all items out1 = Inr out'" by (auto simp: result_simps)
  from Cons.hyps(1) kv have el: "element t v e" by simp
  then have "e \<noteq> []" by (simp add: element_def)
  with Cons.prems(1) obtain m where n: "n = Suc m" and m: "length (concat encs @ rest) \<le> m"
    by (cases n; cases e) auto
  from elementD [OF el, of "concat encs @ rest" n ds out] Cons.prems(1) o1 obtain d where
    "get_loop (Suc n) (e @ concat encs @ rest) ds out = get_loop n (concat encs @ rest) (ds @ [d]) out1"
    by auto
  moreover from Cons.IH [OF m o2, of "ds @ [d]"] obtain n' ds' where "length rest \<le> n'"
    "get_loop (Suc m) (concat encs @ rest) (ds @ [d]) out1 = get_loop (Suc n') rest ds' out'" by blast
  ultimately show ?case unfolding n by (metis append_assoc concat.simps(2))
qed

lemma get_loop_end:
  assumes "encodeControlAndTag TLVEndOfContainer TNone 0 w = Inr bs" "implicitProfile w = None"
  shows "\<exists>ds'. get_loop (Suc n) (bs @ rest) ds out = Inr (ds', out, rest)"
proof -
  have et: "ElementTypes (length_bits TLVEndOfContainer 0) = Some ''End of Collection''" by simp
  from decode_head [OF assms _ _ et] obtain tc k where
    "decodeControlAndTag (bs @ rest) =
      Inr ((tc, ''End of Collection'', tag_entry TNone, profile_entry TNone, k), rest)"
    and "bs \<noteq> []" by fastforce
  then show ?thesis by (simp add: Let_def)
qed

lemma element_container:
  assumes enc: "encodeControlAndTag type t 0 w = Inr bs" and imp: "implicitProfile w = None"
    and kind: "(type, et, init) \<in> {(TLV_TYPE_STRUCTURE, ''Structure'', VDict []),
      (TLV_TYPE_ARRAY, ''Array'', VSeq []), (TLV_TYPE_PATH, ''Path'', VSeq [])}"
    and items: "list_all2 (\<lambda>kv e. element (fst kv) (snd kv) e) items encs"
    and stored: "store_all items init = Inr v"
    and fin: "encodeControlAndTag TLVEndOfContainer TNone 0 w' = Inr eb" "implicitProfile w' = None"
  shows "element t v (bs @ concat encs @ eb)"
proof -
  have b: "0 \<le> length_bits type 0" "length_bits type 0 < 32"
    and et: "ElementTypes (length_bits type 0) = Some et" "et \<noteq> ''End of Collection''"
    and l: "decodeStrLength et tlv = Inr ((0, 0), tlv)"
    and dv: "decodeVal get et 0 tlv = get tlv [] init" for tlv get
    using kind by auto
  have ne: "bs \<noteq> []" by (rule decode_head(2) [OF enc imp b et(1)])
  have "\<exists>d. get_loop (Suc n) (bs @ concat encs @ eb @ rest) ds out =
      bindE (store_at t v out) (\<lambda>out'. get_loop n rest (ds @ [d]) out')"
    if len: "length (bs @ concat encs @ eb @ rest) \<le> n" for n rest ds out
  proof -
    from decode_head(1) [OF enc imp b et(1), of "concat encs @ eb @ rest"] obtain tc k where
      h: "decodeControlAndTag (bs @ concat encs @ eb @ rest) =
        Inr ((tc, et, tag_entry t, profile_entry t, k), concat encs @ eb @ rest)" by blast
    from ne len obtain m where n: "n = Suc m" and m: "length (concat encs @ eb @ rest) \<le> m"
      by (cases n; cases bs) auto
    from elements_loop [OF items m stored, of "[]"] obtain n' ds' where
      "get_loop n (concat encs @ eb @ rest) [] init = get_loop (Suc n') (eb @ rest) ds' v"
      unfolding n by blast
    moreover from get_loop_end [OF fin, of n' rest ds' v] obtain ds'' where
      "get_loop (Suc n') (eb @ rest) ds' v = Inr (ds'', v, rest)" by blast
    ultimately have "decodeVal (\<lambda>b ds o'. get_loop n b ds o') et 0 (concat encs @ eb @ rest) =
        Inr (ds'', v, rest)" by (simp add: dv)
    then show ?thesis by (rule get_loop_head [OF h ne et(2) l])
  qed
  with ne show ?thesis by (simp add: element_def)
qed

section \<open>The writer on supported values\<close>

definition fits :: "tag \<Rightarrow> tlv_writer \<Rightarrow> bool" where
  "fits t w \<longleftrightarrow>
     (case t of
        TNone \<Rightarrow> containerStack w = [] \<or> hd (containerStack w) \<noteq> TLV_TYPE_STRUCTURE
      | _ \<Rightarrow> member_tag t \<and> containerStack w \<noteq> [] \<and> hd (containerStack w) \<noteq> TLV_TYPE_ARRAY)"

lemma extend_simps [simp]:
  "extend b (extend a w) = extend (a @ b) w"
  "containerStack (extend a w) = containerStack w"
  "implicitProfile (extend a w) = implicitProfile w"
  "encoding (extend a w) = encoding w @ a"
  "extend [] w = w"
  "(extend a w)\<lparr>containerStack := st\<rparr> = extend a (w\<lparr>containerStack := st\<rparr>)"
  by (simp_all add: extend_def)

lemma pack_tag_ok: "0 \<le> c \<Longrightarrow> c < 256 \<Longrightarrow> 0 \<le> v \<Longrightarrow> v < 256 ^ n \<Longrightarrow> \<exists>bs. pack_tag c n v = Inr bs"
  by (simp add: pack_tag_def pack_uint_def)

lemma encode_ok:
  assumes "fits t w" and "implicitProfile w = None"
    and b: "0 \<le> length_bits type len" "length_bits type len < 32"
  shows "\<exists>bs. encodeControlAndTag type t len w = Inr bs"
proof -
  let ?c = "length_bits type len"
  have ctl: "0 \<le> ?c OR c" "?c OR c < 256"
    if "c \<in> {0, 0x20, 0x40, 0x60, 0x80, 0xA0, 0xC0, 0xE0}" for c
    using control_byte [OF b that] by simp_all
  show ?thesis
  proof (cases t)
    case TNone
    with assms ctl [of 0] show ?thesis
      by (auto simp: fits_def encodeControlAndTag_def Let_def pack_uint_def)
  next
    case (TInt n)
    with assms pack_tag_ok [OF ctl [of "0x20"], of n 1] show ?thesis
      by (simp add: fits_def encodeControlAndTag_def Let_def)
  next
    case (TStr s)
    with assms show ?thesis by (simp add: fits_def)
  next
    case (TProf profile n)
    show ?thesis
    proof (cases profile)
      case None
      with TProf assms pack_tag_ok [OF ctl [of "0x80"], of n 2] pack_tag_ok [OF ctl [of "0xA0"], of n 4]
      show ?thesis by (simp add: fits_def encodeControlAndTag_def Let_def)
    next
      case (Some p)
      show ?thesis
      proof (cases "p = 0")
        case True
        with Some TProf assms pack_tag_ok [OF ctl [of "0x40"], of n 2]
          pack_tag_ok [OF ctl [of "0x60"], of n 4]
        show ?thesis by (simp add: fits_def encodeControlAndTag_def Let_def)
      next
        case False
        have "0 \<le> drop_bit 16 p AND 0xFFFF" "drop_bit 16 p AND 0xFFFF < 256 ^ 2"
          "0 \<le> drop_bit 0 p AND 0xFFFF" "drop_bit 0 p AND 0xFFFF < 256 ^ 2"
          by (simp_all add: and_mask_less')
        with False Some TProf assms
          pack_tag_ok [OF ctl [of "0xC0"], of "drop_bit 16 p AND 0xFFFF" 2]
        show ?thesis
          by (auto simp: fits_def encodeControlAndTag_def Let_def pack_uint_def)
      qed
    qed
  qed
qed

definition writes :: "tag \<Rightarrow> pyval \<Rightarrow> tlv_writer \<Rightarrow> bool" where
  "writes t v w \<longleftrightarrow> (\<exists>enc. put t v w = Inr (extend enc w) \<and> element t (normal v) enc)"

lemma writes_scalar:
  assumes "fits t w" "implicitProfile w = None" "scalar_element type len payload (normal v)"
    and "put t v w = put_element type t len payload w"
  shows "writes t v w"
proof -
  from assms(3) have b: "0 \<le> length_bits type len" "length_bits type len < 32"
    by (simp_all add: scalar_element_def)
  from encode_ok [OF assms(1,2) b] obtain bs where
    e: "encodeControlAndTag type t len w = Inr bs" by blast
  with assms(4) have "put t v w = Inr (extend (bs @ payload) w)" by (simp add: put_element_def)
  moreover have "element t (normal v) (bs @ payload)"
    by (rule element_scalar [OF e assms(2,3)])
  ultimately show ?thesis by (auto simp: writes_def)
qed

lemma put_items:
  assumes "\<And>kv w. kv \<in> set items \<Longrightarrow> implicitProfile w = None \<Longrightarrow> containerStack w = st \<Longrightarrow>
      writes (fst kv) (snd kv) w"
    and "implicitProfile w = None" and "containerStack w = st"
  shows "\<exists>encs. foldE (\<lambda>kv w'. put (fst kv) (snd kv) w') items w = Inr (extend (concat encs) w) \<and>
    list_all2 (\<lambda>kv e. element (fst kv) (snd kv) e) (map (\<lambda>kv. (fst kv, normal (snd kv))) items) encs"
  using assms
proof (induction items arbitrary: w)
  case Nil
  show ?case by (rule exI [of _ "[]"]) simp
next
  case (Cons kv items)
  from Cons.prems have "writes (fst kv) (snd kv) w" by simp
  then obtain enc where p: "put (fst kv) (snd kv) w = Inr (extend enc w)"
    and e: "element (fst kv) (normal (snd kv)) enc" by (auto simp: writes_def)
  from Cons.IH [of "extend enc w"] Cons.prems obtain encs where
    "foldE (\<lambda>kv w'. put (fst kv) (snd kv) w') items (extend enc w) =
      Inr (extend (concat encs) (extend enc w))"
    and "list_all2 (\<lambda>kv e. element (fst kv) (snd kv) e)
      (map (\<lambda>kv. (fst kv, normal (snd kv))) items) encs" by auto
  with p e show ?case by (intro exI [of _ "enc # encs"]) simp
qed

lemma writes_container:
  assumes f: "fits t w" and imp: "implicitProfile w = None"
    and kind: "(type, et, init) \<in> {(TLV_TYPE_STRUCTURE, ''Structure'', VDict []),
      (TLV_TYPE_ARRAY, ''Array'', VSeq []), (TLV_TYPE_PATH, ''Path'', VSeq [])}"
    and ws: "\<And>kv w. kv \<in> set items \<Longrightarrow> implicitProfile w = None \<Longrightarrow>
      containerStack w = type # st \<Longrightarrow> writes (fst kv) (snd kv) w"
    and st: "containerStack w = st"
    and put: "put t v w = bindE (startContainer t type w)
      (\<lambda>w1. bindE (foldE (\<lambda>kv w'. put (fst kv) (snd kv) w') items w1) endContainer)"
    and stored: "store_all (map (\<lambda>kv. (fst kv, normal (snd kv))) items) init = Inr (normal v)"
  shows "writes t v w"
proof -
  have b: "0 \<le> length_bits type 0" "length_bits type 0 < 32" and ok: "verifyValidContainerType type = Inr ()"
    using kind by (auto simp: verifyValidContainerType_def)
  from encode_ok [OF f imp b] obtain bs where e: "encodeControlAndTag type t 0 w = Inr bs" by blast
  define w1 where "w1 = extend bs (w\<lparr>containerStack := type # st\<rparr>)"
  have s: "startContainer t type w = Inr w1"
    using e ok st by (simp add: startContainer_def put_element_def w1_def)
  have w1: "implicitProfile w1 = None" "containerStack w1 = type # st"
    using imp by (simp_all add: w1_def)
  from put_items [OF ws w1] obtain encs where
    fo: "foldE (\<lambda>kv w'. put (fst kv) (snd kv) w') items w1 = Inr (extend (concat encs) w1)"
    and al: "list_all2 (\<lambda>kv e. element (fst kv) (snd kv) e)
      (map (\<lambda>kv. (fst kv, normal (snd kv))) items) encs" by blast
  define w2 where "w2 = extend (bs @ concat encs) w"
  have imp2: "implicitProfile w2 = None" using imp by (simp add: w2_def)
  have "encodeControlAndTag TLVEndOfContainer TNone 0 w2 = pack_uint 1 24"
    by (simp add: encodeControlAndTag_def Let_def)
  then obtain eb where eb: "encodeControlAndTag TLVEndOfContainer TNone 0 w2 = Inr eb"
    by (simp add: pack_uint_def)
  have "w1\<lparr>containerStack := st\<rparr> = extend bs w" using st by (simp add: w1_def)
  with eb w1 have "endContainer (extend (concat encs) w1) = Inr (extend (bs @ concat encs @ eb) w)"
    by (simp add: endContainer_def put_element_def w2_def)
  with put s fo have "put t v w = Inr (extend (bs @ concat encs @ eb) w)" by simp
  moreover have "element t (normal v) (bs @ concat encs @ eb)"
    by (rule element_container [OF e imp kind al stored eb imp2])
  ultimately show ?thesis by (auto simp: writes_def)
qed

text \<open>What the containers of the reader hold after all elements of a container are stored.\<close>

lemma store_at_dict:
  "member_tag t \<Longrightarrow> store_at t v (VDict al) = Inr (VDict (AList.update t v al))"
  by (cases t rule: member_tag.cases) (simp_all add: store_at_def store_def)

lemma store_all_dict:
  "list_all (\<lambda>kv. member_tag (fst kv)) items \<Longrightarrow> distinct (map fst (al @ items)) \<Longrightarrow>
   store_all items (VDict al) = Inr (VDict (al @ items))"
proof (induction items arbitrary: al)
  case (Cons kv items)
  obtain t v where kv: "kv = (t, v)" by (cases kv)
  from Cons.prems kv have "t \<notin> fst ` set al" by auto
  with Cons kv show ?case by (simp add: store_at_dict update_fresh)
qed simp

lemma store_normal_dict:
  assumes "list_all (\<lambda>kv. member_tag (fst kv)) items" and "distinct (map fst items)"
  shows "store_all (map (\<lambda>kv. (fst kv, normal (snd kv))) items) (VDict []) =
    Inr (VDict (map (\<lambda>kv. (fst kv, normal (snd kv))) items))"
  using store_all_dict [of "map (\<lambda>kv. (fst kv, normal (snd kv))) items" "[]"] assms
  by (simp add: list_all_iff comp_def)

lemma store_at_seq: "path_tag t \<Longrightarrow> store_at t v (VSeq vs) = Inr (VSeq (vs @ [v]))"
  by (cases t) (simp_all add: store_at_def store_def)

lemma store_all_seq:
  "list_all (\<lambda>kv. path_tag (fst kv)) items \<Longrightarrow>
   store_all items (VSeq vs) = Inr (VSeq (vs @ map snd items))"
  by (induction items arbitrary: vs) (auto simp: store_at_seq)

lemma foldE_map: "foldE f (map g xs) s = foldE (\<lambda>x. f (g x)) xs s"
  by (induction xs arbitrary: s) (simp_all cong: bindE_cong)

text \<open>Python's decorate-and-sort is the stable sort by the key itself.\<close>

lemma insort_decorated:
  "\<forall>p \<in> set ps. fst p = f (snd p) \<Longrightarrow>
   map snd (insort_key fst (f x, x) ps) = insort_key f x (map snd ps)"
  by (induction ps) auto

lemma sort_decorated: "map snd (sort_key fst (zip (map f xs) xs)) = sort_key f xs"
proof (induction xs)
  case (Cons x xs)
  have "\<forall>p \<in> set (sort_key fst (zip (map f xs) xs)). fst p = f (snd p)"
    by (auto simp: set_zip)
  with Cons show ?case by (simp add: insort_decorated)
qed simp

lemma member_tag_key: "member_tag t \<Longrightarrow> tlvTagToSortKey t = Inr (tag_key t)"
  by (cases t rule: member_tag.cases) (simp_all add: tag_key_def tlvTagToSortKey_def)

lemma sort_items_eq:
  assumes "list_all (\<lambda>kv. member_tag (fst kv)) items"
  shows "sort_items items = Inr (sort_key (\<lambda>kv. tag_key (fst kv)) items)"
proof -
  have "mapE (\<lambda>kv. tlvTagToSortKey (fst kv)) items = Inr (map (\<lambda>kv. tag_key (fst kv)) items)"
    using assms by (intro mapE_all_Inr) (auto simp: list_all_iff member_tag_key)
  then show ?thesis by (simp add: sort_items_def sort_decorated)
qed

text \<open>The writer succeeds on every supported value and writes one element for it.\<close>

lemma put_writes:
  "supported v \<Longrightarrow> fits t w \<Longrightarrow> implicitProfile w = None \<Longrightarrow> writes t v w"
proof (induction v arbitrary: t w)
  case VNone
  then show ?case
    by (intro writes_scalar [OF _ _ _, where payload = "[]"])
      (auto simp: scalar_null putNull_def)
next
  case (VEnum e)
  then obtain n where e: "e = Some n" "0 \<le> n" "n < 2 ^ 64" by (auto split: option.splits)
  then obtain bs where "encodeUnsignedInt n = Inr bs" using encodeUnsignedInt_ok by blast
  with e VEnum.prems show ?case
    by (intro writes_scalar [OF _ _ _, where payload = bs])
      (auto simp: scalar_unsigned putUnsignedInt_def)
next
  case (VBool b)
  then show ?case
    by (intro writes_scalar [where payload = "[]" and len = 0])
      (simp_all only: normal.simps put.simps putBool_def scalar_bool)
next
  case (VUint n)
  then obtain bs where "encodeUnsignedInt n = Inr bs" using encodeUnsignedInt_ok by auto
  with VUint.prems show ?case
    by (intro writes_scalar [OF _ _ _, where payload = bs])
      (auto simp: scalar_unsigned putUnsignedInt_def)
next
  case (VInt n)
  then obtain bs where "encodeSignedInt n = Inr bs" using encodeSignedInt_ok by auto
  with VInt.prems show ?case
    by (intro writes_scalar [OF _ _ _, where payload = bs])
      (auto simp: scalar_signed putSignedInt_def)
next
  case (VFloat32 b)
  then obtain bs where "pack_float b = Inr bs" using f32.pack_dom by auto
  with VFloat32.prems show ?case
    by (intro writes_scalar [OF _ _ _, where payload = bs])
      (auto simp: scalar_float putFloat_def)
next
  case (VFloat b)
  then obtain bs where "pack_double b = Inr bs" using f64.pack_dom by auto
  with VFloat.prems show ?case
    by (intro writes_scalar [OF _ _ _, where payload = bs])
      (auto simp: scalar_double putDouble_def)
next
  case (VStr s)
  define val where "val = (map of_nat (concat (map utf8_char s)) :: byte list)"
  have val: "utf8_encode s = Inr val" and "length val < 2 ^ 64"
    using VStr.prems(1) by (simp_all add: utf8_encode_def val_def)
  then obtain bs where bs: "encodeUnsignedInt (int (length val)) = Inr bs"
    using encodeUnsignedInt_ok [of "int (length val)"] by auto
  have "text_or_bytes val = VStr s" using utf8_roundtrip [OF val] by (simp add: text_or_bytes_def)
  with val bs scalar_text [OF bs] VStr.prems show ?case
    by (intro writes_scalar [OF _ _ _, where payload = "bs @ val"])
      (auto simp: putString_def)
next
  case (VBytes val)
  then obtain bs where bs: "encodeUnsignedInt (int (length val)) = Inr bs"
    using encodeUnsignedInt_ok [of "int (length val)"] by auto
  with scalar_bytes [OF bs] VBytes.prems show ?case
    by (intro writes_scalar [OF _ _ _, where payload = "bs @ val"])
      (auto simp: putBytes_def)
next
  case (VMapping items)
  have mem: "list_all (\<lambda>kv. member_tag (fst kv)) items" "distinct (map fst items)"
    using VMapping.prems(1) by (auto simp: list_all_iff)
  have w: "writes (fst kv) (snd kv) w'"
    if "kv \<in> set items" "implicitProfile w' = None"
      "containerStack w' = TLV_TYPE_STRUCTURE # containerStack w" for kv w'
  proof -
    from that(1) VMapping.prems(1) have "supported (snd kv)" "member_tag (fst kv)"
      by (auto simp: list_all_iff)
    moreover from this(2) that(3) have "fits (fst kv) w'"
      by (cases "fst kv") (auto simp: fits_def)
    ultimately show ?thesis using VMapping.IH [of kv "snd kv"] that by (cases kv) auto
  qed
  show ?case
    by (rule writes_container [OF VMapping.prems(2,3) _ w refl, where init = "VDict []"
          and et = "''Structure''"])
      (use store_normal_dict [OF mem] in simp_all)
next
  case (VDict items)
  let ?sorted = "sort_key (\<lambda>kv. tag_key (fst kv)) items"
  have mem: "list_all (\<lambda>kv. member_tag (fst kv)) items" "distinct (map fst items)"
    using VDict.prems(1) by (auto simp: list_all_iff)
  have dist: "distinct (map fst ?sorted)"
  proof -
    have "mset (map fst ?sorted) = mset (map fst items)" by simp
    with mem(2) show ?thesis by (metis mset_eq_imp_distinct_iff)
  qed
  have w: "writes (fst kv) (snd kv) w'"
    if "kv \<in> set ?sorted" "implicitProfile w' = None"
      "containerStack w' = TLV_TYPE_STRUCTURE # containerStack w" for kv w'
  proof -
    from that(1) VDict.prems(1) have "supported (snd kv)" "member_tag (fst kv)"
      by (auto simp: list_all_iff)
    moreover from this(2) that(3) have "fits (fst kv) w'"
      by (cases "fst kv") (auto simp: fits_def)
    ultimately show ?thesis using VDict.IH [of kv "snd kv"] that by (cases kv) auto
  qed
  show ?case
    by (rule writes_container [OF VDict.prems(2,3) _ w refl, where init = "VDict []"
          and et = "''Structure''"])
      (use store_normal_dict [OF _ dist] mem in \<open>simp_all add: sort_items_eq list_all_iff\<close>)
next
  case (VTlvList items)
  have mem: "list_all (\<lambda>kv. path_tag (fst kv)) items"
    using VTlvList.prems(1) by (auto simp: list_all_iff)
  have w: "writes (fst kv) (snd kv) w'"
    if "kv \<in> set items" "implicitProfile w' = None"
      "containerStack w' = TLV_TYPE_PATH # containerStack w" for kv w'
  proof -
    from that(1) VTlvList.prems(1) have "supported (snd kv)" "path_tag (fst kv)"
      by (auto simp: list_all_iff)
    moreover from this(2) that(3) have "fits (fst kv) w'"
      by (cases "fst kv") (auto simp: fits_def)
    ultimately show ?thesis using VTlvList.IH [of kv "snd kv"] that by (cases kv) auto
  qed
  show ?case
    by (rule writes_container [OF VTlvList.prems(2,3) _ w refl, where init = "VSeq []"
          and et = "''Path''"])
      (use mem store_all_seq [of "map (\<lambda>kv. (fst kv, normal (snd kv))) items" "[]"] in
        \<open>simp_all add: list_all_iff comp_def\<close>)
next
  case (VSeq vs)
  have w: "writes (fst kv) (snd kv) w'"
    if "kv \<in> set (map (Pair TNone) vs)" "implicitProfile w' = None"
      "containerStack w' = TLV_TYPE_ARRAY # containerStack w" for kv w'
  proof -
    from that(1) obtain v where v: "v \<in> set vs" "kv = (TNone, v)" by auto
    with VSeq.prems(1) have "supported v" by (auto simp: list_all_iff)
    moreover have "fits TNone w'" using that(3) by (simp add: fits_def)
    ultimately show ?thesis using VSeq.IH [OF v(1)] v(2) that by simp
  qed
  show ?case
    by (rule writes_container [OF VSeq.prems(2,3) _ w refl, where init = "VSeq []"
          and et = "''Array''" and items = "map (Pair TNone) vs"])
      (use store_all_seq [of "map (\<lambda>v. (TNone, normal v)) vs" "[]"] in
        \<open>simp_all add: foldE_map list_all_iff comp_def\<close>)
next
  case VOther
  then show ?case by simp
qed

section \<open>The round trip\<close>

text \<open>C1. Encoding any supported value at the top level succeeds, and decoding the bytes returns
  that value in normal form under the key \<open>"Any"\<close> of a one-entry dictionary.\<close>

theorem tlv_roundtrip:
  assumes "supported v"
  shows "\<exists>bs ds. tlv_put v = Inr bs \<and> tlv_get bs = Inr (VDict [(TStr ''Any'', normal v)], ds)"
proof -
  have "fits TNone (new_writer None)" "implicitProfile (new_writer None) = None"
    by (simp_all add: fits_def new_writer_def)
  from put_writes [OF assms this] obtain enc where
    p: "put TNone v (new_writer None) = Inr (extend enc (new_writer None))"
    and e: "element TNone (normal v) enc" by (auto simp: writes_def)
  from p have "tlv_put v = Inr enc" by (simp add: tlv_put_def new_writer_def)
  moreover from elementD [OF e, of "[]" "length enc" "[]" "VDict []"] obtain d where
    "get_loop (Suc (length enc)) enc [] (VDict []) =
      get_loop (length enc) [] [d] (VDict [(TStr ''Any'', normal v)])"
    by (auto simp: store_at_def store_def)
  moreover have "enc \<noteq> []" using e by (simp add: element_def)
  then obtain n where "length enc = Suc n" by (cases enc) auto
  then have "get_loop (length enc) [] ds out = Inr (ds, out, [])" for ds out by simp
  ultimately show ?thesis by (simp add: tlv_get_def del: get_loop.simps)
qed

theorem tlv_roundtrip_witness:
  "\<exists>bs ds. tlv_put (VDict [(TInt 2, VInt (-5)), (TInt 1, VStr [8364]),
       (TProf None 70000, VSeq [VUint 300, VNone])]) = Inr bs \<and>
     tlv_get bs = Inr (VDict [(TStr ''Any'',
       VDict [(TInt 1, VStr [8364]), (TInt 2, VInt (-5)),
         (TProf None 70000, VSeq [VUint 300, VNone])])], ds)"
  using tlv_roundtrip [of "VDict [(TInt 2, VInt (-5)), (TInt 1, VStr [8364]),
       (TProf None 70000, VSeq [VUint 300, VNone])]"]
  by (simp add: scalar_def surrogate_def utf8_char_def tag_key_def tlvTagToSortKey_def)

end
