(* ===== verification/Tlv_List.thy ===== *)
theory Tlv_List
  imports Gdm_Prelude
begin

text \<open>
  Class \<open>TLVList\<close> of \<open>gazoo_device/utility/tlv_list.py\<close>: an ordered list of (tag, value)
  items, where the tag is an int or \<open>None\<close> (anonymous). A tag argument that is neither is
  \<open>BadTag\<close>.
\<close>

datatype list_tag = Anonymous | Tag int | BadTag

type_synonym 'v tlv_list = "(list_tag \<times> 'v) list"

text \<open>The argument of \<open>__getitem__\<close>: an int, a slice \<open>IndexMethod.X:i\<close>, or anything else.\<close>

datatype 'k access = ByInt int | ByTagSlice 'k | ByIndexSlice int | BadSlice | BadAccess

definition tlvlist_append :: "list_tag \<Rightarrow> 'v \<Rightarrow> 'v tlv_list \<Rightarrow> 'v tlv_list result" where
  "tlvlist_append tag value l =
     (if tag = BadTag then Inl KeyError else Inr (l @ [(tag, value)]))"

definition tlvlist_init :: "(list_tag \<times> 'v) list \<Rightarrow> 'v tlv_list result" where
  "tlvlist_init items = foldE (\<lambda>(tag, val) l. tlvlist_append tag val l) items []"

definition get_item_by_tag :: "list_tag \<Rightarrow> 'v tlv_list \<Rightarrow> 'v result" where
  "get_item_by_tag tag l =
     (case tag of
        Tag _ \<Rightarrow>
          (case find (\<lambda>(t, _). t = tag) l of None \<Rightarrow> Inl KeyError | Some (_, v) \<Rightarrow> Inr v)
      | _ \<Rightarrow> Inl ValueError)"

text \<open>The result of \<open>__getitem__\<close>: a value, or an item as a (tag, value) pair.\<close>

definition tlvlist_getitem ::
  "list_tag access \<Rightarrow> 'v tlv_list \<Rightarrow> (list_tag option \<times> 'v) result" where
  "tlvlist_getitem acc l =
     (case acc of
        ByTagSlice t \<Rightarrow> bindE (get_item_by_tag t l) (\<lambda>v. Inr (None, v))
      | ByIndexSlice i \<Rightarrow> bindE (py_index l i) (\<lambda>(t, v). Inr (Some t, v))
      | BadSlice \<Rightarrow> Inl ValueError
      | ByInt n \<Rightarrow> bindE (get_item_by_tag (Tag n) l) (\<lambda>v. Inr (None, v))
      | BadAccess \<Rightarrow> Inl ValueError)"

section \<open>Construction, append and lookup\<close>

lemma foldE_append_items:
  "foldE (\<lambda>(tag, val) l. tlvlist_append tag val l) items l =
     (if BadTag \<in> fst ` set items then Inl KeyError else Inr (l @ items))"
  by (induction items arbitrary: l) (auto simp: tlvlist_append_def)

lemma tlvlist_init_eq:
  "tlvlist_init items = (if BadTag \<in> fst ` set items then Inl KeyError else Inr items)"
  by (simp add: tlvlist_init_def foldE_append_items)

lemma find_append:
  "find P (xs @ ys) = (case find P xs of None \<Rightarrow> find P ys | Some x \<Rightarrow> Some x)"
  by (induction xs) auto

text \<open>The first item with a tag, the reading of a lookup by tag.\<close>

definition first_tagged :: "int \<Rightarrow> (list_tag \<times> 'v) list \<Rightarrow> 'v option" where
  "first_tagged n items = map_option snd (find (\<lambda>(t, _). t = Tag n) items)"

lemma get_item_by_tag_first:
  "get_item_by_tag (Tag n) l =
     (case first_tagged n l of None \<Rightarrow> Inl KeyError | Some v \<Rightarrow> Inr v)"
  by (simp add: get_item_by_tag_def first_tagged_def split: option.splits)

lemma first_tagged_append:
  "first_tagged n (xs @ ys) =
     (case first_tagged n xs of None \<Rightarrow> first_tagged n ys | Some v \<Rightarrow> Some v)"
  by (simp add: first_tagged_def find_append split: option.splits)

lemma first_tagged_single:
  "first_tagged n [(tag, v)] = (if tag = Tag n then Some v else None)"
  by (simp add: first_tagged_def)

lemma tlvlist_getitem_int:
  "tlvlist_getitem (ByInt n) l =
     (case first_tagged n l of None \<Rightarrow> Inl KeyError | Some v \<Rightarrow> Inr (None, v))"
  by (simp add: tlvlist_getitem_def get_item_by_tag_first split: option.splits)

text \<open>A list built from items and then appended to answers by tag with the first item of
  that tag, so an append changes no answer the list already gave and fills a missing one;
  the appended item is the one at index -1; and an int access is a tag access.\<close>

theorem tlvlist_lookup:
  assumes "tlvlist_init items = Inr l" and "tlvlist_append tag v l = Inr l'"
  shows "tlvlist_getitem (ByInt n) l' =
      (case first_tagged n items of
         Some x \<Rightarrow> Inr (None, x)
       | None \<Rightarrow> if tag = Tag n then Inr (None, v) else Inl KeyError)
    \<and> tlvlist_getitem (ByTagSlice (Tag n)) l' = tlvlist_getitem (ByInt n) l'
    \<and> tlvlist_getitem (ByIndexSlice (-1)) l' = Inr (Some tag, v)"
proof -
  from assms have l': "l' = items @ [(tag, v)]"
    by (auto simp: tlvlist_init_eq tlvlist_append_def split: if_splits)
  have "tlvlist_getitem (ByIndexSlice (-1)) l' = Inr (Some tag, v)"
    by (simp add: tlvlist_getitem_def py_index_def l' nth_append)
  moreover have "tlvlist_getitem (ByTagSlice (Tag n)) l' = tlvlist_getitem (ByInt n) l'"
    by (simp add: tlvlist_getitem_def)
  ultimately show ?thesis
    by (simp add: tlvlist_getitem_int l' first_tagged_append first_tagged_single
        split: option.splits)
qed

theorem tlvlist_lookup_witness:
  "tlvlist_getitem (ByInt 7) [(Tag 7, True), (Anonymous, False), (Tag 7, False)]
     = Inr (None, True)"
  using tlvlist_lookup [of "[(Tag 7, True), (Anonymous, False)]"
      "[(Tag 7, True), (Anonymous, False)]" "Tag 7" False
      "[(Tag 7, True), (Anonymous, False), (Tag 7, False)]" 7]
  by (simp add: tlvlist_init_def tlvlist_append_def first_tagged_def)

end
