(* ===== verification/Line_Identifier.thy ===== *)
theory Line_Identifier
  imports Gdm_Prelude
begin

text \<open>
  \<open>gazoo_device/switchboard/line_identifier.py\<close>: the classification of device output into
  logs and responses. The identifier classes are the constructors of \<open>line_identifier\<close>, their
  \<open>accept\<close> methods the equations of \<open>accept\<close>. A compiled pattern is a value of type
  \<open>'p\<close>, and \<open>search\<close> tells whether a pattern matches somewhere in a line.
\<close>

abbreviation (input) LINE_TYPE_ALL :: string where "LINE_TYPE_ALL \<equiv> ''all''"
abbreviation (input) LINE_TYPE_LOG :: string where "LINE_TYPE_LOG \<equiv> ''log''"
abbreviation (input) LINE_TYPE_RESPONSE :: string where "LINE_TYPE_RESPONSE \<equiv> ''response''"

datatype 'p line_identifier =
    AllLogIdentifier
  | AllResponseIdentifier
  | AllUnknownIdentifier
  | PortLogIdentifier "int list"
  | RegexIdentifier "'p option" "'p option"
  | MultiportIdentifier "'p line_identifier list"

definition new_port_log_identifier :: "int list option \<Rightarrow> 'p line_identifier" where
  "new_port_log_identifier log_ports =
     PortLogIdentifier (case log_ports of None \<Rightarrow> [1] | Some ps \<Rightarrow> if ps = [] then [1] else ps)"

definition new_regex_identifier :: "'p option \<Rightarrow> 'p option \<Rightarrow> 'p line_identifier result" where
  "new_regex_identifier log_pattern response_pattern =
     (if log_pattern = None \<and> response_pattern = None then Inl ValueError
      else Inr (RegexIdentifier log_pattern response_pattern))"

definition new_regex_log_identifier :: "'p \<Rightarrow> 'p line_identifier result" where
  "new_regex_log_identifier log_pattern = new_regex_identifier (Some log_pattern) None"

definition new_regex_response_identifier :: "'p \<Rightarrow> 'p line_identifier result" where
  "new_regex_response_identifier response_pattern = new_regex_identifier None (Some response_pattern)"

text \<open>\<open>re.search(None, line)\<close> is a \<open>TypeError\<close>.\<close>

definition found :: "('p \<Rightarrow> string \<Rightarrow> bool) \<Rightarrow> 'p option \<Rightarrow> string \<Rightarrow> bool result" where
  "found search p line = (case p of None \<Rightarrow> Inl TypeError | Some q \<Rightarrow> Inr (search q line))"

lemma size_py_index [termination_simp]:
  "py_index ids port = Inr i \<Longrightarrow> size i < Suc (size_list size ids)"
  by (drule py_index_set) (simp add: size_list_estimation' less_Suc_eq_le)

lemma size_nth_identifier [termination_simp]:
  "n < length ids \<Longrightarrow> size (ids ! n) < Suc (size_list size ids)"
  by (metis size_list_estimation' nth_mem le_refl less_Suc_eq_le)

fun accept ::
  "('p \<Rightarrow> string \<Rightarrow> bool) \<Rightarrow> 'p line_identifier \<Rightarrow> int \<Rightarrow> string \<Rightarrow> string \<Rightarrow> bool result" where
  "accept search AllLogIdentifier port line line_type =
     Inr (line_type \<in> {LINE_TYPE_ALL, LINE_TYPE_LOG})"
| "accept search AllResponseIdentifier port line line_type =
     Inr (line_type \<in> {LINE_TYPE_ALL, LINE_TYPE_RESPONSE})"
| "accept search AllUnknownIdentifier port line line_type = Inr True"
| "accept search (PortLogIdentifier log_ports) port line line_type =
     (if port \<in> set log_ports then Inr (line_type \<in> {LINE_TYPE_ALL, LINE_TYPE_LOG})
      else Inr (line_type \<in> {LINE_TYPE_ALL, LINE_TYPE_RESPONSE}))"
| "accept search (RegexIdentifier log_pattern response_pattern) port line line_type =
     (if line_type = LINE_TYPE_ALL then Inr True
      else if line_type = LINE_TYPE_LOG then
        (if log_pattern \<noteq> None then found search log_pattern line
         else bindE (found search response_pattern line) (\<lambda>b. Inr (\<not> b)))
      else if line_type = LINE_TYPE_RESPONSE then
        (if response_pattern \<noteq> None then found search response_pattern line
         else bindE (found search log_pattern line) (\<lambda>b. Inr (\<not> b)))
      else Inr True)"
| "accept search (MultiportIdentifier identifiers) port line line_type =
     (if port \<ge> int (length identifiers) then Inr True
      else bindE (py_index identifiers port) (\<lambda>i. accept search i port line line_type))"

text \<open>
  The identifier that decides for a port: the one a \<open>MultiportIdentifier\<close> delegates to; a
  port it has none for counts as unknown.
\<close>

fun decider :: "'p line_identifier \<Rightarrow> nat \<Rightarrow> 'p line_identifier" where
  "decider (MultiportIdentifier ids) port =
     (if port < length ids then decider (ids ! port) port else AllUnknownIdentifier)"
| "decider i port = i"

lemma accept_decider: "accept search i (int port) line t = accept search (decider i port) (int port) line t"
  by (induction i port rule: decider.induct) (simp_all add: py_index_nonneg)

lemma decider_not_multiport: "decider i port \<noteq> MultiportIdentifier ids"
  by (induction i port rule: decider.induct) simp_all

text \<open>What the constructor of \<open>RegexIdentifier\<close> guarantees: there is a pattern.\<close>

fun constructed :: "'p line_identifier \<Rightarrow> bool" where
  "constructed (RegexIdentifier l r) = (l \<noteq> None \<or> r \<noteq> None)"
| "constructed (MultiportIdentifier ids) = list_all constructed ids"
| "constructed _ = True"

lemma constructed_decider: "constructed i \<Longrightarrow> constructed (decider i port)"
  by (induction i port rule: decider.induct) (auto simp: list_all_length)

text \<open>
  One reading of a line: \<open>Some True\<close> a log, \<open>Some False\<close> a response, \<open>None\<close> for an
  identifier that does not settle it (unknown, or one with two patterns of its own).
\<close>

fun settles :: "('p \<Rightarrow> string \<Rightarrow> bool) \<Rightarrow> 'p line_identifier \<Rightarrow> nat \<Rightarrow> string \<Rightarrow> bool option" where
  "settles search AllLogIdentifier port line = Some True"
| "settles search AllResponseIdentifier port line = Some False"
| "settles search (PortLogIdentifier ps) port line = Some (int port \<in> set ps)"
| "settles search (RegexIdentifier (Some p) None) port line = Some (search p line)"
| "settles search (RegexIdentifier None (Some p)) port line = Some (\<not> search p line)"
| "settles search _ port line = None"

lemma accept_total:
  assumes "constructed i"
  shows "\<exists>b. accept search i (int port) line t = Inr b"
proof -
  let ?d = "decider i port"
  have "constructed ?d" using assms by (rule constructed_decider)
  then have "\<exists>b. accept search ?d (int port) line t = Inr b"
    using decider_not_multiport [of i port]
    by (cases "(search, ?d, port, line)" rule: settles.cases) (auto simp: found_def)
  then show ?thesis unfolding accept_decider [of search i] .
qed

text \<open>An identifier never raises and accepts every line as "all"; and unless it leaves
  the port unknown or was given both patterns, a line is accepted as exactly one of "log" and
  "response". So a line that the pattern of a log identifier does not match is a response.\<close>

theorem accept_partition:
  assumes "constructed i"
  shows "accept search i (int port) line ''all'' = Inr True \<and>
    (\<exists>b. accept search i (int port) line t = Inr b) \<and>
    (\<forall>is_log. settles search (decider i port) port line = Some is_log \<longrightarrow>
       accept search i (int port) line ''log'' = Inr is_log \<and>
       accept search i (int port) line ''response'' = Inr (\<not> is_log))"
proof -
  let ?d = "decider i port"
  have c: "constructed ?d" using assms by (rule constructed_decider)
  have "accept search ?d (int port) line ''all'' = Inr True \<and>
    (\<exists>b. accept search ?d (int port) line t = Inr b) \<and>
    (\<forall>is_log. settles search ?d port line = Some is_log \<longrightarrow>
       accept search ?d (int port) line ''log'' = Inr is_log \<and>
       accept search ?d (int port) line ''response'' = Inr (\<not> is_log))"
    using c decider_not_multiport [of i port]
    by (cases "(search, ?d, port, line)" rule: settles.cases) (auto simp: found_def)
  then show ?thesis unfolding accept_decider [of search i] .
qed

theorem accept_partition_witness:
  "accept contains (MultiportIdentifier [RegexIdentifier (Some ''LOG'') None]) 0 ''ok'' ''response''
     = Inr True"
  using accept_partition [of "MultiportIdentifier [RegexIdentifier (Some ''LOG'') None]"
      contains 0 "''ok''" "''all''"] by (auto simp: py_index_def found_def)

end
