(* ===== verification/Transport_Base.thy ===== *)
theory Transport_Base
  imports Gdm_Prelude
begin

text \<open>
  \<open>gazoo_device/switchboard/transports/transport_base.py\<close>: the methods every transport
  inherits, over the four a transport class defines (\<open>is_open\<close>, \<open>_open\<close>, \<open>_close\<close>,
  \<open>_read\<close>, \<open>_write\<close>), and the class \<open>TcpTransport\<close> as one such class. Property values
  are strings, numbers or flags.
\<close>

datatype prop_value = PFlag bool | PNum int | PStr string | PNone

datatype 'd driver = Driver
  (drv_is_open: "'d \<Rightarrow> bool")
  (drv_open: "(string \<times> prop_value) list \<Rightarrow> 'd \<Rightarrow> 'd result")
  (drv_close: "'d \<Rightarrow> 'd result")
  (drv_read: "nat \<Rightarrow> 'd \<Rightarrow> (string \<times> 'd) result")
  (drv_write: "string \<Rightarrow> 'd \<Rightarrow> (nat \<times> 'd) result")

record 'd transport =
  comms_address :: string
  properties :: "(string \<times> prop_value) list"
  dev :: 'd

abbreviation (input) AUTO_REOPEN :: string where "AUTO_REOPEN \<equiv> ''auto_reopen''"
abbreviation (input) OPEN_ON_START :: string where "OPEN_ON_START \<equiv> ''open_on_start''"

text \<open>The constructor; \<open>own\<close> holds the properties the subclass set before it, if any.\<close>

definition new_transport ::
  "string \<Rightarrow> bool \<Rightarrow> bool \<Rightarrow> (string \<times> prop_value) list \<Rightarrow> 'd \<Rightarrow> 'd transport" where
  "new_transport address auto_reopen open_on_start own d =
     \<lparr>comms_address = address,
      properties = AList.update OPEN_ON_START (PFlag open_on_start)
        (AList.update AUTO_REOPEN (PFlag auto_reopen) own),
      dev = d\<rparr>"

definition get_property :: "string \<Rightarrow> prop_value \<Rightarrow> 'd transport \<Rightarrow> prop_value" where
  "get_property key value t = (case map_of (properties t) key of Some v \<Rightarrow> v | None \<Rightarrow> value)"

definition get_property_list :: "'d transport \<Rightarrow> string list" where
  "get_property_list t = map fst (properties t)"

definition set_property :: "string \<Rightarrow> prop_value \<Rightarrow> 'd transport \<Rightarrow> 'd transport result" where
  "set_property key value t =
     (if key \<notin> set (map fst (properties t)) then Inl KeyError
      else Inr (t\<lparr>properties := AList.update key value (properties t)\<rparr>))"

definition t_open :: "'d driver \<Rightarrow> 'd transport \<Rightarrow> 'd transport result" where
  "t_open drv t =
     (if drv_is_open drv (dev t) then Inr t
      else bindE (drv_open drv (properties t) (dev t)) (\<lambda>d. Inr (t\<lparr>dev := d\<rparr>)))"

definition t_close :: "'d driver \<Rightarrow> 'd transport \<Rightarrow> 'd transport result" where
  "t_close drv t =
     (if \<not> drv_is_open drv (dev t) then Inr t
      else bindE (drv_close drv (dev t)) (\<lambda>d. Inr (t\<lparr>dev := d\<rparr>)))"

text \<open>A transport that is not open reads and writes nothing: the result is \<open>None\<close>.\<close>

definition t_read :: "'d driver \<Rightarrow> nat \<Rightarrow> 'd transport \<Rightarrow> (string option \<times> 'd transport) result" where
  "t_read drv max_size t =
     (if \<not> drv_is_open drv (dev t) then Inr (None, t)
      else bindE (drv_read drv max_size (dev t)) (\<lambda>(s, d). Inr (Some s, t\<lparr>dev := d\<rparr>)))"

definition t_write :: "'d driver \<Rightarrow> string \<Rightarrow> 'd transport \<Rightarrow> (nat option \<times> 'd transport) result" where
  "t_write drv data t =
     (if \<not> drv_is_open drv (dev t) then Inr (None, t)
      else bindE (drv_write drv data (dev t)) (\<lambda>(n, d). Inr (Some n, t\<lparr>dev := d\<rparr>)))"

text \<open>
  The contract of a transport class: opening opens, closing closes, reading and writing leave
  it open. It is what the transport process relies on.
\<close>

locale transport_class =
  fixes drv :: "'d driver"
  assumes open_opens: "drv_open drv ps d = Inr d' \<Longrightarrow> drv_is_open drv d'"
    and close_closes: "drv_is_open drv d \<Longrightarrow> drv_close drv d = Inr d' \<Longrightarrow> \<not> drv_is_open drv d'"
    and read_keeps_open: "drv_is_open drv d \<Longrightarrow> drv_read drv n d = Inr (s, d') \<Longrightarrow> drv_is_open drv d'"
    and write_keeps_open: "drv_is_open drv d \<Longrightarrow> drv_write drv s d = Inr (k, d') \<Longrightarrow> drv_is_open drv d'"
begin

lemma t_open_is_open: "t_open drv t = Inr t' \<Longrightarrow> drv_is_open drv (dev t')"
  by (auto simp: t_open_def result_simps split: if_splits dest: open_opens)

lemma t_close_is_closed: "t_close drv t = Inr t' \<Longrightarrow> \<not> drv_is_open drv (dev t')"
  by (auto simp: t_close_def result_simps split: if_splits dest: close_closes)

lemma t_read_open: "t_read drv n t = Inr (s, t') \<Longrightarrow>
   drv_is_open drv (dev t') = drv_is_open drv (dev t) \<and> properties t' = properties t"
  by (auto simp: t_read_def result_simps split: if_splits dest: read_keeps_open)

lemma t_write_open: "t_write drv s t = Inr (n, t') \<Longrightarrow>
   drv_is_open drv (dev t') = drv_is_open drv (dev t) \<and> properties t' = properties t"
  by (auto simp: t_write_def result_simps split: if_splits dest: write_keeps_open)

lemma reopen_is_noop: "t_open drv t = Inr t' \<Longrightarrow> t_open drv t' = Inr t'"
  by (drule t_open_is_open) (simp add: t_open_def)

end

section \<open>The TCP transport\<close>

text \<open>
  \<open>switchboard/transports/tcp_transport.py\<close>. The socket library is a parameter: \<open>connect\<close>
  makes a socket for a host, a port and a time-out, \<open>shutdown\<close>, \<open>recv\<close> and \<open>sendall\<close> work on one;
  each may raise. \<open>recv\<close> gives \<open>None\<close> for a time-out.
\<close>

datatype 's sockets = Sockets
  (sk_connect: "prop_value \<Rightarrow> prop_value \<Rightarrow> prop_value \<Rightarrow> 's result")
  (sk_shutdown: "'s \<Rightarrow> 's result")
  (sk_recv: "nat \<Rightarrow> 's \<Rightarrow> (string option \<times> 's) result")
  (sk_sendall: "string \<Rightarrow> 's \<Rightarrow> 's result")

definition check_port :: "int \<Rightarrow> int result" where
  "check_port port = (if port < 0 \<or> port > 65535 then Inl ValueError else Inr port)"

text \<open>\<open>is_ip\<close> and \<open>resolves\<close> are \<open>socket.inet_pton\<close> and \<open>socket.getaddrinfo\<close> succeeding.\<close>

definition check_host :: "(string \<Rightarrow> bool) \<Rightarrow> (string \<Rightarrow> bool) \<Rightarrow> string \<Rightarrow> string result" where
  "check_host is_ip resolves host =
     (if is_ip host then Inr host else if resolves host then Inr host else Inl ValueError)"

record 's tcp =
  tcp_socket :: "'s option"

definition new_tcp_transport ::
  "(string \<Rightarrow> bool) \<Rightarrow> (string \<Rightarrow> bool) \<Rightarrow> string \<Rightarrow> int \<Rightarrow>
   prop_value \<Rightarrow> bool \<Rightarrow> bool \<Rightarrow> 's tcp transport result" where
  "new_tcp_transport is_ip resolves address port connect_timeout auto_reopen open_on_start =
     (let t = new_transport address auto_reopen open_on_start [] \<lparr>tcp_socket = None\<rparr>;
          t' = t\<lparr>properties :=
                 AList.update ''connect_timeout'' connect_timeout
                   (AList.update ''port'' (PNum port)
                     (AList.update ''host'' (PStr address) (properties t)))\<rparr>
      in bindE (check_host is_ip resolves address) (\<lambda>_.
         bindE (check_port port) (\<lambda>_. Inr t')))"

text \<open>\<open>self._properties[key]\<close>\<close>

definition prop_item :: "(string \<times> prop_value) list \<Rightarrow> string \<Rightarrow> prop_value result" where
  "prop_item ps key = (case map_of ps key of Some v \<Rightarrow> Inr v | None \<Rightarrow> Inl KeyError)"

definition tcp_is_open :: "'s tcp \<Rightarrow> bool" where
  "tcp_is_open d \<longleftrightarrow> tcp_socket d \<noteq> None"

definition tcp_open :: "'s sockets \<Rightarrow> (string \<times> prop_value) list \<Rightarrow> 's tcp \<Rightarrow> 's tcp result" where
  "tcp_open sk ps d =
     bindE (prop_item ps ''host'') (\<lambda>host.
     bindE (prop_item ps ''port'') (\<lambda>port.
     bindE (prop_item ps ''connect_timeout'') (\<lambda>timeout.
     bindE (sk_connect sk host port timeout) (\<lambda>s. Inr (d\<lparr>tcp_socket := Some s\<rparr>)))))"

definition tcp_close :: "'s sockets \<Rightarrow> 's tcp \<Rightarrow> 's tcp result" where
  "tcp_close sk d =
     (case tcp_socket d of
        None \<Rightarrow> Inr d
      | Some s \<Rightarrow> bindE (sk_shutdown sk s) (\<lambda>_. Inr (d\<lparr>tcp_socket := None\<rparr>)))"

definition tcp_read :: "'s sockets \<Rightarrow> nat \<Rightarrow> 's tcp \<Rightarrow> (string \<times> 's tcp) result" where
  "tcp_read sk max_size d =
     (case tcp_socket d of
        None \<Rightarrow> Inl ValueError
      | Some s \<Rightarrow> bindE (sk_recv sk max_size s) (\<lambda>(r, s').
          Inr (case r of None \<Rightarrow> [] | Some b \<Rightarrow> b, d\<lparr>tcp_socket := Some s'\<rparr>)))"

definition tcp_write :: "'s sockets \<Rightarrow> string \<Rightarrow> 's tcp \<Rightarrow> (nat \<times> 's tcp) result" where
  "tcp_write sk data d =
     (case tcp_socket d of
        None \<Rightarrow> Inl ValueError
      | Some s \<Rightarrow> bindE (sk_sendall sk data s) (\<lambda>s'.
          Inr (length data, d\<lparr>tcp_socket := Some s'\<rparr>)))"

definition tcp_driver :: "'s sockets \<Rightarrow> 's tcp driver" where
  "tcp_driver sk = Driver tcp_is_open (tcp_open sk) (tcp_close sk) (tcp_read sk) (tcp_write sk)"

lemma tcp_driver_sel [simp]:
  "drv_is_open (tcp_driver sk) = tcp_is_open"
  "drv_open (tcp_driver sk) = tcp_open sk"
  "drv_close (tcp_driver sk) = tcp_close sk"
  "drv_read (tcp_driver sk) = tcp_read sk"
  "drv_write (tcp_driver sk) = tcp_write sk"
  by (simp_all add: tcp_driver_def)

lemma tcp_open_opens: "tcp_open sk ps d = Inr d' \<Longrightarrow> tcp_is_open d'"
  unfolding tcp_open_def tcp_is_open_def bindE_eq_Inr by (elim exE conjE) auto

lemma tcp_close_closes: "tcp_close sk d = Inr d' \<Longrightarrow> \<not> tcp_is_open d'"
  by (cases "tcp_socket d") (auto simp: tcp_close_def tcp_is_open_def bindE_eq_Inr)

lemma tcp_read_open: "tcp_read sk n d = Inr (s, d') \<Longrightarrow> tcp_is_open d'"
  by (cases "tcp_socket d") (auto simp: tcp_read_def tcp_is_open_def bindE_eq_Inr)

lemma tcp_write_open: "tcp_write sk s d = Inr (n, d') \<Longrightarrow> tcp_is_open d'"
  by (cases "tcp_socket d") (auto simp: tcp_write_def tcp_is_open_def bindE_eq_Inr)

interpretation tcp: transport_class "tcp_driver sk"
  by unfold_locales
    (simp_all only: tcp_driver_sel tcp_open_opens tcp_close_closes tcp_read_open
      tcp_write_open not_False_eq_True)

end
