(* ===== verification/Transport_Process.thy ===== *)
theory Transport_Process
  imports Transport_Base Data_Framer Log_Name
begin

text \<open>
  \<open>gazoo_device/switchboard/transport_process.py\<close>: the process that owns a transport. Its
  state is the record \<open>tproc\<close>; queues are lists that are put to at the end and got from at
  the front, events are flags. The constructor's arguments that do not change are the record
  \<open>tconf\<close>. The clock is a parameter: \<open>clock n\<close> is what the n-th \<open>time.time()\<close> returns (in
  microseconds), \<open>stamp n\<close> the host time-stamp of the n-th \<open>datetime.now()\<close>. The decoding of
  bytes with replacement is part of what the driver's read gives.
\<close>

section \<open>State\<close>

text \<open>
  A message on the command queue. \<open>Cmd_Call\<close> carries a call of a method of the transport,
  which is a parameter: its outcome is a value or an exception, with the new transport.
\<close>

datatype 'm tp_command =
  Cmd_Close | Cmd_Open | Cmd_Write string | Cmd_Call 'm | Cmd_Unknown

record ('d, 'm, 'r) tconf =
  drv :: "'d driver"
  framer :: "string \<Rightarrow> index \<Rightarrow> index option \<Rightarrow> gen"
  max_read_bytes :: nat
  max_write_bytes :: nat
  partial_line_timeout :: int
  raw_data_id :: nat
  invoke :: "'m \<Rightarrow> 'd transport \<Rightarrow> 'r result \<times> 'd transport"
  clock :: "nat \<Rightarrow> int"
  stamp :: "nat \<Rightarrow> string"

record ('d, 'm, 'r) tproc =
  transport :: "'d transport"
  command_queue :: "'m tp_command list"
  log_queue :: "string list"
  raw_data_queue :: "(nat \<times> string) list option"
  call_result_queue :: "'r result list"
  buffered_unicode :: string
  partial_log_time :: int
  pending_writes :: "string list"
  raw_data_enabled :: bool
  transport_open :: bool
  ticks :: nat

section \<open>Operations\<close>

text \<open>
  \<open>_enqueue_command_writes\<close>: \<open>range(0, len(command), max_write_bytes)\<close> and the length are
  the cuts; a step of 0 makes \<open>range\<close> raise.
\<close>

definition split_indexes :: "nat \<Rightarrow> nat \<Rightarrow> nat list" where
  "split_indexes n step = map (\<lambda>k. k * step) [0..<(n + step - 1) div step] @ [n]"

definition enqueue_command_writes :: "string list \<Rightarrow> string \<Rightarrow> nat \<Rightarrow> string list result" where
  "enqueue_command_writes write_queue command max_bytes =
     (if max_bytes = 0 then Inl ValueError
      else let ixs = split_indexes (length command) max_bytes
           in Inr (write_queue @
                map (\<lambda>i. slice (ixs ! (i - 1)) (ixs ! i) command) [1..<length ixs]))"

definition toggle_raw_data :: "('d, 'm, 'r) tproc \<Rightarrow> ('d, 'm, 'r) tproc result" where
  "toggle_raw_data st =
     (if raw_data_queue st = None then Inl RuntimeError
      else Inr (st\<lparr>raw_data_enabled := \<not> raw_data_enabled st\<rparr>))"

text \<open>\<open>get_raw_data\<close> with a message waiting or not; without a queue it raises.\<close>

definition get_raw_data ::
  "('d, 'm, 'r) tproc \<Rightarrow> ((nat \<times> string) option \<times> ('d, 'm, 'r) tproc) result" where
  "get_raw_data st =
     (case raw_data_queue st of
        None \<Rightarrow> Inl RuntimeError
      | Some [] \<Rightarrow> Inr (None, st)
      | Some (m # ms) \<Rightarrow> Inr (Some m, st\<lparr>raw_data_queue := Some ms\<rparr>))"

definition close_transport ::
  "('d, 'm, 'r) tconf \<Rightarrow> ('d, 'm, 'r) tproc \<Rightarrow> ('d, 'm, 'r) tproc result" where
  "close_transport cf st =
     bindE (t_close (drv cf) (transport st))
       (\<lambda>t. Inr (st\<lparr>transport := t, transport_open := False\<rparr>))"

definition open_transport ::
  "('d, 'm, 'r) tconf \<Rightarrow> ('d, 'm, 'r) tproc \<Rightarrow> ('d, 'm, 'r) tproc result" where
  "open_transport cf st =
     bindE (t_open (drv cf) (transport st))
       (\<lambda>t. Inr (st\<lparr>transport := t, transport_open := True\<rparr>))"

definition publish_line ::
  "('d, 'm, 'r) tconf \<Rightarrow> string \<Rightarrow> ('d, 'm, 'r) tproc \<Rightarrow> ('d, 'm, 'r) tproc result" where
  "publish_line cf line st =
     bindE (if raw_data_enabled st then
              (case raw_data_queue st of
                 None \<Rightarrow> Inl ValueError
               | Some q \<Rightarrow> Inr (st\<lparr>raw_data_queue := Some (q @ [(raw_data_id cf, line)])\<rparr>))
            else Inr st)
       (\<lambda>st'. Inr (st'\<lparr>
          log_queue := log_queue st' @
            [add_log_header (stamp cf (ticks st')) (show_nat (raw_data_id cf)) line],
          ticks := Suc (ticks st')\<rparr>))"

definition is_line_published ::
  "('d, 'm, 'r) tconf \<Rightarrow> string \<Rightarrow> ('d, 'm, 'r) tproc \<Rightarrow> (bool \<times> ('d, 'm, 'r) tproc) result" where
  "is_line_published cf line st =
     (let elapsed_time = clock cf (ticks st) - partial_log_time st;
          st = st\<lparr>ticks := Suc (ticks st)\<rparr>
      in if line \<noteq> [] \<and> (last line = newline \<or> elapsed_time > partial_line_timeout cf) then
           (if last line = newline \<and> buffered_unicode st \<noteq> [] then
              bindE (publish_line cf (buffered_unicode st @ line) st)
                (\<lambda>st'. Inr (True, st'\<lparr>buffered_unicode := []\<rparr>))
            else bindE (publish_line cf line st) (\<lambda>st'. Inr (True, st')))
         else Inr (False, st))"

text \<open>The body of the loop of \<open>_transport_read\<close>, and what it does with the text it read.\<close>

definition read_line ::
  "('d, 'm, 'r) tconf \<Rightarrow> string \<Rightarrow> ('d, 'm, 'r) tproc \<Rightarrow> ('d, 'm, 'r) tproc result" where
  "read_line cf line st =
     bindE (is_line_published cf line
              (st\<lparr>partial_log_time := clock cf (ticks st), ticks := Suc (ticks st)\<rparr>))
       (\<lambda>(published, st').
          Inr (if published then st'
               else st'\<lparr>buffered_unicode := buffered_unicode st' @ line\<rparr>))"

definition consume ::
  "('d, 'm, 'r) tconf \<Rightarrow> string \<Rightarrow> ('d, 'm, 'r) tproc \<Rightarrow> ('d, 'm, 'r) tproc result" where
  "consume cf text_in st =
     (if text_in \<noteq> [] then
        (let unicode_in = buffered_unicode st @ text_in;
             buffered_len = length (buffered_unicode st)
         in case framer cf unicode_in (Idx (int buffered_len)) None of
              (lines, exc) \<Rightarrow>
                bindE (foldE (read_line cf) lines (st\<lparr>buffered_unicode := []\<rparr>))
                  (\<lambda>st'. case exc of None \<Rightarrow> Inr st' | Some e \<Rightarrow> Inl e))
      else if buffered_unicode st \<noteq> [] then
        bindE (is_line_published cf (buffered_unicode st) st)
          (\<lambda>(published, st'). Inr (if published then st'\<lparr>buffered_unicode := []\<rparr> else st'))
      else Inr st)"

definition transport_read ::
  "('d, 'm, 'r) tconf \<Rightarrow> ('d, 'm, 'r) tproc \<Rightarrow> ('d, 'm, 'r) tproc result" where
  "transport_read cf st =
     bindE (t_read (drv cf) (max_read_bytes cf) (transport st))
       (\<lambda>(text_in, t). consume cf (case text_in of None \<Rightarrow> [] | Some s \<Rightarrow> s) (st\<lparr>transport := t\<rparr>))"

definition transport_write ::
  "('d, 'm, 'r) tconf \<Rightarrow> ('d, 'm, 'r) tproc \<Rightarrow> ('d, 'm, 'r) tproc result" where
  "transport_write cf st =
     (case pending_writes st of
        [] \<Rightarrow> Inr st
      | w # ws \<Rightarrow> bindE (t_write (drv cf) w (transport st))
          (\<lambda>(_, t). Inr (st\<lparr>transport := t, pending_writes := ws\<rparr>)))"

definition transport_call ::
  "('d, 'm, 'r) tconf \<Rightarrow> 'm \<Rightarrow> ('d, 'm, 'r) tproc \<Rightarrow> ('d, 'm, 'r) tproc" where
  "transport_call cf m st =
     (let (r, t) = invoke cf m (transport st)
      in st\<lparr>transport := t, call_result_queue := call_result_queue st @ [r]\<rparr>)"

definition process_command_message ::
  "('d, 'm, 'r) tconf \<Rightarrow> 'm tp_command \<Rightarrow> ('d, 'm, 'r) tproc \<Rightarrow> ('d, 'm, 'r) tproc result" where
  "process_command_message cf c st =
     (case c of
        Cmd_Close \<Rightarrow> close_transport cf st
      | Cmd_Open \<Rightarrow> open_transport cf st
      | Cmd_Write data \<Rightarrow>
          bindE (enqueue_command_writes (pending_writes st) data (max_write_bytes cf))
            (\<lambda>q. Inr (st\<lparr>pending_writes := q\<rparr>))
      | Cmd_Call m \<Rightarrow> Inr (transport_call cf m st)
      | Cmd_Unknown \<Rightarrow> Inl RuntimeError)"

definition truthy :: "prop_value \<Rightarrow> bool" where
  "truthy v = (case v of PFlag b \<Rightarrow> b | PNum n \<Rightarrow> n \<noteq> 0 | PStr s \<Rightarrow> s \<noteq> [] | PNone \<Rightarrow> False)"

text \<open>The part of \<open>_do_work\<close> after the command: serve an open transport, or look after a closed one.\<close>

definition serve_transport ::
  "('d, 'm, 'r) tconf \<Rightarrow> ('d, 'm, 'r) tproc \<Rightarrow> ('d, 'm, 'r) tproc result" where
  "serve_transport cf st =
     (if drv_is_open (drv cf) (dev (transport st)) then
        bindE (transport_write cf (st\<lparr>transport_open := True\<rparr>)) (transport_read cf)
      else
        let closed_unexpectedly = transport_open st;
            can_reopen = truthy (get_property AUTO_REOPEN (PFlag False) (transport st));
            st1 = st\<lparr>transport_open := False\<rparr>
        in bindE (if closed_unexpectedly
                  then bindE (t_close (drv cf) (transport st1)) (\<lambda>t. Inr (st1\<lparr>transport := t\<rparr>))
                  else Inr st1)
             (\<lambda>st2. if closed_unexpectedly \<and> can_reopen then open_transport cf st2 else Inr st2))"

definition do_work ::
  "('d, 'm, 'r) tconf \<Rightarrow> ('d, 'm, 'r) tproc \<Rightarrow> ('d, 'm, 'r) tproc result" where
  "do_work cf st =
     bindE (case command_queue st of
              [] \<Rightarrow> Inr st
            | c # cs \<Rightarrow> process_command_message cf c (st\<lparr>command_queue := cs\<rparr>))
       (serve_transport cf)"

definition pre_run_hook ::
  "('d, 'm, 'r) tconf \<Rightarrow> ('d, 'm, 'r) tproc \<Rightarrow> ('d, 'm, 'r) tproc result" where
  "pre_run_hook cf st =
     bindE (let st1 = st\<lparr>pending_writes := []\<rparr>
            in if truthy (get_property OPEN_ON_START (PFlag True) (transport st1))
               then open_transport cf st1 else Inr st1)
       (\<lambda>st2. Inr (st2\<lparr>partial_log_time := clock cf (ticks st2), ticks := Suc (ticks st2)\<rparr>))"

definition post_run_hook ::
  "('d, 'm, 'r) tconf \<Rightarrow> ('d, 'm, 'r) tproc \<Rightarrow> ('d, 'm, 'r) tproc result" where
  "post_run_hook = close_transport"

section \<open>No output is lost\<close>

definition queue_ok :: "('d, 'm, 'r) tproc \<Rightarrow> bool" where
  "queue_ok st \<longleftrightarrow> (raw_data_enabled st \<longrightarrow> raw_data_queue st \<noteq> None)"

text \<open>
  \<open>delivers cf st text st'\<close>: the lines logged between the two states, each with a header, and
  the partial line kept at the end are the partial line kept before and the text, up to
  carriage returns.
\<close>

definition logged_as :: "('d, 'm, 'r) tconf \<Rightarrow> string \<Rightarrow> string \<Rightarrow> bool" where
  "logged_as cf entry line \<longleftrightarrow>
     (\<exists>n. entry = add_log_header (stamp cf n) (show_nat (raw_data_id cf)) line)"

definition delivers ::
  "('d, 'm, 'r) tconf \<Rightarrow> ('d, 'm, 'r) tproc \<Rightarrow> string \<Rightarrow> ('d, 'm, 'r) tproc \<Rightarrow> bool" where
  "delivers cf st text st' \<longleftrightarrow>
     (\<exists>entries lines. log_queue st' = log_queue st @ entries \<and>
        list_all2 (logged_as cf) entries lines \<and>
        payload (concat lines @ buffered_unicode st') = payload (buffered_unicode st @ text)) \<and>
     queue_ok st' \<and> newline \<notin> set (buffered_unicode st')"

lemma delivers_trans:
  assumes "delivers cf a s b" and "delivers cf b t c"
  shows "delivers cf a (s @ t) c"
proof -
  from assms(1) obtain es ls where 1: "log_queue b = log_queue a @ es"
    "list_all2 (logged_as cf) es ls"
    "payload (concat ls @ buffered_unicode b) = payload (buffered_unicode a @ s)"
    by (auto simp: delivers_def)
  from assms(2) obtain es' ls' where 2: "log_queue c = log_queue b @ es'"
    "list_all2 (logged_as cf) es' ls'"
    "payload (concat ls' @ buffered_unicode c) = payload (buffered_unicode b @ t)"
    "queue_ok c" "newline \<notin> set (buffered_unicode c)"
    by (auto simp: delivers_def)
  from 1(3) 2(3) have "payload (concat (ls @ ls') @ buffered_unicode c) =
      payload (buffered_unicode a @ s @ t)"
    by (metis append_assoc concat_append payload_append)
  moreover from 1(2) 2(2) have "list_all2 (logged_as cf) (es @ es') (ls @ ls')"
    by (rule list_all2_appendI)
  moreover from 1(1) 2(1) have "log_queue c = log_queue a @ es @ es'" by simp
  ultimately show ?thesis unfolding delivers_def using 2(4,5) by blast
qed

lemma delivers_refl:
  "queue_ok st \<Longrightarrow> newline \<notin> set (buffered_unicode st) \<Longrightarrow> delivers cf st [] st"
  unfolding delivers_def
  by (intro conjI exI [of _ "[]"]) simp_all

lemma publish_line_ok:
  assumes "queue_ok st"
  shows "\<exists>st' e. publish_line cf line st = Inr st' \<and> log_queue st' = log_queue st @ [e] \<and>
    logged_as cf e line \<and> queue_ok st' \<and> buffered_unicode st' = buffered_unicode st"
  using assms
  by (cases "raw_data_enabled st"; cases "raw_data_queue st")
    (auto simp: publish_line_def queue_ok_def logged_as_def)

lemma delivers_published:
  assumes "log_queue st' = log_queue st @ [e]" "logged_as cf e (buffered_unicode st @ text)"
    "queue_ok st'" "buffered_unicode st' = []"
  shows "delivers cf st text st'"
  unfolding delivers_def using assms
  by (intro conjI exI [of _ "[e]"] exI [of _ "[buffered_unicode st @ text]"]) simp_all

lemma read_line_ok:
  assumes "queue_ok st" and "buffered_unicode st = []" and "line \<noteq> []"
    and "last line \<noteq> newline \<Longrightarrow> newline \<notin> set line"
  shows "\<exists>st'. read_line cf line st = Inr st' \<and> delivers cf st line st' \<and>
    (last line = newline \<longrightarrow> buffered_unicode st' = [])"
proof -
  define st1 where "st1 = st\<lparr>partial_log_time := clock cf (ticks st), ticks := Suc (Suc (ticks st))\<rparr>"
  have st1: "queue_ok st1" "buffered_unicode st1 = []" "log_queue st1 = log_queue st"
    using assms by (simp_all add: st1_def queue_ok_def)
  from publish_line_ok [OF st1(1), of cf line] obtain st2 e where
    p: "publish_line cf line st1 = Inr st2" and st2: "log_queue st2 = log_queue st1 @ [e]"
    "logged_as cf e line" "queue_ok st2" "buffered_unicode st2 = buffered_unicode st1"
    by blast
  have d: "delivers cf st line st2"
    using st2 st1 assms(2) by (intro delivers_published [of _ _ e]) simp_all
  have b: "delivers cf st line (st1\<lparr>buffered_unicode := line\<rparr>)" if "last line \<noteq> newline"
    unfolding delivers_def using st1 assms that
    by (intro conjI exI [of _ "[]"]) (simp_all add: queue_ok_def)
  show ?thesis
    using p d b st1 st2 assms(2,3)
    by (auto simp: read_line_def is_line_published_def Let_def st1_def)
qed

lemma read_full_lines:
  assumes "queue_ok st" and "buffered_unicode st = []" 
    and "\<forall>l\<in>set ls. l \<noteq> [] \<and> last l = newline"
  shows "\<exists>st'. foldE (read_line cf) ls st = Inr st' \<and> delivers cf st (concat ls) st' \<and>
    buffered_unicode st' = []"
  using assms
proof (induction ls arbitrary: st)
  case Nil
  then show ?case by (simp add: delivers_refl)
next
  case (Cons l ls)
  then obtain st1 where 1: "read_line cf l st = Inr st1" "delivers cf st l st1"
    "buffered_unicode st1 = []"
    using read_line_ok [of st l cf] by auto
  then have "queue_ok st1" by (simp add: delivers_def)
  from Cons.IH [OF this 1(3)] Cons.prems(3) obtain st2 where
    2: "foldE (read_line cf) ls st1 = Inr st2" "delivers cf st1 (concat ls) st2"
    "buffered_unicode st2 = []" by auto
  from delivers_trans [OF 1(2) 2(2)] 1 2 show ?case by simp
qed

definition frames_as :: "(string \<Rightarrow> index \<Rightarrow> index option \<Rightarrow> gen) \<Rightarrow> (string \<Rightarrow> nat \<Rightarrow> string list) \<Rightarrow> bool" where
  "frames_as fr ls \<longleftrightarrow> (\<forall>s b. b < length s \<longrightarrow> newline \<notin> set (take b s) \<longrightarrow>
     fr s (Idx (int b)) None = (ls s b, None))"

context line_framer
begin

lemma consume_delivers:
  assumes fr: "frames_as (framer cf) lines" and "queue_ok st" 
    and "newline \<notin> set (buffered_unicode st)"
  shows "\<exists>st'. consume cf text_in st = Inr st' \<and> delivers cf st text_in st'"
proof (cases "text_in = []")
  case False
  let ?b = "length (buffered_unicode st)" and ?s = "buffered_unicode st @ text_in"
  have b: "?b < length ?s" "newline \<notin> set (take ?b ?s)"
    using False assms(3) by simp_all
  obtain full tail where parts: "lines ?s ?b = full @ tail"
    "\<forall>l\<in>set full. l \<noteq> [] \<and> last l = newline"
    "tail = [] \<or> (\<exists>r. tail = [r] \<and> r \<noteq> [] \<and> newline \<notin> set r)"
    using lines_parts [OF b] by blast
  let ?st = "st\<lparr>buffered_unicode := []\<rparr>"
  have q: "queue_ok ?st" using assms(2) by (simp add: queue_ok_def)
  with parts(2) obtain st1 where 1: "foldE (read_line cf) full ?st = Inr st1"
    "delivers cf ?st (concat full) st1" "buffered_unicode st1 = []"
    using read_full_lines [of ?st full cf] by auto
  have "\<exists>st2. foldE (read_line cf) tail st1 = Inr st2 \<and> delivers cf st1 (concat tail) st2"
    using parts(3)
  proof (elim disjE exE conjE)
    assume "tail = []"
    with 1 show ?thesis by (simp add: delivers_def delivers_refl)
  next
    fix r
    assume r: "tail = [r]" "r \<noteq> []" "newline \<notin> set r"
    have "queue_ok st1" using 1(2) by (simp add: delivers_def)
    with 1(3) r show ?thesis using read_line_ok [of st1 r cf] by auto
  qed
  then obtain st2 where 2: "foldE (read_line cf) tail st1 = Inr st2"
    "delivers cf st1 (concat tail) st2" by blast
  have "delivers cf ?st (concat (lines ?s ?b)) st2"
    using delivers_trans [OF 1(2) 2(2)] parts(1) by simp
  then have "delivers cf st text_in st2"
    using lines_payload [OF b] unfolding delivers_def by simp
  moreover have "consume cf text_in st = Inr st2"
    using False fr b 1(1) 2(1) parts(1)
    by (simp add: consume_def frames_as_def foldE_append)
  ultimately show ?thesis by blast
next
  case True
  show ?thesis
  proof (cases "buffered_unicode st = []")
    case False
    with assms(3) have l: "last (buffered_unicode st) \<noteq> newline" by (metis last_in_set)
    let ?st = "st\<lparr>ticks := Suc (ticks st)\<rparr>"
    have "queue_ok ?st" using assms(2) by (simp add: queue_ok_def)
    from publish_line_ok [OF this, of cf "buffered_unicode st"] obtain st2 e where
      p: "publish_line cf (buffered_unicode st) ?st = Inr st2" and st2: "log_queue st2 = log_queue st @ [e]"
      "logged_as cf e (buffered_unicode st)" "queue_ok st2" by auto
    have "delivers cf st [] (st2\<lparr>buffered_unicode := []\<rparr>)"
      using st2 by (intro delivers_published [of _ _ e]) (simp_all add: queue_ok_def)
    moreover have "delivers cf st [] ?st"
      using delivers_refl [OF assms(2,3)] by (simp add: delivers_def queue_ok_def)
    ultimately show ?thesis using True False l p
      by (auto simp: consume_def is_line_published_def Let_def)
  qed (use True assms in \<open>simp add: consume_def delivers_refl\<close>)
qed

lemma consume_all_delivers:
  assumes fr: "frames_as (framer cf) lines" and "queue_ok st" 
    and "newline \<notin> set (buffered_unicode st)"
  shows "\<exists>st'. foldE (consume cf) chunks st = Inr st' \<and> delivers cf st (concat chunks) st'"
  using assms(2,3)
proof (induction chunks arbitrary: st)
  case (Cons c cs)
  from consume_delivers [OF fr Cons.prems] obtain st1 where
    1: "consume cf c st = Inr st1" "delivers cf st c st1" by blast
  then have "queue_ok st1" "newline \<notin> set (buffered_unicode st1)" by (simp_all add: delivers_def)
  from Cons.IH [OF this] 1 delivers_trans [OF 1(2)] show ?case by fastforce
qed (simp add: delivers_refl)

end

section \<open>Properties of the transport process\<close>


definition idle_driver :: "unit driver" where
  "idle_driver = Driver (\<lambda>_. True) (\<lambda>_ _. Inr ()) (\<lambda>_. Inr ()) (\<lambda>_ _. Inr ([], ())) (\<lambda>s _. Inr (length s, ()))"

definition example_conf :: "'d driver \<Rightarrow> ('d, unit, unit) tconf" where
  "example_conf d =
     \<lparr>drv = d, framer = newline_get_lines \<lparr>nf_keepends = True, nf_cleanends = True\<rparr>,
      max_read_bytes = 11520, max_write_bytes = 32, partial_line_timeout = 100000,
      raw_data_id = 0, invoke = (\<lambda>_ t. (Inr (), t)), clock = (\<lambda>n. int n), stamp = (\<lambda>_. ''<time>'')\<rparr>"

definition example_proc :: "'d transport \<Rightarrow> ('d, unit, unit) tproc" where
  "example_proc t =
     \<lparr>transport = t, command_queue = [], log_queue = [], raw_data_queue = None,
      call_result_queue = [], buffered_unicode = [], partial_log_time = 0, pending_writes = [],
      raw_data_enabled = False, transport_open = False, ticks = 0\<rparr>"


lemma pieces_concat:
  assumes "0 < m"
  shows "j \<le> (length s + m - 1) div m \<Longrightarrow>
    concat (map (\<lambda>k. slice (k * m) (min (Suc k * m) (length s)) s) [0..<j]) = take (j * m) s"
proof (induction j)
  case (Suc j)
  have "j * m \<le> length s"
  proof -
    from Suc.prems assms have "Suc j * m \<le> length s + m - 1"
      by (metis Suc_leI le_less_trans less_eq_div_iff_mult_less_eq order_refl)
    then show ?thesis by simp
  qed
  moreover have "concat (map (\<lambda>k. slice (k * m) (min (Suc k * m) (length s)) s) [0..<j]) =
      slice 0 (j * m) s"
    using Suc by (simp add: slice_def)
  moreover have "take (Suc j * m) s = slice 0 (min (Suc j * m) (length s)) s"
    by (simp add: slice_def min_def)
  ultimately show ?case
    using slice_append [of 0 "j * m" "min (Suc j * m) (length s)" s] by (simp add: add.commute)
qed simp

lemma split_indexes_nth:
  "length (split_indexes n m) = Suc ((n + m - 1) div m)"
  "k < (n + m - 1) div m \<Longrightarrow> split_indexes n m ! k = k * m"
  "split_indexes n m ! ((n + m - 1) div m) = n"
  by (simp_all add: split_indexes_def nth_append)

lemma split_indexes_pieces:
  assumes "0 < m"
  shows "map (\<lambda>i. slice (split_indexes (length s) m ! (i - 1)) (split_indexes (length s) m ! i) s)
      [1..<length (split_indexes (length s) m)] =
    map (\<lambda>k. slice (k * m) (min (Suc k * m) (length s)) s) [0..<(length s + m - 1) div m]"
    (is "map ?f [1..<?n] = map ?g [0..<?q]")
proof (rule nth_equalityI)
  fix i
  assume "i < length (map ?f [1..<?n])"
  then have i: "i < ?q" by (simp only: split_indexes_nth length_map length_upt diff_Suc_1)
  have last: "length s \<le> Suc i * m" if "Suc i = ?q"
  proof -
    have "length s + m - 1 < Suc ?q * m"
      using assms by (metis div_less_iff_less_mult lessI)
    then show ?thesis unfolding that by simp
  qed
  have inner: "Suc i * m \<le> length s" if "Suc i < ?q"
  proof -
    from that assms have "Suc (Suc i) * m \<le> length s + m - 1"
      by (metis Suc_leI less_eq_div_iff_mult_less_eq)
    then show ?thesis using assms by simp
  qed
  have "map ?f [1..<?n] ! i = ?f (Suc i)"
    using i by (simp add: split_indexes_nth(1) del: upt_Suc)
  also have "\<dots> = slice (i * m) (min (Suc i * m) (length s)) s"
  proof (cases "Suc i = ?q")
    case True
    with last have "min (Suc i * m) (length s) = length s" by simp
    moreover have "split_indexes (length s) m ! Suc i = length s"
      unfolding True by (rule split_indexes_nth)
    ultimately show ?thesis using i by (simp only: diff_Suc_1 split_indexes_nth(2))
  next
    case False
    with i have "Suc i < ?q" by simp
    with i inner [OF this] show ?thesis
      by (simp only: diff_Suc_1 split_indexes_nth min_absorb1)
  qed
  also have "\<dots> = map ?g [0..<?q] ! i" using i by simp
  finally show "map ?f [1..<?n] ! i = map ?g [0..<?q] ! i" .
qed (simp add: split_indexes_nth)

text \<open>A command of any length is queued in pieces whose concatenation is the command, in
  order; no piece is empty or longer than the write limit, and all but the last have the full
  length.\<close>

theorem enqueue_command_pieces:
  assumes "0 < m"
  shows "\<exists>pieces. enqueue_command_writes q command m = Inr (q @ pieces) \<and>
    concat pieces = command \<and> (\<forall>p\<in>set pieces. p \<noteq> [] \<and> length p \<le> m) \<and>
    (\<forall>p\<in>set (butlast pieces). length p = m)"
proof -
  let ?q = "(length command + m - 1) div m"
  let ?g = "\<lambda>k. slice (k * m) (min (Suc k * m) (length command)) command"
  let ?pieces = "map ?g [0..<?q]"
  have full: "length command \<le> ?q * m"
  proof -
    have "length command + m - 1 < Suc ?q * m"
      using assms by (metis div_less_iff_less_mult lessI)
    then show ?thesis by simp
  qed
  have start: "k * m < length command" if "k < ?q" for k
  proof -
    from that assms have "Suc k * m \<le> length command + m - 1"
      by (metis Suc_leI less_eq_div_iff_mult_less_eq)
    with assms show ?thesis by simp
  qed
  have "concat ?pieces = command"
    using pieces_concat [OF assms, of ?q command] full by simp
  moreover have "\<forall>p\<in>set ?pieces. p \<noteq> [] \<and> length p \<le> m"
  proof
    fix p
    assume "p \<in> set ?pieces"
    then obtain k where k: "k < ?q" "p = ?g k" by auto
    from start [OF k(1)] assms k(2) show "p \<noteq> [] \<and> length p \<le> m"
      by (auto simp: slice_def)
  qed
  moreover have "\<forall>p\<in>set (butlast ?pieces). length p = m"
  proof
    fix p
    assume "p \<in> set (butlast ?pieces)"
    moreover have "butlast [0..<?q] = [0..<?q - 1]" by (cases ?q) simp_all
    ultimately have "p \<in> set (map ?g [0..<?q - 1])" by (simp only: map_butlast [symmetric])
    then obtain k where k: "k \<in> set [0..<?q - 1]" and p: "p = ?g k"
      unfolding set_map by blast
    then have "k < ?q - 1" by (simp only: set_upt atLeastLessThan_iff)
    then have "Suc k < ?q" by (metis Suc_eq_plus1 less_diff_conv)
    with start [of "Suc k"] p show "length p = m" by (simp add: slice_def)
  qed
  moreover have "enqueue_command_writes q command m = Inr (q @ ?pieces)"
    unfolding enqueue_command_writes_def Let_def split_indexes_pieces [OF assms]
    using assms by (intro if_not_P) simp
  ultimately show ?thesis by blast
qed

theorem enqueue_command_pieces_witness:
  "\<exists>pieces. enqueue_command_writes [''x''] ''hello'' 2 = Inr ([''x''] @ pieces) \<and>
     concat pieces = ''hello'' \<and> (\<forall>p\<in>set pieces. p \<noteq> [] \<and> length p \<le> 2) \<and>
     (\<forall>p\<in>set (butlast pieces). length p = 2)"
  by (rule enqueue_command_pieces) simp

section \<open>The open event\<close>

lemma publish_line_transport:
  "publish_line cf line st = Inr st' \<Longrightarrow>
   transport st' = transport st \<and> transport_open st' = transport_open st"
  by (auto simp: publish_line_def result_simps split: if_splits option.splits)

lemma is_line_published_transport:
  "is_line_published cf line st = Inr (b, st') \<Longrightarrow>
   transport st' = transport st \<and> transport_open st' = transport_open st"
  unfolding is_line_published_def Let_def
  by (auto simp: result_simps split: if_splits dest!: publish_line_transport)

lemma read_line_transport:
  "read_line cf line st = Inr st' \<Longrightarrow>
   transport st' = transport st \<and> transport_open st' = transport_open st"
proof -
  assume "read_line cf line st = Inr st'"
  then obtain p st1 where "is_line_published cf line
      (st\<lparr>partial_log_time := clock cf (ticks st), ticks := Suc (ticks st)\<rparr>) = Inr (p, st1)"
    and "st' = (if p then st1 else st1\<lparr>buffered_unicode := buffered_unicode st1 @ line\<rparr>)"
    unfolding read_line_def bindE_eq_Inr by auto
  from is_line_published_transport [OF this(1)] this(2) show ?thesis by simp
qed

lemma consume_transport:
  assumes "consume cf s st = Inr st'"
  shows "transport st' = transport st \<and> transport_open st' = transport_open st"
proof (cases "s = []")
  case True
  with assms show ?thesis
    by (auto simp: consume_def result_simps split: if_splits dest!: is_line_published_transport)
next
  case False
  then obtain lines exc where
    "framer cf (buffered_unicode st @ s) (Idx (int (length (buffered_unicode st)))) None = (lines, exc)"
    by fastforce
  with assms False have f: "foldE (read_line cf) lines (st\<lparr>buffered_unicode := []\<rparr>) = Inr st'"
    by (auto simp: consume_def result_simps split: option.splits)
  show ?thesis
    by (rule foldE_invariant [OF f]) (auto dest!: read_line_transport)
qed

text \<open>\<open>flag_ok\<close>: the event tells whether the transport is open.\<close>

definition flag_ok :: "('d, 'm, 'r) tconf \<Rightarrow> ('d, 'm, 'r) tproc \<Rightarrow> bool" where
  "flag_ok cf st \<longleftrightarrow> transport_open st = drv_is_open (drv cf) (dev (transport st))"

context transport_class
begin

lemma open_transport_flag:
  "Transport_Process.drv cf = drv \<Longrightarrow> open_transport cf st = Inr st' \<Longrightarrow>
   flag_ok cf st' \<and> transport_open st'"
  using t_open_is_open by (auto simp: open_transport_def flag_ok_def bindE_eq_Inr)

lemma write_flag:
  assumes "Transport_Process.drv cf = drv" and "transport_write cf st = Inr st'"
  shows "drv_is_open drv (dev (transport st')) = drv_is_open drv (dev (transport st)) \<and>
    transport_open st' = transport_open st"
proof (cases "pending_writes st")
  case Nil
  with assms(2) show ?thesis by (simp add: transport_write_def)
next
  case (Cons w ws)
  with assms obtain n t where t: "t_write drv w (transport st) = Inr (n, t)"
    and "st' = st\<lparr>transport := t, pending_writes := ws\<rparr>"
    by (auto simp: transport_write_def bindE_eq_Inr)
  with t_write_open [OF t] show ?thesis by simp
qed

lemma read_flag:
  assumes "Transport_Process.drv cf = drv" and "transport_read cf st = Inr st'"
  shows "drv_is_open drv (dev (transport st')) = drv_is_open drv (dev (transport st)) \<and>
    transport_open st' = transport_open st"
proof -
  from assms obtain s t where t: "t_read drv (max_read_bytes cf) (transport st) = Inr (s, t)"
    and c: "consume cf (case s of None \<Rightarrow> [] | Some s \<Rightarrow> s) (st\<lparr>transport := t\<rparr>) = Inr st'"
    by (auto simp: transport_read_def bindE_eq_Inr)
  from consume_transport [OF c] t_read_open [OF t] show ?thesis by simp
qed

lemma serve_transport_flag:
  assumes "Transport_Process.drv cf = drv" and "serve_transport cf st = Inr st'"
  shows "flag_ok cf st' \<and>
    (\<not> drv_is_open drv (dev (transport st)) \<longrightarrow> transport_open st' =
       (transport_open st \<and> truthy (get_property AUTO_REOPEN (PFlag False) (transport st))))"
proof (cases "drv_is_open drv (dev (transport st))")
  case True
  with assms obtain st1 where w: "transport_write cf (st\<lparr>transport_open := True\<rparr>) = Inr st1"
    and r: "transport_read cf st1 = Inr st'"
    by (auto simp: serve_transport_def bindE_eq_Inr)
  from write_flag [OF assms(1) w] read_flag [OF assms(1) r] True assms(1) show ?thesis
    by (simp add: flag_ok_def)
next
  case False
  have c: "t_close drv (transport st) = Inr (transport st)"
    using False by (simp add: t_close_def)
  show ?thesis
  proof (cases "transport_open st \<and> truthy (get_property AUTO_REOPEN (PFlag False) (transport st))")
    case True
    with False c assms have "open_transport cf (st\<lparr>transport_open := False\<rparr>) = Inr st'"
      by (simp add: serve_transport_def Let_def)
    from open_transport_flag [OF assms(1) this] True show ?thesis by blast
  next
    case no: False
    with False c assms have "transport st' = transport st \<and> \<not> transport_open st'"
      by (auto simp: serve_transport_def Let_def split: if_splits)
    with False no assms(1) show ?thesis by (simp add: flag_ok_def)
  qed
qed

lemma do_work_flag:
  assumes "Transport_Process.drv cf = drv" and "do_work cf st = Inr st'"
  shows "flag_ok cf st' \<and>
    (command_queue st = [] \<longrightarrow> \<not> drv_is_open drv (dev (transport st)) \<longrightarrow> transport_open st' =
       (transport_open st \<and> truthy (get_property AUTO_REOPEN (PFlag False) (transport st))))"
  using assms serve_transport_flag [OF assms(1)]
  by (auto simp: do_work_def bindE_eq_Inr split: list.splits)

end

text \<open>After every round of the loop over a TCP transport the open event says whether the
  transport is open; and when no command is waiting and the transport turns out closed, it is
  opened again exactly when it was open by its own account (so closed on its own) and its
  auto-reopen property is set.\<close>

theorem tcp_do_work_reopens:
  assumes "drv cf = tcp_driver sk" and "do_work cf st = Inr st'"
  shows "transport_open st' = tcp_is_open (dev (transport st')) \<and>
    (command_queue st = [] \<longrightarrow> \<not> tcp_is_open (dev (transport st)) \<longrightarrow> transport_open st' =
       (transport_open st \<and> truthy (get_property ''auto_reopen'' (PFlag False) (transport st))))"
  using tcp.do_work_flag [OF assms] unfolding flag_ok_def assms(1) tcp_driver_sel .

definition example_sockets :: "unit sockets" where
  "example_sockets = Sockets (\<lambda>_ _ _. Inr ()) (\<lambda>_. Inr ()) (\<lambda>_ _. Inr (None, ())) (\<lambda>_ _. Inr ())"

definition example_tcp :: "unit tcp transport" where
  "example_tcp = \<lparr>comms_address = ''10.0.0.1'',
     properties = [(''auto_reopen'', PFlag True), (''open_on_start'', PFlag True),
       (''host'', PStr ''10.0.0.1''), (''port'', PNum 23), (''connect_timeout'', PNum 10)],
     dev = \<lparr>tcp_socket = None\<rparr>\<rparr>"

theorem tcp_do_work_reopens_witness:
  "\<exists>st'. do_work (example_conf (tcp_driver example_sockets))
      ((example_proc example_tcp)\<lparr>transport_open := True\<rparr>) = Inr st' \<and> transport_open st' \<and>
    tcp_is_open (dev (transport st'))"
proof -
  let ?cf = "example_conf (tcp_driver example_sockets)"
  let ?st = "(example_proc example_tcp)\<lparr>transport_open := True\<rparr>"
  have "\<exists>st'. do_work ?cf ?st = Inr st'"
    by (simp add: do_work_def serve_transport_def example_conf_def example_proc_def example_tcp_def
        t_close_def open_transport_def t_open_def tcp_is_open_def tcp_open_def prop_item_def
        example_sockets_def truthy_def get_property_def)
  then obtain st' where d: "do_work ?cf ?st = Inr st'" ..
  have "truthy (get_property ''auto_reopen'' (PFlag False) (transport ?st)) \<and>
      command_queue ?st = [] \<and> \<not> tcp_is_open (dev (transport ?st)) \<and> drv ?cf = tcp_driver example_sockets"
    by (simp add: example_proc_def example_tcp_def truthy_def get_property_def tcp_is_open_def
        example_conf_def)
  with tcp_do_work_reopens [OF _ d, of example_sockets] d show ?thesis by auto
qed

end
