(* ===== verification/Expect.thy ===== *)
theory Expect
  imports Line_Identifier Transport_Process
begin

text \<open>
  The expect loop of \<open>gazoo_device/switchboard/switchboard.py\<close> (\<open>_expect\<close> and its helpers) and
  the record of \<open>expect_response.py\<close>. Compiled patterns are values of type \<open>'p\<close>; the search
  of the regular expression library is a parameter that gives the start and the end of the
  first match. What \<open>get_message\<close> returns from the raw data queue is a list of events; its end
  is the end of the time-out, until which nothing more arrives. \<open>clk n\<close> is the n-th value of
  \<open>time.time()\<close>. The notes \<open>_expect\<close> writes to the log are left out.
\<close>

abbreviation (input) MODE_TYPE_ALL :: string where "MODE_TYPE_ALL \<equiv> ''all''"
abbreviation (input) MODE_TYPE_ANY :: string where "MODE_TYPE_ANY \<equiv> ''any''"
abbreviation (input) MODE_TYPE_SEQUENTIAL :: string where "MODE_TYPE_SEQUENTIAL \<equiv> ''sequential''"

record 'p pmatch =
  m_re :: 'p
  m_start :: nat
  m_end :: nat
  m_text :: string

record 'p expect_response =
  er_index :: "nat option"
  er_before :: string
  er_after :: string
  er_match :: "'p pmatch option"
  er_time_elapsed :: int
  er_timedout :: bool
  er_remaining :: "string list"
  er_match_list :: "'p pmatch list"

definition ensure_has_newline :: "string \<Rightarrow> bool \<Rightarrow> string \<Rightarrow> string" where
  "ensure_has_newline cmd add_newline nl =
     (if add_newline \<and> \<not> (ends_with cmd [newline] \<or> ends_with cmd [CHR 0x00] \<or>
           ends_with cmd [CHR 0x5C, CHR ''0''] \<or> ends_with cmd nl)
      then cmd @ nl else cmd)"

section \<open>Bookkeeping of the patterns\<close>

fun first_index :: "'a \<Rightarrow> 'a list \<Rightarrow> nat option" where
  "first_index x [] = None"
| "first_index x (y # ys) = (if y = x then Some 0 else map_option Suc (first_index x ys))"

definition get_pattern_index :: "'p list \<Rightarrow> 'p pmatch list \<Rightarrow> string \<Rightarrow> nat option" where
  "get_pattern_index compiled_list match_list mode =
     (if match_list \<noteq> [] then
        (if mode = MODE_TYPE_SEQUENTIAL then Some (length match_list - 1)
         else first_index (m_re (last match_list)) compiled_list)
      else None)"

definition get_missing_patterns :: "'p list \<Rightarrow> 'p pmatch list \<Rightarrow> string \<Rightarrow> 'p list" where
  "get_missing_patterns compiled_list match_list mode =
     (if mode = MODE_TYPE_SEQUENTIAL then drop (length match_list) compiled_list
      else filter (\<lambda>p. p \<notin> set (map m_re match_list)) compiled_list)"

definition get_pattern_list :: "'p list \<Rightarrow> 'p pmatch list \<Rightarrow> string \<Rightarrow> 'p list result" where
  "get_pattern_list compiled_list match_list mode =
     (if mode = MODE_TYPE_ANY then Inr compiled_list
      else let missing_patterns = get_missing_patterns compiled_list match_list mode in
        if mode = MODE_TYPE_ALL then Inr missing_patterns
        else bindE (py_index missing_patterns 0) (\<lambda>p. Inr [p]))"

definition get_pattern_strings :: "('p \<Rightarrow> string) \<Rightarrow> 'p list \<Rightarrow> string list" where
  "get_pattern_strings pattern compiled_list = map pattern compiled_list"

section \<open>Argument checks\<close>

text \<open>An argument as the check sees it: of the expected type, or not.\<close>

datatype 'a arg = Arg 'a | WrongType

definition check_expect_args ::
  "'p list arg \<Rightarrow> int arg \<Rightarrow> int arg \<Rightarrow> string arg \<Rightarrow> string arg \<Rightarrow> unit result" where
  "check_expect_args pattern_list timeout searchwindowsize expect_type mode =
     (if pattern_list = WrongType then Inl DeviceError
      else if timeout = WrongType then Inl DeviceError
      else if searchwindowsize = WrongType then Inl DeviceError
      else if expect_type = WrongType then Inl DeviceError
      else if mode = WrongType then Inl DeviceError
      else if expect_type \<notin> {Arg LINE_TYPE_ALL, Arg LINE_TYPE_LOG, Arg LINE_TYPE_RESPONSE}
        then Inl DeviceError
      else if mode \<notin> {Arg MODE_TYPE_ALL, Arg MODE_TYPE_ANY, Arg MODE_TYPE_SEQUENTIAL}
        then Inl DeviceError
      else if pattern_list = Arg [] then Inl DeviceError
      else Inr ())"

section \<open>The loop\<close>

datatype event = Msg nat string | NoMsg | QueueFailed

record 'p econf =
  search :: "'p \<Rightarrow> string \<Rightarrow> (nat \<times> nat) option"
  pattern :: "'p \<Rightarrow> string"
  ident :: "'p line_identifier"
  clk :: "nat \<Rightarrow> int"
  patterns :: "'p list"
  windowsize :: int
  expect_type :: string
  mode :: string

record 'p estate =
  captured_index :: nat
  captured_lines :: "string list"
  found_matches :: nat
  match_list :: "'p pmatch list"
  window :: string
  tick :: nat

definition expected_matches :: "'p econf \<Rightarrow> nat" where
  "expected_matches cf = (if mode cf = ''any'' then 1 else length (patterns cf))"

text \<open>The line cut at \<open>range(0, len(line), searchwindowsize)\<close> and its end.\<close>

definition line_chunks :: "int \<Rightarrow> string \<Rightarrow> string list result" where
  "line_chunks chunk_size line =
     (if chunk_size = 0 then Inl ValueError
      else if chunk_size < 0 then Inr []
      else let ixs = split_indexes (length line) (nat chunk_size)
           in Inr (map (\<lambda>i. slice (ixs ! (i - 1)) (ixs ! i) line) [1..<length ixs]))"

text \<open>\<open>window[-n:]\<close>\<close>

definition last_n :: "int \<Rightarrow> string \<Rightarrow> string" where
  "last_n n w = (if n > 0 then drop (length w - nat n) w else drop (nat (- n)) w)"

fun find_match :: "'p econf \<Rightarrow> 'p list \<Rightarrow> string \<Rightarrow> 'p pmatch option" where
  "find_match cf [] w = None"
| "find_match cf (p # ps) w =
     (case search cf p w of
        Some (s, e) \<Rightarrow> Some \<lparr>m_re = p, m_start = s, m_end = e, m_text = slice s e w\<rparr>
      | None \<Rightarrow> find_match cf ps w)"

definition success :: "'p econf \<Rightarrow> int \<Rightarrow> 'p pmatch \<Rightarrow> 'p estate \<Rightarrow> 'p expect_response" where
  "success cf start_time m st =
     (let i = captured_index st - length (window st) + m_start m;
          captured_string = concat (captured_lines st)
      in \<lparr>er_index = get_pattern_index (patterns cf) (match_list st) (mode cf),
          er_before = take i captured_string, er_after = drop i captured_string,
          er_match = Some m, er_time_elapsed = clk cf (tick st) - start_time,
          er_timedout = False,
          er_remaining = get_pattern_strings (pattern cf)
            (get_missing_patterns (patterns cf) (match_list st) (mode cf)),
          er_match_list = match_list st\<rparr>)"

text \<open>The loop over the chunks of a line; \<open>Inr\<close> is the response of a completed expect.\<close>

fun chunk_loop ::
  "'p econf \<Rightarrow> int \<Rightarrow> int \<Rightarrow> string list \<Rightarrow> 'p estate \<Rightarrow> ('p estate + 'p expect_response) result" where
  "chunk_loop cf start_time end_time [] st = Inr (Inl st)"
| "chunk_loop cf start_time end_time (partial_line # rest) st =
     (let st1 = st\<lparr>captured_index := captured_index st + length partial_line,
                   window := last_n (windowsize cf * 2) (window st @ partial_line),
                   tick := Suc (tick st)\<rparr>
      in if clk cf (tick st) \<ge> end_time then Inr (Inl st1)
         else bindE (get_pattern_list (patterns cf) (match_list st1) (mode cf)) (\<lambda>pattern_list.
           case find_match cf pattern_list (window st1) of
             None \<Rightarrow> chunk_loop cf start_time end_time rest st1
           | Some m \<Rightarrow>
               (let st2 = st1\<lparr>found_matches := Suc (found_matches st1),
                              match_list := match_list st1 @ [m]\<rparr>
                in if found_matches st2 \<noteq> expected_matches cf then
                     chunk_loop cf start_time end_time rest
                       (st2\<lparr>window := drop (m_end m) (window st2)\<rparr>)
                   else Inr (Inr (success cf start_time m st2)))))"

definition timed_out ::
  "'p econf \<Rightarrow> int \<Rightarrow> bool \<Rightarrow> 'p estate \<Rightarrow> 'p expect_response result" where
  "timed_out cf start_time raise_for_timeout st =
     (let ms = match_list st;
          remaining = get_pattern_strings (pattern cf)
            (get_missing_patterns (patterns cf) ms (mode cf))
      in if raise_for_timeout then Inl DeviceError
         else Inr \<lparr>er_index = (if ms \<noteq> [] then get_pattern_index (patterns cf) ms (mode cf) else None),
           er_before = concat (captured_lines st), er_after = [],
           er_match = (if ms \<noteq> [] then Some (last ms) else None),
           er_time_elapsed = clk cf (tick st) - start_time, er_timedout = True,
           er_remaining = remaining, er_match_list = ms\<rparr>)"

fun expect_loop ::
  "'p econf \<Rightarrow> int \<Rightarrow> int \<Rightarrow> bool \<Rightarrow> event list \<Rightarrow> 'p estate \<Rightarrow> 'p expect_response result" where
  "expect_loop cf start_time end_time rft [] st = timed_out cf start_time rft st"
| "expect_loop cf start_time end_time rft (ev # evs) st =
     (let st1 = st\<lparr>tick := Suc (Suc (tick st))\<rparr>
      in if clk cf (tick st) \<ge> end_time then
           timed_out cf start_time rft (st\<lparr>tick := Suc (tick st)\<rparr>)
         else case ev of
             QueueFailed \<Rightarrow> timed_out cf start_time rft st1
           | NoMsg \<Rightarrow> expect_loop cf start_time end_time rft evs st1
           | Msg port line \<Rightarrow>
               bindE (accept (\<lambda>p l. search cf p l \<noteq> None) (ident cf) (int port) line (expect_type cf))
                 (\<lambda>accepted.
                    if \<not> accepted then expect_loop cf start_time end_time rft evs st1
                    else
                      bindE (line_chunks (windowsize cf) line) (\<lambda>chunks.
                      bindE (chunk_loop cf start_time end_time chunks
                               (st1\<lparr>captured_lines := captured_lines st1 @ [line]\<rparr>)) (\<lambda>r.
                        case r of
                          Inr resp \<Rightarrow> Inr resp
                        | Inl st2 \<Rightarrow> expect_loop cf start_time end_time rft evs st2))))"

definition expect_run ::
  "'p econf \<Rightarrow> int \<Rightarrow> bool \<Rightarrow> event list \<Rightarrow> 'p expect_response result" where
  "expect_run cf timeout rft events =
     (let start_time = clk cf 0
      in expect_loop cf start_time (start_time + timeout) rft events
           \<lparr>captured_index = 0, captured_lines = [], found_matches = 0, match_list = [],
            window = [], tick = 1\<rparr>)"

section \<open>The invariant of the loop\<close>

definition valid_mode :: "string \<Rightarrow> bool" where
  "valid_mode md \<longleftrightarrow> md \<in> {''all'', ''any'', ''sequential''}"

text \<open>What holds of the matches found so far, for each mode.\<close>

definition matches_ok :: "'p econf \<Rightarrow> 'p pmatch list \<Rightarrow> bool" where
  "matches_ok cf ms \<longleftrightarrow>
     set (map m_re ms) \<subseteq> set (patterns cf) \<and>
     (mode cf = ''sequential'' \<longrightarrow> map m_re ms = take (length ms) (patterns cf)) \<and>
     (mode cf = ''all'' \<longrightarrow> distinct (map m_re ms))"

text \<open>
  The window is a suffix of the text captured up to \<open>captured_index\<close>; the rest of the text of
  the lines is still to be looked at.
\<close>

definition captured :: "'p estate \<Rightarrow> string" where
  "captured st = concat (captured_lines st)"

definition window_ok :: "'p estate \<Rightarrow> string \<Rightarrow> bool" where
  "window_ok st rest \<longleftrightarrow>
     (\<exists>before. captured st = before @ window st @ rest \<and> captured_index st = length before + length (window st))"

definition einv :: "'p econf \<Rightarrow> string \<Rightarrow> 'p estate \<Rightarrow> bool" where
  "einv cf rest st \<longleftrightarrow> window_ok st rest \<and> found_matches st = length (match_list st) \<and>
     found_matches st < expected_matches cf \<and> matches_ok cf (match_list st)"

text \<open>What a successful response says about the text it was found in.\<close>

definition response_ok :: "'p econf \<Rightarrow> string \<Rightarrow> 'p expect_response \<Rightarrow> bool" where
  "response_ok cf text r \<longleftrightarrow> \<not> er_timedout r \<and> er_before r @ er_after r = text \<and>
     (\<exists>m. er_match r = Some m \<and> er_match_list r \<noteq> [] \<and> last (er_match_list r) = m \<and>
        take (length (m_text m)) (er_after r) = m_text m) \<and>
     length (er_match_list r) = expected_matches cf \<and> matches_ok cf (er_match_list r)"

lemma find_match_mem: "find_match cf ps w = Some m \<Longrightarrow> m_re m \<in> set ps"
  by (induction ps) (auto split: option.splits)

lemma find_match_text: "find_match cf ps w = Some m \<Longrightarrow> m_text m = slice (m_start m) (m_end m) w"
  by (induction ps) (auto split: option.splits)

lemma get_pattern_list_ok:
  assumes "valid_mode (mode cf)" and "matches_ok cf ms" and "length ms < expected_matches cf"
  shows "\<exists>ps. get_pattern_list (patterns cf) ms (mode cf) = Inr ps \<and>
    (\<forall>m. m_re m \<in> set ps \<longrightarrow> matches_ok cf (ms @ [m]))"
proof -
  consider "mode cf = ''any''" | "mode cf = ''all''" | "mode cf = ''sequential''"
    using assms(1) by (auto simp: valid_mode_def)
  then show ?thesis
  proof cases
    case 3
    with assms(3) have l: "length ms < length (patterns cf)" by (simp add: expected_matches_def)
    with 3 have "get_pattern_list (patterns cf) ms (mode cf) = Inr [patterns cf ! length ms]"
      by (simp add: get_pattern_list_def get_missing_patterns_def py_index_nonneg)
    with l 3 assms(2) show ?thesis
      by (simp add: matches_ok_def take_Suc_conv_app_nth set_take_subset)
  qed (use assms(2) in \<open>simp_all add: get_pattern_list_def get_missing_patterns_def matches_ok_def\<close>)
qed

lemma last_n_suffix: "\<exists>cut. w = cut @ last_n n w"
  unfolding last_n_def by (metis append_take_drop_id)

lemma window_ok_chunk:
  assumes "window_ok st (c @ rest)"
  shows "window_ok (st\<lparr>captured_index := captured_index st + length c,
    window := last_n n (window st @ c), tick := t\<rparr>) rest"
proof -
  from assms obtain u where u: "captured st = u @ window st @ c @ rest"
    "captured_index st = length u + length (window st)"
    by (auto simp: window_ok_def)
  obtain cut where c: "window st @ c = cut @ last_n n (window st @ c)" (is "_ = cut @ ?w")
    using last_n_suffix by blast
  from u(1) c have "captured st = (u @ cut) @ ?w @ rest" by (metis append_assoc)
  moreover from u(2) c have "captured_index st + length c = length (u @ cut) + length ?w"
    by (metis add.assoc length_append)
  ultimately show ?thesis by (auto simp: window_ok_def captured_def)
qed

lemma window_ok_drop: "window_ok st rest \<Longrightarrow> window_ok (st\<lparr>window := drop n (window st)\<rparr>) rest"
  unfolding window_ok_def captured_def
  by (elim exE conjE, rule_tac x = "before @ take n (window st)" in exI) (simp add: min_def)

lemma success_text:
  assumes "window_ok st rest" and "m_text m = slice (m_start m) (m_end m) (window st)"
  shows "er_before (success cf t m st) @ er_after (success cf t m st) = captured st \<and>
    take (length (m_text m)) (er_after (success cf t m st)) = m_text m"
proof -
  from assms(1) obtain u where u: "captured st = u @ window st @ rest"
    "captured_index st = length u + length (window st)"
    by (auto simp: window_ok_def)
  then have a: "er_after (success cf t m st) = drop (m_start m) (window st @ rest)"
    by (simp add: success_def Let_def captured_def [symmetric])
  have "take (length (slice (m_start m) (m_end m) (window st))) (drop (m_start m) (window st @ rest)) =
      slice (m_start m) (m_end m) (window st)"
    by (simp add: slice_def min_def)
  with assms(2) have "take (length (m_text m)) (er_after (success cf t m st)) = m_text m"
    unfolding a by simp
  then show ?thesis by (simp add: success_def Let_def captured_def)
qed

lemma success_sel [simp]:
  "er_timedout (success cf t m st) = False"
  "er_match (success cf t m st) = Some m"
  "er_match_list (success cf t m st) = match_list st"
  by (simp_all add: success_def Let_def)

lemma chunk_loop_ok:
  assumes "valid_mode (mode cf)" and "einv cf (concat chunks) st" and "mono (clk cf)"
  shows "\<exists>x. chunk_loop cf t0 t1 chunks st = Inr x \<and>
    (case x of
       Inr r \<Rightarrow> response_ok cf (captured st) r \<and>
         length (er_match_list r) \<le> found_matches st + length chunks
     | Inl st' \<Rightarrow> captured st' = captured st \<and> tick st \<le> tick st' \<and>
         found_matches st' \<le> found_matches st + length chunks \<and>
         (\<exists>rest. einv cf rest st' \<and> (rest = [] \<or> clk cf (tick st') \<ge> t1)))"
  using assms(2)
proof (induction chunks arbitrary: st)
  case Nil
  then show ?case by auto
next
  case (Cons c cs)
  let ?st1 = "st\<lparr>captured_index := captured_index st + length c,
    window := last_n (windowsize cf * 2) (window st @ c), tick := Suc (tick st)\<rparr>"
  have w1: "window_ok ?st1 (concat cs)"
    using Cons.prems by (intro window_ok_chunk) (simp add: einv_def)
  have i1: "einv cf (concat cs) ?st1" "captured ?st1 = captured st"
    using Cons.prems w1 by (simp_all add: einv_def captured_def)
  show ?case
  proof (cases "clk cf (tick st) \<ge> t1")
    case True
    have "clk cf (tick st) \<le> clk cf (Suc (tick st))" using assms(3) by (simp add: monoD)
    with True i1 show ?thesis by fastforce
  next
    case False
    from Cons.prems obtain ps where
      ps: "get_pattern_list (patterns cf) (match_list st) (mode cf) = Inr ps"
      "\<forall>m. m_re m \<in> set ps \<longrightarrow> matches_ok cf (match_list st @ [m])"
      using get_pattern_list_ok [OF assms(1), of "match_list st"] by (auto simp: einv_def)
    show ?thesis
    proof (cases "find_match cf ps (window ?st1)")
      case None
      from Cons.IH [OF i1(1)] obtain x where x: "chunk_loop cf t0 t1 cs ?st1 = Inr x"
        "case x of Inr r \<Rightarrow> response_ok cf (captured ?st1) r \<and>
           length (er_match_list r) \<le> found_matches ?st1 + length cs
         | Inl st' \<Rightarrow> captured st' = captured ?st1 \<and> tick ?st1 \<le> tick st' \<and>
           found_matches st' \<le> found_matches ?st1 + length cs \<and>
           (\<exists>rest. einv cf rest st' \<and> (rest = [] \<or> clk cf (tick st') \<ge> t1))" by blast
      have "chunk_loop cf t0 t1 (c # cs) st = Inr x"
        using False ps(1) None x(1) by (simp add: Let_def)
      with x(2) i1(2) show ?thesis by (auto split: sum.splits)
    next
      case (Some m)
      let ?st2 = "?st1\<lparr>found_matches := Suc (found_matches st), match_list := match_list st @ [m]\<rparr>"
      have ok: "matches_ok cf (match_list st @ [m])"
        using ps(2) find_match_mem [OF Some] by blast
      have w2: "window_ok ?st2 (concat cs)" "captured ?st2 = captured st"
        using w1 by (simp_all add: window_ok_def captured_def)
      show ?thesis
      proof (cases "Suc (found_matches st) = expected_matches cf")
        case True
        have "chunk_loop cf t0 t1 (c # cs) st = Inr (Inr (success cf t0 m ?st2))"
          using False ps(1) Some True by (simp add: Let_def)
        moreover have "response_ok cf (captured st) (success cf t0 m ?st2)"
          using success_text [OF w2(1), of m cf t0] find_match_text [OF Some] ok True Cons.prems w2(2)
          unfolding response_ok_def by (simp add: einv_def)
        ultimately show ?thesis using Cons.prems by (auto simp: einv_def)
      next
        case no: False
        let ?st3 = "?st2\<lparr>window := drop (m_end m) (window ?st2)\<rparr>"
        have i3: "einv cf (concat cs) ?st3" "captured ?st3 = captured st"
          using window_ok_drop [OF w2(1), of "m_end m"] ok no Cons.prems w2(2)
          by (simp_all add: einv_def captured_def)
        from Cons.IH [OF i3(1)] obtain x where x: "chunk_loop cf t0 t1 cs ?st3 = Inr x"
          "case x of Inr r \<Rightarrow> response_ok cf (captured ?st3) r \<and>
           length (er_match_list r) \<le> found_matches ?st3 + length cs
           | Inl st' \<Rightarrow> captured st' = captured ?st3 \<and> tick ?st3 \<le> tick st' \<and>
             found_matches st' \<le> found_matches ?st3 + length cs \<and>
             (\<exists>rest. einv cf rest st' \<and> (rest = [] \<or> clk cf (tick st') \<ge> t1))" by blast
        have "chunk_loop cf t0 t1 (c # cs) st = Inr x"
          using False ps(1) Some no x(1) by (simp add: Let_def)
        with x(2) i3(2) show ?thesis by (auto split: sum.splits)
      qed
    qed
  qed
qed

text \<open>The lines the identifier lets through, and the number of chunks of a line.\<close>

fun accepted_lines :: "'p econf \<Rightarrow> event list \<Rightarrow> string list" where
  "accepted_lines cf [] = []"
| "accepted_lines cf (Msg port line # evs) =
     (if accept (\<lambda>p l. search cf p l \<noteq> None) (ident cf) (int port) line (expect_type cf) = Inr True
      then line # accepted_lines cf evs else accepted_lines cf evs)"
| "accepted_lines cf (_ # evs) = accepted_lines cf evs"

definition chunk_count :: "int \<Rightarrow> string \<Rightarrow> nat" where
  "chunk_count n line = (length line + nat n - 1) div nat n"

lemma line_chunks_ok:
  assumes "0 < n"
  shows "\<exists>cs. line_chunks n line = Inr cs \<and> concat cs = line \<and> length cs = chunk_count n line"
proof -
  have n: "0 < nat n" using assms by simp
  have full: "length line \<le> chunk_count n line * nat n"
  proof -
    have "length line + nat n - 1 < Suc (chunk_count n line) * nat n"
      unfolding chunk_count_def using n by (metis div_less_iff_less_mult lessI)
    then show ?thesis using n by simp
  qed
  show ?thesis
    using assms pieces_concat [OF n, of "chunk_count n line" line] full
    unfolding line_chunks_def Let_def split_indexes_pieces [OF n]
    by (simp add: chunk_count_def)
qed

definition timeout_ok :: "'p econf \<Rightarrow> string \<Rightarrow> 'p expect_response \<Rightarrow> bool" where
  "timeout_ok cf text r \<longleftrightarrow> er_timedout r \<and> er_before r = text \<and> er_after r = [] \<and>
     length (er_match_list r) < expected_matches cf \<and> matches_ok cf (er_match_list r)"

lemma timed_out_ok:
  assumes "einv cf rest st"
  shows "(if rft then timed_out cf t0 rft st' = Inl DeviceError
    else \<exists>r. timed_out cf t0 rft (st\<lparr>tick := n\<rparr>) = Inr r \<and> timeout_ok cf (captured st) r \<and>
      er_match_list r = match_list st)"
  using assms by (simp add: timed_out_def timeout_ok_def einv_def captured_def Let_def)

definition outcome_ok ::
  "'p econf \<Rightarrow> bool \<Rightarrow> string \<Rightarrow> string list \<Rightarrow> nat \<Rightarrow> 'p expect_response result \<Rightarrow> bool" where
  "outcome_ok cf rft text lines n0 res \<longleftrightarrow>
     (rft \<and> res = Inl DeviceError) \<or>
     (\<exists>r k. res = Inr r \<and>
        (response_ok cf (text @ concat (take k lines)) r \<or>
         timeout_ok cf (text @ concat (take k lines)) r) \<and>
        length (er_match_list r) \<le> n0 + (\<Sum>l\<leftarrow>take k lines. chunk_count (windowsize cf) l))"

lemma outcome_ok_timeout:
  assumes "einv cf rest st"
  shows "outcome_ok cf rft (captured st) lines (found_matches st) (timed_out cf t0 rft (st\<lparr>tick := n\<rparr>))"
proof (cases rft)
  case True
  then show ?thesis by (simp add: outcome_ok_def timed_out_def)
next
  case False
  with timed_out_ok [OF assms, of rft t0 st n] obtain r where
    r: "timed_out cf t0 rft (st\<lparr>tick := n\<rparr>) = Inr r" "timeout_ok cf (captured st) r"
      "er_match_list r = match_list st" by auto
  then have "timeout_ok cf (captured st @ concat (take 0 lines)) r"
    "length (er_match_list r) \<le> found_matches st + (\<Sum>l\<leftarrow>take 0 lines. chunk_count (windowsize cf) l)"
    using assms by (simp_all add: einv_def)
  with r(1) show ?thesis unfolding outcome_ok_def by blast
qed

lemma outcome_ok_line:
  assumes "outcome_ok cf rft (text @ l) ls n' res" and "n' \<le> n + chunk_count (windowsize cf) l"
  shows "outcome_ok cf rft text (l # ls) n res"
proof -
  from assms(1) consider "rft" "res = Inl DeviceError" |
    r k where "res = Inr r" "response_ok cf ((text @ l) @ concat (take k ls)) r \<or>
       timeout_ok cf ((text @ l) @ concat (take k ls)) r"
       "length (er_match_list r) \<le> n' + (\<Sum>l\<leftarrow>take k ls. chunk_count (windowsize cf) l)"
    by (auto simp: outcome_ok_def)
  then show ?thesis
  proof cases
    case 1
    then show ?thesis by (simp add: outcome_ok_def)
  next
    case 2
    with assms(2) have "response_ok cf (text @ concat (take (Suc k) (l # ls))) r \<or>
       timeout_ok cf (text @ concat (take (Suc k) (l # ls))) r"
       "length (er_match_list r) \<le> n + (\<Sum>l\<leftarrow>take (Suc k) (l # ls). chunk_count (windowsize cf) l)"
      by simp_all
    with 2(1) show ?thesis unfolding outcome_ok_def by blast
  qed
qed

lemma expect_loop_ok:
  assumes "valid_mode (mode cf)" and "mono (clk cf)" and "0 < windowsize cf"
    and "constructed (ident cf)"
    and "einv cf rest st" and "rest = [] \<or> clk cf (tick st) \<ge> t1"
  shows "outcome_ok cf rft (captured st) (accepted_lines cf evs) (found_matches st)
    (expect_loop cf t0 t1 rft evs st)"
  using assms(5,6)
proof (induction evs arbitrary: st rest)
  case Nil
  then show ?case using outcome_ok_timeout [of cf rest st rft "[]" t0 "tick st"] by simp
next
  case (Cons ev evs)
  let ?st1 = "st\<lparr>tick := Suc (Suc (tick st))\<rparr>"
  have out: "outcome_ok cf rft (captured st) ls (found_matches st) (timed_out cf t0 rft (st\<lparr>tick := n\<rparr>))"
    for n ls using outcome_ok_timeout [OF Cons.prems(1)] .
  show ?case
  proof (cases "clk cf (tick st) \<ge> t1")
    case True
    then show ?thesis using out by simp
  next
    case time: False
    with Cons.prems have i1: "einv cf [] ?st1" "captured ?st1 = captured st"
      by (simp_all add: einv_def window_ok_def captured_def)
    show ?thesis
    proof (cases ev)
      case (Msg port line)
      obtain b where b: "accept (\<lambda>p l. search cf p l \<noteq> None) (ident cf) (int port) line (expect_type cf) = Inr b"
        using accept_total [OF assms(4)] by blast
      show ?thesis
      proof (cases b)
        case False
        with Msg b time Cons.IH [OF i1(1)] i1(2) show ?thesis by simp
      next
        case True
        obtain cs where cs: "line_chunks (windowsize cf) line = Inr cs" "concat cs = line"
          "length cs = chunk_count (windowsize cf) line"
          using line_chunks_ok [OF assms(3)] by blast
        let ?st2 = "?st1\<lparr>captured_lines := captured_lines ?st1 @ [line]\<rparr>"
        have i2: "einv cf (concat cs) ?st2"
          using i1(1) cs(2) unfolding einv_def window_ok_def captured_def by auto
        have c2: "captured ?st2 = captured st @ line" by (simp add: captured_def)
        from chunk_loop_ok [OF assms(1) i2 assms(2), of t0 t1] obtain x where
          x: "chunk_loop cf t0 t1 cs ?st2 = Inr x" "case x of
              Inr r \<Rightarrow> response_ok cf (captured ?st2) r \<and>
                length (er_match_list r) \<le> found_matches ?st2 + length cs
            | Inl st' \<Rightarrow> captured st' = captured ?st2 \<and> tick ?st2 \<le> tick st' \<and>
                found_matches st' \<le> found_matches ?st2 + length cs \<and>
                (\<exists>rest. einv cf rest st' \<and> (rest = [] \<or> clk cf (tick st') \<ge> t1))" by blast
        have e: "expect_loop cf t0 t1 rft (ev # evs) st =
          (case x of Inr resp \<Rightarrow> Inr resp | Inl st2 \<Rightarrow> expect_loop cf t0 t1 rft evs st2)"
          using time Msg b True cs(1) x(1) by simp
        have a: "accepted_lines cf (ev # evs) = line # accepted_lines cf evs"
          using Msg b True by simp
        show ?thesis
        proof (cases x)
          case (Inl st')
          with x(2) obtain rest' where "einv cf rest' st'" "rest' = [] \<or> clk cf (tick st') \<ge> t1"
            "captured st' = captured st @ line" "found_matches st' \<le> found_matches st + length cs"
            using c2 by auto
          from Cons.IH [OF this(1,2)] this(3,4) cs(3) show ?thesis
            unfolding e a Inl by (auto intro: outcome_ok_line)
        next
          case (Inr r)
          with x(2) c2 have "response_ok cf (captured st @ line) r"
            "length (er_match_list r) \<le> found_matches st + chunk_count (windowsize cf) line"
            using cs(3) by simp_all
          then have "outcome_ok cf rft (captured st @ line) (accepted_lines cf evs)
              (found_matches st + chunk_count (windowsize cf) line) (Inr r)"
            unfolding outcome_ok_def by (intro disjI2 exI [of _ r] exI [of _ 0]) simp
          then show ?thesis unfolding e a Inr by (simp add: outcome_ok_line)
        qed
      qed
    next
      case NoMsg
      with time Cons.IH [OF i1(1)] i1(2) show ?thesis by simp
    next
      case QueueFailed
      with time out show ?thesis by simp
    qed
  qed
qed

lemma expect_run_ok:
  assumes "valid_mode (mode cf)" and "mono (clk cf)" and "0 < windowsize cf"
    and "constructed (ident cf)" and "patterns cf \<noteq> []"
  shows "outcome_ok cf rft [] (accepted_lines cf events) 0 (expect_run cf timeout rft events)"
proof -
  let ?st = "\<lparr>captured_index = 0, captured_lines = [], found_matches = 0, match_list = [],
    window = [], tick = 1\<rparr>"
  have "einv cf [] ?st"
    using assms(5) by (simp add: einv_def window_ok_def captured_def expected_matches_def matches_ok_def)
  from expect_loop_ok [OF assms(1-4) this, of "clk cf 0 + timeout" rft events "clk cf 0"]
  show ?thesis by (simp add: expect_run_def captured_def Let_def)
qed

section \<open>Properties of expect\<close>

text \<open>The arguments \<open>check_expect_args\<close> lets pass, with a positive window and a clock that
  does not go back.\<close>

definition expect_args_ok :: "'p econf \<Rightarrow> int \<Rightarrow> bool" where
  "expect_args_ok cf timeout \<longleftrightarrow>
     check_expect_args (Arg (patterns cf)) (Arg timeout) (Arg (windowsize cf))
       (Arg (expect_type cf)) (Arg (mode cf)) = Inr () \<and>
     0 < windowsize cf \<and> mono (clk cf) \<and> constructed (ident cf)"

lemma expect_args_outcome:
  "expect_args_ok cf timeout \<Longrightarrow>
   outcome_ok cf rft [] (accepted_lines cf events) 0 (expect_run cf timeout rft events)"
  by (rule expect_run_ok)
    (auto simp: expect_args_ok_def check_expect_args_def valid_mode_def split: if_splits)

text \<open>C3. Expect returns a response whenever it may not raise for a time-out. Its two texts
  make up the lines taken from the queue so far, in order; a response in time ends with a match
  whose text is the beginning of the second, and a timed-out one has everything in the first.\<close>

theorem expect_text:
  assumes "expect_args_ok cf timeout"
  shows "\<exists>r k. expect_run cf timeout False events = Inr r \<and>
    er_before r @ er_after r = concat (take k (accepted_lines cf events)) \<and>
    (if er_timedout r then er_after r = []
     else \<exists>m. er_match r = Some m \<and> take (length (m_text m)) (er_after r) = m_text m)"
  using expect_args_outcome [OF assms, of False events]
  unfolding outcome_ok_def response_ok_def timeout_ok_def by fastforce

text \<open>C8. The matches of a response keep to the mode: in "sequential" they are the first
  patterns in their order, in "all" they are different patterns; and a response in time has
  matched as many as the mode asks for (one in "any", else the number of patterns), so in
  sequential mode exactly the given list, while a timed-out one has matched fewer.\<close>

theorem expect_mode:
  assumes "expect_args_ok cf timeout" and "expect_run cf timeout rft events = Inr r"
  shows "set (map m_re (er_match_list r)) \<subseteq> set (patterns cf) \<and>
    (mode cf = ''sequential'' \<longrightarrow>
       map m_re (er_match_list r) = take (length (er_match_list r)) (patterns cf)) \<and>
    (mode cf = ''all'' \<longrightarrow> distinct (map m_re (er_match_list r))) \<and>
    (er_timedout r \<longleftrightarrow> length (er_match_list r) < expected_matches cf) \<and>
    length (er_match_list r) \<le> expected_matches cf"
  using expect_args_outcome [OF assms(1), of rft events] assms(2)
  unfolding outcome_ok_def response_ok_def timeout_ok_def matches_ok_def by fastforce

text \<open>In mode "all" a list with a repeated pattern can never be completed: the second
  occurrence counts as matched already and is not searched for, yet one match per entry is
  expected, so expect always times out.\<close>

theorem expect_all_repeated:
  assumes "expect_args_ok cf timeout" and "mode cf = ''all''" and "\<not> distinct (patterns cf)"
    and "expect_run cf timeout rft events = Inr r"
  shows "er_timedout r"
proof -
  have "set (map m_re (er_match_list r)) \<subseteq> set (patterns cf)" "distinct (map m_re (er_match_list r))"
    using expect_args_outcome [OF assms(1), of rft events] assms(2,4)
    unfolding outcome_ok_def response_ok_def timeout_ok_def matches_ok_def by auto
  then have "length (er_match_list r) \<le> card (set (patterns cf))"
    by (metis card_mono distinct_card length_map List.finite_set)
  also have "\<dots> < length (patterns cf)"
    using assms(3) card_distinct card_length nat_less_le by metis
  finally show ?thesis
    using expect_args_outcome [OF assms(1), of rft events] assms(2,4)
    unfolding outcome_ok_def response_ok_def timeout_ok_def expected_matches_def by auto
qed

lemma chunk_count_short:
  assumes "0 < n" and "length l \<le> nat n"
  shows "chunk_count n l \<le> 1"
proof -
  have "length l + nat n - 1 < 2 * nat n" using assms by simp
  then have "chunk_count n l < 2"
    unfolding chunk_count_def by (rule less_mult_imp_div_less)
  then show ?thesis by simp
qed

text \<open>One piece of output yields at most one match: when no line is longer than the search
  window, a response cannot have more matches than lines arrived. So two patterns that stand
  in the same line are not both found unless a further line follows.\<close>

theorem expect_one_match_per_line:
  assumes "expect_args_ok cf timeout" and "expect_run cf timeout rft events = Inr r"
    and "\<forall>l\<in>set (accepted_lines cf events). length l \<le> nat (windowsize cf)"
  shows "length (er_match_list r) \<le> length (accepted_lines cf events)"
proof -
  obtain k where k: "length (er_match_list r) \<le>
      (\<Sum>l\<leftarrow>take k (accepted_lines cf events). chunk_count (windowsize cf) l)"
    using expect_args_outcome [OF assms(1), of rft events] assms(2)
    unfolding outcome_ok_def by auto
  also have "\<dots> \<le> (\<Sum>l\<leftarrow>take k (accepted_lines cf events). 1)"
    using assms(1,3) by (intro sum_list_mono chunk_count_short)
      (auto simp: expect_args_ok_def dest: in_set_takeD)
  also have "\<dots> \<le> length (accepted_lines cf events)"
    by (simp add: sum_list_triv)
  finally show ?thesis .
qed

section \<open>Witnesses\<close>

fun find_at :: "string \<Rightarrow> string \<Rightarrow> nat \<Rightarrow> (nat \<times> nat) option" where
  "find_at p [] n = (if p = [] then Some (n, n) else None)"
| "find_at p (c # cs) n =
     (if take (length p) (c # cs) = p then Some (n, n + length p) else find_at p cs (Suc n))"

definition demo :: "string list \<Rightarrow> string \<Rightarrow> string econf" where
  "demo ps md = \<lparr>search = (\<lambda>p w. find_at p w 0), pattern = (\<lambda>p. p), ident = AllUnknownIdentifier,
     clk = int, patterns = ps, windowsize = 2000, expect_type = ''all'', mode = md\<rparr>"

lemma demo_ok: "ps \<noteq> [] \<Longrightarrow> valid_mode md \<Longrightarrow> expect_args_ok (demo ps md) 100"
  by (auto simp: expect_args_ok_def demo_def check_expect_args_def valid_mode_def mono_def)

theorem expect_text_witness:
  "\<exists>r k. expect_run (demo [''ok''] ''any'') 100 False [Msg 0 ''say '', Msg 0 ''ok now''] = Inr r \<and>
    er_before r @ er_after r = concat (take k [''say '', ''ok now''])"
  using expect_text [OF demo_ok, of "[''ok'']" "''any''" "[Msg 0 ''say '', Msg 0 ''ok now'']"]
  by (auto simp: valid_mode_def demo_def)

lemma demo_returns:
  "ps \<noteq> [] \<Longrightarrow> valid_mode md \<Longrightarrow> \<exists>r. expect_run (demo ps md) 100 False events = Inr r"
  using expect_args_outcome [OF demo_ok, of ps md False events] by (auto simp: outcome_ok_def)

theorem expect_mode_witness:
  "\<exists>r. expect_run (demo [''a'', ''b''] ''sequential'') 100 False [Msg 0 ''a'', Msg 0 ''b''] = Inr r \<and>
     map m_re (er_match_list r) = take (length (er_match_list r)) [''a'', ''b'']"
proof -
  obtain r where r: "expect_run (demo [''a'', ''b''] ''sequential'') 100 False
      [Msg 0 ''a'', Msg 0 ''b''] = Inr r"
    using demo_returns by (metis insertI1 insertI2 list.distinct(1) valid_mode_def)
  from expect_mode [OF demo_ok r] r show ?thesis by (simp add: valid_mode_def demo_def)
qed

theorem expect_all_repeated_witness:
  "\<exists>r. expect_run (demo [''a'', ''a''] ''all'') 100 False [Msg 0 ''a'', Msg 0 ''a''] = Inr r \<and>
     er_timedout r"
proof -
  obtain r where r: "expect_run (demo [''a'', ''a''] ''all'') 100 False
      [Msg 0 ''a'', Msg 0 ''a''] = Inr r"
    using demo_returns by (metis insertI1 list.distinct(1) valid_mode_def)
  from expect_all_repeated [OF demo_ok _ _ r] r show ?thesis by (simp add: valid_mode_def demo_def)
qed

theorem expect_one_match_per_line_witness:
  "\<exists>r. expect_run (demo [''a'', ''b''] ''sequential'') 100 False [Msg 0 ''a b''] = Inr r \<and>
     length (er_match_list r) \<le> 1"
proof -
  obtain r where r: "expect_run (demo [''a'', ''b''] ''sequential'') 100 False [Msg 0 ''a b''] = Inr r"
    using demo_returns by (metis insertI1 insertI2 list.distinct(1) valid_mode_def)
  from expect_one_match_per_line [OF demo_ok r] r show ?thesis
    by (simp add: valid_mode_def demo_def)
qed

end
