(* ===== verification/Switchboard_Process.thy ===== *)
theory Switchboard_Process
  imports Retry
begin

text \<open>
  \<open>gazoo_device/switchboard/switchboard_process.py\<close>: the life of a child process seen from the
  parent (start, stop, terminate, commands) and the loop the child runs. An operation returns
  its result with the new state, since the state also matters after an exception. Process
  identifiers are numbers; \<open>live\<close> lists the children that run, owned or not.
\<close>

section \<open>Queues\<close>

text \<open>
  \<open>get_message\<close> and \<open>put_message\<close>: \<open>None\<close> stands for an object that is no queue. The
  outcome of the queue operation itself is a parameter: \<open>socket.error\<close> is an \<open>IOError\<close>.
\<close>

definition get_message :: "'m result option \<Rightarrow> bool \<Rightarrow> 'm option result" where
  "get_message queue_get is_empty =
     (case queue_get of
        None \<Rightarrow> Inl ValueError
      | Some (Inr m) \<Rightarrow> Inr (if is_empty then None else Some m)
      | Some (Inl e) \<Rightarrow> if e = IOError \<or> e = ValueError then Inr None else Inl e)"

definition put_message :: "unit result option \<Rightarrow> unit result" where
  "put_message queue_put =
     (case queue_put of
        None \<Rightarrow> Inl ValueError
      | Some (Inr _) \<Rightarrow> Inr ()
      | Some (Inl e) \<Rightarrow> if e = IOError then Inr () else Inl e)"

section \<open>The parent's side\<close>

record 'd sproc =
  valid_commands :: "string list"
  sp_commands :: "(string \<times> 'd) list"
  sp_process :: "nat option"
  start_event :: bool
  stop_event :: bool
  terminate_event :: bool
  live :: "nat list"
  next_pid :: nat

text \<open>
  How the child and the operating system behave during one operation: whether the start event
  is set in time, whether setting the terminate event raises \<open>IOError\<close>, whether the child
  has exited after \<open>join\<close>, and whether it dies of a termination signal.
\<close>

record child_env =
  starts_in_time :: bool
  set_raises :: bool
  exits :: bool
  dies :: bool

definition is_started :: "'d sproc \<Rightarrow> bool" where
  "is_started st \<longleftrightarrow> sp_process st \<noteq> None"

definition is_running :: "'d sproc \<Rightarrow> bool" where
  "is_running st = (case sp_process st of None \<Rightarrow> False | Some pid \<Rightarrow> pid \<in> set (live st))"

definition wait_for_start :: "child_env \<Rightarrow> 'd sproc \<Rightarrow> unit result \<times> 'd sproc" where
  "wait_for_start env st =
     (if starts_in_time env then (Inr (), st\<lparr>start_event := True\<rparr>) else (Inl RuntimeError, st))"

definition start :: "child_env \<Rightarrow> bool \<Rightarrow> 'd sproc \<Rightarrow> unit result \<times> 'd sproc" where
  "start env wait st =
     (if \<not> is_started st then
        (let pid = next_pid st;
             st1 = st\<lparr>start_event := False, stop_event := False,
                      live := live st @ [pid], next_pid := Suc pid\<rparr>;
             (r, st2) = (if wait then wait_for_start env st1 else (Inr (), st1))
         in case r of
              Inl e \<Rightarrow> (Inl e, st2)
            | Inr _ \<Rightarrow> (Inr (), st2\<lparr>sp_process := Some pid\<rparr>))
      else (Inl RuntimeError, st))"

definition terminate :: "child_env \<Rightarrow> 'd sproc \<Rightarrow> 'd sproc" where
  "terminate env st =
     (case sp_process st of
        None \<Rightarrow> st
      | Some pid \<Rightarrow> st\<lparr>live := (if dies env then removeAll pid (live st) else live st),
                      sp_process := None\<rparr>)"

text \<open>
  \<open>stop\<close>: the wait for the stop event raises only what it catches itself, so it has no effect.
\<close>

definition stop :: "child_env \<Rightarrow> 'd sproc \<Rightarrow> unit result \<times> 'd sproc" where
  "stop env st =
     (case sp_process st of
        None \<Rightarrow> (Inl RuntimeError, st)
      | Some pid \<Rightarrow>
          (let st1 = (if pid \<in> set (live st) \<and> \<not> set_raises env
                      then st\<lparr>terminate_event := True\<rparr> else st);
               st2 = (if exits env then st1\<lparr>live := removeAll pid (live st1), terminate_event := False,
                                            stop_event := True\<rparr> else st1)
           in if pid \<in> set (live st2) then (Inr (), terminate env st2)
              else (Inr (), st2\<lparr>sp_process := None\<rparr>)))"

definition is_command_consumed :: "'d sproc \<Rightarrow> bool" where
  "is_command_consumed st \<longleftrightarrow> sp_commands st = []"

text \<open>
  \<open>send_command\<close>; \<open>child\<close> is what the child does to the state between two polls, and the
  remaining parameters are those of the retry (time-out 6 s, poll every 0.1 s).
\<close>

definition consumption_poll :: "('d sproc \<Rightarrow> 'd sproc) \<Rightarrow> (nat \<Rightarrow> int) \<Rightarrow> ('d sproc, bool) rconf" where
  "consumption_poll child clk =
     \<lparr>rc_func = (\<lambda>st. (Inr (is_command_consumed st), child st)), rc_is_successful = is_true,
      rc_timeout = 6000000, rc_interval = 100000, rc_reraise = True,
      rc_exc_type = CommunicationTimeoutError, rc_has_name = True,
      rc_repr = (\<lambda>_. ''False''), rc_clock = clk\<rparr>"

definition send_command ::
  "child_env \<Rightarrow> ('d sproc \<Rightarrow> 'd sproc) \<Rightarrow> (nat \<Rightarrow> int) \<Rightarrow> string \<Rightarrow> 'd \<Rightarrow> bool \<Rightarrow> 'd sproc \<Rightarrow>
   unit result \<times> 'd sproc" where
  "send_command env child clk command data wait_for_command_consumption st =
     (if command \<notin> set (valid_commands st) then (Inl ValueError, st)
      else
        let st1 = st\<lparr>sp_commands := sp_commands st @ [(command, data)]\<rparr>
        in if wait_for_command_consumption then
             (let r = retry (consumption_poll child clk) st1
              in case re_result r of
                   Inr _ \<Rightarrow> (Inr (), re_state r)
                 | Inl e \<Rightarrow>
                     if e = CommunicationTimeoutError then
                       (case stop env (re_state r) of
                          (Inl e', st2) \<Rightarrow> (Inl e', st2)
                        | (Inr _, st2) \<Rightarrow> (Inl ProcessCommunicationError, st2))
                     else (Inl e, re_state r))
           else (Inr (), st1))"

section \<open>The child's side\<close>

text \<open>
  The hooks of a process class over its own state, and the loop: \<open>readings\<close> are the values of
  \<open>_parent_is_alive\<close> and of the terminate event at each round; their end means that the parent
  is gone.
\<close>

record 's hooks =
  pre_run :: "'s \<Rightarrow> bool result \<times> 's"
  work :: "'s \<Rightarrow> bool result \<times> 's"
  post_run :: "'s \<Rightarrow> unit result \<times> 's"

definition parent_is_alive :: "bool option \<Rightarrow> bool" where
  "parent_is_alive is_zombie = (case is_zombie of None \<Rightarrow> False | Some z \<Rightarrow> \<not> z)"

fun work_loop ::
  "'s hooks \<Rightarrow> (bool option \<times> bool result) list \<Rightarrow> bool \<Rightarrow> 's \<Rightarrow> unit result \<times> 's" where
  "work_loop h [] running s = (Inr (), s)"
| "work_loop h ((parent, terminate_set) # readings) running s =
     (if \<not> (running \<and> parent_is_alive parent) then (Inr (), s)
      else case terminate_set of
          Inl e \<Rightarrow> if e = IOError then (Inr (), s) else (Inl e, s)
        | Inr True \<Rightarrow> (Inr (), s)
        | Inr False \<Rightarrow>
            (case work h s of
               (Inl e, s') \<Rightarrow> (Inl e, s')
             | (Inr running', s') \<Rightarrow> work_loop h readings running' s'))"

text \<open>
  \<open>_child_process_wrapper\<close>: an \<open>EOFError\<close> is the end of the parent, every other exception is
  reported through the exception queue. The result is what was reported, with the outcome of
  the post-run hook.
\<close>

definition child_process_wrapper :: "unit result \<Rightarrow> exn option" where
  "child_process_wrapper r =
     (case r of Inr _ \<Rightarrow> None | Inl e \<Rightarrow> if e = EOFError then None else Some e)"

definition process_loop ::
  "'s hooks \<Rightarrow> (bool option \<times> bool result) list \<Rightarrow> 's \<Rightarrow> exn option \<times> unit result \<times> 's" where
  "process_loop h readings s =
     (let (r, s1) = (case pre_run h s of
            (Inl e, s') \<Rightarrow> (Inl e, s')
          | (Inr running, s') \<Rightarrow> work_loop h readings running s');
          (post, s2) = post_run h s1
      in (child_process_wrapper r, post, s2))"

section \<open>The life of the child\<close>

datatype sp_op = Start child_env bool | Stop child_env | Terminate child_env

fun run_op :: "sp_op \<Rightarrow> 'd sproc \<Rightarrow> 'd sproc" where
  "run_op (Start env w) st = snd (start env w st)"
| "run_op (Stop env) st = snd (stop env st)"
| "run_op (Terminate env) st = terminate env st"

text \<open>A child that starts in time, and that exits when asked to or dies of the signal.\<close>

fun orderly :: "sp_op \<Rightarrow> bool" where
  "orderly (Start env w) = (w \<longrightarrow> starts_in_time env)"
| "orderly (Stop env) = (exits env \<or> dies env)"
| "orderly (Terminate env) = dies env"

definition owned :: "'d sproc \<Rightarrow> bool" where
  "owned st \<longleftrightarrow> set (live st) \<subseteq> set_option (sp_process st)"

lemma removeAll_single: "set xs \<subseteq> {x} \<Longrightarrow> removeAll x xs = []"
  by (induction xs) auto

lemma subset_single: "set xs \<subseteq> {x} \<Longrightarrow> x \<notin> set xs \<Longrightarrow> xs = []"
  by (cases xs) auto

lemma owned_start: "owned st \<Longrightarrow> orderly (Start env w) \<Longrightarrow> owned (snd (start env w st))"
  by (auto simp: owned_def start_def is_started_def wait_for_start_def Let_def)

lemma owned_terminate: "owned st \<Longrightarrow> dies env \<Longrightarrow> owned (terminate env st)"
  by (auto simp: owned_def terminate_def split: option.splits)

lemma owned_stop: "owned st \<Longrightarrow> orderly (Stop env) \<Longrightarrow> owned (snd (stop env st))"
  by (cases "sp_process st")
    (auto simp: owned_def stop_def terminate_def Let_def removeAll_single dest: subset_single)

lemma owned_run_op: "owned st \<Longrightarrow> orderly op \<Longrightarrow> owned (run_op op st)"
  by (cases op) (simp_all add: owned_start owned_stop owned_terminate del: orderly.simps(1,2))

lemma stop_result: "fst (stop env st) = (if is_started st then Inr () else Inl RuntimeError) \<and>
   \<not> is_started (snd (stop env st))"
  by (auto simp: stop_def is_started_def terminate_def Let_def split: option.splits)

text \<open>C6. Whatever the order of starts, stops and terminations, as long as children start in
  time and obey, no child is ever left running without being owned: the only live child is the
  one the object refers to. And stopping succeeds exactly when a child was started, after which
  none is, so that it can be started again.\<close>

theorem process_lifecycle:
  assumes "live st = []" and "list_all orderly ops"
  shows "set (live (fold run_op ops st)) \<subseteq> set_option (sp_process (fold run_op ops st)) \<and>
    fst (stop env (fold run_op ops st)) =
      (if is_started (fold run_op ops st) then Inr () else Inl RuntimeError) \<and>
    fst (start env2 False (snd (stop env (fold run_op ops st)))) = Inr ()"
proof -
  have "owned st \<Longrightarrow> owned (fold run_op ops st)" for st :: "'a sproc"
    using assms(2) by (induction ops arbitrary: st) (auto intro: owned_run_op)
  then have "owned (fold run_op ops st)" using assms(1) by (simp add: owned_def)
  then show ?thesis
    using stop_result [of env "fold run_op ops st"]
    by (simp add: owned_def start_def Let_def)
qed

definition fresh_sproc :: "string list \<Rightarrow> 'd sproc" where
  "fresh_sproc cmds = \<lparr>valid_commands = cmds, sp_commands = [], sp_process = None, start_event = False,
     stop_event = False, terminate_event = False, live = [], next_pid = 1\<rparr>"

definition good_env :: child_env where
  "good_env = \<lparr>starts_in_time = True, set_raises = False, exits = True, dies = True\<rparr>"

theorem process_lifecycle_witness:
  "set (live (fold run_op [Start good_env True, Stop good_env, Start good_env False]
      (fresh_sproc [] :: unit sproc))) \<subseteq>
   set_option (sp_process (fold run_op [Start good_env True, Stop good_env, Start good_env False]
      (fresh_sproc [] :: unit sproc)))"
  by (rule process_lifecycle [THEN conjunct1]) (simp_all add: fresh_sproc_def good_env_def)

text \<open>When the child does not set its start event in time, start raises, but the child
  keeps running and the object does not refer to it: it counts as not started, stopping it
  raises, and starting again makes a second child beside the first.\<close>

theorem start_timeout_leaks_child:
  assumes "\<not> is_started st" and "\<not> starts_in_time env"
  shows "let st1 = snd (start env True st) in
    fst (start env True st) = Inl RuntimeError \<and> next_pid st \<in> set (live st1) \<and>
    \<not> is_started st1 \<and> fst (stop env2 st1) = Inl RuntimeError \<and>
    fst (start env2 False st1) = Inr () \<and>
    {next_pid st, Suc (next_pid st)} \<subseteq> set (live (snd (start env2 False st1)))"
  using assms
  by (auto simp: start_def wait_for_start_def stop_def is_started_def Let_def)

theorem start_timeout_leaks_child_witness:
  "live (snd (start (good_env\<lparr>starts_in_time := False\<rparr>) True (fresh_sproc [] :: unit sproc))) = [1] \<and>
   \<not> is_started (snd (start (good_env\<lparr>starts_in_time := False\<rparr>) True (fresh_sproc [] :: unit sproc)))"
  using start_timeout_leaks_child [of "fresh_sproc [] :: unit sproc" "good_env\<lparr>starts_in_time := False\<rparr>"]
  by (simp add: fresh_sproc_def start_def is_started_def wait_for_start_def Let_def)

section \<open>Commands\<close>

lemma state_after_process:
  assumes "\<forall>s. sp_process (child s) = sp_process s"
  shows "sp_process (state_after (consumption_poll child clk) k st) = sp_process st"
  using assms by (induction k) (simp_all add: state_after_def consumption_poll_def)

text \<open>Sending a command and waiting for it ends in one of two ways, whatever the child does
  with the queue meanwhile: it returns, and then the queue was seen empty at a poll; or no poll
  saw it empty, the process was stopped and \<open>ProcessCommunicationError\<close> is raised.\<close>

theorem send_command_consumed:
  assumes "command \<in> set (valid_commands st)" and "is_started st"
    and "\<forall>s. sp_process (child s) = sp_process s"
    and "clk 0 \<le> clk 1" and "\<forall>n. clk n + 100000 \<le> clk (n + 2)"
  shows "\<exists>k. let (r, st') = send_command env child clk command data True st;
       seen = (\<lambda>j. is_command_consumed
         ((child ^^ j) (st\<lparr>sp_commands := sp_commands st @ [(command, data)]\<rparr>)))
     in r = Inr () \<and> (\<exists>j<k. seen j) \<or>
        r = Inl ProcessCommunicationError \<and> \<not> is_started st' \<and> (\<forall>j<k. \<not> seen j)"
proof -
  let ?cf = "consumption_poll child clk"
  let ?st1 = "st\<lparr>sp_commands := sp_commands st @ [(command, data)]\<rparr>"
  have after: "state_after ?cf j s = (child ^^ j) s" for j s
    by (simp add: state_after_def consumption_poll_def)
  have res: "call_result ?cf j s = Inr (is_command_consumed ((child ^^ j) s))" for j s
    unfolding call_result_def after by (simp add: consumption_poll_def)
  have dec: "decisive ?cf (Inr b) = b" "timeout_exn ?cf = CommunicationTimeoutError" for b
    by (simp_all add: decisive_def timeout_exn_def consumption_poll_def is_true_def)
  have "clock_ok ?cf" using assms(4,5) by (simp add: clock_ok_def consumption_poll_def)
  from retry_outcome [OF this, of ?st1] obtain k where
    k: "ends_after ?cf k ?st1 (re_result (retry ?cf ?st1)) (re_state (retry ?cf ?st1))" by blast
  have p: "is_started (re_state (retry ?cf ?st1))"
    using k state_after_process [OF assms(3), of clk k ?st1] assms(2)
    by (simp add: ends_after_def is_started_def)
  from k consider
    (timeout) "\<forall>j<k. \<not> is_command_consumed ((child ^^ j) ?st1)"
      "re_result (retry ?cf ?st1) = Inl CommunicationTimeoutError" |
    (seen) i where "k = Suc i" "is_command_consumed ((child ^^ i) ?st1)"
      "re_result (retry ?cf ?st1) = Inr True"
    by (auto simp: ends_after_def res dec)
  then show ?thesis
  proof cases
    case timeout
    obtain st2 where s: "stop env (re_state (retry ?cf ?st1)) = (Inr (), st2)" "\<not> is_started st2"
      using stop_result [of env "re_state (retry ?cf ?st1)"] p by (metis prod.collapse)
    have "send_command env child clk command data True st = (Inl ProcessCommunicationError, st2)"
      using assms(1) timeout(2) s by (simp add: send_command_def Let_def)
    with timeout(1) s(2) show ?thesis by (intro exI [of _ k]) simp
  next
    case seen
    have "fst (send_command env child clk command data True st) = Inr ()"
      using assms(1) seen(3) by (simp add: send_command_def Let_def)
    with seen(1,2) show ?thesis
      by (intro exI [of _ k]) (auto simp: split_beta)
  qed
qed

theorem send_command_consumed_witness:
  "\<exists>k. let (r, st') = send_command good_env (\<lambda>s. s\<lparr>sp_commands := []\<rparr>) (\<lambda>n. 100000 * int n) ''X'' ()
        True ((fresh_sproc [''X''])\<lparr>sp_process := Some 1\<rparr>);
       seen = (\<lambda>j. is_command_consumed (((\<lambda>s. s\<lparr>sp_commands := []\<rparr>) ^^ j)
         ((fresh_sproc [''X''])\<lparr>sp_process := Some 1, sp_commands := [(''X'', ())]\<rparr>)))
     in r = Inr () \<and> (\<exists>j<k. seen j) \<or>
        r = Inl ProcessCommunicationError \<and> \<not> is_started st' \<and> (\<forall>j<k. \<not> seen j)"
  using send_command_consumed [of "''X''" "(fresh_sproc [''X''])\<lparr>sp_process := Some 1\<rparr>"
      "\<lambda>s. s\<lparr>sp_commands := []\<rparr>" "\<lambda>n. 100000 * int n" good_env "()"]
  by (simp add: fresh_sproc_def is_started_def)

end
