(* ===== verification/Ftdi_Buttons.thy ===== *)
theory Ftdi_Buttons
  imports Gdm_Prelude "HOL-Library.Word"
begin

unbundle bit_operations_syntax

text \<open>
  \<open>gazoo_device/switchboard/ftdi_buttons.py\<close>: buttons pressed through the pins of an FTDI chip. A
  bit-bang device has eight pins: its direction and its port are bytes. The record holds the
  buttons with their interface and pin, which of them are down, and the devices opened by
  interface; \<open>opens\<close> tells how opening the device of an interface ends. Times are in
  milliseconds; sleeping changes nothing here.
\<close>

record bitbang =
  bb_direction :: "8 word"
  bb_port :: "8 word"

record ftdi =
  fb_map :: "(string \<times> nat \<times> nat) list"
  fb_down :: "(string \<times> bool) list"
  fb_polarity :: bool
  fb_devices :: "(nat \<times> bitbang) list"
  fb_init :: bool

type_synonym 'a ftdi_op = "(ftdi, 'a) stateful"

definition pin_mask :: "nat \<Rightarrow> 8 word" where
  "pin_mask pin = push_bit pin 1"

text \<open>\<open>bitbang_device_init\<close>: one device for each interface, with the pins of its buttons as outputs.\<close>

primrec init_buttons :: "(nat \<Rightarrow> unit result) \<Rightarrow> (string \<times> nat \<times> nat) list \<Rightarrow> unit ftdi_op" where
  "init_buttons opens [] st = (Inr (), st)"
| "init_buttons opens (e # es) st =
     (let (button, interface, pin) = e in
      case map_of (fb_devices st) interface of
        Some dev \<Rightarrow>
          init_buttons opens es (st\<lparr>fb_devices :=
              AList.update interface (dev\<lparr>bb_direction := bb_direction dev OR pin_mask pin\<rparr>) (fb_devices st),
            fb_down := AList.update button False (fb_down st)\<rparr>)
      | None \<Rightarrow>
          (case opens interface of
             Inl e \<Rightarrow> (Inl e, st)
           | Inr _ \<Rightarrow>
               init_buttons opens es (st\<lparr>fb_devices :=
                   AList.update interface \<lparr>bb_direction = pin_mask pin, bb_port = (if fb_polarity st then 0 else 255)\<rparr> (fb_devices st),
                 fb_down := AList.update button False (fb_down st)\<rparr>)))"

definition bitbang_device_init :: "(nat \<Rightarrow> unit result) \<Rightarrow> unit ftdi_op" where
  "bitbang_device_init opens st =
     bindS (init_buttons opens (fb_map st)) (\<lambda>_ st. (Inr (), st\<lparr>fb_init := True\<rparr>)) st"

definition ensure_init :: "(nat \<Rightarrow> unit result) \<Rightarrow> unit ftdi_op" where
  "ensure_init opens st = (if fb_init st then (Inr (), st) else bitbang_device_init opens st)"

definition clear_pin :: "nat \<Rightarrow> bitbang \<Rightarrow> bitbang" where
  "clear_pin pin bb = bb\<lparr>bb_port := bb_port bb AND (255 XOR pin_mask pin)\<rparr>"

definition set_pin :: "nat \<Rightarrow> bitbang \<Rightarrow> bitbang" where
  "set_pin pin bb = bb\<lparr>bb_port := bb_port bb OR pin_mask pin\<rparr>"

definition is_down :: "ftdi \<Rightarrow> string \<Rightarrow> bool" where
  "is_down st button \<longleftrightarrow> map_of (fb_down st) button = Some True"

definition toggle_button :: "string \<Rightarrow> bool \<Rightarrow> unit ftdi_op" where
  "toggle_button button active_high st =
     (case map_of (fb_map st) button of
        None \<Rightarrow> (Inl KeyError, st)
      | Some (interface, pin) \<Rightarrow>
          (case map_of (fb_devices st) interface of
             None \<Rightarrow> (Inl KeyError, st)
           | Some bb \<Rightarrow>
               let down = is_down st button;
                   bb' = (if down = active_high then clear_pin pin bb else set_pin pin bb)
               in (Inr (), st\<lparr>fb_devices := AList.update interface bb' (fb_devices st),
                              fb_down := AList.update button (\<not> down) (fb_down st)\<rparr>)))"

definition gpio :: "(nat \<Rightarrow> unit result) \<Rightarrow> string \<Rightarrow> int \<Rightarrow> bool \<Rightarrow> unit ftdi_op" where
  "gpio opens button duration active_high =
     bindS (ensure_init opens) (\<lambda>_.
     bindS (toggle_button button active_high) (\<lambda>_.
       if 0 \<le> duration then toggle_button button active_high else returnS ()))"

definition is_valid :: "ftdi \<Rightarrow> string \<Rightarrow> bool" where
  "is_valid st button \<longleftrightarrow> button \<in> set (map fst (fb_map st))"

definition valid_buttons :: "ftdi \<Rightarrow> string list" where
  "valid_buttons st = map fst (fb_map st)"

definition press :: "(nat \<Rightarrow> unit result) \<Rightarrow> string \<Rightarrow> int \<Rightarrow> unit ftdi_op" where
  "press opens button wait =
     bindS (ensure_init opens) (\<lambda>_ st.
       if \<not> is_valid st button then (Inl ValueError, st)
       else if wait < 0 then (Inl ValueError, st)
       else if \<not> is_down st button then gpio opens button (- 1) (fb_polarity st) st
       else (Inr (), st))"

definition click :: "(nat \<Rightarrow> unit result) \<Rightarrow> string \<Rightarrow> int \<Rightarrow> unit ftdi_op" where
  "click opens button duration =
     bindS (ensure_init opens) (\<lambda>_ st.
       if \<not> is_valid st button then (Inl ValueError, st)
       else if duration \<le> 0 then (Inl ValueError, st)
       else gpio opens button duration (fb_polarity st) st)"

definition release :: "(nat \<Rightarrow> unit result) \<Rightarrow> string \<Rightarrow> unit ftdi_op" where
  "release opens button =
     bindS (ensure_init opens) (\<lambda>_ st.
       if \<not> is_valid st button then (Inl ValueError, st)
       else if is_down st button then gpio opens button (- 1) (fb_polarity st) st
       else (Inr (), st))"

primrec release_all :: "(nat \<Rightarrow> unit result) \<Rightarrow> string list \<Rightarrow> unit ftdi_op" where
  "release_all opens [] = returnS ()"
| "release_all opens (b # bs) = bindS (release opens b) (\<lambda>_. release_all opens bs)"

definition close_buttons :: "(nat \<Rightarrow> unit result) \<Rightarrow> unit ftdi_op" where
  "close_buttons opens st =
     bindS (release_all opens (map fst (fb_down st))) (\<lambda>_ st.
       (Inr (), st\<lparr>fb_devices := [], fb_init := False\<rparr>)) st"

definition read_pin :: "(nat \<Rightarrow> unit result) \<Rightarrow> nat \<Rightarrow> nat \<Rightarrow> bool ftdi_op" where
  "read_pin opens interface pin =
     bindS (ensure_init opens) (\<lambda>_ st.
       case map_of (fb_devices st) interface of
         None \<Rightarrow> (Inl KeyError, st)
       | Some bb \<Rightarrow> (Inr (bb_port bb AND pin_mask pin \<noteq> 0), st))"

definition new_ftdi_buttons :: "(nat \<Rightarrow> unit result) \<Rightarrow> (string \<times> nat \<times> nat) list \<Rightarrow> bool \<Rightarrow> unit result \<times> ftdi" where
  "new_ftdi_buttons opens button_map polarity =
     bitbang_device_init opens \<lparr>fb_map = button_map, fb_down = [], fb_polarity = polarity, fb_devices = [], fb_init = False\<rparr>"

section \<open>The pins show which buttons are down\<close>

text \<open>Every button has a pin of its own among the eight of its interface.\<close>

definition wired :: "(string \<times> nat \<times> nat) list \<Rightarrow> bool" where
  "wired m \<longleftrightarrow> distinct (map fst m) \<and> distinct (map snd m) \<and> list_all (\<lambda>(_, _, pin). pin < 8) m"

text \<open>
  A pin is high exactly when its button is down, with an active-high chip, or up, with an
  active-low one. Before the initialization is complete no pin of an opened device was touched
  and no button is down.
\<close>

definition pin_shows :: "ftdi \<Rightarrow> string \<times> nat \<times> nat \<Rightarrow> bool" where
  "pin_shows st e = (case e of (button, interface, pin) \<Rightarrow>
     \<exists>dev. map_of (fb_devices st) interface = Some dev \<and>
       bit (bb_port dev) pin = (is_down st button = fb_polarity st) \<and> bit (bb_direction dev) pin)"

definition untouched :: "ftdi \<Rightarrow> bool" where
  "untouched st \<longleftrightarrow> list_all (\<lambda>(_, dev). bb_port dev = (if fb_polarity st then 0 else 255)) (fb_devices st)"

definition pins_ok :: "ftdi \<Rightarrow> bool" where
  "pins_ok st \<longleftrightarrow> wired (fb_map st) \<and> set (map fst (fb_down st)) \<subseteq> set (map fst (fb_map st)) \<and>
     (if fb_init st then list_all (pin_shows st) (fb_map st)
      else untouched st \<and> (\<forall>b. \<not> is_down st b))"

lemma bit_pin_mask: "pin < 8 \<Longrightarrow> bit (pin_mask pin) n \<longleftrightarrow> n = pin"
  by (auto simp: pin_mask_def bit_simps)

lemma bit_255: "n < 8 \<Longrightarrow> bit (255 :: 8 word) n"
proof -
  have "(255 :: 8 word) = - 1" by simp
  then show "n < 8 \<Longrightarrow> bit (255 :: 8 word) n" by (simp only: bit_minus_1_iff) simp
qed

lemma bit_clear_pin:
  assumes "pin < 8" and "n < 8"
  shows "bit (bb_port (clear_pin pin bb)) n \<longleftrightarrow> bit (bb_port bb) n \<and> n \<noteq> pin"
  using assms bit_255 [OF assms(2)] by (auto simp: clear_pin_def bit_and_iff bit_xor_iff bit_pin_mask)

lemma bit_set_pin:
  assumes "pin < 8"
  shows "bit (bb_port (set_pin pin bb)) n \<longleftrightarrow> bit (bb_port bb) n \<or> n = pin"
  using assms by (auto simp: set_pin_def bit_or_iff bit_pin_mask)

lemma update_subset: "set (AList.update k v al) \<subseteq> insert (k, v) (set al)"
  by (induction al) auto

lemma untouched_update:
  "untouched st \<Longrightarrow> bb_port dev = (if fb_polarity st then 0 else 255) \<Longrightarrow>
   untouched (st\<lparr>fb_devices := AList.update i dev (fb_devices st), fb_down := d\<rparr>)"
  using update_subset [of i dev "fb_devices st"] unfolding untouched_def list_all_iff by fastforce

lemma init_buttons_total:
  "init_buttons opens es st = (r, st') \<Longrightarrow> \<forall>i. opens i = Inr () \<Longrightarrow> r = Inr ()"
  by (induction es arbitrary: st) (auto split: prod.splits option.splits)

text \<open>What the initialization of some buttons does: it only opens devices, adds outputs and takes buttons as up.\<close>

definition prepared :: "ftdi \<Rightarrow> string \<times> nat \<times> nat \<Rightarrow> bool" where
  "prepared st e = (case e of (button, interface, pin) \<Rightarrow>
     \<not> is_down st button \<and> (\<exists>dev. map_of (fb_devices st) interface = Some dev \<and> bit (bb_direction dev) pin))"

lemma prepared_step:
  assumes "prepared st e" and "\<And>d. map_of (fb_devices st) i = Some d \<Longrightarrow> \<forall>n. bit (bb_direction d) n \<longrightarrow> bit (bb_direction dev') n"
  shows "prepared (st\<lparr>fb_devices := AList.update i dev' (fb_devices st), fb_down := AList.update b False (fb_down st)\<rparr>) e"
  using assms by (auto simp: prepared_def is_down_def update_conv' split: if_splits)

lemma init_buttons_ok:
  assumes "init_buttons opens es st = (r, st')" and "untouched st" and "list_all (\<lambda>(_, _, pin). pin < 8) es"
    and "list_all (prepared st) ds"
  shows "untouched st' \<and> fb_map st' = fb_map st \<and> fb_polarity st' = fb_polarity st \<and> fb_init st' = fb_init st \<and>
    (\<forall>b. is_down st' b \<longrightarrow> is_down st b) \<and> set (map fst (fb_down st')) \<subseteq> set (map fst (fb_down st)) \<union> set (map fst es) \<and>
    (r = Inr () \<longrightarrow> list_all (prepared st') (ds @ es))"
  using assms
proof (induction es arbitrary: st ds)
  case Nil
  then show ?case by simp
next
  case (Cons e es)
  obtain button interface pin where e: "e = (button, interface, pin)" by (cases e)
  have pin: "pin < 8" using Cons.prems(3) by (simp add: e)
  define next_st where "next_st dev = st\<lparr>fb_devices := AList.update interface dev (fb_devices st),
      fb_down := AList.update button False (fb_down st)\<rparr>" for dev
  have go: ?case if i: "init_buttons opens es (next_st dev) = (r, st')"
    and port: "bb_port dev = (if fb_polarity st then 0 else 255)"
    and dir: "bit (bb_direction dev) pin"
    and old: "\<And>d. map_of (fb_devices st) interface = Some d \<Longrightarrow> \<forall>n. bit (bb_direction d) n \<longrightarrow> bit (bb_direction dev) n" for dev
  proof -
    have u: "untouched (next_st dev)" unfolding next_st_def by (rule untouched_update [OF Cons.prems(2) port])
    have p: "prepared (next_st dev) e"
      using dir by (simp add: e prepared_def next_st_def is_down_def update_conv')
    have "list_all (prepared (next_st dev)) ds"
      using Cons.prems(4) old unfolding list_all_iff next_st_def by (blast intro: prepared_step)
    with p have "list_all (prepared (next_st dev)) (ds @ [e])" by simp
    note ih = Cons.IH [OF i u _ this]
    have d: "is_down (next_st dev) b \<Longrightarrow> is_down st b" for b
      by (auto simp: next_st_def is_down_def update_conv' split: if_splits)
    have k: "set (map fst (fb_down (next_st dev))) \<subseteq> insert button (set (map fst (fb_down st)))"
      using update_subset [of button False "fb_down st"] by (auto simp: next_st_def)
    from ih Cons.prems(3) have "untouched st' \<and> fb_map st' = fb_map st \<and> fb_polarity st' = fb_polarity st \<and> fb_init st' = fb_init st"
      "\<forall>b. is_down st' b \<longrightarrow> is_down (next_st dev) b"
      and k2: "set (map fst (fb_down st')) \<subseteq> set (map fst (fb_down (next_st dev))) \<union> set (map fst es)"
      and "r = Inr () \<longrightarrow> list_all (prepared st') (ds @ e # es)"
      by (simp_all add: next_st_def)
    moreover have "set (map fst (fb_down st')) \<subseteq> set (map fst (fb_down st)) \<union> set (map fst (e # es))"
      using k k2 unfolding e by (simp only: list.map list.set fst_conv) blast
    ultimately show ?thesis using d by blast
  qed
  show ?case
  proof (cases "map_of (fb_devices st) interface")
    case (Some dev)
    have port: "bb_port dev = (if fb_polarity st then 0 else 255)"
      using map_of_SomeD [OF Some] Cons.prems(2) by (auto simp: untouched_def list_all_iff)
    show ?thesis
    proof (rule go)
      show "init_buttons opens es (next_st (dev\<lparr>bb_direction := bb_direction dev OR pin_mask pin\<rparr>)) = (r, st')"
        using Cons.prems(1) Some by (simp add: e next_st_def)
    qed (use port Some in \<open>simp_all add: bit_or_iff bit_pin_mask [OF pin]\<close>)
  next
    case None
    show ?thesis
    proof (cases "opens interface")
      case (Inl x)
      with None Cons.prems show ?thesis by (auto simp: e)
    next
      case (Inr x)
      show ?thesis
      proof (rule go)
        show "init_buttons opens es (next_st \<lparr>bb_direction = pin_mask pin, bb_port = (if fb_polarity st then 0 else 255)\<rparr>) = (r, st')"
          using Cons.prems(1) None Inr by (simp add: e next_st_def)
      qed (use None in \<open>simp_all add: bit_pin_mask [OF pin]\<close>)
    qed
  qed
qed

lemma prepared_shows:
  assumes "untouched st" and "prepared st e" and "snd (snd e) < 8"
  shows "pin_shows st e"
proof -
  obtain button interface pin where e: "e = (button, interface, pin)" by (cases e)
  from assms(2) obtain dev where d: "map_of (fb_devices st) interface = Some dev" "bit (bb_direction dev) pin"
    "\<not> is_down st button" by (auto simp: e prepared_def)
  have "bb_port dev = (if fb_polarity st then 0 else 255)"
    using map_of_SomeD [OF d(1)] assms(1) by (auto simp: untouched_def list_all_iff)
  with d bit_255 [of pin] assms(3) show ?thesis by (auto simp: e pin_shows_def)
qed

lemma device_init_ok:
  assumes "bitbang_device_init opens st = (r, st')" and "pins_ok st" and "\<not> fb_init st"
  shows "pins_ok st' \<and> fb_map st' = fb_map st \<and> fb_polarity st' = fb_polarity st \<and>
    is_down st' = is_down st \<and> (r = Inr () \<longrightarrow> fb_init st') \<and> ((\<forall>i. opens i = Inr ()) \<longrightarrow> r = Inr ())"
proof -
  obtain r1 st1 where i: "init_buttons opens (fb_map st) st = (r1, st1)" by fastforce
  have w: "wired (fb_map st)" and u: "untouched st" and nd: "\<not> is_down st b"
    and keys: "set (map fst (fb_down st)) \<subseteq> set (map fst (fb_map st))" for b
    using assms(2,3) by (simp_all add: pins_ok_def)
  have ok: "untouched st1 \<and> fb_map st1 = fb_map st \<and> fb_polarity st1 = fb_polarity st \<and> fb_init st1 = fb_init st \<and>
      (\<forall>b. is_down st1 b \<longrightarrow> is_down st b) \<and> set (map fst (fb_down st1)) \<subseteq> set (map fst (fb_down st)) \<union> set (map fst (fb_map st)) \<and>
      (r1 = Inr () \<longrightarrow> list_all (prepared st1) ([] @ fb_map st))"
    using w by (intro init_buttons_ok [OF i u]) (simp_all add: wired_def)
  have none: "is_down st1 = is_down st" using ok nd by (intro ext) blast
  have k1: "set (map fst (fb_down st1)) \<subseteq> set (map fst (fb_map st))" using ok keys by blast
  have total: "(\<forall>i. opens i = Inr ()) \<longrightarrow> r1 = Inr ()" using init_buttons_total [OF i] by blast
  show ?thesis
  proof (cases r1)
    case (Inl e)
    with i assms(1) have "st' = st1" "r = Inl e" by (simp_all add: bitbang_device_init_def bindS_def)
    with ok w assms(3) none nd k1 total Inl show ?thesis by (simp add: pins_ok_def)
  next
    case (Inr x)
    with i assms(1) have s: "st' = st1\<lparr>fb_init := True\<rparr>" "r = Inr ()" by (simp_all add: bitbang_device_init_def bindS_def)
    have sh: "pin_shows st1 e" if "e \<in> set (fb_map st)" for e
    proof -
      have p: "prepared st1 e" using ok Inr that by (simp add: list_all_iff)
      have "snd (snd e) < 8" using w that by (auto simp: wired_def list_all_iff)
      with p ok show "pin_shows st1 e" by (intro prepared_shows) simp_all
    qed
    have "pin_shows st' e" if "e \<in> set (fb_map st)" for e
      using sh [OF that] by (simp add: s pin_shows_def is_down_def)
    moreover have "is_down st' = is_down st1" by (intro ext) (simp add: s is_down_def)
    ultimately show ?thesis using ok w none k1 by (simp add: pins_ok_def s list_all_iff)
  qed
qed

lemma ensure_init_ok:
  assumes "ensure_init opens st = (r, st')" and "pins_ok st"
  shows "pins_ok st' \<and> fb_map st' = fb_map st \<and> fb_polarity st' = fb_polarity st \<and>
    is_down st' = is_down st \<and> (r = Inr () \<longrightarrow> fb_init st') \<and> (fb_init st \<or> (\<forall>i. opens i = Inr ()) \<longrightarrow> r = Inr ())"
  using assms device_init_ok [of opens st r st'] by (cases "fb_init st") (auto simp: ensure_init_def)

lemma toggle_ok:
  assumes "pins_ok st" and "fb_init st" and "is_valid st button"
  shows "\<exists>st'. toggle_button button (fb_polarity st) st = (Inr (), st') \<and> pins_ok st' \<and> fb_init st' \<and>
    fb_map st' = fb_map st \<and> fb_polarity st' = fb_polarity st \<and>
    is_down st' = (is_down st)(button := \<not> is_down st button)"
proof -
  from assms(3) obtain interface pin where m: "map_of (fb_map st) button = Some (interface, pin)"
    by (auto simp: is_valid_def dest!: weak_map_of_SomeI)
  then have e: "(button, interface, pin) \<in> set (fb_map st)" by (rule map_of_SomeD)
  have w: "wired (fb_map st)" and sh: "pin_shows st x" if "x \<in> set (fb_map st)" for x
    using assms(1,2) that e by (auto simp: pins_ok_def list_all_iff)
  from sh [OF e] obtain bb where bb: "map_of (fb_devices st) interface = Some bb"
    "bit (bb_port bb) pin = (is_down st button = fb_polarity st)" by (auto simp: pin_shows_def)
  let ?down = "is_down st button"
  let ?bb = "if ?down = fb_polarity st then clear_pin pin bb else set_pin pin bb"
  let ?st = "st\<lparr>fb_devices := AList.update interface ?bb (fb_devices st), fb_down := AList.update button (\<not> ?down) (fb_down st)\<rparr>"
  have t: "toggle_button button (fb_polarity st) st = (Inr (), ?st)"
    by (simp add: toggle_button_def m bb(1) Let_def)
  have pin: "pin < 8" using w [OF e] e by (auto simp: wired_def list_all_iff)
  have d: "is_down ?st = (is_down st)(button := \<not> ?down)"
    by (intro ext) (simp add: is_down_def update_conv')
  have "pin_shows ?st x" if x: "x \<in> set (fb_map st)" for x
  proof -
    obtain b i n where b: "x = (b, i, n)" by (cases x)
    have n: "n < 8" using w [OF e] x by (auto simp: b wired_def list_all_iff)
    from sh [OF x] obtain dev where dev: "map_of (fb_devices st) i = Some dev"
      "bit (bb_port dev) n = (is_down st b = fb_polarity st)" "bit (bb_direction dev) n" by (auto simp: b pin_shows_def)
    have same: "b = button \<longleftrightarrow> i = interface \<and> n = pin"
    proof
      assume "b = button"
      then have "map_of (fb_map st) button = Some (i, n)"
        using x w [OF e] by (simp add: b wired_def)
      with m show "i = interface \<and> n = pin" by simp
    next
      assume "i = interface \<and> n = pin"
      then have "snd x = snd (button, interface, pin)" by (simp add: b)
      moreover have "inj_on snd (set (fb_map st))" using w [OF e] by (simp add: wired_def distinct_map)
      ultimately have "x = (button, interface, pin)" using x e by (rule_tac inj_onD [where f = snd]) 
      then show "b = button" by (simp add: b)
    qed
    show ?thesis
    proof (cases "i = interface")
      case False
      with same dev show ?thesis unfolding d by (simp add: b pin_shows_def update_conv' d)
    next
      case True
      with dev bb(1) have "dev = bb" by simp
      with True same dev bb(2) d show ?thesis
        by (simp add: b pin_shows_def update_conv' bit_clear_pin [OF pin n] bit_set_pin [OF pin])
          (auto simp: clear_pin_def set_pin_def)
    qed
  qed
  moreover have "set (map fst (fb_down ?st)) \<subseteq> set (map fst (fb_map st))"
    using assms(1,3) by (simp add: pins_ok_def is_valid_def dom_update)
  ultimately have "pins_ok ?st" using w [OF e] assms(2) by (simp add: pins_ok_def list_all_iff)
  with t d assms(2) show ?thesis by (intro exI [of _ ?st]) simp
qed

section \<open>The operations as changes of the set of buttons that are down\<close>

datatype button_op = Press string int | Click string int | Release string | Close_Buttons

fun run_button :: "(nat \<Rightarrow> unit result) \<Rightarrow> button_op \<Rightarrow> unit ftdi_op" where
  "run_button opens (Press b w) = press opens b w"
| "run_button opens (Click b d) = click opens b d"
| "run_button opens (Release b) = release opens b"
| "run_button opens Close_Buttons = close_buttons opens"

fun refused :: "ftdi \<Rightarrow> button_op \<Rightarrow> bool" where
  "refused st (Press b w) = (\<not> is_valid st b \<or> w < 0)"
| "refused st (Click b d) = (\<not> is_valid st b \<or> d \<le> 0)"
| "refused st (Release b) = (\<not> is_valid st b)"
| "refused st Close_Buttons = False"

fun downs_after :: "button_op \<Rightarrow> (string \<Rightarrow> bool) \<Rightarrow> string \<Rightarrow> bool" where
  "downs_after (Press b w) down = down(b := True)"
| "downs_after (Click b d) down = down"
| "downs_after (Release b) down = down(b := False)"
| "downs_after Close_Buttons down = (\<lambda>_. False)"

text \<open>The states before and after a step: the pins show what is down, which changed as told.\<close>

definition steps_to :: "ftdi \<Rightarrow> ftdi \<Rightarrow> (string \<Rightarrow> bool) \<Rightarrow> bool" where
  "steps_to st st' down \<longleftrightarrow> pins_ok st' \<and> fb_map st' = fb_map st \<and> fb_polarity st' = fb_polarity st \<and> is_down st' = down"

lemma gpio_ok:
  assumes "pins_ok st" and "fb_init st" and "is_valid st b"
  shows "\<exists>st'. gpio opens b d (fb_polarity st) st = (Inr (), st') \<and> fb_init st' \<and>
    steps_to st st' (if 0 \<le> d then is_down st else (is_down st)(b := \<not> is_down st b))"
proof -
  from toggle_ok [OF assms] obtain st1 where t1: "toggle_button b (fb_polarity st) st = (Inr (), st1)" "pins_ok st1" "fb_init st1"
    "fb_map st1 = fb_map st" "fb_polarity st1 = fb_polarity st" "is_down st1 = (is_down st)(b := \<not> is_down st b)" by blast
  have v: "is_valid st1 b" using assms(3) t1(4) by (simp add: is_valid_def)
  from toggle_ok [OF t1(2,3) v] obtain st2 where t2: "toggle_button b (fb_polarity st1) st1 = (Inr (), st2)" "pins_ok st2" "fb_init st2"
    "fb_map st2 = fb_map st1" "fb_polarity st2 = fb_polarity st1" "is_down st2 = (is_down st1)(b := \<not> is_down st1 b)" by blast
  have "is_down st2 = is_down st" using t1(6) t2(6) by (intro ext) simp
  with t1 t2 assms(2) show ?thesis
    by (cases "0 \<le> d") (auto simp: gpio_def ensure_init_def bindS_def returnS_def steps_to_def)
qed

lemma single_op_ok:
  assumes "run_button opens op st = (r, st')" and "pins_ok st" and "op \<noteq> Close_Buttons"
  shows "steps_to st st' (case r of Inr _ \<Rightarrow> downs_after op (is_down st) | Inl _ \<Rightarrow> is_down st) \<and>
    (r = Inr () \<longrightarrow> fb_init st') \<and>
    (fb_init st \<or> (\<forall>i. opens i = Inr ()) \<longrightarrow> r = (if refused st op then Inl ValueError else Inr ()))"
proof -
  obtain r0 st0 where e: "ensure_init opens st = (r0, st0)" by fastforce
  from ensure_init_ok [OF e assms(2)] have s0: "pins_ok st0" "fb_map st0 = fb_map st" "fb_polarity st0 = fb_polarity st"
    "is_down st0 = is_down st" "r0 = Inr () \<longrightarrow> fb_init st0" "fb_init st \<or> (\<forall>i. opens i = Inr ()) \<longrightarrow> r0 = Inr ()" by simp_all
  have v: "is_valid st0 b = is_valid st b" for b by (simp add: is_valid_def s0(2))
  show ?thesis
  proof (cases r0)
    case (Inl x)
    with assms(1,3) e have "st' = st0" "r = Inl x"
      by (cases op; simp add: press_def click_def release_def bindS_def)+
    with s0 Inl show ?thesis by (auto simp: steps_to_def)
  next
    case (Inr u)
    with s0(5) have i0: "fb_init st0" by simp
    have id: "steps_to st st0 (is_down st)" using s0 by (simp add: steps_to_def)
    have g: "\<exists>st1. gpio opens b d (fb_polarity st0) st0 = (Inr (), st1) \<and> fb_init st1 \<and>
        steps_to st st1 (if 0 \<le> d then is_down st else (is_down st)(b := \<not> is_down st b))" if "is_valid st b" for b d
      using gpio_ok [OF s0(1) i0, of b opens d] that v [of b] unfolding steps_to_def s0(2-4) by simp
    show ?thesis
    proof (cases op)
      case (Press b w)
      have e1: "(r, st') = (if \<not> is_valid st b then (Inl ValueError, st0) else if w < 0 then (Inl ValueError, st0)
          else if \<not> is_down st b then gpio opens b (- 1) (fb_polarity st0) st0 else (Inr (), st0))"
        unfolding assms(1) [symmetric] by (simp add: Press press_def bindS_def e Inr v s0(4))
      consider "\<not> is_valid st b \<or> w < 0" | "is_valid st b" "\<not> w < 0" "\<not> is_down st b" | "is_valid st b" "\<not> w < 0" "is_down st b" by blast
      then show ?thesis
      proof cases
        case 1
        with e1 have "r = Inl ValueError" "st' = st0" by (auto split: if_splits)
        with 1 id show ?thesis by (simp add: Press)
      next
        case 2
        with g [of b "- 1"] e1 show ?thesis by (auto simp: Press)
      next
        case 3
        with e1 have "r = Inr ()" "st' = st0" by simp_all
        with 3 id i0 show ?thesis by (simp add: Press fun_upd_idem)
      qed
    next
      case (Click b d)
      have e1: "(r, st') = (if \<not> is_valid st b then (Inl ValueError, st0) else if d \<le> 0 then (Inl ValueError, st0)
          else gpio opens b d (fb_polarity st0) st0)"
        unfolding assms(1) [symmetric] by (simp add: Click click_def bindS_def e Inr v)
      show ?thesis
      proof (cases "is_valid st b \<and> \<not> d \<le> 0")
        case True
        with g [of b d] e1 show ?thesis by (auto simp: Click)
      next
        case False
        with e1 have "r = Inl ValueError" "st' = st0" by (auto split: if_splits)
        with False id show ?thesis by (simp add: Click)
      qed
    next
      case (Release b)
      have e1: "(r, st') = (if \<not> is_valid st b then (Inl ValueError, st0)
          else if is_down st b then gpio opens b (- 1) (fb_polarity st0) st0 else (Inr (), st0))"
        unfolding assms(1) [symmetric] by (simp add: Release release_def bindS_def e Inr v s0(4))
      consider "\<not> is_valid st b" | "is_valid st b" "is_down st b" | "is_valid st b" "\<not> is_down st b" by blast
      then show ?thesis
      proof cases
        case 1
        with e1 id show ?thesis by (simp add: Release)
      next
        case 2
        with g [of b "- 1"] e1 show ?thesis by (auto simp: Release)
      next
        case 3
        with e1 id i0 show ?thesis by (simp add: Release fun_upd_idem)
      qed
    qed (use assms(3) in simp)
  qed
qed

lemma release_all_ok:
  assumes "release_all opens bs st = (r, st')" and "pins_ok st" and "list_all (is_valid st) bs"
  shows "steps_to st st' (case r of Inr _ \<Rightarrow> (\<lambda>b. is_down st b \<and> b \<notin> set bs) | Inl _ \<Rightarrow> is_down st) \<and>
    (fb_init st \<or> (\<forall>i. opens i = Inr ()) \<longrightarrow> r = Inr ())"
  using assms
proof (induction bs arbitrary: st)
  case Nil
  then show ?case by (auto simp: returnS_def steps_to_def)
next
  case (Cons b bs)
  obtain r1 st1 where one: "release opens b st = (r1, st1)" by fastforce
  have o: "steps_to st st1 (case r1 of Inr _ \<Rightarrow> (is_down st)(b := False) | Inl _ \<Rightarrow> is_down st)"
    "r1 = Inr () \<longrightarrow> fb_init st1" "fb_init st \<or> (\<forall>i. opens i = Inr ()) \<longrightarrow> r1 = Inr ()"
    using single_op_ok [of opens "Release b" st r1 st1] one Cons.prems(2,3) by (auto split: sum.splits)
  show ?case
  proof (cases r1)
    case (Inl e)
    with Cons.prems(1) one o show ?thesis by (auto simp: bindS_def)
  next
    case (Inr u)
    with Cons.prems(1) one have rest: "release_all opens bs st1 = (r, st')" by (simp add: bindS_def)
    from o(1) Inr have s1: "pins_ok st1" "fb_map st1 = fb_map st" "fb_polarity st1 = fb_polarity st"
      "is_down st1 = (is_down st)(b := False)" by (simp_all add: steps_to_def)
    have "list_all (is_valid st1) bs" using Cons.prems(3) s1(2) by (simp add: is_valid_def list_all_iff)
    from Cons.IH [OF rest s1(1) this] o(2) Inr have "r = Inr ()" "steps_to st1 st' (\<lambda>c. is_down st1 c \<and> c \<notin> set bs)"
      by auto
    with s1 show ?thesis by (auto simp: steps_to_def fun_eq_iff)
  qed
qed

lemma button_op_ok:
  assumes "run_button opens op st = (r, st')" and "pins_ok st"
  shows "steps_to st st' (case r of Inr _ \<Rightarrow> downs_after op (is_down st) | Inl _ \<Rightarrow> is_down st) \<and>
    (fb_init st \<or> (\<forall>i. opens i = Inr ()) \<longrightarrow> r = (if refused st op then Inl ValueError else Inr ()))"
proof (cases "op = Close_Buttons")
  case False
  then show ?thesis using single_op_ok [OF assms] by simp
next
  case True
  obtain r1 st1 where rel: "release_all opens (map fst (fb_down st)) st = (r1, st1)" by fastforce
  have v: "list_all (is_valid st) (map fst (fb_down st))"
    using assms(2) by (auto simp: pins_ok_def is_valid_def list_all_iff)
  note ok = release_all_ok [OF rel assms(2) v]
  show ?thesis
  proof (cases r1)
    case (Inl e)
    with True assms(1) rel ok show ?thesis by (auto simp: close_buttons_def bindS_def)
  next
    case (Inr u)
    with True assms(1) rel have s: "st' = st1\<lparr>fb_devices := [], fb_init := False\<rparr>" "r = Inr ()"
      by (simp_all add: close_buttons_def bindS_def)
    from ok Inr have o: "pins_ok st1" "fb_map st1 = fb_map st" "fb_polarity st1 = fb_polarity st"
      "is_down st1 = (\<lambda>b. is_down st b \<and> b \<notin> set (map fst (fb_down st)))" by (simp_all add: steps_to_def)
    have "is_down st1 b = False" for b
      using o(4) by (auto simp: is_down_def dest: map_of_SomeD intro: rev_image_eqI)
    then have none: "is_down st' = (\<lambda>_. False)" by (intro ext) (simp add: s is_down_def)
    have "pins_ok st'" using o(1) none by (simp add: pins_ok_def s untouched_def)
    with none o s True show ?thesis by (simp add: steps_to_def)
  qed
qed

text \<open>C30. The pins follow the buttons. Whatever is pressed, clicked, released or closed, an operation that
  returns changes the set of buttons that are down exactly as it says, a refused one changes
  nothing, and while the devices are open the pin of every button is high exactly when the
  button is down on an active-high chip, or up on an active-low one, although the
  buttons of an interface share one byte. With devices that open, an operation is refused exactly for an
  unknown button, a negative wait or a duration that is not positive.\<close>

theorem buttons_refine_pins:
  assumes "pins_ok st" and "run_button opens op st = (r, st')"
  shows "is_down st' = (case r of Inr _ \<Rightarrow> downs_after op (is_down st) | Inl _ \<Rightarrow> is_down st) \<and>
    fb_map st' = fb_map st \<and> pins_ok st' \<and>
    (fb_init st' \<longrightarrow> list_all (\<lambda>(button, interface, pin). \<exists>dev. map_of (fb_devices st') interface = Some dev \<and>
       bit (bb_port dev) pin = (is_down st' button = fb_polarity st)) (fb_map st)) \<and>
    ((\<forall>i. opens i = Inr ()) \<longrightarrow> r = (if refused st op then Inl ValueError else Inr ()))"
proof -
  from button_op_ok [OF assms(2,1)] have o: "pins_ok st'" "fb_map st' = fb_map st" "fb_polarity st' = fb_polarity st"
    "is_down st' = (case r of Inr _ \<Rightarrow> downs_after op (is_down st) | Inl _ \<Rightarrow> is_down st)"
    "(\<forall>i. opens i = Inr ()) \<longrightarrow> r = (if refused st op then Inl ValueError else Inr ())" by (simp_all add: steps_to_def)
  have "list_all (\<lambda>(button, interface, pin). \<exists>dev. map_of (fb_devices st') interface = Some dev \<and>
       bit (bb_port dev) pin = (is_down st' button = fb_polarity st)) (fb_map st)" if "fb_init st'"
    using o(1-3) that by (auto simp: pins_ok_def list_all_iff pin_shows_def)
  with o show ?thesis by blast
qed

text \<open>New buttons are a state of this kind.\<close>

lemma new_buttons_ok:
  assumes "wired button_map" and "new_ftdi_buttons opens button_map polarity = (r, st)"
  shows "pins_ok st"
proof -
  let ?st0 = "\<lparr>fb_map = button_map, fb_down = [], fb_polarity = polarity, fb_devices = [], fb_init = False\<rparr>"
  have "pins_ok ?st0" using assms(1) by (simp add: pins_ok_def untouched_def is_down_def)
  from device_init_ok [OF _ this] assms(2) show ?thesis by (simp add: new_ftdi_buttons_def)
qed

text \<open>Closing once more opens the devices again, since every button is released.\<close>

lemma second_close_reopens:
  assumes "\<not> fb_init st" and "fb_devices st = []" and "fb_map st = e # es" and "fb_down st \<noteq> []"
    and "opens (fst (snd e)) = Inl x"
  shows "fst (close_buttons opens st) = Inl x"
proof -
  obtain b bs where "map fst (fb_down st) = b # bs" using assms(4) by (cases "fb_down st") auto
  then show ?thesis
    using assms by (cases e) (simp add: close_buttons_def release_def ensure_init_def bitbang_device_init_def bindS_def)
qed

definition two_buttons :: "(string \<times> nat \<times> nat) list" where
  "two_buttons = [(''reset'', 1, 0), (''pair'', 1, 3)]"

theorem buttons_refine_pins_witness:
  "let st0 = snd (new_ftdi_buttons (\<lambda>_. Inr ()) two_buttons False);
       st = snd (run_button (\<lambda>_. Inr ()) (Press ''pair'' 5) st0)
   in is_down st ''pair'' \<and> \<not> is_down st ''reset'' \<and> map (bb_port \<circ> snd) (fb_devices st) = [247]"
proof -
  let ?st0 = "snd (new_ftdi_buttons (\<lambda>_. Inr ()) two_buttons False)"
  have "pins_ok ?st0"
    by (rule new_buttons_ok [of two_buttons "\<lambda>_. Inr ()" False "fst (new_ftdi_buttons (\<lambda>_. Inr ()) two_buttons False)"])
      (simp_all add: wired_def two_buttons_def)
  from buttons_refine_pins [OF this, of "\<lambda>_. Inr ()" "Press ''pair'' 5"
      "fst (run_button (\<lambda>_. Inr ()) (Press ''pair'' 5) ?st0)" "snd (run_button (\<lambda>_. Inr ()) (Press ''pair'' 5) ?st0)"]
  have d: "is_down (snd (run_button (\<lambda>_. Inr ()) (Press ''pair'' 5) ?st0)) =
      (case fst (run_button (\<lambda>_. Inr ()) (Press ''pair'' 5) ?st0) of Inr _ \<Rightarrow> (is_down ?st0)(''pair'' := True) | Inl _ \<Rightarrow> is_down ?st0)"
    by (simp only: prod.collapse downs_after.simps)
  have v: "fst (run_button (\<lambda>_. Inr ()) (Press ''pair'' 5) ?st0) = Inr ()"
    "map (bb_port \<circ> snd) (fb_devices (snd (run_button (\<lambda>_. Inr ()) (Press ''pair'' 5) ?st0))) = [247]"
    "is_down ?st0 ''reset'' = False"
    by (simp_all add: new_ftdi_buttons_def two_buttons_def bitbang_device_init_def bindS_def press_def ensure_init_def is_valid_def
        is_down_def gpio_def toggle_button_def clear_pin_def set_pin_def pin_mask_def returnS_def Let_def)
  from d v show ?thesis by (simp add: Let_def)
qed

end
