(* ===== verification/Switchboard.thy ===== *)
theory Switchboard
  imports Expect Switchboard_Process Ftdi_Buttons
begin

text \<open>
  Class \<open>SwitchboardDefault\<close> of \<open>gazoo_device/switchboard/switchboard.py\<close>: the processes of a
  device, the users of the raw data queue, and the operations over them. A method is a function
  from the state to its result and the new state. Notes to the log are the list \<open>b_notes\<close>.
\<close>

section \<open>State and sequencing\<close>

record handle =
  h_proc :: "string sproc"
  h_raw_id :: nat
  h_raw_enabled :: bool

record board =
  b_processes :: "handle list"
  b_log_writer :: "string sproc option"
  b_log_filter :: "string sproc option"
  b_users :: nat
  b_next_id :: nat
  b_raw_queue :: "(nat \<times> string) list"
  b_notes :: "string list"
  b_healthy :: "bool option"
  b_force_slow :: bool
  b_buttons :: "ftdi list"

type_synonym 'a action = "board \<Rightarrow> 'a result \<times> board"

section \<open>Health and ports\<close>

text \<open>
  A healthy switchboard has its processes; the lazy start-up of \<open>health_check\<close> for a new one is
  \<open>start_up\<close>, a parameter here and \<open>start_processes\<close> below.
\<close>

definition health_check :: "unit action \<Rightarrow> unit action" where
  "health_check start_up st =
     (case b_healthy st of
        Some True \<Rightarrow> (Inr (), st)
      | Some False \<Rightarrow> (Inl CapabilityNotReadyError, st)
      | None \<Rightarrow>
          (case start_up st of
             (Inr _, st') \<Rightarrow> (Inr (), st'\<lparr>b_healthy := Some True\<rparr>)
           | (Inl _, st') \<Rightarrow> (Inl CapabilityNotReadyError, st'\<lparr>b_healthy := Some False\<rparr>)))"

definition require_healthy :: "unit action" where
  "require_healthy st =
     (if b_healthy st = Some True then (Inr (), st) else (Inl CapabilityNotReadyError, st))"

definition add_log_note :: "string \<Rightarrow> unit action" where
  "add_log_note note =
     bindS require_healthy (\<lambda>_ st.
       if note = [] then (Inl DeviceError, st)
       else (Inr (), st\<lparr>b_notes := b_notes st @
              [''Note: '' @ note @ (if last note = newline then [] else [newline])]\<rparr>))"

definition validate_port :: "int arg \<Rightarrow> unit action" where
  "validate_port port =
     (case port of
        WrongType \<Rightarrow> raiseS DeviceError
      | Arg p \<Rightarrow> bindS require_healthy (\<lambda>_ st.
          if p < 0 \<or> p \<ge> int (length (b_processes st)) then (Inl DeviceError, st)
          else (Inr (), st)))"

section \<open>Raw data\<close>

definition toggle_raw_data_all :: "unit action" where
  "toggle_raw_data_all =
     bindS require_healthy (\<lambda>_ st.
       (Inr (), st\<lparr>b_processes :=
          map (\<lambda>h. h\<lparr>h_raw_enabled := \<not> h_raw_enabled h\<rparr>) (b_processes st)\<rparr>))"

definition flush_raw_data_queue :: "unit action" where
  "flush_raw_data_queue st = (Inr (), st\<lparr>b_raw_queue := []\<rparr>)"

definition enable_raw_data_queue :: "unit action" where
  "enable_raw_data_queue st =
     (let st1 = st\<lparr>b_users := Suc (b_users st)\<rparr>
      in if b_users st1 = 1
         then bindS flush_raw_data_queue (\<lambda>_. toggle_raw_data_all) st1
         else (Inr (), st1))"

definition disable_raw_data_queue :: "unit action" where
  "disable_raw_data_queue st =
     (let st1 = (if b_users st \<noteq> 0 then st\<lparr>b_users := b_users st - 1\<rparr> else st)
      in if b_users st1 = 0
         then bindS toggle_raw_data_all (\<lambda>_. flush_raw_data_queue) st1
         else (Inr (), st1))"

section \<open>Expecting\<close>

text \<open>
  \<open>compile\<close> is \<open>re.compile\<close> with its error as \<open>None\<close>, \<open>wait\<close> is \<open>_expect\<close> (see theory
  \<open>Expect\<close>) reading from the raw data queue of the state, \<open>func\<close> the function to be called.
\<close>

fun get_compiled_pattern_list :: "(string \<Rightarrow> 'p option) \<Rightarrow> string list \<Rightarrow> 'p list result" where
  "get_compiled_pattern_list compile [] = Inr []"
| "get_compiled_pattern_list compile (p # ps) =
     (case compile p of
        None \<Rightarrow> Inl DeviceError
      | Some c \<Rightarrow> bindE (get_compiled_pattern_list compile ps) (\<lambda>cs. Inr (c # cs)))"

record 'p expect_args =
  ea_patterns :: "string list arg"
  ea_timeout :: "int arg"
  ea_window :: "int arg"
  ea_type :: "string arg"
  ea_mode :: "string arg"

definition checked_patterns ::
  "(string \<Rightarrow> 'p option) \<Rightarrow> 'p expect_args \<Rightarrow> string \<Rightarrow> 'p list action" where
  "checked_patterns compile a note =
     bindS (\<lambda>st. (check_expect_args (ea_patterns a) (ea_timeout a) (ea_window a) (ea_type a) (ea_mode a), st))
       (\<lambda>_. bindS (add_log_note note)
       (\<lambda>_ st. (case ea_patterns a of Arg ps \<Rightarrow> get_compiled_pattern_list compile ps
                 | WrongType \<Rightarrow> Inl TypeError, st)))"

definition do_and_expect ::
  "(string \<Rightarrow> 'p option) \<Rightarrow> 'p expect_args \<Rightarrow> string \<Rightarrow> ('p list \<Rightarrow> 'p expect_response action) \<Rightarrow>
   'r action option \<Rightarrow> ('p expect_response \<times> 'r) action" where
  "do_and_expect compile a note wait func =
     (case func of
        None \<Rightarrow> raiseS DeviceError
      | Some f \<Rightarrow>
          bindS (checked_patterns compile a note) (\<lambda>compiled_list.
          finallyS
            (bindS enable_raw_data_queue (\<lambda>_.
             bindS f (\<lambda>func_ret.
             bindS (wait compiled_list) (\<lambda>expect_ret. returnS (expect_ret, func_ret)))))
            disable_raw_data_queue))"

definition expect_method ::
  "(string \<Rightarrow> 'p option) \<Rightarrow> 'p expect_args \<Rightarrow> string \<Rightarrow> ('p list \<Rightarrow> 'p expect_response action) \<Rightarrow>
   'p expect_response action" where
  "expect_method compile a note wait =
     bindS require_healthy (\<lambda>_.
     bindS (checked_patterns compile a note) (\<lambda>compiled_list.
       finallyS (bindS enable_raw_data_queue (\<lambda>_. wait compiled_list)) disable_raw_data_queue))"

section \<open>Sending\<close>

definition CMD_TRANSPORT_WRITE :: string where "CMD_TRANSPORT_WRITE = ''TRANSPORT_WRITE''"

text \<open>A command to the process at an index, without waiting for it.\<close>

definition send_command_to_device :: "string \<Rightarrow> nat \<Rightarrow> unit action" where
  "send_command_to_device command port =
     bindS require_healthy (\<lambda>_ st.
       if port < length (b_processes st) then
         (let h = b_processes st ! port;
              (r, p) = send_command (good_env) id (\<lambda>_. 0) CMD_TRANSPORT_WRITE command False (h_proc h)
          in (r, st\<lparr>b_processes := (b_processes st)[port := h\<lparr>h_proc := p\<rparr>]\<rparr>))
       else (Inl IndexError, st))"

fun send_each :: "string list \<Rightarrow> nat \<Rightarrow> unit action" where
  "send_each [] port = returnS ()"
| "send_each (c # cs) port = bindS (send_command_to_device c port) (\<lambda>_. send_each cs port)"

definition send :: "string \<Rightarrow> int arg \<Rightarrow> bool \<Rightarrow> bool \<Rightarrow> string \<Rightarrow> string \<Rightarrow> unit action" where
  "send command port slow add_newline nl note =
     bindS (validate_port port) (\<lambda>_.
     bindS (add_log_note note) (\<lambda>_ st.
       let command = ensure_has_newline command add_newline nl;
           p = (case port of Arg p \<Rightarrow> nat p | WrongType \<Rightarrow> 0)
       in if slow \<or> b_force_slow st then send_each (map (\<lambda>c. [c]) command) p st
          else send_command_to_device command p st))"

text \<open>
  \<open>send_and_expect\<close>: the \<open>i\<close>-th try is \<open>attempt i\<close>, a \<open>do_and_expect\<close> of \<open>send\<close>; without any
  try the variable \<open>result\<close> is unbound. \<open>result\<close> is that of the last try.
\<close>

fun tries :: "(nat \<Rightarrow> 'p expect_response action) \<Rightarrow> nat \<Rightarrow> nat \<Rightarrow> 'p expect_response option \<Rightarrow>
  'p expect_response option action" where
  "tries attempt i 0 last_result = returnS last_result"
| "tries attempt i (Suc n) last_result =
     bindS (attempt i) (\<lambda>result.
       if er_timedout result then tries attempt (Suc i) n (Some result) else returnS (Some result))"

definition send_and_expect ::
  "(nat \<Rightarrow> 'p expect_response action) \<Rightarrow> nat \<Rightarrow> bool \<Rightarrow> 'p expect_response action" where
  "send_and_expect attempt command_tries raise_for_timeout =
     bindS (tries attempt 0 command_tries None) (\<lambda>result.
       case result of
         None \<Rightarrow> raiseS UnboundLocalError
       | Some r \<Rightarrow> if er_timedout r \<and> raise_for_timeout then raiseS DeviceError else returnS r)"

section \<open>Processes\<close>

definition new_handle :: "nat \<Rightarrow> handle" where
  "new_handle rid =
     \<lparr>h_proc = fresh_sproc [''TRANSPORT_CLOSE'', ''TRANSPORT_OPEN'', CMD_TRANSPORT_WRITE, ''TRANSPORT_CALL''],
      h_raw_id = rid, h_raw_enabled = False\<rparr>"

definition add_transport_process :: "nat action" where
  "add_transport_process st =
     (Inr (length (b_processes st)),
      st\<lparr>b_processes := b_processes st @ [new_handle (b_next_id st)], b_next_id := Suc (b_next_id st)\<rparr>)"

definition start_transport_process :: "child_env \<Rightarrow> int arg \<Rightarrow> unit action" where
  "start_transport_process env process_num =
     bindS (validate_port process_num) (\<lambda>_ st.
       case process_num of
         WrongType \<Rightarrow> (Inl DeviceError, st)
       | Arg n \<Rightarrow>
           (let h = b_processes st ! nat n
            in if is_started (h_proc h) then (Inr (), st)
               else (let (r, p) = start env True (h_proc h)
                     in (r, st\<lparr>b_processes := (b_processes st)[nat n := h\<lparr>h_proc := p\<rparr>]\<rparr>))))"

definition stop_transport_process :: "child_env \<Rightarrow> int arg \<Rightarrow> unit action" where
  "stop_transport_process env process_num =
     bindS (validate_port process_num) (\<lambda>_ st.
       case process_num of
         WrongType \<Rightarrow> (Inl DeviceError, st)
       | Arg n \<Rightarrow>
           (let h = b_processes st ! nat n
            in if \<not> is_started (h_proc h) then (Inr (), st)
               else (let (r, p) = stop env (h_proc h)
                     in (r, st\<lparr>b_processes := (b_processes st)[nat n := h\<lparr>h_proc := p\<rparr>]\<rparr>))))"

definition delete_last_transport_process :: "child_env \<Rightarrow> unit action" where
  "delete_last_transport_process env =
     bindS require_healthy (\<lambda>_ st.
       if b_processes st \<noteq> [] then
         bindS (stop_transport_process env (Arg (int (length (b_processes st)) - 1)))
           (\<lambda>_ st'. (Inr (), st'\<lparr>b_processes := butlast (b_processes st')\<rparr>)) st
       else (Inl DeviceError, st))"

text \<open>
  \<open>_start_processes\<close> over a list of processes, each with the behaviour of its child: those not
  started are started without waiting, then waited for in order; the first that is not ready in
  time makes all of them be terminated.
\<close>

fun wait_all :: "(child_env \<times> 'd sproc) list \<Rightarrow> bool" where
  "wait_all [] = True"
| "wait_all ((env, p) # ps) = (case fst (wait_for_start env p) of Inl _ \<Rightarrow> False | Inr _ \<Rightarrow> wait_all ps)"

definition start_processes ::
  "(child_env \<times> 'd sproc) list \<Rightarrow> unit result \<times> 'd sproc list" where
  "start_processes all_processes =
     (let started = map (\<lambda>(env, p). if is_started p then p else snd (start env False p)) all_processes;
          to_start = filter (\<lambda>(env, p). \<not> is_started p) all_processes
      in if wait_all to_start then (Inr (), started)
         else (Inl RuntimeError,
               map (\<lambda>((env, p), p'). if is_started p then p else terminate env p')
                 (zip all_processes started)))"

text \<open>
  \<open>close\<close>: unhealthy from now on, every process that was started is stopped, the buttons are
  closed (an exception there ends the method), the lists are emptied, the queues are gone. The
  stopped processes are returned, since they leave the state; \<open>opens\<close> is how the button devices open.
\<close>

definition stop_processes :: "(child_env \<times> 'd sproc) list \<Rightarrow> 'd sproc list" where
  "stop_processes all_processes =
     map (\<lambda>(env, p). if is_started p then snd (stop env p) else p) all_processes"

definition all_processes :: "board \<Rightarrow> string sproc list" where
  "all_processes st =
     map h_proc (b_processes st) @ (case b_log_writer st of None \<Rightarrow> [] | Some p \<Rightarrow> [p])
       @ (case b_log_filter st of None \<Rightarrow> [] | Some p \<Rightarrow> [p])"

primrec close_each_button :: "(nat \<Rightarrow> unit result) \<Rightarrow> ftdi list \<Rightarrow> unit result \<times> ftdi list" where
  "close_each_button opens [] = (Inr (), [])"
| "close_each_button opens (f # fs) =
     (case close_buttons opens f of
        (Inl e, f') \<Rightarrow> (Inl e, f' # fs)
      | (Inr _, f') \<Rightarrow> (case close_each_button opens fs of (r, fs') \<Rightarrow> (r, f' # fs')))"

definition close :: "child_env list \<Rightarrow> (nat \<Rightarrow> unit result) \<Rightarrow> board \<Rightarrow> (unit result \<times> string sproc list) \<times> board" where
  "close envs opens st =
     (let stopped = stop_processes (zip envs (all_processes st));
          st1 = st\<lparr>b_healthy := Some False, b_processes := [], b_log_writer := None, b_log_filter := None\<rparr>
      in case close_each_button opens (b_buttons st) of
           (Inl e, fs) \<Rightarrow> ((Inl (if is_device_error e then e else DeviceError), stopped), st1\<lparr>b_buttons := fs\<rparr>)
         | (Inr _, _) \<Rightarrow> ((Inr (), stopped), st1\<lparr>b_raw_queue := [], b_notes := [], b_buttons := []\<rparr>))"

section \<open>The raw data queue\<close>

text \<open>
  \<open>raw_ok\<close>: the raw data of every process is on exactly when the queue has users. A method
  \<open>keeps\<close> the raw data settings when it leaves the number of users, the switches of the
  processes and the health as they were.
\<close>

definition raw_ok :: "board \<Rightarrow> bool" where
  "raw_ok st \<longleftrightarrow> (\<forall>h\<in>set (b_processes st). h_raw_enabled h = (0 < b_users st))"

definition raw_view :: "board \<Rightarrow> nat \<times> bool list \<times> bool option" where
  "raw_view st = (b_users st, map h_raw_enabled (b_processes st), b_healthy st)"

definition keeps :: "'a action \<Rightarrow> bool" where
  "keeps m \<longleftrightarrow> (\<forall>st. raw_view (snd (m st)) = raw_view st)"

lemma keepsI: "(\<And>st r st'. m st = (r, st') \<Longrightarrow> raw_view st' = raw_view st) \<Longrightarrow> keeps m"
  unfolding keeps_def by (metis prod.collapse)

lemma keepsD: "keeps m \<Longrightarrow> m st = (r, st') \<Longrightarrow> raw_view st' = raw_view st"
  unfolding keeps_def by (metis snd_conv)

lemma keeps_return [intro]: "keeps (returnS x)" "keeps (raiseS e)" "keeps (\<lambda>st. (r, st))"
  by (simp_all add: keeps_def returnS_def raiseS_def)

lemma keeps_bind [intro]:
  assumes "keeps m" and "\<And>x. keeps (f x)"
  shows "keeps (bindS m f)"
proof (rule keepsI)
  fix st r st'
  assume b: "bindS m f st = (r, st')"
  obtain q st1 where m: "m st = (q, st1)" by fastforce
  from keepsD [OF assms(1) m] have "raw_view st1 = raw_view st" .
  moreover have "raw_view st' = raw_view st1"
    using b m keepsD [OF assms(2)] by (cases q) (auto simp: bindS_def)
  ultimately show "raw_view st' = raw_view st" by simp
qed

lemma keeps_note: "keeps (add_log_note note)"
  unfolding add_log_note_def require_healthy_def
  by (intro keeps_bind) (auto simp: keeps_def raw_view_def)

lemma keeps_checked: "keeps (checked_patterns compile a note)"
  unfolding checked_patterns_def by (intro keeps_bind keeps_note keeps_return)

text \<open>What enabling and disabling do to the users and the switches.\<close>

definition flip_if :: "bool \<Rightarrow> bool list \<Rightarrow> bool list" where
  "flip_if b = (if b then map Not else id)"

lemma flip_twice [simp]: "flip_if b (flip_if b xs) = xs"
  by (simp add: flip_if_def o_def)

lemma enable_view:
  "raw_view (snd (enable_raw_data_queue st)) =
     (Suc (b_users st), flip_if (b_users st = 0 \<and> b_healthy st = Some True)
        (map h_raw_enabled (b_processes st)), b_healthy st)"
  by (auto simp: enable_raw_data_queue_def bindS_def flush_raw_data_queue_def toggle_raw_data_all_def
      require_healthy_def raw_view_def flip_if_def Let_def)

lemma disable_view:
  assumes "raw_view st = (Suc n, flags, health)"
  shows "raw_view (snd (disable_raw_data_queue st)) =
     (n, flip_if (n = 0 \<and> health = Some True) flags, health)"
  using assms
  by (auto simp: disable_raw_data_queue_def bindS_def flush_raw_data_queue_def toggle_raw_data_all_def
      require_healthy_def raw_view_def flip_if_def Let_def)

lemma finally_snd:
  "snd (finallyS body clean st) = snd (clean (snd (body st)))"
  by (auto simp: finallyS_def split: prod.splits sum.splits)

lemma bind_snd:
  "snd (bindS m f st) = (case fst (m st) of Inl _ \<Rightarrow> snd (m st) | Inr x \<Rightarrow> snd (f x (snd (m st))))"
  by (auto simp: bindS_def split: prod.splits sum.splits)

lemma keeps_bracket:
  assumes "keeps body"
  shows "keeps (finallyS (bindS enable_raw_data_queue (\<lambda>_. body)) disable_raw_data_queue)"
  unfolding keeps_def
proof
  fix st :: board
  let ?f = "b_users st = 0 \<and> b_healthy st = Some True"
  have "raw_view (snd (bindS enable_raw_data_queue (\<lambda>_. body) st)) =
      raw_view (snd (enable_raw_data_queue st))"
    using assms by (auto simp: bind_snd keeps_def split: sum.splits)
  then have "raw_view (snd (bindS enable_raw_data_queue (\<lambda>_. body) st)) =
      (Suc (b_users st), flip_if ?f (map h_raw_enabled (b_processes st)), b_healthy st)"
    by (simp only: enable_view)
  from disable_view [OF this] show
    "raw_view (snd (finallyS (bindS enable_raw_data_queue (\<lambda>_. body)) disable_raw_data_queue st)) =
     raw_view st"
    by (simp add: finally_snd raw_view_def)
qed

lemma keeps_do_and_expect:
  assumes "\<And>f. func = Some f \<Longrightarrow> keeps f" and "\<And>ps. keeps (wait ps)"
  shows "keeps (do_and_expect compile a note wait func)"
  using assms unfolding do_and_expect_def
  by (cases func) (auto intro!: keeps_bind keeps_checked keeps_bracket keeps_return)


definition small_board :: board where
  "small_board = \<lparr>b_processes = [new_handle 0], b_log_writer = None, b_log_filter = None, b_users = 0,
     b_next_id = 1, b_raw_queue = [], b_notes = [], b_healthy = Some True, b_force_slow = False,
     b_buttons = []\<rparr>"


text \<open>A process added while the raw data queue has users gets out of step: it is not
  switched on for them, and when the last user leaves it is switched on while all others are
  switched off, although nobody reads its data.\<close>

theorem add_process_while_expecting:
  assumes "b_healthy st = Some True" and "raw_ok st" and "b_users st = 0"
  shows "let st1 = snd (enable_raw_data_queue st); st2 = snd (add_transport_process st1);
      st3 = snd (disable_raw_data_queue st2)
    in \<not> h_raw_enabled (last (b_processes st2)) \<and> b_users st3 = 0 \<and>
       h_raw_enabled (last (b_processes st3)) \<and>
       (\<forall>h\<in>set (butlast (b_processes st3)). \<not> h_raw_enabled h)"
  using assms
  by (auto simp: enable_raw_data_queue_def disable_raw_data_queue_def bindS_def flush_raw_data_queue_def
      toggle_raw_data_all_def require_healthy_def raw_ok_def add_transport_process_def new_handle_def
      Let_def butlast_append)

theorem add_process_while_expecting_witness:
  "h_raw_enabled (last (b_processes (snd (disable_raw_data_queue
     (snd (add_transport_process (snd (enable_raw_data_queue small_board))))))))"
  using add_process_while_expecting [of small_board]
  by (simp add: small_board_def raw_ok_def new_handle_def Let_def)

section \<open>Sending\<close>

definition queued :: "nat \<Rightarrow> board \<Rightarrow> (string \<times> string) list" where
  "queued port st = sp_commands (h_proc (b_processes st ! port))"

definition accepts_writes :: "nat \<Rightarrow> board \<Rightarrow> bool" where
  "accepts_writes port st \<longleftrightarrow> b_healthy st = Some True \<and> port < length (b_processes st) \<and>
     CMD_TRANSPORT_WRITE \<in> set (valid_commands (h_proc (b_processes st ! port)))"

lemma send_command_to_device_ok:
  assumes "accepts_writes port st"
  shows "\<exists>st'. send_command_to_device c port st = (Inr (), st') \<and> accepts_writes port st' \<and>
    queued port st' = queued port st @ [(CMD_TRANSPORT_WRITE, c)] \<and>
    length (b_processes st') = length (b_processes st) \<and>
    (\<forall>i. i \<noteq> port \<longrightarrow> b_processes st' ! i = b_processes st ! i)"
  using assms
  by (auto simp: send_command_to_device_def bindS_def require_healthy_def accepts_writes_def
      queued_def send_command_def Let_def)

lemma send_each_ok:
  assumes "accepts_writes port st"
  shows "\<exists>st'. send_each cs port st = (Inr (), st') \<and>
    queued port st' = queued port st @ map (Pair CMD_TRANSPORT_WRITE) cs \<and>
    length (b_processes st') = length (b_processes st) \<and>
    (\<forall>i. i \<noteq> port \<longrightarrow> b_processes st' ! i = b_processes st ! i)"
  using assms
proof (induction cs arbitrary: st)
  case (Cons c cs)
  from send_command_to_device_ok [OF Cons.prems, of c] obtain st1 where
    1: "send_command_to_device c port st = (Inr (), st1)" "accepts_writes port st1"
      "queued port st1 = queued port st @ [(CMD_TRANSPORT_WRITE, c)]"
      "length (b_processes st1) = length (b_processes st)"
      "\<forall>i. i \<noteq> port \<longrightarrow> b_processes st1 ! i = b_processes st ! i" by blast
  from Cons.IH [OF 1(2)] obtain st2 where
    "send_each cs port st1 = (Inr (), st2)"
    "queued port st2 = queued port st1 @ map (Pair CMD_TRANSPORT_WRITE) cs"
    "length (b_processes st2) = length (b_processes st1)"
    "\<forall>i. i \<noteq> port \<longrightarrow> b_processes st2 ! i = b_processes st1 ! i" by blast
  with 1 show ?case by (simp add: bindS_def)
qed (simp add: returnS_def)

text \<open>Sending, fast or slow, puts write commands on the queue of the given port only, whose
  data put together is the command with its newline added when asked for and missing: one
  command when fast, one per character when slow.\<close>

theorem send_queues_command:
  assumes "accepts_writes port st" and "note \<noteq> []"
  shows "\<exists>st' pieces. send command (Arg (int port)) slow add_nl nl note st = (Inr (), st') \<and>
    queued port st' = queued port st @ map (Pair ''TRANSPORT_WRITE'') pieces \<and>
    concat pieces = ensure_has_newline command add_nl nl \<and>
    (if slow \<or> b_force_slow st then \<forall>p\<in>set pieces. length p = 1 else length pieces = 1) \<and>
    (\<forall>i. i \<noteq> port \<longrightarrow> b_processes st' ! i = b_processes st ! i)"
proof -
  let ?note = "''Note: '' @ note @ (if last note = newline then [] else [newline])"
  let ?st1 = "st\<lparr>b_notes := b_notes st @ [?note]\<rparr>"
  let ?cmd = "ensure_has_newline command add_nl nl"
  have a: "accepts_writes port ?st1" using assms(1) by (simp add: accepts_writes_def)
  have s: "send command (Arg (int port)) slow add_nl nl note st =
      (if slow \<or> b_force_slow st then send_each (map (\<lambda>c. [c]) ?cmd) port ?st1
       else send_command_to_device ?cmd port ?st1)"
    using assms
    by (simp add: send_def bindS_def validate_port_def require_healthy_def add_log_note_def
        accepts_writes_def Let_def)
  show ?thesis
  proof (cases "slow \<or> b_force_slow st")
    case True
    from send_each_ok [OF a, of "map (\<lambda>c. [c]) ?cmd"] obtain st' where
      "send_each (map (\<lambda>c. [c]) ?cmd) port ?st1 = (Inr (), st')"
      "queued port st' = queued port ?st1 @ map (Pair CMD_TRANSPORT_WRITE) (map (\<lambda>c. [c]) ?cmd)"
      "\<forall>i. i \<noteq> port \<longrightarrow> b_processes st' ! i = b_processes ?st1 ! i" by blast
    moreover have "concat (map (\<lambda>c. [c]) ?cmd) = ?cmd" by (induction "?cmd") simp_all
    ultimately show ?thesis unfolding s using True
      by (intro exI [of _ st'] exI [of _ "map (\<lambda>c. [c]) ?cmd"])
        (simp add: queued_def CMD_TRANSPORT_WRITE_def)
  next
    case False
    from send_command_to_device_ok [OF a, of ?cmd] obtain st' where
      "send_command_to_device ?cmd port ?st1 = (Inr (), st')"
      "queued port st' = queued port ?st1 @ [(CMD_TRANSPORT_WRITE, ?cmd)]"
      "\<forall>i. i \<noteq> port \<longrightarrow> b_processes st' ! i = b_processes ?st1 ! i" by blast
    then show ?thesis unfolding s using False
      by (intro exI [of _ st'] exI [of _ "[?cmd]"]) (simp add: queued_def CMD_TRANSPORT_WRITE_def)
  qed
qed

theorem send_queues_command_witness:
  "\<exists>st' pieces. send ''ls'' (Arg 0) True True [newline] ''n'' small_board = (Inr (), st') \<and>
    queued 0 st' = map (Pair ''TRANSPORT_WRITE'') pieces \<and> concat pieces = ''ls'' @ [newline]"
  using send_queues_command [of 0 small_board "''n''" "''ls''" True True "[newline]"]
  by (auto simp: accepts_writes_def small_board_def new_handle_def fresh_sproc_def
      CMD_TRANSPORT_WRITE_def queued_def ensure_has_newline_def ends_with_def)

section \<open>Tries\<close>

text \<open>The state after the tries from \<open>i\<close> up to \<open>k\<close>.\<close>

definition after_tries :: "(nat \<Rightarrow> 'a action) \<Rightarrow> nat \<Rightarrow> nat \<Rightarrow> board \<Rightarrow> board" where
  "after_tries attempt i k st = fold (\<lambda>j s. snd (attempt j s)) [i..<k] st"

lemma after_tries_step:
  "i < k \<Longrightarrow> after_tries attempt i k st = after_tries attempt (Suc i) k (snd (attempt i st))"
  by (simp add: after_tries_def upt_conv_Cons)

text \<open>\<open>answers attempt resp\<close>: the \<open>j\<close>-th try does not raise and gives the response \<open>resp j\<close>.\<close>

definition answers :: "(nat \<Rightarrow> 'p expect_response action) \<Rightarrow> (nat \<Rightarrow> 'p expect_response) \<Rightarrow> bool" where
  "answers attempt resp \<longleftrightarrow> (\<forall>j s. fst (attempt j s) = Inr (resp j))"

lemma answersE:
  assumes "answers attempt resp"
  obtains s' where "attempt j s = (Inr (resp j), s')"
  using assms unfolding answers_def by (metis prod.collapse)

lemma tries_time_out:
  assumes "answers attempt resp" and "\<forall>j. i \<le> j \<and> j < i + n \<longrightarrow> er_timedout (resp j)"
  shows "tries attempt i n last_result st =
    (Inr (if n = 0 then last_result else Some (resp (i + n - 1))), after_tries attempt i (i + n) st)"
  using assms(2)
proof (induction n arbitrary: i st last_result)
  case (Suc n)
  then have t: "er_timedout (resp i)" by simp
  from Suc.prems have "\<forall>j. Suc i \<le> j \<and> j < Suc i + n \<longrightarrow> er_timedout (resp j)" by simp
  moreover obtain st1 where a: "attempt i st = (Inr (resp i), st1)"
    using answersE [OF assms(1)] .
  ultimately show ?case using Suc.IH [of "Suc i" "Some (resp i)" st1] t
    by (simp add: after_tries_step [of i] a)
qed (simp add: returnS_def after_tries_def)

lemma tries_in_time:
  assumes "answers attempt resp" and "\<forall>j. i \<le> j \<and> j < i + m \<longrightarrow> er_timedout (resp j)"
    and "\<not> er_timedout (resp (i + m))" and "m < n"
  shows "tries attempt i n last_result st =
    (Inr (Some (resp (i + m))), after_tries attempt i (Suc (i + m)) st)"
  using assms(2-4)
proof (induction m arbitrary: i n st last_result)
  case 0
  then obtain n' where "n = Suc n'" by (cases n) auto
  moreover obtain st1 where "attempt i st = (Inr (resp i), st1)"
    using answersE [OF assms(1)] .
  ultimately show ?case using 0 by (simp add: returnS_def after_tries_def)
next
  case (Suc m)
  then obtain n' where n: "n = Suc n'" "m < n'" by (cases n) auto
  from Suc.prems(1) have t: "er_timedout (resp i)" by simp
  from Suc.prems(1) have "\<forall>j. Suc i \<le> j \<and> j < Suc i + m \<longrightarrow> er_timedout (resp j)" by simp
  moreover obtain st1 where a: "attempt i st = (Inr (resp i), st1)"
    using answersE [OF assms(1)] .
  ultimately show ?case using Suc.IH [of "Suc i" n' "Some (resp i)" st1] Suc.prems(2) n t
    by (simp add: after_tries_step [of i] a)
qed

text \<open>Send-and-expect tries until the first response in time and makes no further try; when
  all tries time out it returns the last response or raises, as asked. With no try at all it
  raises \<open>UnboundLocalError\<close>, since no response was ever assigned.\<close>

theorem send_and_expect_tries:
  assumes "answers attempt resp"
  shows "send_and_expect attempt n rft st =
    (if n = 0 then (Inl UnboundLocalError, st)
     else if \<forall>j<n. er_timedout (resp j)
       then (if rft then Inl DeviceError else Inr (resp (n - 1)), after_tries attempt 0 n st)
     else (let m = (LEAST j. \<not> er_timedout (resp j))
           in (Inr (resp m), after_tries attempt 0 (Suc m) st)))"
proof (cases "\<forall>j<n. er_timedout (resp j)")
  case True
  then have "\<forall>j. 0 \<le> j \<and> j < 0 + n \<longrightarrow> er_timedout (resp j)" by simp
  from tries_time_out [OF assms this, of None st] True show ?thesis
    by (auto simp: send_and_expect_def raiseS_def returnS_def after_tries_def)
next
  case False
  define m where "m = (LEAST j. \<not> er_timedout (resp j))"
  from False obtain j where "j < n" "\<not> er_timedout (resp j)" by blast
  note j = this
  have "\<not> er_timedout (resp m)" unfolding m_def using j(2) by (rule LeastI)
  moreover have "m \<le> j" unfolding m_def using j(2) by (rule Least_le)
  moreover have "\<forall>i<m. er_timedout (resp i)"
    unfolding m_def using not_less_Least by blast
  ultimately have m: "\<not> er_timedout (resp m)" "m < n" "\<forall>j<m. er_timedout (resp j)"
    using j(1) by simp_all
  then have "\<forall>j. 0 \<le> j \<and> j < 0 + m \<longrightarrow> er_timedout (resp j)" by simp
  from tries_in_time [OF assms this, of n None st] m have
    "tries attempt 0 n None st = (Inr (Some (resp m)), after_tries attempt 0 (Suc m) st)" by simp
  with m False show ?thesis
    by (auto simp: send_and_expect_def returnS_def m_def [symmetric] Let_def)
qed

definition late :: "unit expect_response" where
  "late = \<lparr>er_index = None, er_before = [], er_after = [], er_match = None, er_time_elapsed = 1,
     er_timedout = True, er_remaining = [], er_match_list = []\<rparr>"

theorem send_and_expect_tries_witness:
  "send_and_expect (\<lambda>_. returnS late) 0 True small_board = (Inl UnboundLocalError, small_board) \<and>
   fst (send_and_expect (\<lambda>_. returnS late) 2 True small_board) = Inl DeviceError"
proof -
  have a: "answers (\<lambda>_. returnS late) (\<lambda>_. late)"
    by (simp add: answers_def returnS_def)
  have "er_timedout late" by (simp add: late_def)
  then show ?thesis
    by (simp add: send_and_expect_tries [OF a])
qed

section \<open>Starting and stopping\<close>


definition two_children :: "(child_env \<times> unit sproc) list" where
  "two_children = [(good_env, fresh_sproc []), (good_env\<lparr>starts_in_time := False\<rparr>, fresh_sproc [])]"


end
