(* ===== verification/Switchboard_Ops.thy ===== *)
theory Switchboard_Ops
  imports Switchboard Host_Utils Transport_Process
begin

text \<open>
  The other methods of \<open>SwitchboardDefault\<close> (\<open>gazoo_device/switchboard/switchboard.py\<close>): opening and
  closing of transports, calls of transport methods, buttons, new log files, file transfer. The
  state is the switchboard with the state of the child processes, which run on while the parent
  polls: \<open>te_rounds\<close> is what they do between two polls, \<open>te_command\<close> a command put into the queue of
  one, and \<open>te_is_open\<close> its shared flag. Times are in microseconds.
\<close>

section \<open>Processes\<close>

record 'c transport_env =
  te_child :: child_env
  te_opens :: "nat \<Rightarrow> unit result"
  te_is_open :: "nat \<Rightarrow> 'c \<Rightarrow> bool"
  te_command :: "nat \<Rightarrow> string \<Rightarrow> 'c \<Rightarrow> 'c"
  te_rounds :: "'c \<Rightarrow> 'c"
  te_clock :: "nat \<Rightarrow> int"

type_synonym ('c, 'a) sb_action = "(board \<times> 'c, 'a) stateful"

definition onBoard :: "'a action \<Rightarrow> ('c, 'a) sb_action" where
  "onBoard m = (\<lambda>(st, c). case m st of (r, st') \<Rightarrow> (r, (st', c)))"

definition onChild :: "('c \<Rightarrow> 'c) \<Rightarrow> ('c, unit) sb_action" where
  "onChild f = (\<lambda>(st, c). (Inr (), (st, f c)))"

definition sb_note :: "string \<Rightarrow> ('c, unit) sb_action" where
  "sb_note msg = onBoard (add_log_note msg)"

definition port_arg :: "nat \<Rightarrow> ('c, unit) sb_action" where
  "port_arg port = onBoard (validate_port (Arg (int port)))"

definition on_process :: "nat \<Rightarrow> (string sproc \<Rightarrow> unit result \<times> string sproc) \<Rightarrow> unit action" where
  "on_process port f st =
     (if port < length (b_processes st) then
        (let h = b_processes st ! port; (r, p) = f (h_proc h)
         in (r, st\<lparr>b_processes := (b_processes st)[port := h\<lparr>h_proc := p\<rparr>]\<rparr>))
      else (Inl IndexError, st))"

text \<open>A command to a transport process, without waiting until it is consumed.\<close>

definition transport_command :: "'c transport_env \<Rightarrow> nat \<Rightarrow> string \<Rightarrow> string \<Rightarrow> ('c, unit) sb_action" where
  "transport_command te port cmd data =
     bindS (onBoard (on_process port (send_command (te_child te) id (\<lambda>_. 0) cmd data False))) (\<lambda>_.
       onChild (te_command te port cmd))"

section \<open>Opening and closing of transports\<close>

definition CONSUMPTION_TIMEOUT :: int where
  "CONSUMPTION_TIMEOUT = 6000000"

definition open_poll :: "'c transport_env \<Rightarrow> nat \<Rightarrow> (bool \<Rightarrow> bool) \<Rightarrow> int \<Rightarrow> ('c, bool) rconf" where
  "open_poll te port ok timeout =
     \<lparr>rc_func = (\<lambda>c. (Inr (te_is_open te port c), te_rounds te c)), rc_is_successful = ok,
      rc_timeout = timeout, rc_interval = 100000, rc_reraise = True,
      rc_exc_type = CommunicationTimeoutError, rc_has_name = True,
      rc_repr = (\<lambda>_. []), rc_clock = te_clock te\<rparr>"

text \<open>Waiting for the flag; when the time is over the process is stopped.\<close>

definition wait_for_flag :: "'c transport_env \<Rightarrow> nat \<Rightarrow> (bool \<Rightarrow> bool) \<Rightarrow> int \<Rightarrow> ('c, unit) sb_action" where
  "wait_for_flag te port ok timeout =
     exceptS
       (\<lambda>(st, c). let e = retry (open_poll te port ok timeout) c
                  in (bindE (re_result e) (\<lambda>_. Inr ()), (st, re_state e)))
       (\<lambda>e. if e = CommunicationTimeoutError
            then bindS (onBoard (on_process port (stop (te_child te)))) (\<lambda>_. raiseS ProcessCommunicationError)
            else raiseS e)"

definition close_port_button :: "'c transport_env \<Rightarrow> nat \<Rightarrow> ('c, unit) sb_action" where
  "close_port_button te port = onBoard (\<lambda>st.
     if port < length (b_buttons st) then
       (case close_buttons (te_opens te) (b_buttons st ! port) of
          (r, f) \<Rightarrow> (r, st\<lparr>b_buttons := (b_buttons st)[port := f]\<rparr>))
     else (Inr (), st))"

definition close_transport_body :: "'c transport_env \<Rightarrow> nat \<Rightarrow> ('c, unit) sb_action" where
  "close_transport_body te port =
     bindS (port_arg port) (\<lambda>_.
     bindS (sb_note (''closing transport for port '' @ show_nat port)) (\<lambda>_.
     bindS (close_port_button te port) (\<lambda>_.
     bindS (transport_command te port ''TRANSPORT_CLOSE'' []) (\<lambda>_.
     bindS (wait_for_flag te port not_func CONSUMPTION_TIMEOUT) (\<lambda>_.
       sb_note (''closed transport for port '' @ show_nat port))))))"

definition sb_close_transport :: "'c transport_env \<Rightarrow> nat \<Rightarrow> ('c, unit) sb_action" where
  "sb_close_transport te port = logged (close_transport_body te port)"

definition open_transport_body :: "'c transport_env \<Rightarrow> nat \<Rightarrow> int \<Rightarrow> ('c, unit) sb_action" where
  "open_transport_body te port timeout =
     bindS (port_arg port) (\<lambda>_.
     bindS (sb_note (''opening transport for port '' @ show_nat port)) (\<lambda>_.
     bindS (transport_command te port ''TRANSPORT_OPEN'' []) (\<lambda>_.
     bindS (wait_for_flag te port is_true timeout) (\<lambda>_.
       sb_note (''opened transport for port '' @ show_nat port)))))"

definition sb_open_transport :: "'c transport_env \<Rightarrow> nat \<Rightarrow> int \<Rightarrow> ('c, unit) sb_action" where
  "sb_open_transport te port timeout = logged (open_transport_body te port timeout)"

definition OPEN_TIMEOUT :: int where
  "OPEN_TIMEOUT = 30000000"

primrec for_ports :: "(nat \<Rightarrow> ('c, unit) sb_action) \<Rightarrow> nat list \<Rightarrow> ('c, unit) sb_action" where
  "for_ports f [] = returnS ()"
| "for_ports f (p # ps) = bindS (f p) (\<lambda>_. for_ports f ps)"

definition number_transports :: "board \<Rightarrow> nat" where
  "number_transports st = length (b_processes st)"

definition close_all_transports :: "'c transport_env \<Rightarrow> ('c, unit) sb_action" where
  "close_all_transports te = logged (\<lambda>(st, c). for_ports (sb_close_transport te) [0..<number_transports st] (st, c))"

definition open_all_transports :: "'c transport_env \<Rightarrow> unit action \<Rightarrow> ('c, unit) sb_action" where
  "open_all_transports te start_up =
     logged (bindS (onBoard (health_check start_up)) (\<lambda>_ (st, c).
       for_ports (\<lambda>p. sb_open_transport te p OPEN_TIMEOUT) [0..<number_transports st] (st, c)))"

section \<open>Start-up\<close>

text \<open>
  What \<open>health_check\<close> does the first time: transport processes for the transports, the log writer,
  the log filter when there is a parser, and all of them started.
\<close>

definition log_writer_process :: "string sproc" where
  "log_writer_process = fresh_sproc [''MAX_LOG_SIZE'', ''NEW_LOG_FILE'']"

definition log_filter_process :: "string sproc" where
  "log_filter_process = fresh_sproc [''ADD_NEW_FILTER'', ''NEW_LOG_FILE'']"

primrec add_transport_processes :: "nat \<Rightarrow> unit action" where
  "add_transport_processes 0 = returnS ()"
| "add_transport_processes (Suc n) = bindS add_transport_process (\<lambda>_. add_transport_processes n)"

definition put_processes :: "string sproc list \<Rightarrow> board \<Rightarrow> board" where
  "put_processes ps st =
     (let n = length (b_processes st) in
      st\<lparr>b_processes := map (\<lambda>(h, p). h\<lparr>h_proc := p\<rparr>) (zip (b_processes st) ps),
         b_log_writer := (case drop n ps of p # _ \<Rightarrow> Some p | [] \<Rightarrow> None),
         b_log_filter := (case drop n ps of _ # p # _ \<Rightarrow> Some p | _ \<Rightarrow> None)\<rparr>)"

definition start_switchboard :: "child_env list \<Rightarrow> nat \<Rightarrow> bool \<Rightarrow> unit action" where
  "start_switchboard envs transports has_parser =
     bindS (add_transport_processes transports) (\<lambda>_ st.
       let st1 = st\<lparr>b_log_writer := Some log_writer_process,
             b_log_filter := (if has_parser then Some log_filter_process else None)\<rparr>
       in case start_processes (zip envs (all_processes st1)) of
            (r, ps) \<Rightarrow> (r, put_processes ps st1))"

definition new_switchboard :: "bool \<Rightarrow> ftdi list \<Rightarrow> board" where
  "new_switchboard force_slow button_list =
     \<lparr>b_processes = [], b_log_writer = None, b_log_filter = None, b_users = 0, b_next_id = 0, b_raw_queue = [],
      b_notes = [], b_healthy = None, b_force_slow = force_slow, b_buttons = button_list\<rparr>"

section \<open>Calls of transport methods\<close>

text \<open>
  \<open>has_method\<close>: the transport class has the method; \<open>response\<close> is what the child put into the result
  queue.
\<close>

definition sb_call :: "'c transport_env \<Rightarrow> (string \<Rightarrow> bool) \<Rightarrow> bool \<times> 'r \<Rightarrow> string \<Rightarrow> nat \<Rightarrow> ('c, 'r) sb_action" where
  "sb_call te has_method response method_name port =
     bindS (port_arg port) (\<lambda>_.
       if \<not> has_method method_name then raiseS AttributeError
       else
         bindS (sb_note (''Executing '' @ method_name @ '' in transport '' @ show_nat port)) (\<lambda>_.
         bindS (transport_command te port ''TRANSPORT_CALL'' method_name) (\<lambda>_.
           case response of (ok, value) \<Rightarrow> if ok then returnS value else raiseS DeviceError)))"

text \<open>The call inside \<open>do_and_expect\<close>; what the child does meanwhile, from \<open>c\<close>, is left to it.\<close>

definition call_and_expect ::
  "(string \<Rightarrow> 'p option) \<Rightarrow> 'p expect_args \<Rightarrow> string \<Rightarrow> ('p list \<Rightarrow> 'p expect_response action) \<Rightarrow>
   (string \<Rightarrow> nat \<Rightarrow> ('c, 'r) sb_action) \<Rightarrow> 'c \<Rightarrow> string \<Rightarrow> nat \<Rightarrow> bool \<Rightarrow> ('p expect_response \<times> 'r) action" where
  "call_and_expect compile a msg wait call c method_name port raise_for_timeout =
     bindS (do_and_expect compile a msg wait
         (Some (\<lambda>st. case call method_name port (st, c) of (r, (st', _)) \<Rightarrow> (r, st')))) (\<lambda>(expect_ret, func_ret).
       if er_timedout expect_ret \<and> raise_for_timeout then raiseS DeviceError else returnS (expect_ret, func_ret))"

definition transport_serial_set_baudrate ::
  "(string \<Rightarrow> nat \<Rightarrow> ('c, 'r) sb_action) \<Rightarrow> nat \<Rightarrow> ('c, unit) sb_action" where
  "transport_serial_set_baudrate call port =
     logged (bindS (call ''flush_buffers'' port) (\<lambda>_.
             bindS (call ''set_property'' port) (\<lambda>_.
             bindS (call ''flush_buffers'' port) (\<lambda>_. returnS ()))))"

definition transport_serial_send_xon :: "(string \<Rightarrow> nat \<Rightarrow> ('c, 'r) sb_action) \<Rightarrow> nat \<Rightarrow> ('c, unit) sb_action" where
  "transport_serial_send_xon call port = logged (bindS (call ''send_xon'' port) (\<lambda>_. returnS ()))"

definition transport_serial_send_break_byte :: "(string \<Rightarrow> nat \<Rightarrow> ('c, 'r) sb_action) \<Rightarrow> nat \<Rightarrow> ('c, unit) sb_action" where
  "transport_serial_send_break_byte call port = logged (bindS (call ''send_break_byte'' port) (\<lambda>_. returnS ()))"

section \<open>Buttons\<close>

definition check_button_args :: "string arg \<Rightarrow> nat \<Rightarrow> int arg \<Rightarrow> int arg \<Rightarrow> unit action" where
  "check_button_args button port duration wait =
     bindS (validate_port (Arg (int port))) (\<lambda>_ st.
       if b_buttons st = [] then (Inl DeviceError, st)
       else case (button, duration, wait) of
           (Arg b, Arg d, Arg w) \<Rightarrow>
             if d < 0 \<or> w < 0 then (Inl DeviceError, st)
             else if port \<ge> length (b_buttons st) then (Inl IndexError, st)
             else if \<not> is_valid (b_buttons st ! port) b then (Inl DeviceError, st)
             else (Inr (), st)
         | _ \<Rightarrow> (Inl DeviceError, st))"

definition on_button :: "nat \<Rightarrow> unit ftdi_op \<Rightarrow> unit action" where
  "on_button port f st =
     (if port < length (b_buttons st) then
        (case f (b_buttons st ! port) of (r, b) \<Rightarrow> (r, st\<lparr>b_buttons := (b_buttons st)[port := b]\<rparr>))
      else (Inl IndexError, st))"

definition arg_value :: "'a \<Rightarrow> 'a arg \<Rightarrow> 'a" where
  "arg_value x a = (case a of Arg v \<Rightarrow> v | WrongType \<Rightarrow> x)"

definition sb_click :: "(nat \<Rightarrow> unit result) \<Rightarrow> string arg \<Rightarrow> int arg \<Rightarrow> nat \<Rightarrow> unit action" where
  "sb_click opens button duration port =
     logged (bindS (check_button_args button port duration (Arg 0)) (\<lambda>_.
             bindS (add_log_note (''click button '' @ arg_value [] button @ '' - begin'')) (\<lambda>_.
             bindS (on_button port (click opens (arg_value [] button) (arg_value 0 duration))) (\<lambda>_.
               add_log_note (''click button '' @ arg_value [] button @ '' - end'')))))"

definition sb_press :: "(nat \<Rightarrow> unit result) \<Rightarrow> string arg \<Rightarrow> int arg \<Rightarrow> nat \<Rightarrow> unit action" where
  "sb_press opens button wait port =
     logged (bindS (check_button_args button port (Arg 0) wait) (\<lambda>_.
             bindS (add_log_note (''pressing button '' @ arg_value [] button @ '' - begin'')) (\<lambda>_.
             bindS (on_button port (press opens (arg_value [] button) (arg_value 0 wait))) (\<lambda>_.
               add_log_note (''pressing button '' @ arg_value [] button @ '' - end'')))))"

definition sb_release :: "(nat \<Rightarrow> unit result) \<Rightarrow> string arg \<Rightarrow> nat \<Rightarrow> unit action" where
  "sb_release opens button port =
     logged (bindS (check_button_args button port (Arg 0) (Arg 0)) (\<lambda>_.
             bindS (on_button port (release opens (arg_value [] button))) (\<lambda>_.
               add_log_note (''released button '' @ arg_value [] button))))"

text \<open>The three methods that act on a button and expect: \<open>act\<close> is one of the above.\<close>

definition button_and_expect ::
  "(string \<Rightarrow> 'p option) \<Rightarrow> 'p expect_args \<Rightarrow> string \<Rightarrow> ('p list \<Rightarrow> 'p expect_response action) \<Rightarrow> unit action \<Rightarrow> bool \<Rightarrow>
   'p expect_response action" where
  "button_and_expect compile a msg wait act raise_for_timeout =
     bindS (do_and_expect compile a msg wait (Some act)) (\<lambda>(expect_ret, _).
       if er_timedout expect_ret \<and> raise_for_timeout then raiseS DeviceError else returnS expect_ret)"

section \<open>The log\<close>

text \<open>A command to the log writer or the log filter, waiting until it is consumed.\<close>

record log_env =
  le_child :: child_env
  le_consume :: "string sproc \<Rightarrow> string sproc"
  le_clock :: "nat \<Rightarrow> int"
  le_exists :: "nat \<Rightarrow> bool"

definition log_command :: "log_env \<Rightarrow> string \<Rightarrow> string \<Rightarrow> string sproc \<Rightarrow> unit result \<times> string sproc" where
  "log_command le cmd data p = send_command (le_child le) (le_consume le) (le_clock le) cmd data True p"

definition to_writer :: "(string sproc \<Rightarrow> unit result \<times> string sproc) \<Rightarrow> unit action" where
  "to_writer f st =
     (case b_log_writer st of
        None \<Rightarrow> (Inl AttributeError, st)
      | Some p \<Rightarrow> (case f p of (r, p') \<Rightarrow> (r, st\<lparr>b_log_writer := Some p'\<rparr>)))"

definition to_filter :: "(string sproc \<Rightarrow> unit result \<times> string sproc) \<Rightarrow> unit action" where
  "to_filter f st =
     (case b_log_filter st of
        None \<Rightarrow> (Inl AttributeError, st)
      | Some p \<Rightarrow> (case f p of (r, p') \<Rightarrow> (r, st\<lparr>b_log_filter := Some p'\<rparr>)))"

definition runs :: "string sproc option \<Rightarrow> bool" where
  "runs p = (case p of None \<Rightarrow> False | Some q \<Rightarrow> is_running q)"

definition add_new_filter :: "unit action \<Rightarrow> log_env \<Rightarrow> bool \<Rightarrow> string \<Rightarrow> unit action" where
  "add_new_filter start_up le file_exists filter_path =
     logged (if \<not> file_exists then raiseS ValueError
       else bindS (health_check start_up) (\<lambda>_ st.
         if \<not> runs (b_log_filter st) then (Inl RuntimeError, st)
         else to_filter (log_command le ''ADD_NEW_FILTER'' filter_path) st))"

definition set_max_log_size :: "unit action \<Rightarrow> log_env \<Rightarrow> int arg \<Rightarrow> (int \<Rightarrow> string) \<Rightarrow> unit action" where
  "set_max_log_size start_up le max_log_size show_size =
     logged (bindS (health_check start_up) (\<lambda>_ st.
       if \<not> runs (b_log_writer st) then (Inl RuntimeError, st)
       else case max_log_size of
           WrongType \<Rightarrow> (Inl ValueError, st)
         | Arg n \<Rightarrow> to_writer (log_command le ''MAX_LOG_SIZE'' (show_size n)) st))"

text \<open>
  The new file is waited for; \<open>le_exists n\<close> is whether it exists at the n-th look. When it does
  not appear, the log filter is stopped first.
\<close>

definition file_poll :: "log_env \<Rightarrow> (nat, bool) rconf" where
  "file_poll le =
     \<lparr>rc_func = (\<lambda>n. (Inr (le_exists le n), Suc n)), rc_is_successful = is_true,
      rc_timeout = CONSUMPTION_TIMEOUT, rc_interval = 100000, rc_reraise = True,
      rc_exc_type = CommunicationTimeoutError, rc_has_name = True, rc_repr = (\<lambda>_. []), rc_clock = le_clock le\<rparr>"

definition start_new_log :: "unit action \<Rightarrow> log_env \<Rightarrow> string \<Rightarrow> unit action" where
  "start_new_log start_up le log_path =
     logged (bindS (health_check start_up) (\<lambda>_ st.
       if \<not> runs (b_log_writer st) then (Inl RuntimeError, st)
       else
         bindS (\<lambda>st. if b_log_filter st = None then (Inr (), st)
                     else to_filter (log_command le ''NEW_LOG_FILE'' log_path) st) (\<lambda>_.
         bindS (to_writer (log_command le ''NEW_LOG_FILE'' log_path)) (\<lambda>_.
           case re_result (retry (file_poll le) 0) of
             Inr _ \<Rightarrow> returnS ()
           | Inl e \<Rightarrow>
               if e = CommunicationTimeoutError then
                 bindS (to_filter (stop (le_child le))) (\<lambda>_.
                 bindS (to_writer (stop (le_child le))) (\<lambda>_. raiseS ProcessCommunicationError))
               else raiseS e)) st))"

section \<open>Files\<close>

text \<open>
  \<open>verify_file_on_transport\<close>: \<open>answer\<close> is the response to \<open>md5sum\<close> on the device. Its index is 0 for
  a checksum, the group \<open>checksum\<close> of the match, and 1 for a file that is missing.
\<close>

definition host_checksum :: "'s host \<Rightarrow> string \<Rightarrow> ('s, string) stateful" where
  "host_checksum h source_file =
     bindS (runS h [''which'', ''md5sum''] None) (\<lambda>w.
       if ce_code w \<noteq> 0 then raiseS CommandFailed
       else if \<not> contains ''md5sum'' (ce_stdout w) then raiseS DeviceError
       else bindS (runS h [rstrip (ce_stdout w), source_file] None) (\<lambda>m.
         if ce_code m \<noteq> 0 then raiseS DeviceError
         else case py_split (ce_stdout m) of md5 # _ \<Rightarrow> returnS md5 | [] \<Rightarrow> raiseS IndexError))"

definition verify_file_on_transport ::
  "'s host \<Rightarrow> 's \<Rightarrow> string \<Rightarrow> string \<Rightarrow> nat \<Rightarrow> string arg \<Rightarrow> 'p expect_response action \<Rightarrow> string \<Rightarrow> bool action" where
  "verify_file_on_transport h s source_file destination_path port verify_method answer checksum =
     bindS (validate_port (Arg (int port))) (\<lambda>_.
       if \<not> h_exists h source_file s then raiseS DeviceError
       else case verify_method of
           WrongType \<Rightarrow> raiseS DeviceError
         | Arg m \<Rightarrow>
             if m \<noteq> ''md5sum'' then raiseS DeviceError
             else bindS (liftS (fst (host_checksum h source_file s))) (\<lambda>host_sum.
               bindS answer (\<lambda>result.
                 if er_timedout result then raiseS DeviceError
                 else
                   bindS (if er_index result = Some 0 \<and> er_match result \<noteq> None then returnS checksum
                          else if er_index result = Some 1 then returnS ''No such file or directory''
                          else raiseS UnboundLocalError) (\<lambda>device_sum.
                     bindS (add_log_note (''verification of '' @ destination_path)) (\<lambda>_.
                       returnS (host_sum = device_sum))))))"

text \<open>
  \<open>xmodem_file_to_transport\<close>: the parent takes the transport of the child, which is closed
  meanwhile. \<open>t_open\<close>, \<open>t_close\<close> and \<open>transfer\<close> are the methods of the transport and of the XMODEM
  library, on the state of the children. The stream is read from and closed; that closing it
  fails is not modelled.
\<close>

definition xmodem_file_to_transport ::
  "'c transport_env \<Rightarrow> unit result \<Rightarrow> ('c, unit) stateful \<Rightarrow> ('c, unit) stateful \<Rightarrow> ('c, bool) stateful \<Rightarrow>
   bool \<Rightarrow> nat \<Rightarrow> ('c, bool) sb_action" where
  "xmodem_file_to_transport te stream parent_open parent_close transfer file_exists port =
     logged (bindS (port_arg port) (\<lambda>_.
        if \<not> file_exists then raiseS DeviceError
        else case stream of
            Inl e \<Rightarrow> raiseS (if e = IOError then DeviceError else e)
          | Inr _ \<Rightarrow>
              finallyS
                (bindS (sb_close_transport te port) (\<lambda>_.
                 bindS (sb_note ''starting xmodem transfer'') (\<lambda>_.
                 bindS (\<lambda>(st, c). case parent_open c of (r, c') \<Rightarrow> (r, (st, c'))) (\<lambda>_.
                   (\<lambda>(st, c). case transfer c of (r, c') \<Rightarrow> (r, (st, c')))))))
                (bindS (sb_note ''finished xmodem transfer'') (\<lambda>_.
                 bindS (\<lambda>(st, c). case parent_close c of (r, c') \<Rightarrow> (r, (st, c'))) (\<lambda>_.
                   sb_open_transport te port OPEN_TIMEOUT)))))"

text \<open>
  \<open>ensure_serial_paths_unlocked\<close>: \<open>serial_paths\<close> are the serial connections of the host, \<open>kill\<close>
  ends a process; what is killed is the process of the last line that \<open>lsof\<close> prints.
\<close>

definition parse_pid :: "string \<Rightarrow> nat option" where
  "parse_pid s = (if s \<noteq> [] \<and> list_all is_digit s then Some (parse_nat s) else None)"

fun ensure_serial_paths_unlocked ::
  "'s host \<Rightarrow> ('s \<Rightarrow> string list) \<Rightarrow> (nat \<Rightarrow> ('s, unit) stateful) \<Rightarrow> string list \<Rightarrow> ('s, unit) stateful" where
  "ensure_serial_paths_unlocked h serial_paths kill [] = returnS ()"
| "ensure_serial_paths_unlocked h serial_paths kill (address # rest) =
     bindS (askS serial_paths) (\<lambda>paths.
     bindS
       (if address \<notin> set paths then returnS ()
        else bindS (catching {CommandFailed}
              (bindS (check_output h [''lsof'', address]) (\<lambda>out. returnS (Some (splitlines str_line_end out))))
              (returnS None)) (\<lambda>out.
            case out of
              None \<Rightarrow> returnS ()
            | Some ls \<Rightarrow>
                (case rev ls of
                   [] \<Rightarrow> raiseS IndexError
                 | l # _ \<Rightarrow>
                     (case py_split l of
                        _ # process_number # _ \<Rightarrow>
                          (case parse_pid process_number of Some n \<Rightarrow> kill n | None \<Rightarrow> returnS ())
                      | _ \<Rightarrow> raiseS IndexError))))
       (\<lambda>_. ensure_serial_paths_unlocked h serial_paths kill rest))"

end
