(* ===== verification/Switchboard_Links.thy ===== *)
theory Switchboard_Links
  imports Switchboard_Ops
begin

text \<open>
  The switchboard with the transport processes of theory \<open>Transport_Process\<close> as its children: what
  opening and closing of a transport guarantees, and what a new log file that does not appear does.
\<close>

section \<open>The children\<close>

text \<open>
  A child is the state of its transport process and whether its loop still runs: an exception of
  \<open>do_work\<close> ends it. Between two polls of the parent every child makes a round.
\<close>

type_synonym ('d, 'm, 'r) child = "bool \<times> ('d, 'm, 'r) tproc"

definition live_round :: "('d, 'm, 'r) tconf \<Rightarrow> ('d, 'm, 'r) child \<Rightarrow> ('d, 'm, 'r) child" where
  "live_round cf ch =
     (case ch of (running, p) \<Rightarrow>
        if running then (case do_work cf p of Inr p' \<Rightarrow> (True, p') | Inl _ \<Rightarrow> (False, p)) else ch)"

definition tp_message :: "string \<Rightarrow> 'm tp_command" where
  "tp_message cmd =
     (if cmd = ''TRANSPORT_CLOSE'' then Cmd_Close else if cmd = ''TRANSPORT_OPEN'' then Cmd_Open else Cmd_Unknown)"

definition tp_put :: "nat \<Rightarrow> string \<Rightarrow> ('d, 'm, 'r) child list \<Rightarrow> ('d, 'm, 'r) child list" where
  "tp_put port cmd chs =
     (case chs ! port of (running, p) \<Rightarrow>
        chs[port := (running, p\<lparr>command_queue := command_queue p @ [tp_message cmd]\<rparr>)])"

definition tp_rounds :: "('d, 'm, 'r) tconf list \<Rightarrow> ('d, 'm, 'r) child list \<Rightarrow> ('d, 'm, 'r) child list" where
  "tp_rounds cfs chs = map2 live_round cfs chs"

definition process_links ::
  "('d, 'm, 'r) tconf list \<Rightarrow> child_env \<Rightarrow> (nat \<Rightarrow> unit result) \<Rightarrow> (nat \<Rightarrow> int) \<Rightarrow> ('d, 'm, 'r) child list transport_env" where
  "process_links cfs env opens tms =
     \<lparr>te_child = env, te_opens = opens, te_is_open = (\<lambda>port chs. transport_open (snd (chs ! port))),
      te_command = tp_put, te_rounds = tp_rounds cfs, te_clock = tms\<rparr>"

section \<open>One round after a command\<close>

context transport_class
begin

lemma round_closes:
  assumes "Transport_Process.drv cf = drv" and "command_queue p = [Cmd_Close]" and "t_close drv (transport p) = Inr t"
  shows "live_round cf (True, p) = (True, p\<lparr>command_queue := [], transport := t, transport_open := False\<rparr>)"
proof -
  have "\<not> drv_is_open drv (dev t)" by (rule t_close_is_closed [OF assms(3)])
  with assms have "do_work cf p = Inr (p\<lparr>command_queue := [], transport := t, transport_open := False\<rparr>)"
    by (simp add: do_work_def process_command_message_def close_transport_def serve_transport_def Let_def)
  then show ?thesis by (simp add: live_round_def)
qed

end

text \<open>Two polls: the first sees the old flag, the second the new one.\<close>

lemma two_polls:
  assumes "te_is_open te port c \<noteq> b" and "te_is_open te port (te_rounds te c) = b"
    and "\<And>x. ok x \<longleftrightarrow> x = b" and "0 < timeout"
    and "te_clock te 1 < te_clock te 0 + timeout" and "te_clock te 3 < te_clock te 0 + timeout"
  shows "wait_for_flag te port ok timeout (st, c) = (Inr (), (st, te_rounds te (te_rounds te c)))"
proof -
  obtain n where n: "nat timeout + 1 = Suc (Suc n)"
    using assms(4) by (metis Suc_eq_plus1 gr0_implies_Suc zero_less_nat_eq)
  have "retry (open_poll te port ok timeout) c =
      \<lparr>re_result = Inr b, re_tried = 2, re_results = [[]], re_state = te_rounds te (te_rounds te c)\<rparr>"
    using assms n by (simp add: retry_def open_poll_def Let_def numeral_2_eq_2 numeral_3_eq_3)
  then show ?thesis by (simp add: wait_for_flag_def exceptS_def)
qed

section \<open>Steps that succeed\<close>

lemma sb_note_ok:
  assumes "b_healthy st = Some True" and "msg \<noteq> []"
  shows "\<exists>ns. sb_note msg (st, c) = (Inr (), (st\<lparr>b_notes := ns\<rparr>, c))"
  using assms
  by (intro exI [of _ "b_notes st @ [''Note: '' @ msg @ (if last msg = newline then [] else [newline])]"])
    (simp add: sb_note_def onBoard_def add_log_note_def bindS_def require_healthy_def)

lemma port_arg_ok:
  "b_healthy st = Some True \<Longrightarrow> port < length (b_processes st) \<Longrightarrow> port_arg port (st, c) = (Inr (), (st, c))"
  by (simp add: port_arg_def onBoard_def validate_port_def bindS_def require_healthy_def)

lemma transport_command_ok:
  assumes "port < length (b_processes st)" and "cmd \<in> set (valid_commands (h_proc (b_processes st ! port)))"
  shows "\<exists>ps. length ps = length (b_processes st) \<and>
    transport_command te port cmd data (st, c) = (Inr (), (st\<lparr>b_processes := ps\<rparr>, te_command te port cmd c))"
proof -
  let ?h = "b_processes st ! port"
  let ?p = "(h_proc ?h)\<lparr>sp_commands := sp_commands (h_proc ?h) @ [(cmd, data)]\<rparr>"
  have "transport_command te port cmd data (st, c) =
      (Inr (), (st\<lparr>b_processes := (b_processes st)[port := ?h\<lparr>h_proc := ?p\<rparr>]\<rparr>, te_command te port cmd c))"
    using assms
    by (simp add: transport_command_def onBoard_def onChild_def on_process_def bindS_def send_command_def Let_def)
  then show ?thesis by (intro exI conjI) simp_all
qed

lemma close_steps:
  assumes "b_healthy st = Some True" and "port < length (b_processes st)" and "b_buttons st = []"
    and "''TRANSPORT_CLOSE'' \<in> set (valid_commands (h_proc (b_processes st ! port)))"
    and "\<And>st. wait_for_flag te port not_func CONSUMPTION_TIMEOUT (st, te_command te port ''TRANSPORT_CLOSE'' c) =
      (Inr (), (st, c'))"
  shows "\<exists>st'. sb_close_transport te port (st, c) = (Inr (), (st', c'))"
proof -
  obtain ns where n: "sb_note (''closing transport for port '' @ show_nat port) (st, c) =
      (Inr (), (st\<lparr>b_notes := ns\<rparr>, c))"
    using sb_note_ok [OF assms(1), of "''closing transport for port '' @ show_nat port" c] by auto
  let ?st1 = "st\<lparr>b_notes := ns\<rparr>"
  have b: "close_port_button te port (?st1, c) = (Inr (), (?st1, c))"
    using assms(3) by (simp add: close_port_button_def onBoard_def)
  obtain ps where t: "transport_command te port ''TRANSPORT_CLOSE'' [] (?st1, c) =
      (Inr (), (?st1\<lparr>b_processes := ps\<rparr>, te_command te port ''TRANSPORT_CLOSE'' c))"
    using transport_command_ok [of port ?st1 "''TRANSPORT_CLOSE''" te "[]" c] assms(2,4) by auto
  let ?st2 = "?st1\<lparr>b_processes := ps\<rparr>"
  obtain ns' where n': "sb_note (''closed transport for port '' @ show_nat port) (?st2, c') =
      (Inr (), (?st2\<lparr>b_notes := ns'\<rparr>, c'))"
    using sb_note_ok [of ?st2 "''closed transport for port '' @ show_nat port" c'] assms(1) by auto
  have "close_transport_body te port (st, c) = (Inr (), (?st2\<lparr>b_notes := ns'\<rparr>, c'))"
    by (simp only: close_transport_body_def bindS_def port_arg_ok [OF assms(1,2)] n b t assms(5) n'
        prod.case sum.case)
  then show ?thesis by (simp add: sb_close_transport_def logged_def exceptS_def)
qed

section \<open>Closing a transport\<close>

lemma tp_rounds_nth:
  "length cfs = length chs \<Longrightarrow> port < length chs \<Longrightarrow> tp_rounds cfs chs ! port = live_round (cfs ! port) (chs ! port)"
  by (simp add: tp_rounds_def)

lemma tp_rounds_length: "length (tp_rounds cfs chs) = min (length cfs) (length chs)"
  by (simp add: tp_rounds_def)

text \<open>A child whose transport is closed, with nothing to do, stays as it is.\<close>

lemma idle_round:
  "command_queue p = [] \<Longrightarrow> \<not> transport_open p \<Longrightarrow> \<not> drv_is_open (Transport_Process.drv cf) (dev (transport p)) \<Longrightarrow>
   live_round cf (True, p) = (True, p)"
  by (simp add: live_round_def do_work_def serve_transport_def Let_def)

text \<open>C31. Closing a TCP transport through the switchboard ends: when the child runs, has no command
  waiting, its flag says open and the socket can be closed, and when two polls fit into the six
  seconds, \<open>close_transport\<close> returns, and then the transport is closed, the event of the process
  says so, the command was consumed, and a round later the process has not reopened the transport,
  whatever its auto-reopen property is.\<close>

theorem close_transport_closes:
  assumes "b_healthy st = Some True" and "port < length (b_processes st)" and "b_buttons st = []"
    and "''TRANSPORT_CLOSE'' \<in> set (valid_commands (h_proc (b_processes st ! port)))"
    and "length cfs = length chs" and "port < length chs" and "Transport_Process.drv (cfs ! port) = tcp_driver sk"
    and "chs ! port = (True, p)" and "command_queue p = []" and "transport_open p"
    and "t_close (tcp_driver sk) (transport p) = Inr t"
    and "tms 1 < tms 0 + 6000000" and "tms 3 < tms 0 + 6000000"
  shows "\<exists>st' chs'. sb_close_transport (process_links cfs env opens tms) port (st, chs) = (Inr (), (st', chs')) \<and>
    chs' ! port = (True, p\<lparr>transport := t, transport_open := False\<rparr>) \<and> \<not> tcp_is_open (dev t)"
proof -
  let ?te = "process_links cfs env opens tms"
  let ?c = "tp_put port ''TRANSPORT_CLOSE'' chs"
  let ?p = "p\<lparr>command_queue := [], transport := t, transport_open := False\<rparr>"
  have c: "?c ! port = (True, p\<lparr>command_queue := [Cmd_Close]\<rparr>)" "length ?c = length chs"
    using assms(6,8,9) by (simp_all add: tp_put_def tp_message_def)
  have closed: "\<not> tcp_is_open (dev t)"
    using tcp.t_close_is_closed [OF assms(11)] by simp
  have r1: "tp_rounds cfs ?c ! port = (True, ?p)"
    using tcp.round_closes [OF assms(7), of "p\<lparr>command_queue := [Cmd_Close]\<rparr>" t] assms(5,6,11) c
    by (simp add: tp_rounds_nth)
  have r2: "tp_rounds cfs (tp_rounds cfs ?c) ! port = (True, ?p)"
    using idle_round [of ?p "cfs ! port"] assms(5-7) closed c r1 by (simp add: tp_rounds_nth tp_rounds_length)
  have w: "wait_for_flag ?te port not_func CONSUMPTION_TIMEOUT (st1, ?c) =
      (Inr (), (st1, tp_rounds cfs (tp_rounds cfs ?c)))" for st1
    using two_polls [of ?te port ?c False not_func CONSUMPTION_TIMEOUT st1] assms(10,12,13) c r1
    by (simp add: process_links_def not_func_def CONSUMPTION_TIMEOUT_def)
  have "te_command ?te port ''TRANSPORT_CLOSE'' chs = ?c" by (simp add: process_links_def)
  with close_steps [OF assms(1-4), of ?te chs "tp_rounds cfs (tp_rounds cfs ?c)"] w
  obtain st' where "sb_close_transport ?te port (st, chs) = (Inr (), (st', tp_rounds cfs (tp_rounds cfs ?c)))"
    by auto
  moreover have "?p = p\<lparr>transport := t, transport_open := False\<rparr>"
    using assms(9) by (cases p) simp
  ultimately show ?thesis using r2 closed by (intro exI conjI) simp_all
qed

text \<open>A switchboard with one running transport process over a TCP transport that is open.\<close>

definition links_board :: board where
  "links_board = (snd (add_transport_process (new_switchboard False [])))\<lparr>b_healthy := Some True\<rparr>"

definition open_tcp :: "unit tcp transport" where
  "open_tcp = example_tcp\<lparr>dev := \<lparr>tcp_socket = Some ()\<rparr>\<rparr>"

definition links_child :: "(unit tcp, unit, unit) child" where
  "links_child = (True, (example_proc open_tcp)\<lparr>transport_open := True\<rparr>)"

theorem close_transport_closes_witness:
  "\<exists>st' chs'. sb_close_transport
      (process_links [example_conf (tcp_driver example_sockets)] good_env (\<lambda>_. Inr ()) (\<lambda>n. 50000 * int n)) 0
      (links_board, [links_child]) = (Inr (), (st', chs')) \<and>
    chs' ! 0 = (True, (snd links_child)\<lparr>transport := example_tcp, transport_open := False\<rparr>)"
proof -
  have t: "t_close (tcp_driver example_sockets) open_tcp = Inr example_tcp"
    by (simp add: t_close_def open_tcp_def tcp_is_open_def tcp_close_def example_tcp_def example_sockets_def)
  show ?thesis
    using close_transport_closes [of links_board 0 "[example_conf (tcp_driver example_sockets)]" "[links_child]"
        example_sockets "snd links_child" example_tcp "\<lambda>n. 50000 * int n" good_env "\<lambda>_. Inr ()"] t
    by (simp add: links_board_def links_child_def add_transport_process_def new_switchboard_def new_handle_def
        fresh_sproc_def example_conf_def example_proc_def)
      blast
qed

section \<open>Every outcome of closing and opening\<close>

text \<open>No exception of the buttons looks like one of the communication with a process.\<close>

definition harmless :: "('s, 'a) stateful \<Rightarrow> bool" where
  "harmless m \<longleftrightarrow> (\<forall>s. fst (m s) \<noteq> Inl ProcessCommunicationError)"

lemma harmlessI: "(\<And>s. fst (m s) \<noteq> Inl ProcessCommunicationError) \<Longrightarrow> harmless m"
  by (simp add: harmless_def)

lemma harmlessD: "harmless m \<Longrightarrow> fst (m s) \<noteq> Inl ProcessCommunicationError"
  by (simp add: harmless_def)

lemma harmless_bind: "harmless m \<Longrightarrow> (\<And>x. harmless (f x)) \<Longrightarrow> harmless (bindS m f)"
  unfolding harmless_def bindS_def by (auto split: prod.split sum.split) (metis fst_conv)

definition opens_ok :: "(nat \<Rightarrow> unit result) \<Rightarrow> bool" where
  "opens_ok opens \<longleftrightarrow> (\<forall>i. opens i \<noteq> Inl ProcessCommunicationError)"

lemma harmless_return: "harmless (returnS x)"
  by (simp add: harmless_def returnS_def)

lemma harmless_init_buttons:
  assumes "opens_ok opens"
  shows "fst (init_buttons opens es f) \<noteq> Inl ProcessCommunicationError"
proof (induction es arbitrary: f)
  case (Cons e es)
  obtain b i p where e: "e = (b, i, p)" by (cases e)
  show ?case using Cons.IH assms by (auto simp: e opens_ok_def split: option.split sum.split)
qed simp

lemma harmless_ensure_init: "opens_ok opens \<Longrightarrow> harmless (ensure_init opens)"
proof (rule harmlessI)
  fix f assume "opens_ok opens"
  then show "fst (ensure_init opens f) \<noteq> Inl ProcessCommunicationError"
    using harmless_init_buttons [of opens "fb_map f" f]
    by (auto simp: ensure_init_def bitbang_device_init_def bindS_def split: prod.split sum.split)
qed

lemma harmless_toggle: "harmless (toggle_button b h)"
  by (rule harmlessI) (auto simp: toggle_button_def Let_def split: option.split prod.split)

lemma harmless_gpio: "opens_ok opens \<Longrightarrow> harmless (gpio opens b d h)"
  unfolding gpio_def
  by (intro harmless_bind harmless_ensure_init harmless_toggle)
    (simp_all add: harmless_toggle harmless_return)

lemma harmless_release: "opens_ok opens \<Longrightarrow> harmless (release opens b)"
  unfolding release_def
  by (intro harmless_bind harmless_ensure_init harmlessI) (simp_all add: harmlessD [OF harmless_gpio])

lemma harmless_release_all: "opens_ok opens \<Longrightarrow> harmless (release_all opens bs)"
  by (induction bs) (simp_all add: harmless_release harmless_return harmless_bind)

lemma harmless_close_buttons:
  assumes "opens_ok opens"
  shows "fst (close_buttons opens f) \<noteq> Inl ProcessCommunicationError"
proof -
  have "harmless (bindS (release_all opens (map fst (fb_down f))) (\<lambda>_ st. (Inr (), st\<lparr>fb_devices := [], fb_init := False\<rparr>)))"
    by (intro harmless_bind harmless_release_all harmlessI assms) simp
  then show ?thesis by (simp add: close_buttons_def harmlessD)
qed

text \<open>
  The other processes of a board, and what the switchboard keeps. A step is \<open>confined\<close> to a port
  when it leaves all that alone, and when \<open>ProcessCommunicationError\<close> means that the process of the
  port was stopped.
\<close>

definition same_others :: "nat \<Rightarrow> board \<Rightarrow> board \<Rightarrow> bool" where
  "same_others port st st' \<longleftrightarrow> length (b_processes st') = length (b_processes st) \<and>
     (\<forall>q. q \<noteq> port \<longrightarrow> b_processes st' ! q = b_processes st ! q) \<and>
     b_log_writer st' = b_log_writer st \<and> b_log_filter st' = b_log_filter st \<and> b_users st' = b_users st"

definition confined :: "nat \<Rightarrow> ('c, 'a) sb_action \<Rightarrow> bool" where
  "confined port m \<longleftrightarrow> (\<forall>st c r st' c'. m (st, c) = (r, (st', c')) \<longrightarrow> same_others port st st' \<and>
     (r = Inl ProcessCommunicationError \<longrightarrow> \<not> is_started (h_proc (b_processes st' ! port))))"

lemma same_others_refl [simp]: "same_others port st st"
  by (simp add: same_others_def)

lemma same_others_trans: "same_others port a b \<Longrightarrow> same_others port b c \<Longrightarrow> same_others port a c"
  by (simp add: same_others_def)

lemma confinedD:
  assumes "confined port m" and "m (st, c) = (r, (st', c'))"
  shows "same_others port st st'"
    and "r = Inl ProcessCommunicationError \<Longrightarrow> \<not> is_started (h_proc (b_processes st' ! port))"
  using assms unfolding confined_def by blast+

lemma confinedI:
  assumes "\<And>st c r st' c'. m (st, c) = (r, (st', c')) \<Longrightarrow> same_others port st st'"
    and "\<And>st c st' c'. m (st, c) = (Inl ProcessCommunicationError, (st', c')) \<Longrightarrow>
      \<not> is_started (h_proc (b_processes st' ! port))"
  shows "confined port m"
  unfolding confined_def using assms by blast

lemma confined_bind:
  assumes m: "confined port m" and f: "\<And>x. confined port (f x)"
  shows "confined port (bindS m f)"
proof (rule confinedI)
  fix st c r st' c' assume b: "bindS m f (st, c) = (r, (st', c'))"
  obtain q st1 c1 where q: "m (st, c) = (q, (st1, c1))" by (metis prod_cases3)
  have 1: "same_others port st st1" by (rule confinedD [OF m q])
  show "same_others port st st'"
  proof (cases q)
    case (Inl e) with b q 1 show ?thesis by (simp add: bindS_def)
  next
    case (Inr x)
    with b q have "f x (st1, c1) = (r, (st', c'))" by (simp add: bindS_def)
    from confinedD(1) [OF f this] have "same_others port st1 st'" .
    with 1 show ?thesis by (rule same_others_trans)
  qed
next
  fix st c st' c' assume b: "bindS m f (st, c) = (Inl ProcessCommunicationError, (st', c'))"
  obtain q st1 c1 where q: "m (st, c) = (q, (st1, c1))" by (metis prod_cases3)
  show "\<not> is_started (h_proc (b_processes st' ! port))"
  proof (cases q)
    case (Inl e) with b q confinedD(2) [OF m q] show ?thesis by (simp add: bindS_def)
  next
    case (Inr x)
    with b q have "f x (st1, c1) = (Inl ProcessCommunicationError, (st', c'))" by (simp add: bindS_def)
    from confinedD(2) [OF f this] show ?thesis by simp
  qed
qed

lemma confined_logged: "confined port m \<Longrightarrow> confined port (logged m)"
proof (rule confinedI)
  fix st c r st' c' assume m: "confined port m" and b: "logged m (st, c) = (r, (st', c'))"
  obtain q st1 c1 where q: "m (st, c) = (q, (st1, c1))" by (metis prod_cases3)
  with b have "st' = st1" by (cases q) (simp_all add: logged_def exceptS_def raiseS_def)
  with confinedD(1) [OF m q] show "same_others port st st'" by simp
next
  fix st c st' c' assume m: "confined port m" and b: "logged m (st, c) = (Inl ProcessCommunicationError, (st', c'))"
  obtain q st1 c1 where q: "m (st, c) = (q, (st1, c1))" by (metis prod_cases3)
  with b have "st' = st1 \<and> q = Inl ProcessCommunicationError"
    by (cases q) (simp_all add: logged_def exceptS_def raiseS_def split: if_splits)
  with confinedD(2) [OF m q] show "\<not> is_started (h_proc (b_processes st' ! port))" by simp
qed

lemma confined_board:
  assumes "\<And>st r st'. m st = (r, st') \<Longrightarrow> same_others port st st' \<and> r \<noteq> Inl ProcessCommunicationError"
  shows "confined port (onBoard m)"
  using assms by (intro confinedI) (auto simp: onBoard_def split: prod.splits)

lemma confined_note: "confined port (sb_note msg)"
  unfolding sb_note_def
  by (rule confined_board)
    (auto simp: add_log_note_def bindS_def require_healthy_def same_others_def split: if_splits)

lemma confined_port: "confined port (port_arg p)"
  unfolding port_arg_def
  by (rule confined_board)
    (auto simp: validate_port_def bindS_def require_healthy_def split: if_splits)

lemma confined_button:
  assumes "opens_ok (te_opens te)"
  shows "confined port (close_port_button te port)"
  unfolding close_port_button_def
proof (rule confined_board)
  fix st :: board and r st'
  assume *: "(if port < length (b_buttons st) then
       (case close_buttons (te_opens te) (b_buttons st ! port) of
          (r, f) \<Rightarrow> (r, st\<lparr>b_buttons := (b_buttons st)[port := f]\<rparr>))
     else (Inr (), st)) = (r, st')"
  then show "same_others port st st' \<and> r \<noteq> Inl ProcessCommunicationError"
    using harmless_close_buttons [OF assms, of "b_buttons st ! port"]
    by (auto simp: same_others_def split: if_splits prod.splits)
qed

lemma same_others_process: "same_others port (st :: board) (st\<lparr>b_processes := (b_processes st)[port := h]\<rparr>)"
  by (simp add: same_others_def)

lemma confined_command: "confined port (transport_command te port cmd data)"
  unfolding transport_command_def
proof (rule confined_bind)
  show "confined port (onBoard (on_process port (send_command (te_child te) id (\<lambda>_. 0) cmd data False)))"
    by (rule confined_board)
      (auto simp: on_process_def send_command_def Let_def same_others_process split: if_splits)
  show "confined port (onChild (te_command te port cmd))"
    by (rule confinedI) (auto simp: onChild_def)
qed

lemma open_poll_result: "re_result (retry (open_poll te port ok timeout) c) \<noteq> Inl ProcessCommunicationError"
proof -
  have "re_result (retry_loop (open_poll te port ok timeout) e n k j rs c) \<noteq> Inl ProcessCommunicationError"
    for e n k j rs
  proof (induction n arbitrary: k j rs c)
    case (Suc n)
    then show ?case by (simp add: open_poll_def Let_def)
  qed simp
  then show ?thesis unfolding retry_def Let_def .
qed

lemma confined_wait: "confined port (wait_for_flag te port ok timeout)"
proof (rule confinedI)
  fix st c r st' c'
  assume w: "wait_for_flag te port ok timeout (st, c) = (r, (st', c'))"
  then show "same_others port st st'"
    by (auto simp: wait_for_flag_def exceptS_def Let_def bindE_def bindS_def onBoard_def on_process_def raiseS_def
        same_others_process split: sum.splits prod.splits if_splits)
next
  fix st c st' c'
  assume w: "wait_for_flag te port ok timeout (st, c) = (Inl ProcessCommunicationError, (st', c'))"
  show "\<not> is_started (h_proc (b_processes st' ! port))"
    using w open_poll_result [of te port ok timeout c]
    by (auto simp: wait_for_flag_def exceptS_def Let_def bindE_def bindS_def onBoard_def on_process_def raiseS_def
        stop_def is_started_def terminate_def split: sum.splits prod.splits if_splits option.splits)
qed

lemma confined_close: "opens_ok (te_opens te) \<Longrightarrow> confined port (sb_close_transport te port)"
  unfolding sb_close_transport_def close_transport_body_def
  by (intro confined_logged confined_bind confined_port confined_note confined_button confined_command confined_wait)

lemma confined_open: "confined port (sb_open_transport te port timeout)"
  unfolding sb_open_transport_def open_transport_body_def
  by (intro confined_logged confined_bind confined_port confined_note confined_command confined_wait)


section \<open>A new log file that does not appear\<close>

lemma file_poll_never:
  assumes "\<And>n. \<not> le_exists le n" and "\<forall>n. le_clock le n + 100000 \<le> le_clock le (n + 2)" and "le_clock le 0 \<le> le_clock le 1"
  shows "re_result (retry (file_poll le) 0) = Inl CommunicationTimeoutError"
proof -
  have f: "fst (rc_func (file_poll le) n) = Inr False" for n
    using assms(1) by (simp add: file_poll_def)
  have ok: "Retry.clock_ok (file_poll le)" using assms(2,3) by (simp add: Retry.clock_ok_def file_poll_def)
  have nd: "\<not> decisive (file_poll le) (call_result (file_poll le) j 0)" for j
    by (simp add: call_result_def f decisive_def) (simp add: file_poll_def is_true_def)
  from retry_outcome [OF ok, of 0] nd show ?thesis
    by (auto simp: ends_after_def timeout_exn_def) (simp_all add: file_poll_def)
qed

lemma stop_started: "is_started p \<Longrightarrow> \<exists>p'. stop env p = (Inr (), p') \<and> \<not> is_started p'"
  using stop_result [of env p] by (cases "stop env p") auto


lemma retry_loop_step:
  "0 < fuel \<Longrightarrow> retry_loop cf e fuel k j rs s = retry_loop cf e (Suc (fuel - 1)) k j rs s"
  by simp

definition quick_log :: log_env where
  "quick_log = \<lparr>le_child = good_env, le_consume = (\<lambda>p. p\<lparr>sp_commands := []\<rparr>),
     le_clock = (\<lambda>n. 100000 * int n), le_exists = (\<lambda>_. False)\<rparr>"

definition running_writer :: "string sproc" where
  "running_writer = log_writer_process\<lparr>sp_process := Some 1, live := [1]\<rparr>"



end
