(* ===== verification/Device_Store.thy ===== *)
theory Device_Store
  imports Gdm_Prelude "HOL-Library.Char_ord" "HOL-Library.List_Lexorder"
begin

text \<open>
  The device configurations of the manager (\<open>manager.py\<close>): property values and their
  type check, the table of aliases, the combination of the two configuration files of a
  category into one table, and the reading and writing of the files. Strings are ASCII;
  a JSON file is kept as the dictionary it holds, whose devices are sorted by name when it is
  written (\<open>sort_keys=True\<close>), as the order of the devices decides between equal aliases.
\<close>

section \<open>Property values\<close>

text \<open>A float is given by its bit pattern.\<close>

datatype pval =
    PNone | PBool bool | PInt int | PFloat int | PStr string
  | PDict "(string \<times> pval) list" | PList "pval list"

type_synonym props = "(string \<times> pval) list"

datatype ptype = T_str | T_NoneType | T_int | T_float | T_dict | T_list

fun is_instance :: "pval \<Rightarrow> ptype \<Rightarrow> bool" where
  "is_instance PNone t = (t = T_NoneType)"
| "is_instance (PBool b) t = (t = T_int)"
| "is_instance (PInt i) t = (t = T_int)"
| "is_instance (PFloat i) t = (t = T_float)"
| "is_instance (PStr s) t = (t = T_str)"
| "is_instance (PDict d) t = (t = T_dict)"
| "is_instance (PList l) t = (t = T_list)"

text \<open>Truth of a value in a condition: both zeros of the floats are false.\<close>

fun pv_true :: "pval \<Rightarrow> bool" where
  "pv_true PNone = False"
| "pv_true (PBool b) = b"
| "pv_true (PInt i) = (i \<noteq> 0)"
| "pv_true (PFloat i) = (i \<noteq> 0 \<and> i \<noteq> 2 ^ 63)"
| "pv_true (PStr s) = (s \<noteq> [])"
| "pv_true (PDict d) = (d \<noteq> [])"
| "pv_true (PList l) = (l \<noteq> [])"

definition non_ascii :: "char \<Rightarrow> bool" where
  "non_ascii c \<longleftrightarrow> of_char c \<ge> (128 :: nat)"

definition type_check :: "pval \<Rightarrow> ptype list \<Rightarrow> unit result" where
  "type_check v types =
     (if \<not> list_ex (is_instance v) types then Inl DeviceError
      else case v of
        PStr s \<Rightarrow>
          if s = [] then Inl DeviceError
          else if length (filter (\<lambda>c. \<not> non_ascii c) s) \<noteq> length s then Inl DeviceError
          else if CHR '' '' \<in> set s then Inl DeviceError
          else if CHR 0x09 \<in> set s then Inl DeviceError
          else if newline \<in> set s then Inl DeviceError
          else Inr ()
      | _ \<Rightarrow> Inr ())"

definition lower_char :: "char \<Rightarrow> char" where
  "lower_char c =
     (let n = (of_char c :: nat) in if 65 \<le> n \<and> n \<le> 90 then char_of (n + 32) else c)"

definition lower :: "string \<Rightarrow> string" where
  "lower s = map lower_char s"

text \<open>\<open>value.lower()\<close>: only strings have it.\<close>

definition lower_value :: "pval \<Rightarrow> string result" where
  "lower_value v = (case v of PStr s \<Rightarrow> Inr (lower s) | _ \<Rightarrow> Inl AttributeError)"

text \<open>\<open>dict(d, **e)\<close> and \<open>d.update(e)\<close>.\<close>

definition dict_update :: "('k \<times> 'v) list \<Rightarrow> ('k \<times> 'v) list \<Rightarrow> ('k \<times> 'v) list" where
  "dict_update d e = foldl (\<lambda>d (k, v). AList.update k v d) d e"

text \<open>\<open>d[k]\<close>, \<open>del d[k]\<close>.\<close>

definition dict_item :: "('k \<times> 'v) list \<Rightarrow> 'k \<Rightarrow> 'v result" where
  "dict_item d k = (case map_of d k of None \<Rightarrow> Inl KeyError | Some v \<Rightarrow> Inr v)"

definition dict_del :: "'k \<Rightarrow> ('k \<times> 'v) list \<Rightarrow> ('k \<times> 'v) list result" where
  "dict_del k d = (if map_of d k = None then Inl KeyError else Inr (AList.delete k d))"

section \<open>Aliases\<close>

definition alias_props :: "string list" where
  "alias_props =
     [''serial_number'', ''console_port_name'', ''alias'', ''adb_serial'', ''hub_port_name'',
      ''secondary_communication_address'', ''ip_address'']"

definition add_alias ::
  "string \<Rightarrow> props \<Rightarrow> string \<Rightarrow> (string \<times> string) list \<Rightarrow> (string \<times> string) list result" where
  "add_alias name all_props p aliases =
     (case map_of all_props p of
        None \<Rightarrow> Inr aliases
      | Some v \<Rightarrow>
          if pv_true v then bindE (lower_value v) (\<lambda>a. Inr (AList.update a name aliases))
          else Inr aliases)"

definition device_aliases ::
  "(string \<times> props) list \<Rightarrow> string \<times> props \<Rightarrow> (string \<times> string) list \<Rightarrow>
   (string \<times> string) list result" where
  "device_aliases device_options = (\<lambda>(name, persistent) aliases.
     bindE (dict_item device_options name) (\<lambda>opts.
       foldE (add_alias name (dict_update persistent opts)) alias_props
         (AList.update (lower name) name aliases)))"

definition create_aliases ::
  "(string \<times> props) list \<Rightarrow> (string \<times> props) list \<Rightarrow> (string \<times> string) list result" where
  "create_aliases devices device_options = foldE (device_aliases device_options) devices []"

section \<open>One category of devices\<close>

text \<open>
  The manager keeps \<open>aliases\<close>, \<open>persistent_dict\<close> and \<open>options_dict\<close> of a category; its
  \<open>_devices\<close> (\<open>other_devices\<close>) holds the same two dictionaries per device and is the function
  \<open>device_config\<close> of them.
\<close>

record catg =
  c_aliases :: "(string \<times> string) list"
  c_persistent :: "(string \<times> props) list"
  c_options :: "(string \<times> props) list"

definition combine_one ::
  "(string \<times> props) list \<Rightarrow> string \<times> props \<Rightarrow> catg \<Rightarrow> catg result" where
  "combine_one device_options = (\<lambda>(name, persistent) c.
     bindE (dict_item device_options name) (\<lambda>opts.
       Inr (c\<lparr>c_persistent := AList.update name
                (AList.update ''name'' (PStr name) persistent) (c_persistent c),
              c_options := AList.update name opts (c_options c)\<rparr>)))"

definition combine_devices_and_device_options ::
  "(string \<times> props) list \<Rightarrow> (string \<times> props) list \<Rightarrow> catg result" where
  "combine_devices_and_device_options devices device_options =
     bindE (create_aliases devices device_options) (\<lambda>aliases.
       foldE (combine_one device_options) devices
         \<lparr>c_aliases = aliases, c_persistent = [], c_options = []\<rparr>)"

definition device_config :: "catg \<Rightarrow> string \<Rightarrow> (props \<times> props) option" where
  "device_config c name =
     (case (map_of (c_persistent c) name, map_of (c_options c) name) of
        (Some p, Some q) \<Rightarrow> Some (p, q) | _ \<Rightarrow> None)"

section \<open>Configuration files\<close>

text \<open>
  \<open>json.load\<close> is the parameter \<open>parse\<close>. A second attempt reads the same handle, whose text the
  first one has consumed.
\<close>

fun load_attempts :: "(string \<Rightarrow> 'j option) \<Rightarrow> string \<Rightarrow> nat \<Rightarrow> 'j result" where
  "load_attempts parse text 0 = Inl DeviceError"
| "load_attempts parse text (Suc n) =
     (case parse text of Some conf \<Rightarrow> Inr conf | None \<Rightarrow> load_attempts parse [] n)"

definition load_config ::
  "(string \<Rightarrow> (string \<times> 'j) list option) \<Rightarrow> string option \<Rightarrow> (string \<times> 'j) list result" where
  "load_config parse file =
     (case file of None \<Rightarrow> Inl DeviceError | Some text \<Rightarrow> load_attempts parse text 2)"

definition config_section :: "string \<Rightarrow> (string \<times> (string \<times> 'v) list) list \<Rightarrow> (string \<times> 'v) list" where
  "config_section key conf = (case map_of conf key of None \<Rightarrow> [] | Some d \<Rightarrow> d)"

type_synonym config_file = "(string \<times> (string \<times> props) list) list"

definition sorted_file :: "config_file \<Rightarrow> config_file" where
  "sorted_file conf = sort_key fst (map (\<lambda>(k, d). (k, sort_key fst d)) conf)"

definition make_device_configs ::
  "(string \<times> props) list \<Rightarrow> (string \<times> props) list \<Rightarrow> (string \<times> props) list \<Rightarrow>
   (string \<times> props) list \<Rightarrow> config_file \<times> config_file" where
  "make_device_configs devices other_devices device_options other_device_options =
     ([(''devices'', devices), (''other_devices'', other_devices)],
      [(''device_options'', device_options), (''other_device_options'', other_device_options)])"

section \<open>What an alias resolves to\<close>

text \<open>The device answers to its name and to every non-empty alias property, in lower case.\<close>

definition claims :: "(string \<times> props) list \<Rightarrow> string \<Rightarrow> string \<times> props \<Rightarrow> bool" where
  "claims device_options a = (\<lambda>(name, persistent).
     a = lower name \<or>
     (\<exists>p \<in> set alias_props.
        case map_of device_options name of
          None \<Rightarrow> False
        | Some opts \<Rightarrow>
            (case map_of (dict_update persistent opts) p of
               Some (PStr s) \<Rightarrow> s \<noteq> [] \<and> a = lower s
             | _ \<Rightarrow> False)))"

lemma map_of_update_if: "map_of (AList.update k v d) a = (if a = k then Some v else map_of d a)"
  by (simp add: update_conv' fun_upd_def)

lemma lower_value_eq [result_simps]: "lower_value v = Inr a \<longleftrightarrow> (\<exists>s. v = PStr s \<and> a = lower s)"
  by (auto simp: lower_value_def split: pval.splits)

lemma dict_item_eq [result_simps]:
  "dict_item d k = Inr v \<longleftrightarrow> map_of d k = Some v"
  "dict_item d k = Inl e \<longleftrightarrow> map_of d k = None \<and> e = KeyError"
  by (auto simp: dict_item_def split: option.splits)

definition named_by :: "props \<Rightarrow> string \<Rightarrow> string \<Rightarrow> bool" where
  "named_by all_props a p \<longleftrightarrow>
     (case map_of all_props p of Some (PStr s) \<Rightarrow> s \<noteq> [] \<and> a = lower s | _ \<Rightarrow> False)"

lemma add_alias_lookup:
  assumes "add_alias name all_props p al = Inr al'"
  shows "map_of al' a = (if named_by all_props a p then Some name else map_of al a)"
proof (cases "map_of all_props p")
  case None
  with assms show ?thesis by (simp add: add_alias_def named_by_def)
next
  case (Some v)
  show ?thesis
  proof (cases "pv_true v")
    case True
    with assms Some obtain s where s: "v = PStr s" and al': "al' = AList.update (lower s) name al"
      by (auto simp: add_alias_def result_simps)
    from True s have "s \<noteq> []" by simp
    with Some s show ?thesis by (simp add: al' named_by_def map_of_update_if)
  next
    case False
    with assms Some have "al' = al" by (simp add: add_alias_def)
    with False Some show ?thesis by (cases v) (simp_all add: named_by_def)
  qed
qed

lemma add_aliases_lookup:
  "foldE (add_alias name all_props) ps al = Inr al' \<Longrightarrow>
   map_of al' a = (if \<exists>p \<in> set ps. named_by all_props a p then Some name else map_of al a)"
proof (induction ps arbitrary: al)
  case (Cons p ps)
  then obtain al1 where 1: "add_alias name all_props p al = Inr al1"
    and 2: "foldE (add_alias name all_props) ps al1 = Inr al'"
    by (auto simp: result_simps)
  from Cons.IH [OF 2] add_alias_lookup [OF 1] show ?case by simp
qed simp

lemma claims_named:
  "map_of device_options name = Some opts \<Longrightarrow>
   claims device_options a (name, persistent) \<longleftrightarrow>
     a = lower name \<or> (\<exists>p \<in> set alias_props. named_by (dict_update persistent opts) a p)"
  by (simp add: claims_def named_by_def)

lemma device_aliases_lookup:
  assumes "device_aliases device_options (name, persistent) al = Inr al'"
  shows "map_of al' a =
    (if claims device_options a (name, persistent) then Some name else map_of al a)"
proof -
  from assms obtain opts where opts: "map_of device_options name = Some opts"
    and f: "foldE (add_alias name (dict_update persistent opts)) alias_props
              (AList.update (lower name) name al) = Inr al'"
    by (auto simp: device_aliases_def result_simps)
  show ?thesis
    by (simp add: add_aliases_lookup [OF f] claims_named [OF opts] map_of_update_if)
qed

lemma aliases_lookup:
  "foldE (device_aliases device_options) devices al = Inr al' \<Longrightarrow>
   map_of al' a = (case find (claims device_options a) (rev devices) of
                     None \<Rightarrow> map_of al a | Some d \<Rightarrow> Some (fst d))"
proof (induction devices arbitrary: al)
  case (Cons d devices)
  obtain name persistent where d: "d = (name, persistent)" by (cases d)
  from Cons.prems obtain al1 where 1: "device_aliases device_options d al = Inr al1"
    and 2: "foldE (device_aliases device_options) devices al1 = Inr al'"
    by (auto simp: result_simps)
  have "find P (xs @ [x]) = (case find P xs of None \<Rightarrow> if P x then Some x else None | Some y \<Rightarrow> Some y)"
    for P and xs :: "(string \<times> props) list" and x by (induction xs) auto
  with Cons.IH [OF 2] device_aliases_lookup [OF 1 [unfolded d]] d show ?case
    by (auto split: option.splits)
qed simp

lemma create_aliases_lookup:
  assumes "create_aliases devices device_options = Inr aliases"
  shows "map_of aliases a = map_option fst (find (claims device_options a) (rev devices))"
  using aliases_lookup [OF assms [unfolded create_aliases_def], of a]
  by (simp split: option.splits)

text \<open>C11. An identifier in the table of aliases resolves to the last device, in the order of the
  configuration, that has it (in lower case) as its name or as one of its alias properties;
  an identifier that no device has is not in the table.\<close>

theorem aliases_resolve:
  assumes "create_aliases devices device_options = Inr aliases"
  shows "map_of aliases a = map_option fst (find (claims device_options a) (rev devices))"
  by (rule create_aliases_lookup [OF assms])

definition demo_devices :: "(string \<times> props) list" where
  "demo_devices =
     [(''cam-1'', [(''serial_number'', PStr ''AB12''), (''device_type'', PStr ''cam'')]),
      (''hub-2'', [(''serial_number'', PStr ''''), (''device_type'', PStr ''hub'')])]"

definition demo_options :: "(string \<times> props) list" where
  "demo_options =
     [(''cam-1'', [(''alias'', PStr ''Kitchen'')]), (''hub-2'', [(''alias'', PStr ''CAM-1'')])]"

definition demo_aliases :: "(string \<times> string) list" where
  "demo_aliases = [(''cam-1'', ''hub-2''), (''ab12'', ''cam-1''), (''kitchen'', ''cam-1''), (''hub-2'', ''hub-2'')]"

lemma demo_created: "create_aliases demo_devices demo_options = Inr demo_aliases"
  by code_simp

theorem aliases_resolve_witness:
  "map_of demo_aliases ''kitchen'' = Some ''cam-1'' \<and>
   map_option fst (find (claims demo_options ''cam-1'') (rev demo_devices)) = Some ''hub-2''"
proof
  have "map_option fst (find (claims demo_options ''kitchen'') (rev demo_devices)) = Some ''cam-1''"
    by code_simp
  with aliases_resolve [OF demo_created, of "''kitchen''"]
  show "map_of demo_aliases ''kitchen'' = Some ''cam-1''" by simp
  have "map_of demo_aliases ''cam-1'' = Some ''hub-2''" by code_simp
  with aliases_resolve [OF demo_created, of "''cam-1''"]
  show "map_option fst (find (claims demo_options ''cam-1'') (rev demo_devices)) = Some ''hub-2''"
    by simp
qed

section \<open>The combined table\<close>

lemma update_snoc:
  "distinct (map fst (al @ [(k, v)])) \<Longrightarrow> AList.update k w al = al @ [(k, w)]"
  by (rule update_fresh) auto

definition with_name :: "string \<times> props \<Rightarrow> string \<times> props" where
  "with_name = (\<lambda>(name, persistent). (name, AList.update ''name'' (PStr name) persistent))"

definition options_of :: "(string \<times> props) list \<Rightarrow> string \<times> props \<Rightarrow> string \<times> props" where
  "options_of device_options = (\<lambda>(name, _). (name, the (map_of device_options name)))"

lemma fst_with_name [simp]: "fst (with_name d) = fst d"
  by (simp add: with_name_def split: prod.splits)

lemma fst_options_of [simp]: "fst (options_of os d) = fst d"
  by (simp add: options_of_def split: prod.splits)

lemma combine_loop:
  assumes "distinct (map fst (c_persistent c) @ map fst devices)"
    and "map fst (c_options c) = map fst (c_persistent c)"
    and "fst ` set devices \<subseteq> dom (map_of os)"
  shows "foldE (combine_one os) devices c =
    Inr (c\<lparr>c_persistent := c_persistent c @ map with_name devices,
           c_options := c_options c @ map (options_of os) devices\<rparr>)"
  using assms
proof (induction devices arbitrary: c)
  case (Cons d devices)
  obtain name persistent where d: "d = (name, persistent)" by (cases d)
  from Cons.prems(3) d obtain opts where opts: "map_of os name = Some opts" by auto
  have fresh: "name \<notin> fst ` set (c_persistent c)"
    using Cons.prems(1) d by (auto simp flip: set_map)
  with Cons.prems(2) have fresh': "name \<notin> fst ` set (c_options c)"
    by (metis set_map)
  let ?c = "c\<lparr>c_persistent := c_persistent c @ [with_name d], c_options := c_options c @ [options_of os d]\<rparr>"
  have one: "combine_one os d c = Inr ?c"
    by (simp add: combine_one_def d dict_item_def opts update_fresh [OF fresh]
        update_fresh [OF fresh'] with_name_def options_of_def)
  have "foldE (combine_one os) devices ?c =
    Inr (?c\<lparr>c_persistent := c_persistent ?c @ map with_name devices,
           c_options := c_options ?c @ map (options_of os) devices\<rparr>)"
    using Cons.prems by (intro Cons.IH) (auto simp: d)
  with one show ?case by simp
qed simp

lemma create_aliases_known:
  assumes "create_aliases devices os = Inr al"
  shows "fst ` set devices \<subseteq> dom (map_of os)"
proof -
  have "foldE (device_aliases os) devices a = Inr al \<Longrightarrow> fst ` set devices \<subseteq> dom (map_of os)" for a
    by (induction devices arbitrary: a) (auto simp: result_simps device_aliases_def)
  with assms show ?thesis by (simp add: create_aliases_def)
qed

lemma combine_eq:
  assumes "combine_devices_and_device_options devices os = Inr c"
    and "distinct (map fst devices)"
  shows "c_persistent c = map with_name devices" and "c_options c = map (options_of os) devices"
    and "create_aliases devices os = Inr (c_aliases c)"
proof -
  from assms(1) obtain al where al: "create_aliases devices os = Inr al"
    and f: "foldE (combine_one os) devices \<lparr>c_aliases = al, c_persistent = [], c_options = []\<rparr> = Inr c"
    by (auto simp: combine_devices_and_device_options_def result_simps)
  from f combine_loop [of "\<lparr>c_aliases = al, c_persistent = [], c_options = []\<rparr>" devices os]
    assms(2) create_aliases_known [OF al]
  have c: "c = \<lparr>c_aliases = al, c_persistent = map with_name devices, c_options = map (options_of os) devices\<rparr>"
    by simp
  with al show "c_persistent c = map with_name devices" and "c_options c = map (options_of os) devices"
    and "create_aliases devices os = Inr (c_aliases c)" by simp_all
qed

end
