(* ===== verification/Common_Utils.thy ===== *)
theory Common_Utils
  imports Device_Store Log_Name
begin

text \<open>
  String and dictionary helpers (\<open>utility/common_utils.py\<close>) for ASCII strings: snake case names of
  classes, access along a path of keys, and portable file names.
\<close>

section \<open>Snake case\<close>

definition is_upper :: "char \<Rightarrow> bool" where
  "is_upper c \<longleftrightarrow> 65 \<le> (of_char c :: nat) \<and> of_char c \<le> (90 :: nat)"

definition is_new_word :: "string \<Rightarrow> nat \<Rightarrow> bool" where
  "is_new_word s pos \<longleftrightarrow>
     pos = 0 \<or>
     (is_upper (s ! pos) \<and>
       (\<not> is_upper (s ! (pos - 1)) \<or> (pos + 1 < length s \<and> \<not> is_upper (s ! (pos + 1))))) \<or>
     (is_digit (s ! pos) \<and> \<not> is_digit (s ! (pos - 1)))"

definition word_starts :: "string \<Rightarrow> nat list" where
  "word_starts s = filter (is_new_word s) [0..<length s] @ [length s]"

definition words_of :: "string \<Rightarrow> string list" where
  "words_of s = map (\<lambda>(i, j). lower (take (j - i) (drop i s))) (zip (word_starts s) (tl (word_starts s)))"

fun join_with :: "string \<Rightarrow> string list \<Rightarrow> string" where
  "join_with sep [] = []"
| "join_with sep [w] = w"
| "join_with sep (w # ws) = w @ sep @ join_with sep ws"

text \<open>\<open>str.replace\<close>: the occurrences from the left, which do not overlap.\<close>

function replace_all :: "string \<Rightarrow> string \<Rightarrow> string \<Rightarrow> string" where
  "replace_all old new s =
     (case s of
        [] \<Rightarrow> []
      | c # cs \<Rightarrow>
          if old \<noteq> [] \<and> take (length old) s = old then new @ replace_all old new (drop (length old) s)
          else c # replace_all old new cs)"
  by pat_completeness auto
termination by (relation "measure (\<lambda>(old, new, s). length s)") auto

declare replace_all.simps [simp del]

definition keywords_to_clean_up :: "(string \<times> string) list" where
  "keywords_to_clean_up = [(''sl_4a'', ''sl4a''), (''sl_4f'', ''sl4f'')]"

definition title_to_snake_case :: "string \<Rightarrow> string result" where
  "title_to_snake_case s =
     (if CHR ''_'' \<in> set s then Inl ValueError
      else Inr (foldl (\<lambda>r (misspelled, corrected). replace_all misspelled corrected r)
                  (join_with ''_'' (words_of s)) keywords_to_clean_up))"

definition generate_name :: "string \<Rightarrow> string result" where
  "generate_name object_name =
     (if object_name = [] then Inl ValueError
      else if CHR ''_'' \<in> set object_name then Inr (lower object_name)
      else title_to_snake_case object_name)"

section \<open>Other helpers\<close>

text \<open>JSON data are values; only a dictionary has keys, and a key of a list or a number is a \<open>TypeError\<close>.\<close>

fun get_value_from_json :: "pval \<Rightarrow> string list \<Rightarrow> bool \<Rightarrow> pval option result" where
  "get_value_from_json v [] raise_if_absent = Inr (Some v)"
| "get_value_from_json v (k # ks) raise_if_absent =
     (case v of
        PDict d \<Rightarrow>
          (case map_of d k of
             Some w \<Rightarrow> get_value_from_json w ks raise_if_absent
           | None \<Rightarrow> if raise_if_absent then Inl KeyError else Inr None)
      | PStr s \<Rightarrow> if contains k s then Inl TypeError
                  else if raise_if_absent then Inl KeyError else Inr None
      | PList l \<Rightarrow> if PStr k \<in> set l then Inl TypeError
                   else if raise_if_absent then Inl KeyError else Inr None
      | _ \<Rightarrow> Inl TypeError)"

definition is_portable :: "char \<Rightarrow> bool" where
  "is_portable c \<longleftrightarrow>
     is_upper c \<or> is_upper (char_of (of_char c - 32 :: nat)) \<and> 97 \<le> (of_char c :: nat) \<or> is_digit c \<or>
     c \<in> {CHR ''.'', CHR ''_'', CHR ''-''}"

definition extract_posix_portable_characters :: "string \<Rightarrow> string" where
  "extract_posix_portable_characters s = filter is_portable s"

section \<open>The words of a name\<close>

lemma join_with_filter:
  "(\<And>w. w \<in> set ws \<Longrightarrow> CHR ''_'' \<notin> set w) \<Longrightarrow>
   filter (\<lambda>c. c \<noteq> CHR ''_'') (join_with ''_'' ws) = concat ws"
proof (induction "''_''" ws rule: join_with.induct)
  case (3 w v ws)
  have w: "filter (\<lambda>c. c \<noteq> CHR ''_'') w = w" if "CHR ''_'' \<notin> set w" for w :: string
    using that by (induction w) auto
  from 3 w [of w] show ?case by simp
next
  case (2 w)
  then show ?case by (auto simp: filter_id_conv)
qed simp

lemma cut_concat:
  assumes "sorted xs" and "\<And>i. i \<in> set xs \<Longrightarrow> i \<le> length s" and "xs \<noteq> []"
  shows "concat (map (\<lambda>(i, j). take (j - i) (drop i s)) (zip xs (tl xs))) = take (last xs - hd xs) (drop (hd xs) s)"
  using assms
proof (induction xs)
  case (Cons x xs)
  show ?case
  proof (cases xs)
    case (Cons y ys)
    have le: "x \<le> y" "y \<le> last xs" using Cons.prems(1) Cons by (auto simp: last_in_set)
    have "take (y - x) (drop x s) @ take (last xs - y) (drop y s) = take (last xs - x) (drop x s)"
      using le take_add [of "y - x" "last xs - y" "drop x s"] by simp
    with Cons.IH Cons.prems Cons show ?thesis by simp
  qed simp
qed simp

lemma lower_concat: "lower (concat ws) = concat (map lower ws)"
  by (induction ws) (simp_all add: lower_def)

lemma words_concat:
  assumes "s \<noteq> []"
  shows "concat (words_of s) = lower s"
proof -
  have z: "is_new_word s 0" by (simp add: is_new_word_def)
  from assms obtain n where n: "length s = Suc n" by (cases s) auto
  let ?ws = "word_starts s"
  have "[0..<length s] = 0 # [1..<length s]" using n by (simp add: upt_conv_Cons)
  with z have hd: "hd ?ws = 0" and ne: "?ws \<noteq> []" by (simp_all add: word_starts_def)
  have "concat (map (\<lambda>(i, j). take (j - i) (drop i s)) (zip ?ws (tl ?ws))) = take (last ?ws - hd ?ws) (drop (hd ?ws) s)"
    by (rule cut_concat) (auto simp: word_starts_def sorted_append sorted_wrt_filter)
  also have "\<dots> = s" using hd by (simp add: word_starts_def)
  finally have "lower s = lower (concat (map (\<lambda>(i, j). take (j - i) (drop i s)) (zip ?ws (tl ?ws))))"
    by simp
  also have "\<dots> = concat (words_of s)"
    by (simp add: lower_concat words_of_def comp_def case_prod_unfold)
  finally show ?thesis by simp
qed

lemma lower_char_underscore: "lower_char c = CHR ''_'' \<longleftrightarrow> c = CHR ''_''"
proof (cases "65 \<le> (of_char c :: nat) \<and> of_char c \<le> (90 :: nat)")
  case True
  have "of_char (lower_char c) = (of_char c + 32 :: nat)"
    using True by (simp add: lower_char_def)
  moreover have u: "of_char (CHR ''_'') = (95 :: nat)" by simp
  ultimately have "lower_char c \<noteq> CHR ''_''" using True by auto
  moreover have "c \<noteq> CHR ''_''" using True u by auto
  ultimately show ?thesis by simp
next
  case False
  then show ?thesis by (auto simp: lower_char_def Let_def)
qed

text \<open>
  The snake case name, before its keywords are cleaned up, has the letters of the name in their
  order: only underscores are added.
\<close>

lemma snake_case_letters:
  assumes "CHR ''_'' \<notin> set s" and "s \<noteq> []"
  shows "filter (\<lambda>c. c \<noteq> CHR ''_'') (join_with ''_'' (words_of s)) = lower s"
proof -
  have "CHR ''_'' \<notin> set w" if "w \<in> set (words_of s)" for w
  proof
    assume "CHR ''_'' \<in> set w"
    with that have "CHR ''_'' \<in> set (concat (words_of s))" by auto
    with words_concat [OF assms(2)] have "CHR ''_'' \<in> lower_char ` set s" by (simp add: lower_def)
    with assms(1) show False by (metis image_iff lower_char_underscore)
  qed
  then show ?thesis by (simp add: join_with_filter words_concat [OF assms(2)])
qed

end
