(* ===== verification/Device_Base.thy ===== *)
theory Device_Base
  imports Retry
begin

text \<open>
  What all devices inherit (\<open>base_classes/gazoo_device_base.py\<close>; the auxiliary devices of
  \<open>base_classes/auxiliary_device.py\<close> have the same text except where stated): health checks,
  the recovery of a device that is not ready, the commands with a regular expression, the
  properties and the capabilities. The device itself is a state \<open>'s\<close> that the calls change.
\<close>

section \<open>Health checks and recovery\<close>

record 's dops =
  o_health_checks :: "(string \<times> ('s, unit) stateful) list"
  o_recover :: "exn \<Rightarrow> ('s, unit) stateful"
  o_upgrade :: "('s, unit) stateful"
  o_has_flash_build :: bool
  o_recovery_attempts :: nat

text \<open>The value goes with \<open>checks_passed\<close>, which the exception of a failed check carries.\<close>

fun execute_health_check_methods ::
  "(string \<times> ('s, unit) stateful) list \<Rightarrow> string list \<Rightarrow> 's \<Rightarrow> (unit result \<times> string list) \<times> 's" where
  "execute_health_check_methods [] checks_passed s = ((Inr (), checks_passed), s)"
| "execute_health_check_methods ((method_name, check) # checks) checks_passed s =
     (case check s of
        (Inl e, s') \<Rightarrow> ((Inl e, checks_passed), s')
      | (Inr _, s') \<Rightarrow> execute_health_check_methods checks (checks_passed @ [method_name]) s')"

definition check_device_ready :: "'s dops \<Rightarrow> ('s, unit) stateful" where
  "check_device_ready ops s =
     (case execute_health_check_methods (o_health_checks ops) [] s of ((r, _), s') \<Rightarrow> (r, s'))"

text \<open>
  How the loop over the recovery attempts ends: by \<open>return\<close>, by an exception that leaves the
  method, by \<open>break\<close> with the unrecoverable error, or after its last attempt.
\<close>

datatype attempts_end = Returned | Raised exn | Broke exn | Exhausted

fun recovery_loop ::
  "'s dops \<Rightarrow> string \<Rightarrow> nat \<Rightarrow> exn option \<Rightarrow> 's \<Rightarrow> attempts_end \<times> 's" where
  "recovery_loop ops setting 0 recoverable_error s = (Exhausted, s)"
| "recovery_loop ops setting (Suc n) recoverable_error s =
     (case check_device_ready ops s of
        (Inr _, s1) \<Rightarrow> (Returned, s1)
      | (Inl err, s1) \<Rightarrow>
          if \<not> is_device_error err \<or> setting = ''check_only'' then (Raised err, s1)
          else if recoverable_error = Some err then (Broke err, s1)
          else (case o_recover ops err s1 of
                  (Inr _, s2) \<Rightarrow> recovery_loop ops setting n (Some err) s2
                | (Inl err', s2) \<Rightarrow>
                    if is_device_error err' then (Broke err', s2) else (Raised err', s2)))"

definition give_up :: "'s dops \<Rightarrow> string \<Rightarrow> exn \<Rightarrow> ('s, unit) stateful" where
  "give_up ops setting unrecoverable_error =
     (if setting \<noteq> ''flash_build'' \<or> \<not> o_has_flash_build ops then raiseS unrecoverable_error
      else bindS (o_upgrade ops) (\<lambda>_. check_device_ready ops))"

definition make_device_ready :: "'s dops \<Rightarrow> string \<Rightarrow> ('s, unit) stateful" where
  "make_device_ready ops setting s =
     (if setting = ''off'' then (Inr (), s)
      else case recovery_loop ops setting (o_recovery_attempts ops) None s of
        (Returned, s1) \<Rightarrow> (Inr (), s1)
      | (Raised e, s1) \<Rightarrow> (Inl e, s1)
      | (Broke e, s1) \<Rightarrow> give_up ops setting e s1
      | (Exhausted, s1) \<Rightarrow>
          (case check_device_ready ops s1 of
             (Inr _, s2) \<Rightarrow> (Inr (), s2)
           | (Inl err, s2) \<Rightarrow> if is_ready_error err then give_up ops setting err s2 else (Inl err, s2)))"

text \<open>
  \<open>recover\<close> of the base class. Whether the message of a \<open>SwitchboardCreationError\<close> says that a
  child process failed to start is \<open>child_failed\<close>. An auxiliary device only raises the error.
\<close>

definition recover ::
  "bool \<Rightarrow> bool \<Rightarrow> ('s, unit) stateful \<Rightarrow> exn \<Rightarrow> ('s, unit) stateful" where
  "recover child_failed has_comm_power cycle err s =
     (if err = SwitchboardCreationError \<and> \<not> child_failed then
        (if \<not> has_comm_power then (Inl err, s)
         else case cycle s of
             (Inl CapabilityNotReadyError, s') \<Rightarrow> (Inl err, s')
           | other \<Rightarrow> other)
      else (Inl err, s))"

text \<open>
  \<open>wait_until_connected\<close> polls the property \<open>connected\<close>; \<open>clock\<close> gives the readings of the time.
\<close>

definition wait_until_connected ::
  "('s, bool) stateful \<Rightarrow> int \<Rightarrow> (nat \<Rightarrow> int) \<Rightarrow> ('s, unit) stateful" where
  "wait_until_connected connected timeout clock s =
     (let r = retry \<lparr>rc_func = connected, rc_is_successful = is_true, rc_timeout = timeout, rc_interval = 1,
                rc_reraise = True, rc_exc_type = CommunicationTimeoutError, rc_has_name = True,
                rc_repr = (\<lambda>_. []), rc_clock = clock\<rparr> s
      in case re_result r of
           Inr _ \<Rightarrow> (Inr (), re_state r)
         | Inl CommunicationTimeoutError \<Rightarrow> (Inl (CheckDeviceReadyError 1), re_state r)
         | Inl e \<Rightarrow> (Inl e, re_state r))"

section \<open>Commands with a regular expression\<close>

text \<open>
  \<open>search\<close> gives the groups of a match, the whole match first; a group that took no part in the
  match is \<open>None\<close>, and \<open>str\<close> makes text of it.
\<close>

definition match_group :: "string option list \<Rightarrow> nat \<Rightarrow> string option" where
  "match_group groups i =
     (if i > length groups - 1 then None
      else Some (case groups ! i of None \<Rightarrow> ''None'' | Some g \<Rightarrow> g))"

fun shell_with_regex ::
  "('s, string \<times> int) stateful \<Rightarrow> (string \<Rightarrow> string option list option) \<Rightarrow> nat \<Rightarrow> bool \<Rightarrow> bool \<Rightarrow>
   nat \<Rightarrow> ('s, string) stateful" where
  "shell_with_regex shell re_search regex_group raise_error check_return_code 0 s =
     (if raise_error then (Inl DeviceError, s) else (Inr [], s))"
| "shell_with_regex shell re_search regex_group raise_error check_return_code (Suc tries) s =
     (case shell s of
        (Inl e, s') \<Rightarrow>
          if is_device_error e
          then shell_with_regex shell re_search regex_group raise_error check_return_code tries s'
          else (Inl e, s')
      | (Inr (response, code), s') \<Rightarrow>
          if check_return_code \<and> code \<noteq> 0
          then shell_with_regex shell re_search regex_group raise_error check_return_code tries s'
          else (case Option.bind (re_search response) (\<lambda>groups. match_group groups regex_group) of
                  Some text \<Rightarrow> (Inr text, s')
                | None \<Rightarrow>
                    shell_with_regex shell re_search regex_group raise_error check_return_code tries s'))"

section \<open>Properties\<close>

text \<open>
  What \<open>getattr\<close> gives: a value, a method, or an exception. \<open>a_instance\<close> is the access to the
  capability before the dot.
\<close>

datatype 'v attr = Value 'v | Method | Raising exn

record 'v attrs =
  a_instance :: "string \<Rightarrow> unit result"
  a_attr :: "string option \<Rightarrow> string \<Rightarrow> 'v attr"
  a_optional :: "(string \<times> 'v) list"
  a_says_unknown :: "'v \<Rightarrow> bool"

datatype 'v property = Property 'v | Unknown_property string | Error_property exn

fun split_on :: "char \<Rightarrow> string \<Rightarrow> string list" where
  "split_on c [] = [[]]"
| "split_on c (x # xs) =
     (if x = c then [] # split_on c xs
      else (case split_on c xs of [] \<Rightarrow> [[x]] | p # ps \<Rightarrow> (x # p) # ps))"

definition property_error ::
  "'v attrs \<Rightarrow> string \<Rightarrow> bool \<Rightarrow> exn \<Rightarrow> 'v property result" where
  "property_error attrs name raise_error e =
     (if e = AttributeError then
        (case map_of (a_optional attrs) name of
           Some v \<Rightarrow> Inr (Property v)
         | None \<Rightarrow> if raise_error then Inl e else Inr (Unknown_property name))
      else if raise_error then Inl e else Inr (Error_property e))"

definition get_device_property :: "'v attrs \<Rightarrow> string \<Rightarrow> bool \<Rightarrow> 'v property result" where
  "get_device_property attrs name raise_error =
     (let parts = split_on (CHR ''.'') name;
          access = (\<lambda>inst n. case a_attr attrs inst n of
             Value v \<Rightarrow> Inr (Property v)
           | Method \<Rightarrow> property_error attrs n raise_error DeviceError
           | Raising e \<Rightarrow> property_error attrs n raise_error e)
      in if CHR ''.'' \<in> set name then
           (case a_instance attrs (parts ! 0) of
              Inl e \<Rightarrow> property_error attrs name raise_error e
            | Inr _ \<Rightarrow> access (Some (parts ! 0)) (parts ! 1))
         else access None name)"

text \<open>A property is left out when its text says that it is not known, whoever wrote the text.\<close>

definition is_unknown :: "'v attrs \<Rightarrow> 'v property \<Rightarrow> bool" where
  "is_unknown attrs p =
     (case p of Property v \<Rightarrow> a_says_unknown attrs v | Unknown_property _ \<Rightarrow> True | Error_property _ \<Rightarrow> False)"

definition get_device_properties :: "'v attrs \<Rightarrow> string list \<Rightarrow> (string \<times> 'v property) list result" where
  "get_device_properties attrs names =
     foldE (\<lambda>n d. bindE (get_device_property attrs n False) (\<lambda>v.
       Inr (if is_unknown attrs v then d else AList.update n v d))) names []"

section \<open>Capabilities\<close>

text \<open>
  The capabilities that a device has initialised, by name; the instances are closed when they
  are reset. A device that is auxiliary ignores device errors of the closing, and always
  forgets the instance.
\<close>

type_synonym 'c slots = "(string \<times> 'c) list"

definition lazy_init :: "string \<Rightarrow> 'c result \<Rightarrow> 'c slots \<Rightarrow> 'c result \<times> 'c slots" where
  "lazy_init name new slots =
     (case map_of slots name of
        Some c \<Rightarrow> (Inr c, slots)
      | None \<Rightarrow> (case new of Inl e \<Rightarrow> (Inl e, slots) | Inr c \<Rightarrow> (Inr c, AList.update name c slots)))"

definition is_capability_initialized :: "string \<Rightarrow> 'c slots \<Rightarrow> bool" where
  "is_capability_initialized name slots \<longleftrightarrow> map_of slots name \<noteq> None"

definition reset_capability ::
  "('c \<Rightarrow> unit result) \<Rightarrow> bool \<Rightarrow> string \<Rightarrow> 'c slots \<times> 'c list \<Rightarrow> unit result \<times> 'c slots \<times> 'c list" where
  "reset_capability close_capability auxiliary name = (\<lambda>(slots, closed).
     case map_of slots name of
       None \<Rightarrow> (Inr (), slots, closed)
     | Some c \<Rightarrow>
         (case close_capability c of
            Inr _ \<Rightarrow> (Inr (), AList.delete name slots, closed @ [c])
          | Inl e \<Rightarrow>
              if auxiliary
              then (if is_device_error e then Inr () else Inl e, AList.delete name slots, closed @ [c])
              else (Inl e, slots, closed @ [c])))"

fun reset_all_capabilities ::
  "('c \<Rightarrow> unit result) \<Rightarrow> bool \<Rightarrow> string list \<Rightarrow> 'c slots \<times> 'c list \<Rightarrow>
   unit result \<times> 'c slots \<times> 'c list" where
  "reset_all_capabilities close_capability auxiliary [] s = (Inr (), s)"
| "reset_all_capabilities close_capability auxiliary (n # ns) s =
     bindS (reset_capability close_capability auxiliary n)
       (\<lambda>_. reset_all_capabilities close_capability auxiliary ns) s"

text \<open>
  The registered extensions: flavors and interfaces by name, and the names of the interfaces of
  a capability. A class is a number, \<open>x_mro\<close> its method resolution order.
\<close>

record extensions =
  x_flavors :: "(string \<times> nat) list"
  x_interfaces :: "(string \<times> nat) list"
  x_capabilities :: "(string \<times> string list) list"
  x_mro :: "nat \<Rightarrow> nat list"

definition parent_interface :: "extensions \<Rightarrow> string list \<Rightarrow> nat result" where
  "parent_interface ext interface_names =
     bindE (mapE (\<lambda>n. case map_of (x_interfaces ext) n of None \<Rightarrow> Inl KeyError | Some c \<Rightarrow> Inr c)
              interface_names) (\<lambda>classes.
       case sort_key (\<lambda>c. length (x_mro ext c)) classes of [] \<Rightarrow> Inl IndexError | c # _ \<Rightarrow> Inr c)"

definition requested_class :: "extensions \<Rightarrow> string \<Rightarrow> nat option result" where
  "requested_class ext cap_name =
     (case map_of (x_flavors ext) cap_name of
        Some c \<Rightarrow> Inr (Some c)
      | None \<Rightarrow>
          (case map_of (x_interfaces ext) cap_name of
             Some c \<Rightarrow> Inr (Some c)
           | None \<Rightarrow>
               (case map_of (x_capabilities ext) cap_name of
                  Some names \<Rightarrow> bindE (parent_interface ext names) (\<lambda>c. Inr (Some c))
                | None \<Rightarrow> Inr None)))"

fun requested_classes :: "extensions \<Rightarrow> (string \<Rightarrow> string) \<Rightarrow> string list \<Rightarrow> nat list option result" where
  "requested_classes ext lowered [] = Inr (Some [])"
| "requested_classes ext lowered (n # ns) =
     bindE (requested_class ext (lowered n)) (\<lambda>c.
       case c of None \<Rightarrow> Inr None
       | Some c \<Rightarrow> bindE (requested_classes ext lowered ns) (\<lambda>cs. Inr (map_option ((#) c) cs)))"

definition has_capabilities ::
  "extensions \<Rightarrow> (string \<Rightarrow> string) \<Rightarrow> nat list \<Rightarrow> string list \<Rightarrow> bool result" where
  "has_capabilities ext lowered supported_flavors capability_names =
     bindE (requested_classes ext lowered capability_names) (\<lambda>cs.
       case cs of
         None \<Rightarrow> Inr False
       | Some cs \<Rightarrow> Inr (list_all (\<lambda>c. list_ex (\<lambda>f. c \<in> set (x_mro ext f)) supported_flavors) cs))"

end
