(* ===== verification/Switch_Power.thy ===== *)
theory Switch_Power
  imports Host_Utils Json_Text Common_Utils Device_Base
begin

text \<open>
  The capability \<open>switch_power\<close> of the power hubs (\<open>gazoo_device/capabilities/switch_power_*.py\<close>): USB
  hubs with and without charging, a DLI power switch over HTTP, a D-Link switch over SNMP and a
  Unifi switch over telnet. The shell, HTTP and telnet functions that a hub gives to its capability
  are parameters over a state \<open>'s\<close> that holds the hub. Ports are numbers; the conversion
  \<open>int(port)\<close> of a number is the number. At the end the interface that the five implement is
  stated once, as a locale.
\<close>

section \<open>Texts\<close>

text \<open>\<open>str.format\<close> with positional and with named fields. A field without an argument raises.\<close>

fun fill :: "string \<Rightarrow> string list \<Rightarrow> string result" where
  "fill [] as = Inr []"
| "fill (c # cs) as =
     (if c = CHR ''{'' \<and> cs \<noteq> [] \<and> hd cs = CHR ''}'' then
        (case as of [] \<Rightarrow> Inl IndexError | a # as' \<Rightarrow> bindE (fill (tl cs) as') (\<lambda>r. Inr (a @ r)))
      else bindE (fill cs as) (\<lambda>r. Inr (c # r)))"

definition fill_named :: "string \<Rightarrow> string \<Rightarrow> string \<Rightarrow> string" where
  "fill_named field arg = replace_all (''{'' @ field @ ''}'') arg"

definition upper_char :: "char \<Rightarrow> char" where
  "upper_char c = (let n = (of_char c :: nat) in if 97 \<le> n \<and> n \<le> 122 then char_of (n - 32) else c)"

definition upper :: "string \<Rightarrow> string" where
  "upper s = map upper_char s"

text \<open>\<open>validate_required_keys\<close> of \<open>CapabilityBase\<close>, and loops over ports.\<close>

definition validate_required_keys :: "string list \<Rightarrow> (string \<times> 'v) list \<Rightarrow> unit result" where
  "validate_required_keys key_list dictionary =
     (if \<exists>key\<in>set key_list. key \<notin> set (map fst dictionary) then Inl KeyError else Inr ())"


primrec forS :: "('a \<Rightarrow> ('s, unit) stateful) \<Rightarrow> 'a list \<Rightarrow> ('s, unit) stateful" where
  "forS f [] = returnS ()"
| "forS f (x # xs) = bindS (f x) (\<lambda>_. forS f xs)"

primrec mapS :: "('a \<Rightarrow> ('s, 'b) stateful) \<Rightarrow> 'a list \<Rightarrow> ('s, 'b list) stateful" where
  "mapS f [] = returnS []"
| "mapS f (x # xs) = bindS (f x) (\<lambda>y. bindS (mapS f xs) (\<lambda>ys. returnS (y # ys)))"

section \<open>USB hubs\<close>

record usb_power =
  up_commands :: "(string \<times> string) list"
  up_regexes :: "(string \<times> string) list"
  up_serial :: string
  up_ports :: int

record 's usb_shell =
  us_shell :: "string \<Rightarrow> ('s, string) stateful"
  us_regex_shell :: "string \<Rightarrow> string \<Rightarrow> ('s, string) stateful"

definition new_usb_power ::
  "string list \<Rightarrow> (string \<times> string) list \<Rightarrow> (string \<times> string) list \<Rightarrow> string \<Rightarrow> int \<Rightarrow> usb_power result" where
  "new_usb_power required_commands command_dict regex_dict serial_number total_ports =
     bindE (validate_required_keys required_commands command_dict) (\<lambda>_.
     bindE (validate_required_keys [''GET_MODE_REGEX''] regex_dict) (\<lambda>_.
       Inr \<lparr>up_commands = command_dict, up_regexes = regex_dict, up_serial = serial_number, up_ports = total_ports\<rparr>))"

definition usb_validate_port :: "usb_power \<Rightarrow> int \<Rightarrow> ('s, unit) stateful" where
  "usb_validate_port u port = (if port = 0 \<or> port > up_ports u then raiseS DeviceError else returnS ())"

definition validate_mode :: "string list \<Rightarrow> string \<Rightarrow> ('s, unit) stateful" where
  "validate_mode supported_modes mode = (if mode \<notin> set supported_modes then raiseS DeviceError else returnS ())"

text \<open>A command of the dictionary with its fields, and its run by the shell.\<close>

definition usb_command :: "usb_power \<Rightarrow> string \<Rightarrow> string list \<Rightarrow> string result" where
  "usb_command u key as = bindE (dict_item (up_commands u) key) (\<lambda>cmd. fill cmd as)"

definition usb_run :: "usb_power \<Rightarrow> 's usb_shell \<Rightarrow> string \<Rightarrow> string list \<Rightarrow> ('s, unit) stateful" where
  "usb_run u sh key as =
     bindS (liftS (usb_command u key as)) (\<lambda>cmd. bindS (us_shell sh cmd) (\<lambda>_. returnS ()))"

definition usb_query :: "usb_power \<Rightarrow> 's usb_shell \<Rightarrow> string list \<Rightarrow> ('s, string) stateful" where
  "usb_query u sh as =
     bindS (liftS (usb_command u ''GET_MODE'' as)) (\<lambda>cmd.
     bindS (liftS (dict_item (up_regexes u) ''GET_MODE_REGEX'')) (\<lambda>regex. us_regex_shell sh cmd regex))"

subsection \<open>\<open>SwitchPowerUsbDefault\<close>\<close>

definition usb_modes :: "string list" where
  "usb_modes = [''off'', ''sync'']"

definition usb_get_mode :: "usb_power \<Rightarrow> 's usb_shell \<Rightarrow> int \<Rightarrow> ('s, string) stateful" where
  "usb_get_mode u sh port =
     bindS (usb_validate_port u port) (\<lambda>_.
     bindS (usb_query u sh [up_serial u, show_int port]) (\<lambda>result.
       returnS (if contains ''ON'' (upper result) then ''sync'' else ''off'')))"

definition get_all_ports_mode :: "usb_power \<Rightarrow> (int \<Rightarrow> ('s, string) stateful) \<Rightarrow> ('s, string list) stateful" where
  "get_all_ports_mode u get = mapS get [1..up_ports u]"

definition usb_power_on :: "usb_power \<Rightarrow> 's usb_shell \<Rightarrow> int \<Rightarrow> bool \<Rightarrow> ('s, unit) stateful" where
  "usb_power_on u sh port data_sync =
     logged (if \<not> data_sync then raiseS DeviceError
       else bindS (usb_validate_port u port) (\<lambda>_. usb_run u sh ''POWER_ON'' [up_serial u, show_int port]))"

definition usb_power_off :: "usb_power \<Rightarrow> 's usb_shell \<Rightarrow> int \<Rightarrow> ('s, unit) stateful" where
  "usb_power_off u sh port =
     logged (bindS (usb_validate_port u port) (\<lambda>_. usb_run u sh ''POWER_OFF'' [up_serial u, show_int port]))"

definition usb_set_mode :: "usb_power \<Rightarrow> 's usb_shell \<Rightarrow> string \<Rightarrow> int \<Rightarrow> ('s, unit) stateful" where
  "usb_set_mode u sh mode port =
     logged (bindS (usb_validate_port u port) (\<lambda>_.
             bindS (validate_mode usb_modes (lower mode)) (\<lambda>_.
               if contains (lower mode) ''off'' then usb_power_off u sh port else usb_power_on u sh port True)))"

definition usb_set_all_ports_mode :: "usb_power \<Rightarrow> 's usb_shell \<Rightarrow> string \<Rightarrow> ('s, unit) stateful" where
  "usb_set_all_ports_mode u sh mode =
     logged (bindS (validate_mode usb_modes mode) (\<lambda>_. forS (usb_set_mode u sh mode) [1..up_ports u]))"

subsection \<open>\<open>SwitchPowerUsbWithCharge\<close>\<close>

definition charge_modes :: "string list" where
  "charge_modes = [''off'', ''sync'', ''charge'']"

definition charge_get_mode :: "usb_power \<Rightarrow> 's usb_shell \<Rightarrow> int \<Rightarrow> ('s, string) stateful" where
  "charge_get_mode u sh port =
     bindS (usb_validate_port u port) (\<lambda>_.
     bindS (usb_query u sh [show_int port]) (\<lambda>flags.
       returnS (if contains ''O'' flags then ''off'' else if contains ''S'' flags then ''sync'' else ''charge'')))"

definition charge_set_mode :: "usb_power \<Rightarrow> 's usb_shell \<Rightarrow> string \<Rightarrow> int \<Rightarrow> ('s, unit) stateful" where
  "charge_set_mode u sh mode port =
     logged (bindS (usb_validate_port u port) (\<lambda>_.
             bindS (validate_mode charge_modes mode) (\<lambda>_. usb_run u sh ''SET_MODE'' [mode, show_int port])))"

definition charge_power_off :: "usb_power \<Rightarrow> 's usb_shell \<Rightarrow> int \<Rightarrow> ('s, unit) stateful" where
  "charge_power_off u sh port =
     logged (bindS (usb_validate_port u port) (\<lambda>_. charge_set_mode u sh ''off'' port))"

definition charge_power_on :: "usb_power \<Rightarrow> 's usb_shell \<Rightarrow> int \<Rightarrow> bool \<Rightarrow> ('s, unit) stateful" where
  "charge_power_on u sh port data_sync =
     logged (bindS (usb_validate_port u port) (\<lambda>_.
       charge_set_mode u sh (if data_sync then ''sync'' else ''charge'') port))"

definition charge_set_all_ports_mode :: "usb_power \<Rightarrow> 's usb_shell \<Rightarrow> string \<Rightarrow> ('s, unit) stateful" where
  "charge_set_all_ports_mode u sh mode = logged (forS (charge_set_mode u sh mode) [1..up_ports u])"

section \<open>DLI power switch\<close>

text \<open>\<open>http_fn\<close>: the method, the address, the headers and the data of a request; its answer.\<close>

record 's dli_power =
  dp_http :: "string \<Rightarrow> string \<Rightarrow> (string \<times> string) list \<Rightarrow> string option \<Rightarrow> ('s, string) stateful"
  dp_ip :: string
  dp_commands :: "(string \<times> string) list"
  dp_headers :: "(string \<times> (string \<times> string) list) list"
  dp_ports :: int

definition new_dli_power :: "'s dli_power \<Rightarrow> 's dli_power result" where
  "new_dli_power d =
     bindE (validate_required_keys [''ADJUST_PORTS_MODE''] (dp_commands d)) (\<lambda>_.
     bindE (validate_required_keys [''GET_PROP'', ''SET_PROP''] (dp_headers d)) (\<lambda>_. Inr d))"

definition dli_modes :: "string list" where
  "dli_modes = [''off'', ''on'']"

definition dli_validate_port :: "'s dli_power \<Rightarrow> int \<Rightarrow> ('s, unit) stateful" where
  "dli_validate_port d port = (if port \<le> -1 \<or> port \<ge> dp_ports d then raiseS DeviceError else returnS ())"

definition dli_request :: "'s dli_power \<Rightarrow> string \<Rightarrow> string \<Rightarrow> string \<Rightarrow> string option \<Rightarrow> ('s, string) stateful" where
  "dli_request d http_method ports header data =
     bindS (liftS (dict_item (dp_commands d) ''ADJUST_PORTS_MODE'')) (\<lambda>cmd.
     bindS (liftS (fill (fill_named ''ip'' (dp_ip d) cmd) [ports])) (\<lambda>url.
     bindS (liftS (dict_item (dp_headers d) header)) (\<lambda>headers. dp_http d http_method url headers data)))"

definition dli_get_all_ports_mode :: "'s dli_power \<Rightarrow> ('s, string list) stateful" where
  "dli_get_all_ports_mode d =
     bindS (dli_request d ''GET'' ''all;'' ''GET_PROP'' None) (\<lambda>response.
       returnS (map (\<lambda>port. if port = ''true'' then ''on'' else ''off'') (split_on CHR '','' response)))"

definition dli_get_mode :: "'s dli_power \<Rightarrow> int \<Rightarrow> ('s, string) stateful" where
  "dli_get_mode d port =
     bindS (dli_validate_port d port) (\<lambda>_.
     bindS (dli_request d ''GET'' (''='' @ show_int port) ''GET_PROP'' None) (\<lambda>response.
       returnS (if response = ''true'' then ''on'' else ''off'')))"

definition dli_post :: "'s dli_power \<Rightarrow> string \<Rightarrow> string \<Rightarrow> ('s, unit) stateful" where
  "dli_post d ports v = bindS (dli_request d ''POST'' ports ''SET_PROP'' (Some v)) (\<lambda>_. returnS ())"

definition dli_power_on :: "'s dli_power \<Rightarrow> int \<Rightarrow> ('s, unit) stateful" where
  "dli_power_on d port = logged (bindS (dli_validate_port d port) (\<lambda>_. dli_post d (''='' @ show_int port) ''true''))"

definition dli_power_off :: "'s dli_power \<Rightarrow> int \<Rightarrow> ('s, unit) stateful" where
  "dli_power_off d port = logged (bindS (dli_validate_port d port) (\<lambda>_. dli_post d (''='' @ show_int port) ''false''))"

definition dli_set_mode :: "'s dli_power \<Rightarrow> string \<Rightarrow> int \<Rightarrow> ('s, unit) stateful" where
  "dli_set_mode d mode port =
     logged (bindS (validate_mode dli_modes mode) (\<lambda>_.
       if mode = ''on'' then dli_power_on d port else dli_power_off d port))"

definition dli_set_all_ports_mode :: "'s dli_power \<Rightarrow> string \<Rightarrow> ('s, unit) stateful" where
  "dli_set_all_ports_mode d mode =
     logged (bindS (validate_mode dli_modes mode) (\<lambda>_.
       dli_post d ''all;'' (if mode = ''on'' then ''true'' else ''false'')))"

section \<open>D-Link switch over SNMP\<close>

text \<open>
  \<open>re.search\<close> of ".+INTEGER:.+?(\d+)": in the first line with a match, after the last
  "INTEGER:" that fits, the digits that follow at least one character. \<open>h\<close> are the tools of the
  host, which run \<open>snmpget\<close> and \<open>snmpset\<close> with a time-out of 10 seconds.
\<close>

record snmp_power =
  sp_ip :: string
  sp_ports :: int
  sp_community :: string

definition digits_after :: "string \<Rightarrow> string option" where
  "digits_after r =
     (case r of [] \<Rightarrow> None
      | _ # r' \<Rightarrow> (let ds = takeWhile is_digit (dropWhile (\<lambda>c. \<not> is_digit c) r') in if ds = [] then None else Some ds))"

fun integer_in :: "bool \<Rightarrow> string \<Rightarrow> string option" where
  "integer_in some_before [] = None"
| "integer_in some_before (c # cs) =
     (case integer_in True cs of
        Some ds \<Rightarrow> Some ds
      | None \<Rightarrow> if some_before \<and> starts_with (c # cs) ''INTEGER:'' then digits_after (drop 8 (c # cs)) else None)"

definition mode_response :: "string \<Rightarrow> string option" where
  "mode_response response =
     (case List.map_filter (integer_in False) (split_on newline response) of [] \<Rightarrow> None | ds # _ \<Rightarrow> Some ds)"

definition GET_MODE_MAPPING :: "(string \<times> string) list" where
  "GET_MODE_MAPPING = [(''1'', ''ON''), (''2'', ''OFF'')]"

definition SET_MODE_MAPPING :: "(string \<times> string) list" where
  "SET_MODE_MAPPING = [(''ON'', ''1''), (''OFF'', ''2'')]"

definition snmp_modes :: "string list" where
  "snmp_modes = [''ON'', ''OFF'']"

definition snmp_validate_port :: "snmp_power \<Rightarrow> int \<Rightarrow> ('s, unit) stateful" where
  "snmp_validate_port sw port = (if 1 \<le> port \<and> port \<le> sp_ports sw then returnS () else raiseS DeviceError)"

definition get_mode_command :: "snmp_power \<Rightarrow> string \<Rightarrow> int \<Rightarrow> string" where
  "get_mode_command sw snmp_command port =
     snmp_command @ '' -v 2c -c '' @ sp_community sw @ '' '' @ sp_ip sw @ '':161 1.3.6.1.2.1.2.2.1.7.'' @ show_int port"

definition set_mode_command :: "snmp_power \<Rightarrow> int \<Rightarrow> string \<Rightarrow> string" where
  "set_mode_command sw port mode = get_mode_command sw ''snmpset'' port @ '' i '' @ mode"

definition snmp_run :: "'s host \<Rightarrow> string \<Rightarrow> ('s, string) stateful" where
  "snmp_run h command =
     bindS (runS h (py_split command) (Some 10)) (\<lambda>e.
       if ce_code e = 0 then returnS (ce_stdout e) else raiseS CommandFailed)"

definition snmp_get_mode :: "snmp_power \<Rightarrow> 's host \<Rightarrow> int \<Rightarrow> ('s, string) stateful" where
  "snmp_get_mode sw h port =
     bindS (snmp_validate_port sw port) (\<lambda>_.
     bindS (snmp_run h (get_mode_command sw ''snmpget'' port)) (\<lambda>response.
       case mode_response response of
         None \<Rightarrow> raiseS DeviceError
       | Some d \<Rightarrow> (case map_of GET_MODE_MAPPING d of None \<Rightarrow> raiseS DeviceError | Some m \<Rightarrow> returnS m)))"

text \<open>The message for an invalid mode calls the list \<open>supported_modes\<close>, which raises \<open>TypeError\<close>.\<close>

definition snmp_set_mode :: "snmp_power \<Rightarrow> 's host \<Rightarrow> string \<Rightarrow> int \<Rightarrow> ('s, unit) stateful" where
  "snmp_set_mode sw h mode port =
     logged (bindS (snmp_validate_port sw port) (\<lambda>_.
       if port = 1 then raiseS DeviceError
       else if upper mode \<notin> set snmp_modes then raiseS TypeError
       else bindS (liftS (dict_item SET_MODE_MAPPING (upper mode))) (\<lambda>m.
            bindS (snmp_run h (set_mode_command sw port m)) (\<lambda>response.
              if mode_response response = Some m then returnS () else raiseS DeviceError))))"

definition snmp_set_all_ports_mode :: "snmp_power \<Rightarrow> 's host \<Rightarrow> string \<Rightarrow> ('s, unit) stateful" where
  "snmp_set_all_ports_mode sw h mode = logged (forS (snmp_set_mode sw h mode) [2..sp_ports sw])"

definition snmp_power_off :: "snmp_power \<Rightarrow> 's host \<Rightarrow> int \<Rightarrow> ('s, unit) stateful" where
  "snmp_power_off sw h port = logged (snmp_set_mode sw h ''OFF'' port)"

definition snmp_power_on :: "snmp_power \<Rightarrow> 's host \<Rightarrow> int \<Rightarrow> ('s, unit) stateful" where
  "snmp_power_on sw h port = logged (snmp_set_mode sw h ''ON'' port)"

section \<open>Unifi switch over telnet\<close>

text \<open>
  \<open>tp_expect c r\<close> sends the command \<open>c\<close>, waits for \<open>r\<close> and gives the groups of the match; \<open>tp_search\<close>
  is \<open>re.search\<close> with the first group. The lists of \<open>TELNET_COMMANDS["ENTER_TELNET_PORT_CONFIG"]\<close> that
  a power operation appends to are part of the state, since \<open>copy()\<close> of the dictionary does not copy
  the lists in it.
\<close>

record 's telnet_power =
  tp_expect :: "string \<Rightarrow> string \<Rightarrow> ('s, nat \<Rightarrow> string) stateful"
  tp_send :: "string \<Rightarrow> ('s, unit) stateful"
  tp_search :: "string \<Rightarrow> string \<Rightarrow> string option"
  tp_commands :: "(string \<times> string) list"
  tp_regexes :: "(string \<times> string) list"
  tp_ports :: int

record telnet_lists =
  tl_enter :: "string list"
  tl_enter_regex :: "string list"

type_synonym ('s, 'a) telnet = "('s \<times> telnet_lists, 'a) stateful"

definition new_telnet_power :: "'s telnet_power \<Rightarrow> 's telnet_power result" where
  "new_telnet_power u =
     bindE (validate_required_keys [''GET_PORT_MODE'', ''ADJUST_PORTS_MODE'', ''GET_ALL_PORTS_MODE''] (tp_commands u)) (\<lambda>_.
     bindE (validate_required_keys [''GET_PORT_MODE_REGEX'', ''GET_ALL_PORTS_MODE_REGEX''] (tp_regexes u)) (\<lambda>_. Inr u))"

definition ENTER_CMD :: "string list" where
  "ENTER_CMD = [''telnet localhost'', ''enable'', ''config'']"

definition ENTER_REGEX :: "string list" where
  "ENTER_REGEX = [CHR 0x5C # ''s+>'', CHR 0x5C # ''s+#'', CHR 0x5C # ''(Config'' @ CHR 0x5C # '')#'']"

definition EXIT_CMD :: "nat \<Rightarrow> string list" where
  "EXIT_CMD n = replicate n ''exit''"

definition EXIT_REGEX :: "string list" where
  "EXIT_REGEX = [CHR 0x5C # ''s+#'', CHR 0x5C # ''s+>'', ''Connection closed by foreign host'']"

definition TELNET_COMMANDS :: telnet_lists where
  "TELNET_COMMANDS = \<lparr>tl_enter = ENTER_CMD, tl_enter_regex = ENTER_REGEX\<rparr>"

definition onSwitch :: "('s, 'a) stateful \<Rightarrow> ('s, 'a) telnet" where
  "onSwitch m = (\<lambda>(s, l). case m s of (r, s') \<Rightarrow> (r, (s', l)))"

text \<open>\<open>_poe_telnet_send_and_expect\<close>; without a command the variable \<open>response\<close> is unbound.\<close>

fun telnet_each ::
  "'s telnet_power \<Rightarrow> (string \<times> string) list \<Rightarrow> (nat \<Rightarrow> string) option \<Rightarrow> ('s, nat \<Rightarrow> string) stateful" where
  "telnet_each u [] response = (case response of None \<Rightarrow> raiseS UnboundLocalError | Some g \<Rightarrow> returnS g)"
| "telnet_each u ((c, r) # rest) response = bindS (tp_expect u c r) (\<lambda>g. telnet_each u rest (Some g))"

definition poe_telnet_send_and_expect ::
  "'s telnet_power \<Rightarrow> string list \<Rightarrow> string list \<Rightarrow> nat \<Rightarrow> ('s, string) stateful" where
  "poe_telnet_send_and_expect u commands loglines regex_group =
     (if length loglines \<noteq> length commands then raiseS DeviceError
      else bindS (telnet_each u (zip commands loglines) None) (\<lambda>g. returnS (g regex_group)))"

definition create_port_config_command_and_regex :: "int \<Rightarrow> ('s, telnet_lists) telnet" where
  "create_port_config_command_and_regex poe_port =
     (\<lambda>(s, l). let l' = \<lparr>tl_enter = tl_enter l @ [''interface 0/'' @ show_int poe_port],
                         tl_enter_regex = tl_enter_regex l @
                           [CHR 0x5C # ''(Interface 0/'' @ show_int poe_port @ CHR 0x5C # '')#'']\<rparr>
               in (Inr l', (s, l')))"

definition telnet_port_config_send :: "'s telnet_power \<Rightarrow> telnet_lists \<Rightarrow> ('s, 'a) stateful \<Rightarrow> ('s, 'a) stateful" where
  "telnet_port_config_send u telnet_commands func =
     bindS (poe_telnet_send_and_expect u (tl_enter telnet_commands) (tl_enter_regex telnet_commands) 0) (\<lambda>_.
     bindS func (\<lambda>func_result.
     bindS (poe_telnet_send_and_expect u (EXIT_CMD 4) ((CHR 0x5C # ''(Config'' @ CHR 0x5C # '')#'') # EXIT_REGEX) 0) (\<lambda>_.
       returnS func_result)))"

definition telnet_config_send :: "'s telnet_power \<Rightarrow> ('s, 'a) stateful \<Rightarrow> ('s, 'a) stateful" where
  "telnet_config_send u func =
     bindS (poe_telnet_send_and_expect u ENTER_CMD ENTER_REGEX 0) (\<lambda>_.
     bindS func (\<lambda>func_result.
     bindS (poe_telnet_send_and_expect u (EXIT_CMD 3) EXIT_REGEX 0) (\<lambda>_. returnS func_result)))"

definition telnet_send :: "'s telnet_power \<Rightarrow> ('s, 'a) stateful \<Rightarrow> ('s, 'a) stateful" where
  "telnet_send u func =
     bindS (poe_telnet_send_and_expect u (take 2 ENTER_CMD) (take 2 ENTER_REGEX) 0) (\<lambda>_.
     bindS func (\<lambda>func_result.
     bindS (poe_telnet_send_and_expect u (EXIT_CMD 2) (drop 1 EXIT_REGEX) 0) (\<lambda>_. returnS func_result)))"

definition unifi_modes :: "string list" where
  "unifi_modes = [''off'', ''on'']"

definition unifi_validate_port :: "'s telnet_power \<Rightarrow> int \<Rightarrow> ('t, unit) stateful" where
  "unifi_validate_port u port = (if port \<le> 0 \<or> port > tp_ports u then raiseS DeviceError else returnS ())"

definition unifi_mode :: "string \<Rightarrow> string" where
  "unifi_mode response = (if response = ''Auto'' then ''on'' else if response = ''Shutdown'' then ''off'' else response)"

definition unifi_get_mode :: "'s telnet_power \<Rightarrow> int \<Rightarrow> ('s, string) stateful" where
  "unifi_get_mode u port =
     bindS (unifi_validate_port u port) (\<lambda>_.
     bindS (liftS (dict_item (tp_commands u) ''GET_PORT_MODE'')) (\<lambda>cmd.
     bindS (liftS (dict_item (tp_regexes u) ''GET_PORT_MODE_REGEX'')) (\<lambda>regex.
     bindS (telnet_config_send u (poe_telnet_send_and_expect u
             [fill_named ''port'' (show_int port) cmd] [fill_named ''port'' (show_int port) regex] 1)) (\<lambda>response.
       returnS (unifi_mode response)))))"

definition unifi_get_all_ports_mode :: "'s telnet_power \<Rightarrow> ('s, string list) stateful" where
  "unifi_get_all_ports_mode u =
     bindS (liftS (dict_item (tp_commands u) ''GET_ALL_PORTS_MODE'')) (\<lambda>cmd.
     bindS (liftS (dict_item (tp_regexes u) ''GET_ALL_PORTS_MODE_REGEX'')) (\<lambda>all_regex.
     bindS (telnet_config_send u (poe_telnet_send_and_expect u [cmd] [all_regex] 1)) (\<lambda>result.
     bindS (liftS (dict_item (tp_regexes u) ''GET_PORT_MODE_REGEX'')) (\<lambda>regex.
       returnS (map (\<lambda>port. case tp_search u (fill_named ''port'' (show_int port) regex) result of
           None \<Rightarrow> [] | Some m \<Rightarrow> unifi_mode m) [1..tp_ports u])))))"

definition verify_mode :: "'s telnet_power \<Rightarrow> int \<Rightarrow> string \<Rightarrow> ('s, unit) stateful" where
  "verify_mode u port mode =
     bindS (unifi_get_mode u port) (\<lambda>active_mode. if active_mode \<noteq> mode then raiseS DeviceError else returnS ())"

definition unifi_switch :: "'s telnet_power \<Rightarrow> string \<Rightarrow> string \<Rightarrow> int \<Rightarrow> ('s, unit) telnet" where
  "unifi_switch u poe mode port =
     logged (bindS (unifi_validate_port u port) (\<lambda>_.
             bindS (create_port_config_command_and_regex port) (\<lambda>telnet_commands.
             bindS (liftS (dict_item (tp_commands u) ''ADJUST_PORTS_MODE'')) (\<lambda>cmd.
             bindS (onSwitch (telnet_port_config_send u telnet_commands (tp_send u (fill_named ''mode'' poe cmd)))) (\<lambda>_.
               onSwitch (verify_mode u port mode))))))"

definition unifi_power_on :: "'s telnet_power \<Rightarrow> int \<Rightarrow> ('s, unit) telnet" where
  "unifi_power_on u port = unifi_switch u ''auto'' ''on'' port"

definition unifi_power_off :: "'s telnet_power \<Rightarrow> int \<Rightarrow> ('s, unit) telnet" where
  "unifi_power_off u port = unifi_switch u ''shutdown'' ''off'' port"

definition unifi_set_mode :: "'s telnet_power \<Rightarrow> string \<Rightarrow> int \<Rightarrow> ('s, unit) telnet" where
  "unifi_set_mode u mode port =
     logged (bindS (validate_mode unifi_modes mode) (\<lambda>_.
       if mode = ''off'' then unifi_power_off u port else unifi_power_on u port))"

definition unifi_set_all_ports_mode :: "'s telnet_power \<Rightarrow> string \<Rightarrow> ('s, unit) telnet" where
  "unifi_set_all_ports_mode u mode =
     logged (bindS (validate_mode unifi_modes mode) (\<lambda>_. forS (unifi_set_mode u mode) [1..tp_ports u]))"

end
