(* ===== verification/Switch_Contract.thy ===== *)
theory Switch_Contract
  imports Switch_Power
begin

text \<open>
  The interface of \<open>switch_power\<close> as a locale, and the five capabilities as its instances. What the
  tool or the device behind a capability is documented to do is a predicate of each section; it
  is part of the \<open>good\<close> states, so that every law is proved from it alone.
\<close>

section \<open>The interface\<close>

text \<open>
  A sequence of switching operations, and what it does to an abstract table of the modes of the ports.
\<close>

primrec run_power :: "(int \<Rightarrow> ('s, unit) stateful) \<Rightarrow> (int \<Rightarrow> ('s, unit) stateful) \<Rightarrow> (int \<times> bool) list \<Rightarrow> ('s, unit) stateful" where
  "run_power on off [] = returnS ()"
| "run_power on off (e # es) = bindS (if snd e then on (fst e) else off (fst e)) (\<lambda>_. run_power on off es)"

primrec mode_table :: "string \<Rightarrow> string \<Rightarrow> (int \<times> bool) list \<Rightarrow> (int \<Rightarrow> string) \<Rightarrow> int \<Rightarrow> string" where
  "mode_table on_mode off_mode [] m = m"
| "mode_table on_mode off_mode (e # es) m =
     mode_table on_mode off_mode es (m(fst e := if snd e then on_mode else off_mode))"

lemma mode_table_last:
  "mode_table on_mode off_mode es m q = (case find (\<lambda>e. fst e = q) (rev es) of
     None \<Rightarrow> m q | Some e \<Rightarrow> if snd e then on_mode else off_mode)"
proof (induction es arbitrary: m)
  case (Cons e es)
  have "find P (xs @ ys) = (case find P xs of None \<Rightarrow> find P ys | Some x \<Rightarrow> Some x)" for P and xs ys :: "(int \<times> bool) list"
    by (induction xs) auto
  with Cons.IH show ?case by (auto split: option.split)
qed simp

text \<open>
  \<open>mode s p\<close> is the mode of port \<open>p\<close> in the words of the capability. Ports that can be switched can
  be read.
\<close>

locale switch_power =
  fixes good :: "'s \<Rightarrow> bool"
    and mode :: "'s \<Rightarrow> int \<Rightarrow> string"
    and readable :: "int \<Rightarrow> bool"
    and switchable :: "int \<Rightarrow> bool"
    and on_mode :: string
    and off_mode :: string
    and get_mode :: "int \<Rightarrow> ('s, string) stateful"
    and power_on :: "int \<Rightarrow> ('s, unit) stateful"
    and power_off :: "int \<Rightarrow> ('s, unit) stateful"
  assumes modes_differ: "on_mode \<noteq> off_mode"
    and switchable_readable: "switchable p \<Longrightarrow> readable p"
    and get_law: "good s \<Longrightarrow> readable p \<Longrightarrow>
      \<exists>s'. get_mode p s = (Inr (mode s p), s') \<and> good s' \<and> mode s' = mode s"
    and on_law: "good s \<Longrightarrow> switchable p \<Longrightarrow>
      \<exists>s'. power_on p s = (Inr (), s') \<and> good s' \<and> mode s' = (mode s)(p := on_mode)"
    and off_law: "good s \<Longrightarrow> switchable p \<Longrightarrow>
      \<exists>s'. power_off p s = (Inr (), s') \<and> good s' \<and> mode s' = (mode s)(p := off_mode)"
begin

lemma run_table:
  "good s \<Longrightarrow> \<forall>e\<in>set es. switchable (fst e) \<Longrightarrow>
   \<exists>s'. run_power power_on power_off es s = (Inr (), s') \<and> good s' \<and> mode s' = mode_table on_mode off_mode es (mode s)"
proof (induction es arbitrary: s)
  case Nil
  then show ?case by (simp add: returnS_def)
next
  case (Cons e es)
  have "switchable (fst e)" using Cons.prems(2) by simp
  with on_law [OF Cons.prems(1)] off_law [OF Cons.prems(1)]
  obtain s1 where s1: "(if snd e then power_on (fst e) else power_off (fst e)) s = (Inr (), s1)" "good s1"
    "mode s1 = (mode s)(fst e := if snd e then on_mode else off_mode)"
    by (cases "snd e") force+
  from Cons.IH [OF s1(2)] Cons.prems(2) obtain s' where
    s': "run_power power_on power_off es s1 = (Inr (), s') \<and> good s' \<and> mode s' = mode_table on_mode off_mode es (mode s1)" by auto
  with s1 show ?case by (intro exI [of _ s']) (simp add: bindS_def)
qed

lemma read_after:
  assumes "good s" and "\<forall>e\<in>set es. switchable (fst e)" and "readable q"
  shows "fst (bindS (run_power power_on power_off es) (\<lambda>_. get_mode q) s) = Inr (mode_table on_mode off_mode es (mode s) q)"
proof -
  from run_table [OF assms(1,2)] obtain s' where s': "run_power power_on power_off es s = (Inr (), s')" "good s'" "mode s' = mode_table on_mode off_mode es (mode s)"
    by blast
  from get_law [OF s'(2) assms(3)] s' show ?thesis by (auto simp: bindS_def)
qed

end

text \<open>The interface of the hubs that can also charge without data.\<close>

locale charging_switch = switch_power +
  fixes charge_mode :: string
    and power_charge :: "int \<Rightarrow> ('a, unit) stateful"
  assumes charge_differs: "charge_mode \<noteq> on_mode" "charge_mode \<noteq> off_mode"
    and charge_law: "good s \<Longrightarrow> switchable p \<Longrightarrow>
      \<exists>s'. power_charge p s = (Inr (), s') \<and> good s' \<and> mode s' = (mode s)(p := charge_mode)"
begin

lemma charge_then_get:
  assumes "good s" and "switchable p"
  shows "fst (bindS (power_charge p) (\<lambda>_. get_mode p) s) = Inr charge_mode"
proof -
  from charge_law [OF assms] obtain s' where s': "power_charge p s = (Inr (), s')" "good s'"
    "mode s' = (mode s)(p := charge_mode)" by blast
  from get_law [OF s'(2) switchable_readable [OF assms(2)]] s' show ?thesis by (auto simp: bindS_def)
qed

end

section \<open>Steps\<close>

lemma logged_ok: "m s = (Inr x, s') \<Longrightarrow> logged m s = (Inr x, s')"
  by (simp add: logged_def exceptS_def)

lemma dict_item_ok: "k \<in> set (map fst d) \<Longrightarrow> \<exists>v. dict_item d k = Inr v"
  by (cases "map_of d k") (auto simp: dict_item_def map_of_eq_None_iff image_iff)

section \<open>Yepkit hubs\<close>

definition yepkit_power :: "string \<Rightarrow> usb_power" where
  "yepkit_power serial =
     \<lparr>up_commands = [(''POWER_OFF'', ''ykushcmd -s {} -d {}''), (''POWER_ON'', ''ykushcmd -s {} -u {}''),
        (''GET_MODE'', ''ykushcmd -s {} -g {}''), (''LIST_YEPKITS'', ''ykushcmd -l'')],
      up_regexes = [(''GET_MODE_REGEX'', ''is[ ]([A-Z]+)'')], up_serial = serial, up_ports = 3\<rparr>"

text \<open>\<open>ykushcmd\<close>: -u and -d switch a port of the hub up and down, -g tells whether it is on.\<close>

definition ykush_trusted :: "string \<Rightarrow> 's usb_shell \<Rightarrow> ('s \<Rightarrow> int \<Rightarrow> bool) \<Rightarrow> bool" where
  "ykush_trusted serial sh powered \<longleftrightarrow> (\<forall>s p. 1 \<le> p \<and> p \<le> 3 \<longrightarrow>
     (\<exists>out s'. us_shell sh (''ykushcmd -s '' @ serial @ '' -u '' @ show_int p) s = (Inr out, s') \<and>
        powered s' = (powered s)(p := True)) \<and>
     (\<exists>out s'. us_shell sh (''ykushcmd -s '' @ serial @ '' -d '' @ show_int p) s = (Inr out, s') \<and>
        powered s' = (powered s)(p := False)) \<and>
     (\<exists>s'. us_regex_shell sh (''ykushcmd -s '' @ serial @ '' -g '' @ show_int p) ''is[ ]([A-Z]+)'' s =
        (Inr (if powered s p then ''ON'' else ''OFF''), s') \<and> powered s' = powered s))"

definition usb_mode :: "bool \<Rightarrow> string" where
  "usb_mode b = (if b then ''sync'' else ''off'')"

lemma yepkit_commands:
  "usb_command (yepkit_power serial) ''POWER_ON'' [a, b] = Inr (''ykushcmd -s '' @ a @ '' -u '' @ b)"
  "usb_command (yepkit_power serial) ''POWER_OFF'' [a, b] = Inr (''ykushcmd -s '' @ a @ '' -d '' @ b)"
  "usb_command (yepkit_power serial) ''GET_MODE'' [a, b] = Inr (''ykushcmd -s '' @ a @ '' -g '' @ b)"
  "dict_item (up_regexes (yepkit_power serial)) ''GET_MODE_REGEX'' = Inr ''is[ ]([A-Z]+)''"
  by (simp_all add: usb_command_def yepkit_power_def dict_item_def)

lemma yepkit_port: "1 \<le> p \<Longrightarrow> p \<le> 3 \<Longrightarrow> usb_validate_port (yepkit_power serial) p = returnS ()"
  by (simp add: usb_validate_port_def yepkit_power_def)

lemma usb_mode_update: "(\<lambda>q. usb_mode ((f(p := b)) q)) = (\<lambda>q. usb_mode (f q))(p := usb_mode b)"
  by auto

lemma upper_on: "contains ''ON'' (upper (if b then ''ON'' else ''OFF'')) = b"
  by (simp add: upper_def upper_char_def)

interpretation yepkit: switch_power "\<lambda>s. ykush_trusted serial sh powered" "\<lambda>s p. usb_mode (powered s p)"
  "\<lambda>p. 1 \<le> p \<and> p \<le> 3" "\<lambda>p. 1 \<le> p \<and> p \<le> 3" "''sync''" "''off''"
  "usb_get_mode (yepkit_power serial) sh" "\<lambda>p. usb_power_on (yepkit_power serial) sh p True"
  "usb_power_off (yepkit_power serial) sh"
proof unfold_locales
  fix s and p :: int
  assume t: "ykush_trusted serial sh powered" and p: "1 \<le> p \<and> p \<le> 3"
  let ?serial = "up_serial (yepkit_power serial)"
  have serial: "?serial = serial" by (simp add: yepkit_power_def)
  from t p obtain s' where s': "us_regex_shell sh (''ykushcmd -s '' @ serial @ '' -g '' @ show_int p) ''is[ ]([A-Z]+)'' s =
        (Inr (if powered s p then ''ON'' else ''OFF''), s')" "powered s' = powered s"
    unfolding ykush_trusted_def by blast
  have "usb_get_mode (yepkit_power serial) sh p s = (Inr (usb_mode (powered s p)), s')"
    using p s'(1) upper_on [of "powered s p"]
    by (simp only: usb_get_mode_def yepkit_port bindS_def returnS_def usb_query_def liftS_def serial yepkit_commands
        prod.case sum.case usb_mode_def)
  with t s'(2) show "\<exists>s'. usb_get_mode (yepkit_power serial) sh p s = (Inr (usb_mode (powered s p)), s') \<and>
      ykush_trusted serial sh powered \<and> (\<lambda>p. usb_mode (powered s' p)) = (\<lambda>p. usb_mode (powered s p))"
    by auto
next
  fix s and p :: int
  assume t: "ykush_trusted serial sh powered" and p: "1 \<le> p \<and> p \<le> 3"
  have serial: "up_serial (yepkit_power serial) = serial" by (simp add: yepkit_power_def)
  from t p obtain out s' where s': "us_shell sh (''ykushcmd -s '' @ serial @ '' -u '' @ show_int p) s = (Inr out, s')"
    "powered s' = (powered s)(p := True)"
    unfolding ykush_trusted_def by blast
  have "usb_power_on (yepkit_power serial) sh p True s = (Inr (), s')"
    unfolding usb_power_on_def
    by (rule logged_ok) (use p s'(1) in \<open>simp only: yepkit_port bindS_def returnS_def usb_run_def liftS_def serial
        yepkit_commands prod.case sum.case if_False not_True_eq_False\<close>)
  with t s'(2) usb_mode_update [of "powered s" p True]
  show "\<exists>s'. usb_power_on (yepkit_power serial) sh p True s = (Inr (), s') \<and> ykush_trusted serial sh powered \<and>
      (\<lambda>p. usb_mode (powered s' p)) = (\<lambda>p. usb_mode (powered s p))(p := ''sync'')"
    by (auto simp: usb_mode_def [of True])
next
  fix s and p :: int
  assume t: "ykush_trusted serial sh powered" and p: "1 \<le> p \<and> p \<le> 3"
  have serial: "up_serial (yepkit_power serial) = serial" by (simp add: yepkit_power_def)
  from t p obtain out s' where s': "us_shell sh (''ykushcmd -s '' @ serial @ '' -d '' @ show_int p) s = (Inr out, s')"
    "powered s' = (powered s)(p := False)"
    unfolding ykush_trusted_def by blast
  have "usb_power_off (yepkit_power serial) sh p s = (Inr (), s')"
    unfolding usb_power_off_def
    by (rule logged_ok) (use p s'(1) in \<open>simp only: yepkit_port bindS_def returnS_def usb_run_def liftS_def serial
        yepkit_commands prod.case sum.case\<close>)
  with t s'(2) usb_mode_update [of "powered s" p False]
  show "\<exists>s'. usb_power_off (yepkit_power serial) sh p s = (Inr (), s') \<and> ykush_trusted serial sh powered \<and>
      (\<lambda>p. usb_mode (powered s' p)) = (\<lambda>p. usb_mode (powered s p))(p := ''off'')"
    by (auto simp: usb_mode_def [of False])
qed simp_all

section \<open>Cambrionix hubs\<close>

definition cambrionix_power :: "int \<Rightarrow> usb_power" where
  "cambrionix_power total_ports =
     \<lparr>up_commands = [(''CLEAR_ERROR_FLAGS'', ''cef''), (''CLEAR_REBOOTED_FLAG'', ''crf''), (''LIMITS'', ''limits''),
        (''STATE'', ''state''), (''GET_MODE'', ''state {}''), (''SYSTEM_STATUS'', ''system''),
        (''REBOOT_WATCHDOG'', ''reboot watchdog''), (''REBOOT'', ''reboot''), (''SET_MODE'', ''mode {} {}'')],
      up_regexes = [(''GET_MODE_REGEX'', CHR 0x5C # ''s*'' @ CHR 0x5C # ''d{1,2},'' @ CHR 0x5C # ''s+'' @ CHR 0x5C # ''w+,'' @
        CHR 0x5C # ''s+([a-zA-Z0-9'' @ CHR 0x5C # ''s]+),'')],
      up_serial = [], up_ports = total_ports\<rparr>"

text \<open>
  The hub: the command "mode" sets the mode of a port, and the flags that "state" prints for a port
  have an "O" when it is off and an "S" when it synchronizes.
\<close>

definition flags_show :: "string \<Rightarrow> string \<Rightarrow> bool" where
  "flags_show flags m \<longleftrightarrow> m \<in> set charge_modes \<and> (contains ''O'' flags = (m = ''off'')) \<and>
     (m \<noteq> ''off'' \<longrightarrow> contains ''S'' flags = (m = ''sync''))"

definition cambrionix_trusted :: "int \<Rightarrow> 's usb_shell \<Rightarrow> ('s \<Rightarrow> int \<Rightarrow> string) \<Rightarrow> bool" where
  "cambrionix_trusted total_ports sh mode \<longleftrightarrow> (\<forall>s p. 1 \<le> p \<and> p \<le> total_ports \<longrightarrow>
     (\<forall>m\<in>set charge_modes. \<exists>out s'. us_shell sh (''mode '' @ m @ '' '' @ show_int p) s = (Inr out, s') \<and>
        mode s' = (mode s)(p := m)) \<and>
     (\<forall>regex. \<exists>flags s'. us_regex_shell sh (''state '' @ show_int p) regex s = (Inr flags, s') \<and>
        mode s' = mode s \<and> flags_show flags (mode s p)))"

lemma cambrionix_commands:
  "usb_command (cambrionix_power n) ''SET_MODE'' [a, b] = Inr (''mode '' @ a @ '' '' @ b)"
  "usb_command (cambrionix_power n) ''GET_MODE'' [a] = Inr (''state '' @ a)"
  "\<exists>regex. dict_item (up_regexes (cambrionix_power n)) ''GET_MODE_REGEX'' = Inr regex"
  by (simp_all add: usb_command_def cambrionix_power_def dict_item_def)

lemma cambrionix_port: "1 \<le> p \<Longrightarrow> p \<le> n \<Longrightarrow> usb_validate_port (cambrionix_power n) p = returnS ()"
  by (simp add: usb_validate_port_def cambrionix_power_def)

lemma cambrionix_get:
  assumes "cambrionix_trusted n sh mode" and "1 \<le> p" and "p \<le> n"
  shows "\<exists>s'. charge_get_mode (cambrionix_power n) sh p s = (Inr (mode s p), s') \<and> mode s' = mode s"
proof -
  from cambrionix_commands(3) [of n] obtain regex where
    r: "dict_item (up_regexes (cambrionix_power n)) ''GET_MODE_REGEX'' = Inr regex" by blast
  from assms obtain flags s' where q: "us_regex_shell sh (''state '' @ show_int p) regex s = (Inr flags, s')"
    and s': "mode s' = mode s" and f: "flags_show flags (mode s p)"
    unfolding cambrionix_trusted_def by blast
  have m: "(if contains ''O'' flags then ''off'' else if contains ''S'' flags then ''sync'' else ''charge'') = mode s p"
    using f unfolding flags_show_def charge_modes_def by auto
  have "charge_get_mode (cambrionix_power n) sh p s = (Inr (mode s p), s')"
    using assms(2,3) q by (simp only: charge_get_mode_def cambrionix_port bindS_def returnS_def usb_query_def liftS_def
        cambrionix_commands r m prod.case sum.case)
  with s' show ?thesis by blast
qed

lemma cambrionix_set:
  assumes "cambrionix_trusted n sh mode" and "1 \<le> p" and "p \<le> n" and "m \<in> set charge_modes"
  shows "\<exists>s'. charge_set_mode (cambrionix_power n) sh m p s = (Inr (), s') \<and> mode s' = (mode s)(p := m)"
proof -
  from assms obtain out s' where q: "us_shell sh (''mode '' @ m @ '' '' @ show_int p) s = (Inr out, s')"
    and s': "mode s' = (mode s)(p := m)"
    unfolding cambrionix_trusted_def by blast
  have v: "validate_mode charge_modes m s = (Inr (), s)" using assms(4) by (simp add: validate_mode_def returnS_def)
  have "charge_set_mode (cambrionix_power n) sh m p s = (Inr (), s')"
    unfolding charge_set_mode_def
    by (rule logged_ok) (use assms(2,3) q v in \<open>simp only: cambrionix_port bindS_def returnS_def usb_run_def liftS_def
        cambrionix_commands prod.case sum.case\<close>)
  with s' show ?thesis by blast
qed

lemma cambrionix_on:
  assumes "cambrionix_trusted n sh mode" and "1 \<le> p" and "p \<le> n"
  shows "\<exists>s'. charge_power_on (cambrionix_power n) sh p data_sync s = (Inr (), s') \<and>
    mode s' = (mode s)(p := if data_sync then ''sync'' else ''charge'')"
proof -
  have "(if data_sync then ''sync'' else ''charge'') \<in> set charge_modes" by (simp add: charge_modes_def)
  from cambrionix_set [OF assms this, of s] obtain s' where
    "charge_set_mode (cambrionix_power n) sh (if data_sync then ''sync'' else ''charge'') p s = (Inr (), s')" and
    m: "mode s' = (mode s)(p := if data_sync then ''sync'' else ''charge'')"
    by blast
  then have "charge_power_on (cambrionix_power n) sh p data_sync s = (Inr (), s')"
    unfolding charge_power_on_def
    by (intro logged_ok) (simp only: cambrionix_port [OF assms(2,3)] bindS_def returnS_def prod.case sum.case)
  with m show ?thesis by blast
qed

lemma cambrionix_off:
  assumes "cambrionix_trusted n sh mode" and "1 \<le> p" and "p \<le> n"
  shows "\<exists>s'. charge_power_off (cambrionix_power n) sh p s = (Inr (), s') \<and> mode s' = (mode s)(p := ''off'')"
proof -
  have "''off'' \<in> set charge_modes" by (simp add: charge_modes_def)
  from cambrionix_set [OF assms this, of s] obtain s' where
    "charge_set_mode (cambrionix_power n) sh ''off'' p s = (Inr (), s')" and m: "mode s' = (mode s)(p := ''off'')"
    by blast
  then have "charge_power_off (cambrionix_power n) sh p s = (Inr (), s')"
    unfolding charge_power_off_def
    by (intro logged_ok) (simp only: cambrionix_port [OF assms(2,3)] bindS_def returnS_def prod.case sum.case)
  with m show ?thesis by blast
qed

interpretation cambrionix: charging_switch "\<lambda>s. cambrionix_trusted n sh mode" mode
  "\<lambda>p. 1 \<le> p \<and> p \<le> n" "\<lambda>p. 1 \<le> p \<and> p \<le> n" "''sync''" "''off''"
  "charge_get_mode (cambrionix_power n) sh" "\<lambda>p. charge_power_on (cambrionix_power n) sh p True"
  "charge_power_off (cambrionix_power n) sh" "''charge''" "\<lambda>p. charge_power_on (cambrionix_power n) sh p False"
  by unfold_locales (use cambrionix_get cambrionix_on [where data_sync = True] cambrionix_on [where data_sync = False]
      cambrionix_off in auto)

section \<open>DLI power switches\<close>

text \<open>The REST interface of the switch, below \<open>base\<close>.\<close>

definition outlet_url :: "string \<Rightarrow> string \<Rightarrow> string" where
  "outlet_url ip ports = ''http://'' @ ip @ ''/restapi/relay/outlets/'' @ ports @ ''/state/''"

definition dli_trusted :: "'s dli_power \<Rightarrow> ('s \<Rightarrow> int \<Rightarrow> bool) \<Rightarrow> bool" where
  "dli_trusted d powered \<longleftrightarrow>
     dict_item (dp_commands d) ''ADJUST_PORTS_MODE'' = Inr ''http://{ip}/restapi/relay/outlets/{}/state/'' \<and>
     new_dli_power d = Inr d \<and> list_all (\<lambda>c. c \<noteq> CHR ''{'') (dp_ip d) \<and>
     (\<forall>s p h. 0 \<le> p \<and> p < dp_ports d \<longrightarrow>
        (\<forall>b. \<exists>out s'. dp_http d ''POST'' (outlet_url (dp_ip d) (''='' @ show_int p)) h
             (Some (if b then ''true'' else ''false'')) s = (Inr out, s') \<and> powered s' = (powered s)(p := b)) \<and>
        (\<exists>s'. dp_http d ''GET'' (outlet_url (dp_ip d) (''='' @ show_int p)) h None s =
             (Inr (if powered s p then ''true'' else ''false''), s') \<and> powered s' = powered s))"

definition dli_mode :: "bool \<Rightarrow> string" where
  "dli_mode b = (if b then ''on'' else ''off'')"

lemma fill_plain: "list_all (\<lambda>c. c \<noteq> CHR ''{'') t \<Longrightarrow> fill (t @ cs) as = bindE (fill cs as) (\<lambda>r. Inr (t @ r))"
  by (induction t) (auto simp: bindE_def split: sum.split)

lemma fill_url:
  assumes "list_all (\<lambda>c. c \<noteq> CHR ''{'') ip"
  shows "fill (fill_named ''ip'' ip ''http://{ip}/restapi/relay/outlets/{}/state/'') [ports] = Inr (outlet_url ip ports)"
proof -
  have "fill_named ''ip'' ip ''http://{ip}/restapi/relay/outlets/{}/state/'' = ''http://'' @ ip @ ''/restapi/relay/outlets/{}/state/''"
    by (simp add: fill_named_def replace_all.simps)
  then show ?thesis using fill_plain [OF assms, of "''/restapi/relay/outlets/{}/state/''" "[ports]"]
    by (simp add: outlet_url_def)
qed

lemma dli_request_is:
  assumes "dli_trusted d powered" and "header = ''GET_PROP'' \<or> header = ''SET_PROP''"
  shows "\<exists>h. \<forall>s. dli_request d http_method ports header data s = dp_http d http_method (outlet_url (dp_ip d) ports) h data s"
proof -
  have "new_dli_power d = Inr d" using assms(1) by (simp only: dli_trusted_def)
  then have "header \<in> set (map fst (dp_headers d))"
    using assms(2) by (auto simp: new_dli_power_def validate_required_keys_def bindE_def split: if_splits)
  from dict_item_ok [OF this] obtain h where h: "dict_item (dp_headers d) header = Inr h" ..
  have c: "dict_item (dp_commands d) ''ADJUST_PORTS_MODE'' = Inr ''http://{ip}/restapi/relay/outlets/{}/state/''"
    and ip: "list_all (\<lambda>c. c \<noteq> CHR ''{'') (dp_ip d)"
    using assms(1) by (simp_all only: dli_trusted_def)
  show ?thesis
    by (intro exI [of _ h] allI) (simp only: dli_request_def bindS_def liftS_def c fill_url [OF ip] h prod.case sum.case)
qed

lemma dli_get:
  assumes "dli_trusted d powered" and "0 \<le> p" and "p < dp_ports d"
  shows "\<exists>s'. dli_get_mode d p s = (Inr (dli_mode (powered s p)), s') \<and> powered s' = powered s"
proof -
  from dli_request_is [OF assms(1)] obtain h where
    h: "dli_request d ''GET'' (''='' @ show_int p) ''GET_PROP'' None s = dp_http d ''GET'' (outlet_url (dp_ip d) (''='' @ show_int p)) h None s"
    by blast
  from assms obtain s' where s': "dp_http d ''GET'' (outlet_url (dp_ip d) (''='' @ show_int p)) h None s =
      (Inr (if powered s p then ''true'' else ''false''), s')" "powered s' = powered s"
    unfolding dli_trusted_def by blast
  have v: "dli_validate_port d p s = (Inr (), s)" using assms(2,3) by (simp add: dli_validate_port_def returnS_def)
  have "dli_get_mode d p s = (Inr (dli_mode (powered s p)), s')"
    by (simp only: dli_get_mode_def bindS_def v h s'(1) returnS_def prod.case sum.case) (simp add: dli_mode_def)
  with s'(2) show ?thesis by blast
qed

lemma dli_set:
  assumes "dli_trusted d powered" and "0 \<le> p" and "p < dp_ports d"
  shows "\<exists>s'. bindS (dli_validate_port d p) (\<lambda>_. dli_post d (''='' @ show_int p) (if b then ''true'' else ''false'')) s =
    (Inr (), s') \<and> powered s' = (powered s)(p := b)"
proof -
  let ?v = "if b then ''true'' else ''false''"
  from dli_request_is [OF assms(1)] obtain h where
    h: "dli_request d ''POST'' (''='' @ show_int p) ''SET_PROP'' (Some ?v) s = dp_http d ''POST'' (outlet_url (dp_ip d) (''='' @ show_int p)) h (Some ?v) s"
    by blast
  from assms obtain out s' where s': "dp_http d ''POST'' (outlet_url (dp_ip d) (''='' @ show_int p)) h (Some ?v) s =
      (Inr out, s')" "powered s' = (powered s)(p := b)"
    unfolding dli_trusted_def by blast
  have v: "dli_validate_port d p s = (Inr (), s)" using assms(2,3) by (simp add: dli_validate_port_def returnS_def)
  from s'(2) show ?thesis
    by (intro exI [of _ s']) (simp only: bindS_def v dli_post_def h s'(1) returnS_def prod.case sum.case simp_thms)
qed

lemma dli_mode_update: "(\<lambda>q. dli_mode ((f(p := b)) q)) = (\<lambda>q. dli_mode (f q))(p := dli_mode b)"
  by auto

lemma dli_on:
  assumes "dli_trusted d powered" and "0 \<le> p" and "p < dp_ports d"
  shows "\<exists>s'. dli_power_on d p s = (Inr (), s') \<and> (\<lambda>q. dli_mode (powered s' q)) = (\<lambda>q. dli_mode (powered s q))(p := ''on'')"
  using dli_set [OF assms, of True s] dli_mode_update [of "powered s" p True] logged_ok
  unfolding dli_power_on_def dli_mode_def [of True] if_True by (metis (no_types))

lemma dli_off:
  assumes "dli_trusted d powered" and "0 \<le> p" and "p < dp_ports d"
  shows "\<exists>s'. dli_power_off d p s = (Inr (), s') \<and> (\<lambda>q. dli_mode (powered s' q)) = (\<lambda>q. dli_mode (powered s q))(p := ''off'')"
  using dli_set [OF assms, of False s] dli_mode_update [of "powered s" p False] logged_ok
  unfolding dli_power_off_def dli_mode_def [of False] if_False by (metis (no_types))

interpretation dli: switch_power "\<lambda>s. dli_trusted d powered" "\<lambda>s p. dli_mode (powered s p)"
  "\<lambda>p. 0 \<le> p \<and> p < dp_ports d" "\<lambda>p. 0 \<le> p \<and> p < dp_ports d" "''on''" "''off''"
  "dli_get_mode d" "dli_power_on d" "dli_power_off d"
  by unfold_locales (use dli_get dli_on dli_off in \<open>fastforce+\<close>)

section \<open>D-Link switches\<close>

text \<open>
  The switch: \<open>snmpset\<close> of the object of a port sets it up (1) or down (2) and prints what was set,
  \<open>snmpget\<close> prints the value.
\<close>

definition snmp_line :: "int \<Rightarrow> bool \<Rightarrow> string" where
  "snmp_line p b = ''iso.3.6.1.2.1.2.2.1.7.'' @ show_int p @ '' = INTEGER: '' @ (if b then ''1'' else ''2'')"

definition snmp_trusted :: "snmp_power \<Rightarrow> 's host \<Rightarrow> ('s \<Rightarrow> int \<Rightarrow> bool) \<Rightarrow> bool" where
  "snmp_trusted sw h up \<longleftrightarrow> (\<forall>s p. 1 \<le> p \<and> p \<le> sp_ports sw \<longrightarrow>
     (\<forall>b. \<exists>e s'. h_run h (py_split (set_mode_command sw p (if b then ''1'' else ''2''))) (Some 10) s = (Inr e, s') \<and>
        ce_code e = 0 \<and> ce_stdout e = snmp_line p b \<and> up s' = (up s)(p := b)) \<and>
     (\<exists>e s'. h_run h (py_split (get_mode_command sw ''snmpget'' p)) (Some 10) s = (Inr e, s') \<and>
        ce_code e = 0 \<and> ce_stdout e = snmp_line p (up s p) \<and> up s' = up s))"

definition snmp_mode :: "bool \<Rightarrow> string" where
  "snmp_mode b = (if b then ''ON'' else ''OFF'')"

lemma split_on_none: "c \<notin> set s \<Longrightarrow> split_on c s = [s]"
  by (induction s) auto

lemma integer_in_append: "integer_in True cs = Some ds \<Longrightarrow> integer_in b (x # xs @ cs) = Some ds"
proof (induction xs arbitrary: x b)
  case (Cons y ys)
  from Cons.IH [OF Cons.prems, of True y] show ?case by simp
qed simp

lemma mode_response_line: "mode_response (snmp_line p b) = Some (if b then ''1'' else ''2'')"
proof -
  have d: "set (show_int p) \<subseteq> {c. is_digit c} \<union> {CHR ''-''}"
    by (auto simp: show_int_def simp: show_nat_digits)
  then have n: "newline \<notin> set (show_int p)" by (auto simp: is_digit_def)
  have l: "snmp_line p b = CHR ''i'' # (''so.3.6.1.2.1.2.2.1.7.'' @ show_int p @ '' = '') @ (''INTEGER: '' @ (if b then ''1'' else ''2''))"
    by (simp add: snmp_line_def)
  have "newline \<notin> set (snmp_line p b)" using n by (simp add: snmp_line_def)
  moreover have "integer_in True (''INTEGER: '' @ (if b then ''1'' else ''2'')) = Some (if b then ''1'' else ''2'')"
    by (simp add: starts_with_def digits_after_def is_digit_def)
  then have "integer_in False (snmp_line p b) = Some (if b then ''1'' else ''2'')"
    unfolding l by (rule integer_in_append)
  ultimately show ?thesis by (simp add: mode_response_def split_on_none List.map_filter_simps)
qed

lemma snmp_run_ok:
  "h_run h (py_split cmd) (Some 10) s = (Inr e, s') \<Longrightarrow> ce_code e = 0 \<Longrightarrow> snmp_run h cmd s = (Inr (ce_stdout e), s')"
  by (simp add: snmp_run_def bindS_def runS_def returnS_def)

lemma snmp_get:
  assumes "snmp_trusted sw h up" and "1 \<le> p" and "p \<le> sp_ports sw"
  shows "\<exists>s'. snmp_get_mode sw h p s = (Inr (snmp_mode (up s p)), s') \<and> up s' = up s"
proof -
  from assms obtain e s' where e: "h_run h (py_split (get_mode_command sw ''snmpget'' p)) (Some 10) s = (Inr e, s')"
    "ce_code e = 0" "ce_stdout e = snmp_line p (up s p)" "up s' = up s"
    unfolding snmp_trusted_def by blast
  have v: "snmp_validate_port sw p s = (Inr (), s)" using assms(2,3) by (simp add: snmp_validate_port_def returnS_def)
  have m: "map_of GET_MODE_MAPPING (if up s p then ''1'' else ''2'') = Some (snmp_mode (up s p))"
    by (simp add: GET_MODE_MAPPING_def snmp_mode_def)
  have "snmp_get_mode sw h p s = (Inr (snmp_mode (up s p)), s')"
    by (simp only: snmp_get_mode_def bindS_def v snmp_run_ok [OF e(1,2)] e(3) mode_response_line m returnS_def
        prod.case sum.case option.case)
  with e(4) show ?thesis by blast
qed

lemma snmp_set:
  assumes "snmp_trusted sw h up" and "2 \<le> p" and "p \<le> sp_ports sw"
  shows "\<exists>s'. snmp_set_mode sw h (snmp_mode b) p s = (Inr (), s') \<and> up s' = (up s)(p := b)"
proof -
  have p: "1 \<le> p" using assms(2) by simp
  with assms obtain e s' where e: "h_run h (py_split (set_mode_command sw p (if b then ''1'' else ''2''))) (Some 10) s = (Inr e, s')"
    "ce_code e = 0" "ce_stdout e = snmp_line p b" "up s' = (up s)(p := b)"
    unfolding snmp_trusted_def by blast
  have v: "snmp_validate_port sw p s = (Inr (), s)" using p assms(3) by (simp add: snmp_validate_port_def returnS_def)
  have m: "upper (snmp_mode b) = snmp_mode b" "snmp_mode b \<in> set snmp_modes"
    "dict_item SET_MODE_MAPPING (snmp_mode b) = Inr (if b then ''1'' else ''2'')"
    by (simp_all add: upper_def upper_char_def snmp_mode_def snmp_modes_def SET_MODE_MAPPING_def dict_item_def)
  have ne: "(p = 1) = False" "(snmp_mode b \<notin> set snmp_modes) = False" using assms(2) m by simp_all
  have "snmp_set_mode sw h (snmp_mode b) p s = (Inr (), s')"
    unfolding snmp_set_mode_def
    by (rule logged_ok) (simp only: bindS_def v ne m liftS_def if_False snmp_run_ok [OF e(1,2)] e(3) mode_response_line
        returnS_def prod.case sum.case simp_thms if_True)
  with e(4) show ?thesis by blast
qed

lemma snmp_mode_update: "(\<lambda>q. snmp_mode ((f(p := b)) q)) = (\<lambda>q. snmp_mode (f q))(p := snmp_mode b)"
  by auto

lemma snmp_switch:
  assumes "snmp_trusted sw h up" and "2 \<le> p" and "p \<le> sp_ports sw"
  shows "\<exists>s'. logged (snmp_set_mode sw h (snmp_mode b) p) s = (Inr (), s') \<and>
    (\<lambda>q. snmp_mode (up s' q)) = (\<lambda>q. snmp_mode (up s q))(p := snmp_mode b)"
  using snmp_set [OF assms, of b s] snmp_mode_update [of "up s" p b] logged_ok by (metis (no_types))

lemma snmp_on_off:
  "snmp_power_on sw h p = logged (snmp_set_mode sw h (snmp_mode True) p)"
  "snmp_power_off sw h p = logged (snmp_set_mode sw h (snmp_mode False) p)"
  by (simp_all add: snmp_power_on_def snmp_power_off_def snmp_mode_def)

interpretation snmp: switch_power "\<lambda>s. snmp_trusted sw h up" "\<lambda>s p. snmp_mode (up s p)"
  "\<lambda>p. 1 \<le> p \<and> p \<le> sp_ports sw" "\<lambda>p. 2 \<le> p \<and> p \<le> sp_ports sw" "snmp_mode True" "snmp_mode False"
  "snmp_get_mode sw h" "snmp_power_on sw h" "snmp_power_off sw h"
proof unfold_locales
  show "snmp_mode True \<noteq> snmp_mode False" by (simp add: snmp_mode_def)
  fix s and p :: int
  assume t: "snmp_trusted sw h up"
  show "1 \<le> p \<and> p \<le> sp_ports sw \<Longrightarrow> \<exists>s'. snmp_get_mode sw h p s = (Inr (snmp_mode (up s p)), s') \<and>
      snmp_trusted sw h up \<and> (\<lambda>p. snmp_mode (up s' p)) = (\<lambda>p. snmp_mode (up s p))"
    using snmp_get [OF t, of p s] t by force
  show "2 \<le> p \<and> p \<le> sp_ports sw \<Longrightarrow> \<exists>s'. snmp_power_on sw h p s = (Inr (), s') \<and> snmp_trusted sw h up \<and>
      (\<lambda>p. snmp_mode (up s' p)) = (\<lambda>p. snmp_mode (up s p))(p := snmp_mode True)"
    using snmp_switch [OF t, of p True s] t unfolding snmp_on_off by blast
  show "2 \<le> p \<and> p \<le> sp_ports sw \<Longrightarrow> \<exists>s'. snmp_power_off sw h p s = (Inr (), s') \<and> snmp_trusted sw h up \<and>
      (\<lambda>p. snmp_mode (up s' p)) = (\<lambda>p. snmp_mode (up s p))(p := snmp_mode False)"
    using snmp_switch [OF t, of p False s] t unfolding snmp_on_off by blast
qed simp

section \<open>Unifi switches\<close>

text \<open>
  The switch behind its shell: how deep in the telnet session it is (1 telnet, 2 enabled, 3 config, 4
  an interface), the interface that is selected, and the mode of each port in its own words.
\<close>

record 's telnet_view =
  tv_depth :: "'s \<Rightarrow> nat"
  tv_port :: "'s \<Rightarrow> int"
  tv_mode :: "'s \<Rightarrow> int \<Rightarrow> string"

definition telnet_answers :: "'s telnet_power \<Rightarrow> 's telnet_view \<Rightarrow> string \<Rightarrow> 's \<Rightarrow> nat \<Rightarrow> bool" where
  "telnet_answers u tv c s d \<longleftrightarrow> (\<forall>r. \<exists>g s'. tp_expect u c r s = (Inr g, s') \<and> tv_depth tv s' = d \<and> tv_mode tv s' = tv_mode tv s)"

definition interface_cmd :: "int \<Rightarrow> string" where
  "interface_cmd q = ''interface 0/'' @ show_int q"

definition selects :: "'s telnet_power \<Rightarrow> 's telnet_view \<Rightarrow> int \<Rightarrow> 's \<Rightarrow> bool" where
  "selects u tv q s \<longleftrightarrow> (\<forall>r. \<exists>g s'. tp_expect u (interface_cmd q) r s = (Inr g, s') \<and>
     tv_depth tv s' = 4 \<and> tv_port tv s' = q \<and> tv_mode tv s' = tv_mode tv s)"

definition shows_mode :: "'s telnet_power \<Rightarrow> 's telnet_view \<Rightarrow> int \<Rightarrow> 's \<Rightarrow> bool" where
  "shows_mode u tv q s \<longleftrightarrow> (\<forall>r. \<exists>g s'. tp_expect u (''show poe port 0/'' @ show_int q) r s = (Inr g, s') \<and>
     g 1 = tv_mode tv s q \<and> tv_depth tv s' = tv_depth tv s \<and> tv_mode tv s' = tv_mode tv s)"

definition sets_mode :: "'s telnet_power \<Rightarrow> 's telnet_view \<Rightarrow> string \<Rightarrow> string \<Rightarrow> 's \<Rightarrow> bool" where
  "sets_mode u tv poe m s \<longleftrightarrow> (\<exists>s'. tp_send u (''poe opmode '' @ poe) s = (Inr (), s') \<and>
     tv_depth tv s' = tv_depth tv s \<and> tv_mode tv s' = (tv_mode tv s)(tv_port tv s := m))"

definition telnet_trusted :: "'s telnet_power \<Rightarrow> 's telnet_view \<Rightarrow> bool" where
  "telnet_trusted u tv \<longleftrightarrow>
     dict_item (tp_commands u) ''GET_PORT_MODE'' = Inr ''show poe port 0/{port}'' \<and>
     dict_item (tp_commands u) ''ADJUST_PORTS_MODE'' = Inr ''poe opmode {mode}'' \<and>
     ''GET_PORT_MODE_REGEX'' \<in> set (map fst (tp_regexes u)) \<and>
     (\<forall>s. (tv_depth tv s = 0 \<longrightarrow> telnet_answers u tv ''telnet localhost'' s 1) \<and>
        (tv_depth tv s = 1 \<longrightarrow> telnet_answers u tv ''enable'' s 2) \<and> (tv_depth tv s = 2 \<longrightarrow> telnet_answers u tv ''config'' s 3) \<and>
        (\<forall>d. tv_depth tv s = Suc d \<longrightarrow> telnet_answers u tv ''exit'' s d) \<and>
        (\<forall>q. 3 \<le> tv_depth tv s \<and> 0 < q \<and> q \<le> tp_ports u \<longrightarrow> selects u tv q s) \<and>
        (\<forall>q. tv_depth tv s = 3 \<and> 0 < q \<and> q \<le> tp_ports u \<longrightarrow> shows_mode u tv q s) \<and>
        (tv_depth tv s = 4 \<longrightarrow> sets_mode u tv ''auto'' ''Auto'' s \<and> sets_mode u tv ''shutdown'' ''Shutdown'' s))"

lemma telnet_step:
  assumes "telnet_answers u tv c s d" and "\<And>g s'. tv_depth tv s' = d \<Longrightarrow> tv_mode tv s' = tv_mode tv s \<Longrightarrow>
    \<exists>g' s''. telnet_each u rest (Some g) s' = (Inr g', s'') \<and> P s''"
  shows "\<exists>g' s''. telnet_each u ((c, r) # rest) g0 s = (Inr g', s'') \<and> P s''"
proof -
  from assms(1) obtain g s' where s': "tp_expect u c r s = (Inr g, s')" "tv_depth tv s' = d" "tv_mode tv s' = tv_mode tv s"
    unfolding telnet_answers_def by blast
  from assms(2) [OF s'(2,3), of g] obtain g' s'' where "telnet_each u rest (Some g) s' = (Inr g', s'')" "P s''" by blast
  with s'(1) show ?thesis by (intro exI [of _ g'] exI [of _ s'']) (simp add: bindS_def)
qed

lemma telnet_exits:
  "telnet_trusted u tv \<Longrightarrow> tv_depth tv s = n \<Longrightarrow> length rs = n \<Longrightarrow> 0 < n \<or> g \<noteq> None \<Longrightarrow>
   \<exists>g' s'. telnet_each u (zip (replicate n ''exit'') rs) g s = (Inr g', s') \<and>
     tv_depth tv s' = 0 \<and> tv_mode tv s' = tv_mode tv s"
proof (induction n arbitrary: s rs g)
  case 0
  then show ?case by (auto simp: returnS_def)
next
  case (Suc n)
  then obtain r rs' where rs: "rs = r # rs'" "length rs' = n" by (cases rs) auto
  from Suc.prems(1,2) have "telnet_answers u tv ''exit'' s n" by (simp only: telnet_trusted_def)
  then have "\<exists>g' s'. telnet_each u ((''exit'', r) # zip (replicate n ''exit'') rs') g s = (Inr g', s') \<and>
      (tv_depth tv s' = 0 \<and> tv_mode tv s' = tv_mode tv s)"
  proof (rule telnet_step)
    fix g1 s1 assume s1: "tv_depth tv s1 = n" "tv_mode tv s1 = tv_mode tv s"
    from Suc.IH [OF Suc.prems(1) s1(1) rs(2), of "Some g1"] s1(2)
    show "\<exists>g' s'. telnet_each u (zip (replicate n ''exit'') rs') (Some g1) s1 = (Inr g', s') \<and>
      (tv_depth tv s' = 0 \<and> tv_mode tv s' = tv_mode tv s)" by simp
  qed
  then show ?case by (simp add: rs)
qed

lemma telnet_interfaces:
  "telnet_trusted u tv \<Longrightarrow> 3 \<le> tv_depth tv s \<Longrightarrow> list_all (\<lambda>q. 0 < q \<and> q \<le> tp_ports u) qs \<Longrightarrow> length rs = length qs \<Longrightarrow>
   \<exists>g' s'. telnet_each u (zip (map interface_cmd qs) rs) (Some g) s = (Inr g', s') \<and> tv_mode tv s' = tv_mode tv s \<and>
     (qs = [] \<longrightarrow> tv_depth tv s' = tv_depth tv s) \<and> (qs \<noteq> [] \<longrightarrow> tv_depth tv s' = 4 \<and> tv_port tv s' = last qs)"
proof (induction qs arbitrary: s rs g)
  case Nil
  then show ?case by (auto simp: returnS_def)
next
  case (Cons q qs)
  then obtain r rs' where rs: "rs = r # rs'" "length rs' = length qs" by (cases rs) auto
  from Cons.prems(1-3) have "selects u tv q s" by (simp add: telnet_trusted_def)
  then obtain g1 s1 where s1: "tp_expect u (interface_cmd q) r s = (Inr g1, s1)" "tv_depth tv s1 = 4" "tv_port tv s1 = q"
    "tv_mode tv s1 = tv_mode tv s"
    unfolding selects_def by blast
  have "3 \<le> tv_depth tv s1" "list_all (\<lambda>q. 0 < q \<and> q \<le> tp_ports u) qs" using s1(2) Cons.prems(3) by simp_all
  from Cons.IH [OF Cons.prems(1) this rs(2), of g1] obtain g' s' where
    e: "telnet_each u (zip (map interface_cmd qs) rs') (Some g1) s1 = (Inr g', s')" and
    m: "tv_mode tv s' = tv_mode tv s1" "qs = [] \<longrightarrow> tv_depth tv s' = tv_depth tv s1"
      "qs \<noteq> [] \<longrightarrow> tv_depth tv s' = 4 \<and> tv_port tv s' = last qs"
    by blast
  show ?case
  proof (intro exI conjI impI)
    show "telnet_each u (zip (map interface_cmd (q # qs)) rs) (Some g) s = (Inr g', s')"
      using s1(1) e by (simp add: rs bindS_def)
    show "tv_mode tv s' = tv_mode tv s" using m s1 by simp
    show "tv_depth tv s' = 4" using m s1 by (cases "qs = []") simp_all
    show "tv_port tv s' = last (q # qs)"
    proof (cases "qs = []")
      case True
      with e s1(3) show ?thesis by (simp add: returnS_def)
    qed (use m in simp)
  qed simp
qed

text \<open>Entering the session, with the interface commands that have piled up.\<close>

lemma telnet_enter:
  assumes t: "telnet_trusted u tv" and d: "tv_depth tv s = 0" and qs: "list_all (\<lambda>q. 0 < q \<and> q \<le> tp_ports u) qs"
    and l: "length rs = length (ENTER_CMD @ map interface_cmd qs)"
  shows "\<exists>x s'. poe_telnet_send_and_expect u (ENTER_CMD @ map interface_cmd qs) rs 0 s = (Inr x, s') \<and>
    tv_mode tv s' = tv_mode tv s \<and> (qs = [] \<longrightarrow> tv_depth tv s' = 3) \<and>
    (qs \<noteq> [] \<longrightarrow> tv_depth tv s' = 4 \<and> tv_port tv s' = last qs)"
proof -
  from l obtain r1 r2 r3 rs' where rs: "rs = r1 # r2 # r3 # rs'" "length rs' = length qs"
    by (auto simp: ENTER_CMD_def length_Suc_conv)
  have e: "telnet_answers u tv ''telnet localhost'' s 1" "\<And>s. tv_depth tv s = 1 \<Longrightarrow> telnet_answers u tv ''enable'' s 2"
    "\<And>s. tv_depth tv s = 2 \<Longrightarrow> telnet_answers u tv ''config'' s 3"
    using t d by (simp_all only: telnet_trusted_def)
  let ?P = "\<lambda>s'. tv_mode tv s' = tv_mode tv s \<and> (qs = [] \<longrightarrow> tv_depth tv s' = 3) \<and>
    (qs \<noteq> [] \<longrightarrow> tv_depth tv s' = 4 \<and> tv_port tv s' = last qs)"
  have "\<exists>g s'. telnet_each u ((''telnet localhost'', r1) # (''enable'', r2) # (''config'', r3) #
      zip (map interface_cmd qs) rs') None s = (Inr g, s') \<and> ?P s'"
  proof (rule telnet_step [OF e(1)])
    fix g1 s1 assume s1: "tv_depth tv s1 = 1" "tv_mode tv s1 = tv_mode tv s"
    show "\<exists>g s'. telnet_each u ((''enable'', r2) # (''config'', r3) # zip (map interface_cmd qs) rs') (Some g1) s1 = (Inr g, s') \<and> ?P s'"
    proof (rule telnet_step [OF e(2) [OF s1(1)]])
      fix g2 s2 assume s2: "tv_depth tv s2 = 2" "tv_mode tv s2 = tv_mode tv s1"
      show "\<exists>g s'. telnet_each u ((''config'', r3) # zip (map interface_cmd qs) rs') (Some g2) s2 = (Inr g, s') \<and> ?P s'"
      proof (rule telnet_step [OF e(3) [OF s2(1)]])
        fix g3 s3 assume s3: "tv_depth tv s3 = 3" "tv_mode tv s3 = tv_mode tv s2"
        have "3 \<le> tv_depth tv s3" using s3(1) by simp
        from telnet_interfaces [OF t this qs rs(2), of g3] obtain g s' where
          "telnet_each u (zip (map interface_cmd qs) rs') (Some g3) s3 = (Inr g, s')" "tv_mode tv s' = tv_mode tv s3"
          "qs = [] \<longrightarrow> tv_depth tv s' = tv_depth tv s3" "qs \<noteq> [] \<longrightarrow> tv_depth tv s' = 4 \<and> tv_port tv s' = last qs"
          by blast
        then show "\<exists>g s'. telnet_each u (zip (map interface_cmd qs) rs') (Some g3) s3 = (Inr g, s') \<and> ?P s'"
          using s1 s2 s3 by (intro exI [of _ g] exI [of _ s'] conjI) simp_all
      qed
    qed
  qed
  then obtain g s' where g: "telnet_each u ((''telnet localhost'', r1) # (''enable'', r2) # (''config'', r3) #
      zip (map interface_cmd qs) rs') None s = (Inr g, s')" "?P s'" by blast
  have z: "zip (ENTER_CMD @ map interface_cmd qs) rs =
      (''telnet localhost'', r1) # (''enable'', r2) # (''config'', r3) # zip (map interface_cmd qs) rs'"
    by (simp add: ENTER_CMD_def rs)
  have "poe_telnet_send_and_expect u (ENTER_CMD @ map interface_cmd qs) rs 0 s = (Inr (g 0), s')"
    by (simp only: poe_telnet_send_and_expect_def l simp_thms if_False bindS_def z g(1) returnS_def prod.case sum.case)
  with g(2) show ?thesis by blast
qed

lemma telnet_leave:
  assumes "telnet_trusted u tv" and "tv_depth tv s = n" and "0 < n" and "length rs = n"
  shows "\<exists>x s'. poe_telnet_send_and_expect u (EXIT_CMD n) rs 0 s = (Inr x, s') \<and> tv_depth tv s' = 0 \<and> tv_mode tv s' = tv_mode tv s"
proof -
  from telnet_exits [OF assms(1,2,4), of None] assms(3) obtain g s' where
    g: "telnet_each u (zip (replicate n ''exit'') rs) None s = (Inr g, s')" "tv_depth tv s' = 0" "tv_mode tv s' = tv_mode tv s"
    by blast
  have "poe_telnet_send_and_expect u (EXIT_CMD n) rs 0 s = (Inr (g 0), s')"
    by (simp only: poe_telnet_send_and_expect_def EXIT_CMD_def length_replicate assms(4) simp_thms if_False bindS_def g(1)
        returnS_def prod.case sum.case)
  with g(2,3) show ?thesis by blast
qed

lemma unifi_get:
  assumes t: "telnet_trusted u tv" and d: "tv_depth tv s = 0" and p: "0 < p" "p \<le> tp_ports u"
  shows "\<exists>s'. unifi_get_mode u p s = (Inr (unifi_mode (tv_mode tv s p)), s') \<and> tv_depth tv s' = 0 \<and> tv_mode tv s' = tv_mode tv s"
proof -
  have c: "dict_item (tp_commands u) ''GET_PORT_MODE'' = Inr ''show poe port 0/{port}''" using t by (simp only: telnet_trusted_def)
  have "''GET_PORT_MODE_REGEX'' \<in> set (map fst (tp_regexes u))" using t by (simp only: telnet_trusted_def)
  from dict_item_ok [OF this] obtain regex where r: "dict_item (tp_regexes u) ''GET_PORT_MODE_REGEX'' = Inr regex" ..
  have f: "fill_named ''port'' (show_int p) ''show poe port 0/{port}'' = ''show poe port 0/'' @ show_int p"
    by (simp add: fill_named_def replace_all.simps)
  have v: "unifi_validate_port u p s = (Inr (), s)" using p by (simp add: unifi_validate_port_def returnS_def)
  obtain x1 s1 where s1: "poe_telnet_send_and_expect u ENTER_CMD ENTER_REGEX 0 s = (Inr x1, s1)"
    "tv_mode tv s1 = tv_mode tv s" "tv_depth tv s1 = 3"
    using telnet_enter [OF t d, of "[]" ENTER_REGEX] by (auto simp: ENTER_CMD_def ENTER_REGEX_def)
  have "shows_mode u tv p s1" using t s1(3) p by (simp add: telnet_trusted_def)
  then obtain g s2 where s2: "tp_expect u (''show poe port 0/'' @ show_int p) (fill_named ''port'' (show_int p) regex) s1 = (Inr g, s2)"
    "g 1 = tv_mode tv s1 p" "tv_depth tv s2 = tv_depth tv s1" "tv_mode tv s2 = tv_mode tv s1"
    unfolding shows_mode_def by blast
  have q: "poe_telnet_send_and_expect u [''show poe port 0/'' @ show_int p] [fill_named ''port'' (show_int p) regex] 1 s1 = (Inr (g 1), s2)"
    using s2(1) by (simp add: poe_telnet_send_and_expect_def bindS_def returnS_def)
  have d2: "tv_depth tv s2 = 3" using s2(3) s1(3) by simp
  obtain x3 s3 where s3: "poe_telnet_send_and_expect u (EXIT_CMD 3) EXIT_REGEX 0 s2 = (Inr x3, s3)"
    "tv_depth tv s3 = 0" "tv_mode tv s3 = tv_mode tv s2"
    using telnet_leave [OF t d2, of EXIT_REGEX] by (auto simp: EXIT_REGEX_def)
  have "unifi_get_mode u p s = (Inr (unifi_mode (g 1)), s3)"
    by (simp only: unifi_get_mode_def bindS_def v liftS_def c r f telnet_config_send_def s1(1) q s3(1) returnS_def prod.case sum.case)
  with s1 s2 s3 show ?thesis by simp
qed

definition lists_ok :: "'s telnet_power \<Rightarrow> telnet_lists \<Rightarrow> bool" where
  "lists_ok u l \<longleftrightarrow> length (tl_enter_regex l) = length (tl_enter l) \<and>
     (\<exists>qs. tl_enter l = ENTER_CMD @ map interface_cmd qs \<and> list_all (\<lambda>q. 0 < q \<and> q \<le> tp_ports u) qs)"

lemma unifi_switch_ok:
  assumes t: "telnet_trusted u tv" and d: "tv_depth tv s = 0" and l: "lists_ok u l" and p: "0 < p" "p \<le> tp_ports u"
    and pm: "poe = ''auto'' \<and> m = ''Auto'' \<or> poe = ''shutdown'' \<and> m = ''Shutdown''"
  shows "\<exists>s' l'. unifi_switch u poe (unifi_mode m) p (s, l) = (Inr (), (s', l')) \<and> tv_depth tv s' = 0 \<and> lists_ok u l' \<and>
    tv_mode tv s' = (tv_mode tv s)(p := m)"
proof -
  from l obtain qs where qs: "tl_enter l = ENTER_CMD @ map interface_cmd qs" "list_all (\<lambda>q. 0 < q \<and> q \<le> tp_ports u) qs"
    unfolding lists_ok_def by blast
  obtain l' where c: "create_port_config_command_and_regex p (s, l) = (Inr l', (s, l'))"
    and l': "tl_enter l' = ENTER_CMD @ map interface_cmd (qs @ [p])" "length (tl_enter_regex l') = length (tl_enter l')"
    using l qs(1) by (simp add: create_port_config_command_and_regex_def Let_def lists_ok_def interface_cmd_def)
  have qs': "list_all (\<lambda>q. 0 < q \<and> q \<le> tp_ports u) (qs @ [p])" using qs(2) p by simp
  have ok': "lists_ok u l'" unfolding lists_ok_def using l' qs' by blast
  have v: "unifi_validate_port u p (s, l) = (Inr (), (s, l))" using p by (simp add: unifi_validate_port_def returnS_def)
  have cmd: "dict_item (tp_commands u) ''ADJUST_PORTS_MODE'' = Inr ''poe opmode {mode}''" using t by (simp only: telnet_trusted_def)
  have f: "fill_named ''mode'' poe ''poe opmode {mode}'' = ''poe opmode '' @ poe"
    by (simp add: fill_named_def replace_all.simps)
  have len: "length (tl_enter_regex l') = length (ENTER_CMD @ map interface_cmd (qs @ [p]))" using l' by simp
  obtain x1 s1 where s1: "poe_telnet_send_and_expect u (tl_enter l') (tl_enter_regex l') 0 s = (Inr x1, s1)"
    "tv_mode tv s1 = tv_mode tv s" "tv_depth tv s1 = 4" "tv_port tv s1 = p"
    using telnet_enter [OF t d qs' len] unfolding l'(1) by auto
  have "sets_mode u tv poe m s1" using t s1(3) pm by (auto simp: telnet_trusted_def)
  then obtain s2 where s2: "tp_send u (''poe opmode '' @ poe) s1 = (Inr (), s2)" "tv_depth tv s2 = tv_depth tv s1"
    "tv_mode tv s2 = (tv_mode tv s1)(p := m)"
    using s1(4) unfolding sets_mode_def by auto
  let ?rs = "(CHR 0x5C # ''(Config'' @ CHR 0x5C # '')#'') # EXIT_REGEX"
  have d2: "tv_depth tv s2 = 4" using s2 s1 by simp
  obtain x3 s3 where s3: "poe_telnet_send_and_expect u (EXIT_CMD 4) ?rs 0 s2 = (Inr x3, s3)"
    "tv_depth tv s3 = 0" "tv_mode tv s3 = tv_mode tv s2"
    using telnet_leave [OF t d2, of ?rs] by (auto simp: EXIT_REGEX_def)
  have w: "onSwitch (telnet_port_config_send u l' (tp_send u (''poe opmode '' @ poe))) (s, l') = (Inr (), (s3, l'))"
    by (simp only: onSwitch_def telnet_port_config_send_def bindS_def s1(1) s2(1) s3(1) returnS_def prod.case sum.case)
  from unifi_get [OF t s3(2) p] obtain s4 where s4: "unifi_get_mode u p s3 = (Inr (unifi_mode (tv_mode tv s3 p)), s4)"
    "tv_depth tv s4 = 0" "tv_mode tv s4 = tv_mode tv s3" by blast
  have m: "tv_mode tv s3 p = m" using s1 s2 s3 by simp
  have ver: "onSwitch (verify_mode u p (unifi_mode m)) (s3, l') = (Inr (), (s4, l'))"
    by (simp add: onSwitch_def verify_mode_def bindS_def s4(1) m returnS_def)
  have "unifi_switch u poe (unifi_mode m) p (s, l) = (Inr (), (s4, l'))"
    unfolding unifi_switch_def
    by (rule logged_ok) (simp only: bindS_def v c liftS_def cmd f w ver prod.case sum.case)
  with ok' s1 s2 s3 s4 show ?thesis by simp
qed

lemma unifi_mode_update: "(\<lambda>q. unifi_mode ((f(p := m)) q)) = (\<lambda>q. unifi_mode (f q))(p := unifi_mode m)"
  by auto

definition unifi_good :: "'s telnet_power \<Rightarrow> 's telnet_view \<Rightarrow> 's \<times> telnet_lists \<Rightarrow> bool" where
  "unifi_good u tv st \<longleftrightarrow> telnet_trusted u tv \<and> tv_depth tv (fst st) = 0 \<and> lists_ok u (snd st)"

interpretation unifi: switch_power "unifi_good u tv" "\<lambda>st p. unifi_mode (tv_mode tv (fst st) p)"
  "\<lambda>p. 0 < p \<and> p \<le> tp_ports u" "\<lambda>p. 0 < p \<and> p \<le> tp_ports u" "unifi_mode ''Auto''" "unifi_mode ''Shutdown''"
  "\<lambda>p. onSwitch (unifi_get_mode u p)" "unifi_power_on u" "unifi_power_off u"
proof unfold_locales
  show "unifi_mode ''Auto'' \<noteq> unifi_mode ''Shutdown''" by (simp add: unifi_mode_def)
  fix st and p :: int
  assume g: "unifi_good u tv st" and p: "0 < p \<and> p \<le> tp_ports u"
  obtain s l where st: "st = (s, l)" by fastforce
  from g have t: "telnet_trusted u tv" "tv_depth tv s = 0" "lists_ok u l" by (simp_all add: unifi_good_def st)
  from p have p': "0 < p" "p \<le> tp_ports u" by simp_all
  from unifi_get [OF t(1,2) p'] t show "\<exists>st'. onSwitch (unifi_get_mode u p) st =
      (Inr (unifi_mode (tv_mode tv (fst st) p)), st') \<and> unifi_good u tv st' \<and>
      (\<lambda>p. unifi_mode (tv_mode tv (fst st') p)) = (\<lambda>p. unifi_mode (tv_mode tv (fst st) p))"
    by (auto simp: st onSwitch_def unifi_good_def)
  have m: "unifi_mode ''Auto'' = ''on''" "unifi_mode ''Shutdown'' = ''off''" by (simp_all add: unifi_mode_def)
  from unifi_switch_ok [OF t p', of "''auto''" "''Auto''"] obtain s1 l1 where
    1: "unifi_switch u ''auto'' ''on'' p (s, l) = (Inr (), (s1, l1))" "tv_depth tv s1 = 0" "lists_ok u l1"
    "tv_mode tv s1 = (tv_mode tv s)(p := ''Auto'')" unfolding m by blast
  show "\<exists>st'. unifi_power_on u p st = (Inr (), st') \<and> unifi_good u tv st' \<and>
      (\<lambda>p. unifi_mode (tv_mode tv (fst st') p)) = (\<lambda>p. unifi_mode (tv_mode tv (fst st) p))(p := unifi_mode ''Auto'')"
    using 1 t(1) unifi_mode_update [of "tv_mode tv s" p "''Auto''"]
    by (intro exI [of _ "(s1, l1)"]) (simp add: st unifi_power_on_def unifi_good_def)
  from unifi_switch_ok [OF t p', of "''shutdown''" "''Shutdown''"] obtain s2 l2 where
    2: "unifi_switch u ''shutdown'' ''off'' p (s, l) = (Inr (), (s2, l2))" "tv_depth tv s2 = 0" "lists_ok u l2"
    "tv_mode tv s2 = (tv_mode tv s)(p := ''Shutdown'')" unfolding m by blast
  show "\<exists>st'. unifi_power_off u p st = (Inr (), st') \<and> unifi_good u tv st' \<and>
      (\<lambda>p. unifi_mode (tv_mode tv (fst st') p)) = (\<lambda>p. unifi_mode (tv_mode tv (fst st) p))(p := unifi_mode ''Shutdown'')"
    using 2 t(1) unifi_mode_update [of "tv_mode tv s" p "''Shutdown''"]
    by (intro exI [of _ "(s2, l2)"]) (simp add: st unifi_power_off_def unifi_good_def)
qed simp

text \<open>New capabilities start from a list without interfaces; it grows with every power operation.\<close>

lemma telnet_lists_ok: "lists_ok u TELNET_COMMANDS"
  unfolding lists_ok_def by (intro conjI exI [of _ "[]"]) (simp_all add: TELNET_COMMANDS_def ENTER_CMD_def ENTER_REGEX_def)

end
