(* ===== verification/Manager.thy ===== *)
theory Manager
  imports Device_Store Log_Name
begin

text \<open>
  The manager (\<open>manager.py\<close>): its tables of devices, the configuration files, and the devices
  that are open with their user counts (\<open>base_classes/gazoo_device_base.py\<close> and
  \<open>base_classes/auxiliary_device.py\<close>). Device classes, the hardware and the detection are the
  environment \<open>menv\<close>, a parameter of the operations.
\<close>

section \<open>State and environment\<close>

text \<open>
  A device class: whether it is an auxiliary one, its communication type, its persistent and dynamic properties, and the
  dynamic ones with a setter.
\<close>

record dclass =
  k_aux :: bool
  k_comm :: string
  k_persistent :: "string list"
  k_dynamic :: "string list"
  k_setters :: "string list"

text \<open>
  An open device: its class, its users (auxiliary devices only), and whether the configuration
  that it holds is one of the other devices.
\<close>

record inst =
  i_class :: dclass
  i_users :: nat
  i_other :: bool

record mgr =
  m_gazoo :: catg
  m_other :: catg
  f_devices :: config_file
  f_options :: config_file
  m_config :: props
  f_config :: props
  m_open :: "(string \<times> inst) list"
  m_power :: "(string \<times> int \<times> string option) list"

record menv =
  e_class :: "string \<Rightarrow> dclass option"
  e_ready :: "string \<Rightarrow> string \<Rightarrow> unit result"
  e_setattr :: "string \<Rightarrow> string \<Rightarrow> pval \<Rightarrow> unit result"
  e_sim :: "string \<Rightarrow> unit result"
  e_is_static_ip :: "string \<Rightarrow> bool"
  e_get_mode :: "string \<Rightarrow> int \<Rightarrow> string result"
  e_set_mode :: "string \<Rightarrow> int \<Rightarrow> string option \<Rightarrow> unit result"
  e_detect :: "config_file \<times> config_file \<Rightarrow> string list \<Rightarrow> string list option \<Rightarrow> string list option \<Rightarrow>
    (config_file \<times> config_file) result"

type_synonym 'a manager = "mgr \<Rightarrow> 'a result \<times> mgr"

definition category_of :: "bool \<Rightarrow> mgr \<Rightarrow> catg" where
  "category_of other st = (if other then m_other st else m_gazoo st)"

definition update_category :: "bool \<Rightarrow> (catg \<Rightarrow> catg) \<Rightarrow> mgr \<Rightarrow> mgr" where
  "update_category other f st =
     (if other then st\<lparr>m_other := f (m_other st)\<rparr> else st\<lparr>m_gazoo := f (m_gazoo st)\<rparr>)"

section \<open>Names and configurations\<close>

definition get_aliases :: "mgr \<Rightarrow> string \<Rightarrow> (string \<times> string) list" where
  "get_aliases st category =
     dict_update
       (if category \<in> {''all'', ''gazoo''} then c_aliases (m_gazoo st) else [])
       (if category \<in> {''all'', ''other''} then c_aliases (m_other st) else [])"

definition get_device_name :: "mgr \<Rightarrow> pval \<Rightarrow> string \<Rightarrow> bool \<Rightarrow> string option result" where
  "get_device_name st ident category raise_error =
     (case ident of
        PStr s \<Rightarrow>
          (case map_of (get_aliases st category) (lower s) of
             Some name \<Rightarrow> Inr (Some name)
           | None \<Rightarrow> if raise_error then Inl DeviceError else Inr None)
      | _ \<Rightarrow> Inl DeviceError)"

text \<open>The call with \<open>raise_error=True\<close>, and the category "all".\<close>

definition known_device :: "mgr \<Rightarrow> string \<Rightarrow> string result" where
  "known_device st ident =
     bindE (get_device_name st (PStr ident) ''all'' True) (\<lambda>n.
       case n of Some name \<Rightarrow> Inr name | None \<Rightarrow> Inl DeviceError)"

text \<open>
  The table of a category; \<open>update\<close> lets the other devices win. The configuration comes with
  the category whose dictionaries it shares.
\<close>

definition find_device_configuration ::
  "mgr \<Rightarrow> string \<Rightarrow> string \<Rightarrow> (bool \<times> props \<times> props) option" where
  "find_device_configuration st name category =
     (case (if category \<in> {''all'', ''other''} then device_config (m_other st) name else None) of
        Some (p, q) \<Rightarrow> Some (True, p, q)
      | None \<Rightarrow>
          (case (if category \<in> {''all'', ''gazoo''} then device_config (m_gazoo st) name else None) of
             Some (p, q) \<Rightarrow> Some (False, p, q)
           | None \<Rightarrow> None))"

text \<open>\<open>get_device_configuration\<close> and a subscript of what it returns; \<open>None\<close> has none.\<close>

definition get_device_configuration :: "mgr \<Rightarrow> string \<Rightarrow> (bool \<times> props \<times> props) option result" where
  "get_device_configuration st ident =
     bindE (known_device st ident) (\<lambda>name. Inr (find_device_configuration st name ''all''))"

definition subscripted :: "'a option result \<Rightarrow> 'a result" where
  "subscripted r = bindE r (\<lambda>c. case c of Some x \<Rightarrow> Inr x | None \<Rightarrow> Inl TypeError)"

definition supported_device_class :: "menv \<Rightarrow> pval \<Rightarrow> dclass result" where
  "supported_device_class env device_type =
     (case device_type of
        PStr t \<Rightarrow> (case e_class env t of Some k \<Rightarrow> Inr k | None \<Rightarrow> Inl DeviceError)
      | _ \<Rightarrow> Inl TypeError)"

definition is_auxiliary_type :: "menv \<Rightarrow> pval \<Rightarrow> bool" where
  "is_auxiliary_type env device_type =
     (case device_type of
        PStr t \<Rightarrow> (case e_class env t of Some k \<Rightarrow> k_aux k | None \<Rightarrow> False)
      | _ \<Rightarrow> False)"

section \<open>Reading and writing the files\<close>

definition load_category :: "mgr \<Rightarrow> string \<Rightarrow> string \<Rightarrow> catg result" where
  "load_category st devices_key options_key =
     combine_devices_and_device_options
       (config_section devices_key (f_devices st)) (config_section options_key (f_options st))"

definition load_devices :: "unit manager" where
  "load_devices st =
     (case load_category st ''devices'' ''device_options'' of
        Inl e \<Rightarrow> (Inl e, st) | Inr c \<Rightarrow> (Inr (), st\<lparr>m_gazoo := c\<rparr>))"

definition load_other_devices :: "unit manager" where
  "load_other_devices st =
     (case load_category st ''other_devices'' ''other_device_options'' of
        Inl e \<Rightarrow> (Inl e, st) | Inr c \<Rightarrow> (Inr (), st\<lparr>m_other := c\<rparr>))"

definition reload_configuration :: "unit manager" where
  "reload_configuration st =
     bindS load_devices (\<lambda>_. load_other_devices) (st\<lparr>m_config := f_config st\<rparr>)"

definition save_configs :: "config_file \<times> config_file \<Rightarrow> unit manager" where
  "save_configs conf st =
     (Inr (), st\<lparr>f_devices := sorted_file (fst conf), f_options := sorted_file (snd conf)\<rparr>)"

definition current_configs :: "mgr \<Rightarrow> config_file \<times> config_file" where
  "current_configs st =
     make_device_configs (c_persistent (m_gazoo st)) (c_persistent (m_other st))
       (c_options (m_gazoo st)) (c_options (m_other st))"

definition save_options :: "unit manager" where
  "save_options st = (Inr (), st\<lparr>f_options := sorted_file (snd (current_configs st))\<rparr>)"

text \<open>\<open>backup_configs\<close> copies the files and is left out.\<close>

definition overwrite_configs :: "unit manager" where
  "overwrite_configs st =
     reload_configuration (st\<lparr>
       f_devices := [(''devices'', []), (''other_devices'', [])],
       f_options := [(''device_options'', []), (''other_device_options'', [])],
       f_config := []\<rparr>)"

section \<open>Deleting a device\<close>

definition configs_without :: "mgr \<Rightarrow> string \<Rightarrow> (config_file \<times> config_file) result" where
  "configs_without st name =
     (let d = c_persistent (m_gazoo st); q = c_options (m_gazoo st);
          d' = c_persistent (m_other st); q' = c_options (m_other st)
      in if map_of d name \<noteq> None \<and> map_of q name \<noteq> None
         then Inr (make_device_configs (AList.delete name d) d' (AList.delete name q) q')
         else if map_of d' name \<noteq> None \<and> map_of q' name \<noteq> None
         then Inr (make_device_configs d (AList.delete name d') q (AList.delete name q'))
         else Inl DeviceError)"

definition delete_config :: "mgr \<Rightarrow> string \<Rightarrow> (config_file \<times> config_file) result" where
  "delete_config st ident = bindE (known_device st ident) (configs_without st)"

definition delete :: "string \<Rightarrow> unit manager" where
  "delete ident =
     bindS (readS (\<lambda>st. delete_config st ident)) (\<lambda>conf.
       bindS (save_configs conf) (\<lambda>_. reload_configuration))"

section \<open>Open devices\<close>

definition remove_open :: "string \<Rightarrow> mgr \<Rightarrow> mgr" where
  "remove_open name st = st\<lparr>m_open := AList.delete name (m_open st)\<rparr>"

text \<open>
  \<open>close\<close> of an instance. Primary devices have no argument \<open>force\<close>.
\<close>

definition close_instance :: "string \<Rightarrow> bool \<Rightarrow> unit manager" where
  "close_instance name force st =
     (case map_of (m_open st) name of
        None \<Rightarrow> (Inr (), st)
      | Some i \<Rightarrow>
          if k_aux (i_class i) then
            (if force \<or> i_users i = 1 then (Inr (), remove_open name st)
             else (Inr (), st\<lparr>m_open := AList.update name (i\<lparr>i_users := i_users i - 1\<rparr>) (m_open st)\<rparr>))
          else if force then (Inl TypeError, st)
          else (Inr (), remove_open name st))"

fun close_each :: "bool \<Rightarrow> string list \<Rightarrow> unit manager" where
  "close_each force [] st = (Inr (), st)"
| "close_each force (n # ns) st = bindS (close_instance n force) (\<lambda>_. close_each force ns) st"

definition close_open_devices :: "unit manager" where
  "close_open_devices st =
     bindS (close_each False (map fst (m_open st))) (\<lambda>_ st'.
       if m_open st' \<noteq> [] then close_each True (map fst (m_open st')) st' else (Inr (), st')) st"

definition close_device :: "string \<Rightarrow> unit manager" where
  "close_device ident =
     bindS (readS (\<lambda>st. known_device st ident)) (\<lambda>name. close_instance name False)"

definition get_open_device :: "mgr \<Rightarrow> string \<Rightarrow> string result" where
  "get_open_device st ident =
     bindE (known_device st ident) (\<lambda>name.
       if map_of (m_open st) name = None then Inl DeviceError else Inr name)"

definition increment_user_count :: "string \<Rightarrow> unit manager" where
  "increment_user_count name st =
     (case map_of (m_open st) name of
        None \<Rightarrow> (Inl KeyError, st)
      | Some i \<Rightarrow>
          if k_aux (i_class i)
          then (Inr (), st\<lparr>m_open := AList.update name (i\<lparr>i_users := i_users i + 1\<rparr>) (m_open st)\<rparr>)
          else (Inl AttributeError, st))"

section \<open>Creating devices\<close>

text \<open>The hub of the device is copied from its options to its persistent properties.\<close>

definition copy_option :: "string \<Rightarrow> string \<Rightarrow> props \<Rightarrow> props \<Rightarrow> props" where
  "copy_option to from opts persistent =
     (if map_of persistent to \<noteq> None then persistent
      else case map_of opts from of
        None \<Rightarrow> persistent
      | Some v \<Rightarrow> if pv_true v then AList.update to v persistent else persistent)"

definition update_device_config :: "bool \<Rightarrow> string \<Rightarrow> unit manager" where
  "update_device_config other name st =
     (case device_config (category_of other st) name of
        None \<Rightarrow> (Inl TypeError, st)
      | Some (p, q) \<Rightarrow>
          let p' = copy_option ''device_usb_port'' ''usb_port'' q
                     (copy_option ''device_usb_hub_name'' ''usb_hub'' q p)
          in (Inr (), update_category other
                (\<lambda>c. c\<lparr>c_persistent := AList.update name p' (c_persistent c)\<rparr>) st))"

text \<open>
  The constructor: a primary device refuses an unknown setting before it is registered.
\<close>

definition open_instance :: "dclass \<Rightarrow> bool \<Rightarrow> string \<Rightarrow> string \<Rightarrow> unit manager" where
  "open_instance k other name setting st =
     (if \<not> k_aux k \<and> lower setting \<notin> {''on'', ''off'', ''check_only''} then (Inl DeviceError, st)
      else (Inr (), st\<lparr>m_open := AList.update name \<lparr>i_class = k, i_users = 1, i_other = other\<rparr> (m_open st)\<rparr>))"

text \<open>\<open>make_device_ready\<close>, and the closing of the device when it raises a \<open>DeviceError\<close>.\<close>

definition make_ready :: "menv \<Rightarrow> string \<Rightarrow> string \<Rightarrow> unit manager" where
  "make_ready env name setting st =
     (case e_ready env name setting of
        Inr _ \<Rightarrow> (Inr (), st)
      | Inl e \<Rightarrow>
          if is_device_error e
          then bindS (close_instance name False) (\<lambda>_. raiseS e) st
          else (Inl e, st))"

definition create_device_sim :: "menv \<Rightarrow> string \<Rightarrow> string manager" where
  "create_device_sim env device_type =
     bindS (liftS (supported_device_class env (PStr device_type))) (\<lambda>k.
       bindS (liftS (e_sim env device_type)) (\<lambda>_.
         bindS (open_instance k False device_type ''off'') (\<lambda>_. returnS device_type)))"

text \<open>
  \<open>create_device\<close>; \<open>set_alias\<close> is the step for \<open>new_alias\<close>. The value is the name under which
  the device is open. \<open>get_device_configuration\<close> looks the name up a second time, so the
  configuration is that of \<open>cname\<close>, another device when that one has the name as an alias.
\<close>

definition create_new ::
  "menv \<Rightarrow> (string \<Rightarrow> unit manager) \<Rightarrow> string \<Rightarrow> string \<Rightarrow> bool \<Rightarrow> pval \<Rightarrow> string \<Rightarrow> string manager" where
  "create_new env set_alias name cname other device_type setting =
     bindS (set_alias name) (\<lambda>_.
       bindS (update_device_config other cname) (\<lambda>_.
         bindS (liftS (supported_device_class env device_type)) (\<lambda>k.
           bindS (open_instance k other cname setting) (\<lambda>_.
             bindS (make_ready env cname setting) (\<lambda>_. returnS cname)))))"

definition device_and_type :: "mgr \<Rightarrow> string \<Rightarrow> (string \<times> string \<times> bool \<times> pval) result" where
  "device_and_type st ident =
     bindE (known_device st ident) (\<lambda>name.
       bindE (known_device st name) (\<lambda>cname.
         bindE (subscripted (get_device_configuration st name)) (\<lambda>(other, p, _).
           bindE (dict_item p ''device_type'') (\<lambda>t. Inr (name, cname, other, t)))))"

definition create_device_with ::
  "menv \<Rightarrow> (string \<Rightarrow> unit manager) \<Rightarrow> string \<Rightarrow> string \<Rightarrow> bool \<Rightarrow> string manager" where
  "create_device_with env set_alias ident setting raise_if_already_open =
     (if ends_with ident ''sim'' then create_device_sim env ident
      else bindS (liftS (type_check (PStr ident) [T_str])) (\<lambda>_.
        bindS (readS (\<lambda>st. device_and_type st ident)) (\<lambda>(name, cname, other, device_type) st.
          if map_of (m_open st) name = None
          then create_new env set_alias name cname other device_type setting st
          else if is_auxiliary_type env device_type
          then bindS (readS (\<lambda>st. get_open_device st name)) (\<lambda>n.
                 bindS (increment_user_count n) (\<lambda>_. returnS n)) st
          else if raise_if_already_open then (Inl DeviceError, st)
          else readS (\<lambda>st. get_open_device st name) st)))"

text \<open>
  \<open>create_and_close_device\<close>: whether the device is closed at the end is decided before it is
  created.
\<close>

definition should_close :: "menv \<Rightarrow> mgr \<Rightarrow> string \<Rightarrow> bool result" where
  "should_close env st ident =
     bindE (device_and_type st ident) (\<lambda>(name, _, _, device_type).
       Inr (is_auxiliary_type env device_type \<or> map_of (m_open st) name = None))"

definition create_and_close_device :: "menv \<Rightarrow> string \<Rightarrow> (string \<Rightarrow> 'a manager) \<Rightarrow> 'a manager" where
  "create_and_close_device env ident body =
     bindS (readS (\<lambda>st. should_close env st ident)) (\<lambda>closing.
       bindS (create_device_with env (\<lambda>_. returnS ()) ident ''off'' False) (\<lambda>name.
         finallyS (body name) (if closing then close_instance name False else returnS ())))"

section \<open>Properties of devices\<close>

definition realign_alias :: "pval \<Rightarrow> pval \<Rightarrow> string \<Rightarrow> unit manager" where
  "realign_alias new_alias old_alias name =
     bindS (if old_alias = PNone then returnS () else
              bindS (liftS (lower_value old_alias)) (\<lambda>a st.
                case dict_del a (c_aliases (m_gazoo st)) of
                  Inl e \<Rightarrow> (Inl e, st)
                | Inr al \<Rightarrow> (Inr (), update_category False (\<lambda>c. c\<lparr>c_aliases := al\<rparr>) st))) (\<lambda>_.
       if new_alias = PNone then returnS () else
         bindS (liftS (lower_value new_alias)) (\<lambda>a st.
           (Inr (), update_category False
              (\<lambda>c. c\<lparr>c_aliases := AList.update a name (c_aliases c)\<rparr>) st)))"

text \<open>The properties \<open>alias\<close> of an open device, and its \<open>set_property\<close>.\<close>

definition option_of :: "mgr \<Rightarrow> bool \<Rightarrow> string \<Rightarrow> string \<Rightarrow> pval result" where
  "option_of st other name p =
     (case device_config (category_of other st) name of
        None \<Rightarrow> Inl KeyError | Some (_, q) \<Rightarrow> dict_item q p)"

definition put_option :: "bool \<Rightarrow> string \<Rightarrow> string \<Rightarrow> pval \<Rightarrow> mgr \<Rightarrow> mgr" where
  "put_option other name p v =
     update_category other (\<lambda>c.
       case map_of (c_options c) name of
         None \<Rightarrow> c
       | Some q \<Rightarrow> c\<lparr>c_options := AList.update name (AList.update p v q) (c_options c)\<rparr>)"

definition save_property_to_config :: "string \<Rightarrow> string \<Rightarrow> pval \<Rightarrow> unit manager" where
  "save_property_to_config name p v st =
     (let other = (device_config (m_gazoo st) name = None)
      in if device_config (category_of other st) name = None then (Inl KeyError, st)
         else save_options (put_option other name p v st))"

definition device_set_property :: "menv \<Rightarrow> string \<Rightarrow> string \<Rightarrow> pval \<Rightarrow> unit manager" where
  "device_set_property env name p v st =
     (case map_of (m_open st) name of
        None \<Rightarrow> (Inl KeyError, st)
      | Some i \<Rightarrow>
          if p \<in> set (k_persistent (i_class i)) then (Inl ValueError, st)
          else if p \<in> set (k_dynamic (i_class i)) then
            (if p \<notin> set (k_setters (i_class i)) then (Inl ValueError, st)
             else (e_setattr env name p v, st))
          else save_property_to_config name p v (put_option (i_other i) name p v st))"

definition old_alias :: "mgr \<Rightarrow> string \<Rightarrow> pval result" where
  "old_alias st name =
     (case map_of (m_open st) name of
        None \<Rightarrow> Inl KeyError | Some i \<Rightarrow> option_of st (i_other i) name ''alias'')"

definition set_device_prop :: "menv \<Rightarrow> string \<Rightarrow> string \<Rightarrow> pval \<Rightarrow> unit manager" where
  "set_device_prop env ident p v =
     bindS (liftS (type_check (PStr p) [T_str])) (\<lambda>_.
       bindS (liftS (type_check v [T_str, T_NoneType, T_int, T_float, T_dict])) (\<lambda>_.
         create_and_close_device env ident (\<lambda>name.
           bindS (if p = ''alias''
                  then bindS (readS (\<lambda>st. old_alias st name)) (\<lambda>old. realign_alias v old name)
                  else returnS ()) (\<lambda>_. device_set_property env name p v))))"

definition remove_device_prop :: "string \<Rightarrow> string \<Rightarrow> unit manager" where
  "remove_device_prop ident p =
     bindS (readS (\<lambda>st. bindE (known_device st ident) (\<lambda>name.
              bindE (subscripted (get_device_configuration st ident)) (\<lambda>(other, _, q).
                Inr (name, other, q))))) (\<lambda>(name, other, q) st.
       if map_of q p = None then (Inl DeviceError, st)
       else save_options (update_category other
              (\<lambda>c. c\<lparr>c_options := AList.update name (AList.delete p q) (c_options c)\<rparr>) st))"

definition set_config_prop :: "string \<Rightarrow> pval \<Rightarrow> unit manager" where
  "set_config_prop p v =
     bindS (liftS (type_check v [T_str, T_NoneType, T_int, T_list])) (\<lambda>_.
       bindS (liftS (type_check (PStr p) [T_str])) (\<lambda>_ st.
         let conf = AList.update p v (m_config st)
         in (Inr (), st\<lparr>m_config := conf, f_config := sort_key fst conf\<rparr>)))"

definition is_manager_config :: "string \<Rightarrow> bool" where
  "is_manager_config ident \<longleftrightarrow> ident = ''manager''"

definition set_prop :: "menv \<Rightarrow> string \<Rightarrow> string \<Rightarrow> pval \<Rightarrow> unit manager" where
  "set_prop env ident p v =
     (if is_manager_config ident then set_config_prop p v else set_device_prop env ident p v)"

definition remove_prop :: "string \<Rightarrow> string \<Rightarrow> unit manager" where
  "remove_prop ident p =
     (if is_manager_config ident then raiseS DeviceError else remove_device_prop ident p)"

definition create_device ::
  "menv \<Rightarrow> pval option \<Rightarrow> string \<Rightarrow> string \<Rightarrow> bool \<Rightarrow> string manager" where
  "create_device env new_alias =
     create_device_with env (\<lambda>name.
       case new_alias of None \<Rightarrow> returnS () | Some v \<Rightarrow> set_prop env name ''alias'' v)"

section \<open>Detecting devices\<close>

text \<open>
  The detection itself, which talks to the hardware, is \<open>e_detect\<close>; it gets the configurations
  that are kept, the static addresses, and the addresses and communication types it is
  restricted to.
\<close>

definition console_ports :: "mgr \<Rightarrow> string list result" where
  "console_ports st =
     mapE (\<lambda>(name, p). case map_of p ''console_port_name'' of
                          None \<Rightarrow> Inr []
                        | Some (PStr s) \<Rightarrow> Inr s
                        | Some _ \<Rightarrow> Inl TypeError) (c_persistent (m_gazoo st))"

definition detect_configs ::
  "menv \<Rightarrow> bool \<Rightarrow> string list \<Rightarrow> bool \<Rightarrow> string list option \<Rightarrow> string list option \<Rightarrow>
   (config_file \<times> config_file) option \<Rightarrow> (config_file \<times> config_file) manager" where
  "detect_configs env force_overwrite static_ips save_changes comm_types addresses device_configs st =
     (let given = (case device_configs of None \<Rightarrow> current_configs st | Some c \<Rightarrow> c)
      in if force_overwrite then
           bindS (liftS (console_ports st)) (\<lambda>ports.
             bindS (if save_changes then overwrite_configs else returnS ()) (\<lambda>_.
               liftS (e_detect env (make_device_configs [] [] [] [])
                        (static_ips @ filter (e_is_static_ip env) ports) comm_types addresses))) st
         else liftS (e_detect env given static_ips comm_types addresses) st)"

definition detect ::
  "menv \<Rightarrow> bool \<Rightarrow> string list \<Rightarrow> string list option \<Rightarrow> string list option \<Rightarrow> unit manager" where
  "detect env force_overwrite static_ips comm_types addresses =
     bindS (detect_configs env force_overwrite static_ips True comm_types addresses None) (\<lambda>conf.
       bindS (save_configs conf) (\<lambda>_. reload_configuration))"

text \<open>\<open>int(value)\<close>: an optional sign and digits for a string.\<close>

definition py_int :: "pval \<Rightarrow> int result" where
  "py_int v =
     (case v of
        PInt i \<Rightarrow> Inr i
      | PBool b \<Rightarrow> Inr (if b then 1 else 0)
      | PStr s \<Rightarrow>
          (let sign = (if s \<noteq> [] \<and> hd s = CHR ''-'' then -1 else 1);
               digits = (if s \<noteq> [] \<and> hd s \<in> {CHR ''-'', CHR ''+''} then tl s else s)
           in if digits \<noteq> [] \<and> list_all is_digit digits then Inr (sign * int (parse_nat digits))
              else Inl ValueError)
      | _ \<Rightarrow> Inl TypeError)"

text \<open>\<open>a or b\<close> for two dictionary entries.\<close>

definition either_entry :: "props \<Rightarrow> string \<Rightarrow> string \<Rightarrow> pval" where
  "either_entry d a b =
     (let get = (\<lambda>k. case map_of d k of None \<Rightarrow> PNone | Some v \<Rightarrow> v)
      in if pv_true (get a) then get a else get b)"

definition usb_hub_name_and_port :: "mgr \<Rightarrow> string \<Rightarrow> (pval \<times> pval) result" where
  "usb_hub_name_and_port st name =
     (let from_options =
            (case map_of (c_options (m_gazoo st)) name of
               None \<Rightarrow> (PNone, PNone)
             | Some q \<Rightarrow> (either_entry q ''usb_hub'' ''comm_power_hub_name'',
                          either_entry q ''usb_port'' ''comm_power_port''));
          found_pair =
            (if pv_true (fst from_options) then from_options
             else case map_of (c_persistent (m_gazoo st)) name of
               None \<Rightarrow> from_options
             | Some p \<Rightarrow> (either_entry p ''device_usb_hub_name'' ''device_usb_hub_name'',
                          either_entry p ''device_usb_port'' ''device_usb_port''))
      in if pv_true (snd found_pair)
         then bindE (py_int (snd found_pair)) (\<lambda>i. Inr (fst found_pair, PInt i))
         else Inr found_pair)"

definition set_mode :: "menv \<Rightarrow> string \<Rightarrow> int \<Rightarrow> string option \<Rightarrow> unit manager" where
  "set_mode env hub port mode_name st =
     (case e_set_mode env hub port mode_name of
        Inl e \<Rightarrow> (Inl e, st)
      | Inr _ \<Rightarrow> (Inr (), st\<lparr>m_power := m_power st @ [(hub, port, mode_name)]\<rparr>))"

text \<open>
  The attempt to switch the port of the device on: \<open>usb_hub\<close> and \<open>original_power_mode\<close> as they
  are assigned when it ends, also by a \<open>DeviceError\<close>, which is only logged.
\<close>

definition ignoring_device_errors :: "'a \<Rightarrow> 'a manager \<Rightarrow> 'a manager" where
  "ignoring_device_errors x m st =
     (case m st of
        (Inl e, st') \<Rightarrow> if is_device_error e then (Inr x, st') else (Inl e, st')
      | other \<Rightarrow> other)"

definition power_on :: "menv \<Rightarrow> string \<Rightarrow> int \<Rightarrow> (string option \<times> string option) manager" where
  "power_on env hub_name port =
     ignoring_device_errors (None, None)
       (bindS (create_device env None hub_name ''on'' True) (\<lambda>hub.
          ignoring_device_errors (Some hub, None)
            (bindS (liftS (e_get_mode env hub port)) (\<lambda>original.
               if original = ''sync'' then returnS (Some hub, Some original)
               else ignoring_device_errors (Some hub, Some original)
                      (bindS (set_mode env hub port (Some ''sync'')) (\<lambda>_.
                         returnS (Some hub, Some original)))))))"

definition hub_step :: "menv \<Rightarrow> pval \<Rightarrow> pval \<Rightarrow> (string option \<times> string option) manager" where
  "hub_step env hub_name hub_port =
     (if pv_true hub_name \<and> pv_true hub_port then
        (case (hub_name, hub_port) of
           (PStr h, PInt port) \<Rightarrow> power_on env h port
         | _ \<Rightarrow> raiseS AttributeError)
      else returnS (None, None))"

text \<open>The options of the device are carried over to the new configurations.\<close>

definition keep_options ::
  "string \<Rightarrow> string \<Rightarrow> catg \<Rightarrow> config_file \<Rightarrow> config_file result" where
  "keep_options key name c conf =
     (let section_of = config_section key conf
      in if map_of section_of name = None then Inr conf
         else bindE (dict_item (c_options c) name) (\<lambda>q.
           Inr (AList.update key (AList.update name q section_of) conf)))"

definition redetected ::
  "mgr \<Rightarrow> string \<Rightarrow> config_file \<times> config_file \<Rightarrow> (config_file \<times> config_file) result" where
  "redetected st name = (\<lambda>(conf, opts).
     if map_of (config_section ''devices'' conf) name = None \<and>
        map_of (config_section ''other_devices'' conf) name = None
     then Inl DeviceError
     else bindE (keep_options ''device_options'' name (m_gazoo st) opts) (\<lambda>opts1.
       bindE (keep_options ''other_device_options'' name (m_other st) opts1) (\<lambda>opts2.
         Inr (conf, opts2))))"

definition restore_power :: "menv \<Rightarrow> pval \<Rightarrow> string option \<times> string option \<Rightarrow> unit manager" where
  "restore_power env hub_port = (\<lambda>(usb_hub, original).
     case (usb_hub, hub_port) of
       (Some hub, PInt port) \<Rightarrow>
         if original \<noteq> Some ''sync'' then set_mode env hub port original else returnS ()
     | _ \<Rightarrow> returnS ())"

text \<open>The rest of a redetection, after the attempt to switch the port of the device on.\<close>

definition redetect_on ::
  "menv \<Rightarrow> string \<Rightarrow> props \<Rightarrow> string \<Rightarrow> pval \<Rightarrow> string option \<times> string option \<Rightarrow> unit manager" where
  "redetect_on env name p comms_port hub_port hub =
     bindS (readS (\<lambda>st. delete_config st name)) (\<lambda>after_delete.
     bindS (liftS (dict_item p ''device_type'')) (\<lambda>device_type.
     bindS (liftS (supported_device_class env device_type)) (\<lambda>k.
     bindS (detect_configs env False (if e_is_static_ip env comms_port then [comms_port] else [])
              False (Some [k_comm k]) (Some [comms_port]) (Some after_delete)) (\<lambda>new_configs.
     bindS (restore_power env hub_port hub) (\<lambda>_.
     bindS (readS (\<lambda>st. redetected st name new_configs)) (\<lambda>conf.
     bindS (save_configs conf) (\<lambda>_. reload_configuration)))))))"

definition redetect :: "menv \<Rightarrow> string \<Rightarrow> unit manager" where
  "redetect env ident =
     bindS (readS (\<lambda>st. known_device st ident)) (\<lambda>name.
     bindS (readS (\<lambda>st. usb_hub_name_and_port st name)) (\<lambda>(hub_name, hub_port).
     bindS (readS (\<lambda>st. subscripted (get_device_configuration st name))) (\<lambda>(_, p, _).
     bindS (liftS (dict_item p ''console_port_name'')) (\<lambda>port_value.
     bindS (liftS (case port_value of PStr s \<Rightarrow> Inr s | _ \<Rightarrow> Inl TypeError)) (\<lambda>comms_port.
     bindS (hub_step env hub_name hub_port)
       (redetect_on env name p comms_port hub_port))))))"

end
