(* ===== verification/Power_Control.thy ===== *)
theory Power_Control
  imports Switch_Contract Manager
begin

text \<open>
  The capabilities that control the power of a device through a hub: \<open>DevicePowerDefault\<close>,
  \<open>CommPowerDefault\<close> and \<open>UsbHubDefault\<close> (\<open>gazoo_device/capabilities/device_power_default.py\<close>,
  \<open>comm_power_default.py\<close>, \<open>usb_hub_default.py\<close>), with the health of a capability
  (\<open>capabilities/interfaces/capability_base.py\<close>). What they call is the record \<open>power_env\<close>: the
  manager that creates the hub, the hub with its \<open>switch_power\<close>, the switchboard of the device, and
  the functions that wait for the device. The properties of the device are fixed during a call.
\<close>

section \<open>Capabilities\<close>

record 's power_env =
  pe_create :: "pval \<Rightarrow> ('s, unit) stateful"
  pe_close_hub :: "('s, unit) stateful"
  pe_has_power :: bool
  pe_modes :: "string list"
  pe_get :: "int \<Rightarrow> ('s, string) stateful"
  pe_on :: "int \<Rightarrow> ('s, unit) stateful"
  pe_charge :: "int \<Rightarrow> ('s, unit) stateful"
  pe_off :: "int \<Rightarrow> ('s, unit) stateful"
  pe_set :: "string \<Rightarrow> int \<Rightarrow> ('s, unit) stateful"
  pe_exists :: "'s \<Rightarrow> bool"
  pe_live :: "'s \<Rightarrow> bool"
  pe_close_all :: "('s, unit) stateful"
  pe_open_all :: "('s, unit) stateful"
  pe_note :: "string \<Rightarrow> ('s, unit) stateful"
  pe_connected :: "('s, unit) stateful"
  pe_bootup :: "('s, unit) stateful"
  pe_pre_off :: "('s, unit) stateful"
  pe_sleep :: "int \<Rightarrow> ('s, unit) stateful"

record capability =
  cp_healthy :: "bool option"
  cp_hub :: bool

type_synonym ('s, 'a) capable = "('s \<times> capability, 'a) stateful"

definition new_capability :: capability where
  "new_capability = \<lparr>cp_healthy = None, cp_hub = False\<rparr>"

definition onWorld :: "('s, 'a) stateful \<Rightarrow> ('s, 'a) capable" where
  "onWorld m = (\<lambda>(s, c). case m s of (r, s') \<Rightarrow> (r, (s', c)))"

definition onCap :: "(capability \<Rightarrow> capability) \<Rightarrow> ('s, unit) capable" where
  "onCap f = (\<lambda>(s, c). (Inr (), (s, f c)))"

definition healthy :: "('s, unit) capable \<Rightarrow> ('s, bool) capable" where
  "healthy check = (\<lambda>(s, c).
     if cp_healthy c = None then
       catching {CapabilityNotReadyError}
         (bindS check (\<lambda>_. bindS (onCap (\<lambda>c. c\<lparr>cp_healthy := Some True\<rparr>)) (\<lambda>_. returnS True)))
         (bindS (onCap (\<lambda>c. c\<lparr>cp_healthy := Some False\<rparr>)) (\<lambda>_. returnS False)) (s, c)
     else (Inr (cp_healthy c = Some True), (s, c)))"

definition ensure_healthy :: "('s, unit) capable \<Rightarrow> ('s, unit) capable" where
  "ensure_healthy check = bindS (healthy check) (\<lambda>b. if b then returnS () else check)"

definition health_checked :: "capability \<Rightarrow> bool" where
  "health_checked c \<longleftrightarrow> cp_healthy c \<noteq> None"

text \<open>The capability gets its hub; an error of the manager means that it is not ready.\<close>

definition create_hub :: "'s power_env \<Rightarrow> pval \<Rightarrow> (exn \<Rightarrow> bool) \<Rightarrow> ('s, unit) capable" where
  "create_hub e hub_name caught =
     bindS (exceptS (onWorld (pe_create e hub_name)) (\<lambda>err. raiseS (if caught err then CapabilityNotReadyError else err)))
       (\<lambda>_. onCap (\<lambda>c. c\<lparr>cp_hub := True\<rparr>))"

text \<open>\<open>close\<close>: the hub is closed when there is one; it stays known.\<close>

definition close_hub :: "'s power_env \<Rightarrow> ('s, unit) capable" where
  "close_hub e = logged (\<lambda>(s, c). if cp_hub c then onWorld (pe_close_hub e) (s, c) else (Inr (), (s, c)))"

text \<open>A step on the switchboard, which was there (\<open>there\<close>) and is still healthy.\<close>

definition on_board :: "'s power_env \<Rightarrow> bool \<Rightarrow> ('s, unit) stateful \<Rightarrow> ('s, unit) capable" where
  "on_board e there m = onWorld (\<lambda>s. if there \<and> pe_live e s then m s else (Inr (), s))"

definition board_there :: "'s power_env \<Rightarrow> ('s, bool) capable" where
  "board_there e = onWorld (askS (pe_exists e))"

section \<open>\<open>DevicePowerDefault\<close>\<close>

record device_power =
  dv_hub_type :: string
  dv_hub_prop :: string
  dv_port_prop :: string
  dv_optional :: props
  dv_persistent :: props
  dv_reboots :: bool

definition HUB_TYPE_PROPS :: "(string \<times> string \<times> string) list" where
  "HUB_TYPE_PROPS = [(''cambrionix'', ''device_usb_hub_name'', ''device_usb_port''),
     (''powerswitch'', ''powerswitch_name'', ''powerswitch_port''),
     (''unifi_switch'', ''unifi_switch_name'', ''unifi_switch_port'')]"

definition get_or_none :: "props \<Rightarrow> string \<Rightarrow> pval" where
  "get_or_none d k = (case map_of d k of None \<Rightarrow> PNone | Some v \<Rightarrow> v)"

definition new_device_power ::
  "string \<Rightarrow> props \<Rightarrow> props \<Rightarrow> bool \<Rightarrow> string \<Rightarrow> string \<Rightarrow> device_power result" where
  "new_device_power default_hub_type optional persistent reboots usb_hub_name_prop usb_port_prop =
     (let v = (case map_of optional ''device_power_hub_type'' of None \<Rightarrow> PStr default_hub_type | Some v \<Rightarrow> v)
      in case v of
           PStr hub_type \<Rightarrow>
             (case map_of HUB_TYPE_PROPS hub_type of
                None \<Rightarrow> Inl ValueError
              | Some (hub_prop, port_prop) \<Rightarrow>
                  Inr \<lparr>dv_hub_type = hub_type,
                    dv_hub_prop = (if hub_type = ''cambrionix'' then usb_hub_name_prop else hub_prop),
                    dv_port_prop = (if hub_type = ''cambrionix'' then usb_port_prop else port_prop),
                    dv_optional = optional, dv_persistent = persistent, dv_reboots = reboots\<rparr>)
         | _ \<Rightarrow> Inl ValueError)"

definition device_power_prop :: "device_power \<Rightarrow> string \<Rightarrow> pval" where
  "device_power_prop d prop_name =
     (let val = get_or_none (dv_optional d) prop_name
      in if val \<noteq> PNone \<and> val \<noteq> PStr [] then val else get_or_none (dv_persistent d) prop_name)"

definition dv_hub_name :: "device_power \<Rightarrow> pval" where
  "dv_hub_name d = device_power_prop d (dv_hub_prop d)"

definition dv_port_number :: "device_power \<Rightarrow> int option result" where
  "dv_port_number d =
     (let port_number = device_power_prop d (dv_port_prop d)
      in if port_number \<noteq> PNone then bindE (py_int port_number) (\<lambda>i. Inr (Some i)) else Inr None)"

text \<open>The argument of a call of the hub; every capability of a hub refuses \<open>None\<close>.\<close>

definition dv_port :: "device_power \<Rightarrow> int result" where
  "dv_port d = bindE (dv_port_number d) (\<lambda>p. case p of None \<Rightarrow> Inl TypeError | Some i \<Rightarrow> Inr i)"

definition device_power_health_check :: "'s power_env \<Rightarrow> device_power \<Rightarrow> ('s, unit) capable" where
  "device_power_health_check e d =
     logged (bindS (liftS (dv_port_number d)) (\<lambda>port.
       if dv_hub_name d = PNone \<or> port = None then raiseS CapabilityNotReadyError
       else bindS (create_hub e (dv_hub_name d) is_device_error) (\<lambda>_.
              onCap (\<lambda>c. c\<lparr>cp_healthy := Some True\<rparr>))))"

definition device_power_port_mode :: "'s power_env \<Rightarrow> device_power \<Rightarrow> ('s, string) capable" where
  "device_power_port_mode e d =
     bindS (ensure_healthy (device_power_health_check e d)) (\<lambda>_.
     bindS (liftS (dv_port d)) (\<lambda>port. onWorld (pe_get e port)))"

definition device_power_off :: "'s power_env \<Rightarrow> device_power \<Rightarrow> bool \<Rightarrow> ('s, unit) capable" where
  "device_power_off e d close_transports =
     logged (bindS (ensure_healthy (device_power_health_check e d)) (\<lambda>_.
             bindS (liftS (dv_port d)) (\<lambda>port.
             bindS (onWorld (pe_get e port)) (\<lambda>status.
               if status = ''off'' then returnS ()
               else
                 bindS (board_there e) (\<lambda>there.
                   if dv_reboots d then
                     bindS (on_board e there (pe_note e (''GDM triggered reboot via '' @ dv_hub_type d @ '' power change.''))) (\<lambda>_.
                     bindS (onWorld (pe_off e port)) (\<lambda>_. onWorld (pe_bootup e)))
                   else
                     bindS (on_board e (close_transports \<and> there) (pe_close_all e)) (\<lambda>_. onWorld (pe_off e port)))))))"

definition device_power_on :: "'s power_env \<Rightarrow> device_power \<Rightarrow> bool \<Rightarrow> ('s, unit) capable" where
  "device_power_on e d no_wait =
     logged (bindS (ensure_healthy (device_power_health_check e d)) (\<lambda>_.
             bindS (liftS (dv_port d)) (\<lambda>port.
             bindS (onWorld (pe_get e port)) (\<lambda>status.
               if status \<in> {''sync'', ''charge'', ''on''} then returnS ()
               else
                 bindS (board_there e) (\<lambda>there.
                 bindS (on_board e (dv_reboots d \<and> there)
                          (pe_note e (''GDM triggered reboot via '' @ dv_hub_type d @ '' power change.''))) (\<lambda>_.
                 bindS (onWorld (pe_on e port)) (\<lambda>_.
                   if no_wait then returnS ()
                   else bindS (onWorld (pe_connected e)) (\<lambda>_.
                        bindS (on_board e (\<not> dv_reboots d \<and> there) (pe_open_all e)) (\<lambda>_.
                          onWorld (pe_bootup e)))))))))) "

definition device_power_cycle :: "'s power_env \<Rightarrow> device_power \<Rightarrow> bool \<Rightarrow> int \<Rightarrow> ('s, unit) capable" where
  "device_power_cycle e d no_wait sleep_time =
     logged (bindS (ensure_healthy (device_power_health_check e d)) (\<lambda>_.
             bindS (device_power_off e d True) (\<lambda>_.
             bindS (onWorld (pe_sleep e sleep_time)) (\<lambda>_. device_power_on e d no_wait))))"

section \<open>\<open>CommPowerDefault\<close>\<close>

record comm_power =
  cw_hub_type :: string
  cw_hub_name :: pval
  cw_port :: pval
  cw_share_cable :: bool
  cw_waits_bootup :: bool
  cw_has_pre_off :: bool

definition new_comm_power ::
  "string \<Rightarrow> props \<Rightarrow> props \<Rightarrow> bool \<Rightarrow> string \<Rightarrow> string \<Rightarrow> bool \<Rightarrow> bool \<Rightarrow> bool \<Rightarrow> comm_power result" where
  "new_comm_power hub_type optional persistent settable hub_name_prop port_prop share_cable waits_bootup has_pre_off =
     (if hub_type \<notin> {''cambrionix'', ''ethernet_switch''} then Inl ValueError
      else let d = (if settable then optional else persistent)
           in Inr \<lparr>cw_hub_type = hub_type, cw_hub_name = get_or_none d hub_name_prop, cw_port = get_or_none d port_prop,
                cw_share_cable = share_cable, cw_waits_bootup = waits_bootup, cw_has_pre_off = has_pre_off\<rparr>)"

definition comm_power_health_check :: "'s power_env \<Rightarrow> comm_power \<Rightarrow> ('s, unit) capable" where
  "comm_power_health_check e w =
     logged (if \<not> pv_true (cw_hub_name w) \<or> \<not> pv_true (cw_port w) then raiseS CapabilityNotReadyError
       else bindS (create_hub e (cw_hub_name w) is_device_error) (\<lambda>_.
              if \<not> pe_has_power e then raiseS CapabilityNotReadyError
              else onCap (\<lambda>c. c\<lparr>cp_healthy := Some True\<rparr>)))"

definition comm_power_port_mode :: "'s power_env \<Rightarrow> comm_power \<Rightarrow> ('s, string) capable" where
  "comm_power_port_mode e w =
     bindS (ensure_healthy (comm_power_health_check e w)) (\<lambda>_.
     bindS (liftS (py_int (cw_port w))) (\<lambda>port. onWorld (pe_get e port)))"

definition comm_power_off :: "'s power_env \<Rightarrow> comm_power \<Rightarrow> string \<Rightarrow> ('s, unit) capable" where
  "comm_power_off e w msg =
     logged (bindS (ensure_healthy (comm_power_health_check e w)) (\<lambda>_.
             bindS (if cw_has_pre_off w then onWorld (pe_pre_off e) else returnS ()) (\<lambda>_.
             bindS (board_there e) (\<lambda>there.
             bindS (on_board e there (bindS (pe_close_all e) (\<lambda>_.
                      if cw_share_cable w then pe_note e msg else returnS ()))) (\<lambda>_.
             bindS (liftS (py_int (cw_port w))) (\<lambda>port.
               if cw_share_cable w then onWorld (pe_charge e port) else onWorld (pe_off e port)))))))"

definition comm_power_on :: "'s power_env \<Rightarrow> comm_power \<Rightarrow> bool \<Rightarrow> ('s, unit) capable" where
  "comm_power_on e w no_wait =
     logged (bindS (ensure_healthy (comm_power_health_check e w)) (\<lambda>_.
             bindS (liftS (py_int (cw_port w))) (\<lambda>port.
             bindS (onWorld (pe_on e port)) (\<lambda>_.
               if no_wait then returnS ()
               else bindS (onWorld (pe_connected e)) (\<lambda>_.
                    bindS (board_there e) (\<lambda>there.
                    bindS (on_board e there (pe_open_all e)) (\<lambda>_.
                      if cw_waits_bootup w then onWorld (pe_bootup e) else returnS ())))))))"

definition comm_power_cycle :: "'s power_env \<Rightarrow> comm_power \<Rightarrow> string \<Rightarrow> ('s, unit) capable" where
  "comm_power_cycle e w msg =
     logged (bindS (ensure_healthy (comm_power_health_check e w)) (\<lambda>_.
             bindS (comm_power_off e w msg) (\<lambda>_.
             bindS (onWorld (pe_sleep e 2)) (\<lambda>_. comm_power_on e w False))))"

section \<open>\<open>UsbHubDefault\<close>\<close>

record usb_hub =
  uh_name :: pval
  uh_port :: pval
  uh_reboots :: bool

definition usb_hub_health_check :: "'s power_env \<Rightarrow> usb_hub \<Rightarrow> ('s, unit) capable" where
  "usb_hub_health_check e h =
     logged (if uh_name h = PNone \<or> uh_port h = PNone then raiseS CapabilityNotReadyError
       else bindS (create_hub e (uh_name h) (\<lambda>err. is_device_error err \<or> err = RuntimeError)) (\<lambda>_.
              onCap (\<lambda>c. c\<lparr>cp_healthy := Some True\<rparr>)))"

definition usb_hub_supported_modes :: "'s power_env \<Rightarrow> usb_hub \<Rightarrow> ('s, string list) capable" where
  "usb_hub_supported_modes e h = bindS (ensure_healthy (usb_hub_health_check e h)) (\<lambda>_. returnS (pe_modes e))"

definition usb_hub_check_device_ready :: "'s power_env \<Rightarrow> usb_hub \<Rightarrow> ('s, unit) capable" where
  "usb_hub_check_device_ready e h = logged (usb_hub_health_check e h)"

definition usb_hub_get_device_power :: "'s power_env \<Rightarrow> usb_hub \<Rightarrow> ('s, string) capable" where
  "usb_hub_get_device_power e h =
     logged (bindS (ensure_healthy (usb_hub_health_check e h)) (\<lambda>_.
             bindS (liftS (py_int (uh_port h))) (\<lambda>port. onWorld (pe_get e port))))"

definition verify_power_change_needed :: "'s power_env \<Rightarrow> usb_hub \<Rightarrow> string \<Rightarrow> int \<Rightarrow> ('s, bool) capable" where
  "verify_power_change_needed e h mode port =
     bindS (usb_hub_supported_modes e h) (\<lambda>supported.
       if lower mode \<notin> set supported then raiseS DeviceError
       else bindS (ensure_healthy (usb_hub_health_check e h)) (\<lambda>_.
            bindS (onWorld (pe_get e port)) (\<lambda>current_mode. returnS (current_mode \<noteq> lower mode))))"

definition set_port_mode :: "'s power_env \<Rightarrow> usb_hub \<Rightarrow> string \<Rightarrow> int \<Rightarrow> bool \<Rightarrow> string \<Rightarrow> ('s, unit) capable" where
  "set_port_mode e h mode port no_wait msg =
     bindS (ensure_healthy (usb_hub_health_check e h)) (\<lambda>_.
     bindS (liftS (py_int (uh_port h))) (\<lambda>device_port.
     bindS (verify_power_change_needed e h mode device_port) (\<lambda>needed.
       if \<not> needed then returnS ()
       else
         bindS (board_there e) (\<lambda>there.
         bindS (on_board e there (bindS (pe_note e msg) (\<lambda>_.
                  if uh_reboots h then pe_note e ''GDM triggered reboot via USB power change.'' else returnS ()))) (\<lambda>_.
         bindS (onWorld (pe_set e mode port)) (\<lambda>_.
           if uh_reboots h \<and> \<not> no_wait then onWorld (pe_bootup e) else returnS ()))))))"

definition set_device_power :: "'s power_env \<Rightarrow> usb_hub \<Rightarrow> string \<Rightarrow> bool \<Rightarrow> string \<Rightarrow> ('s, unit) capable" where
  "set_device_power e h mode no_wait msg =
     logged (bindS (liftS (py_int (uh_port h))) (\<lambda>device_port. set_port_mode e h mode device_port no_wait msg))"

definition usb_hub_power_off :: "'s power_env \<Rightarrow> usb_hub \<Rightarrow> int \<Rightarrow> bool \<Rightarrow> string \<Rightarrow> ('s, unit) capable" where
  "usb_hub_power_off e h port no_wait msg = logged (set_port_mode e h ''off'' port no_wait msg)"

definition usb_hub_power_on :: "'s power_env \<Rightarrow> usb_hub \<Rightarrow> int \<Rightarrow> bool \<Rightarrow> bool \<Rightarrow> string \<Rightarrow> ('s, unit) capable" where
  "usb_hub_power_on e h port data_sync no_wait msg =
     logged (set_port_mode e h (if data_sync then ''sync'' else ''charge'') port no_wait msg)"

end
