(* ===== verification/Power_Facts.thy ===== *)
theory Power_Facts
  imports Power_Control
begin

text \<open>
  What the power capabilities guarantee over any hub that keeps the contract of theory
  \<open>Switch_Contract\<close>, whatever the manager, the switchboard and the waiting functions do, as long as
  they leave the modes of the ports alone.
\<close>

section \<open>Steps that leave the hub alone\<close>

text \<open>
  \<open>world P\<close> holds of a state of the capability when \<open>P\<close> holds of the world; the other functions of an
  environment are \<open>quiet\<close> for a property when they keep it, whether they return or raise.
\<close>

definition world :: "('s \<Rightarrow> bool) \<Rightarrow> 's \<times> capability \<Rightarrow> bool" where
  "world P st \<longleftrightarrow> P (fst st)"

definition quiet :: "('s \<Rightarrow> bool) \<Rightarrow> ('s, 'a) stateful \<Rightarrow> bool" where
  "quiet P m \<longleftrightarrow> triple P m (\<lambda>_. P) (\<lambda>_. P)"

definition quiet_env :: "('s \<Rightarrow> bool) \<Rightarrow> 's power_env \<Rightarrow> bool" where
  "quiet_env P e \<longleftrightarrow> (\<forall>n. quiet P (pe_create e n)) \<and> quiet P (pe_close_hub e) \<and> quiet P (pe_close_all e) \<and>
     quiet P (pe_open_all e) \<and> (\<forall>t. quiet P (pe_note e t)) \<and> quiet P (pe_connected e) \<and> quiet P (pe_bootup e) \<and>
     quiet P (pe_pre_off e) \<and> (\<forall>n. quiet P (pe_sleep e n))"

lemma quiet_bind: "quiet P m \<Longrightarrow> (\<And>x. quiet P (f x)) \<Longrightarrow> quiet P (bindS m f)"
  unfolding quiet_def by (rule triple_bind)

lemma quiet_return: "quiet P (returnS x)"
  unfolding quiet_def by (rule triple_return)

lemma quiet_raise: "quiet P (raiseS x)"
  unfolding quiet_def by (rule triple_raise)

lemma quiet_lift: "quiet P (liftS r)"
  unfolding quiet_def by (rule triple_lift)

lemma quietI: "(\<And>s. P s \<Longrightarrow> P (snd (m s))) \<Longrightarrow> quiet P m"
  unfolding quiet_def triple_def by (auto split: prod.split sum.split) (metis snd_conv)+

lemma quietD: "quiet P m \<Longrightarrow> P s \<Longrightarrow> P (snd (m s))"
  by (cases "m s"; cases "fst (m s)") (auto simp: quiet_def triple_def)

lemma quiet_except:
  assumes "quiet P m" and "\<And>x. quiet P (h x)"
  shows "quiet P (exceptS m h)"
proof (rule quietI)
  fix s assume "P s"
  obtain r s1 where m: "m s = (r, s1)" by fastforce
  with quietD [OF assms(1) \<open>P s\<close>] have "P s1" by simp
  with m quietD [OF assms(2)] show "P (snd (exceptS m h s))" by (cases r) (simp_all add: exceptS_def)
qed

lemma triple_logged: "triple P m Q (\<lambda>_. E) \<Longrightarrow> triple P (logged m) Q (\<lambda>_. E)"
  unfolding triple_def logged_def exceptS_def raiseS_def by (fastforce split: prod.splits sum.splits)

lemma quiet_logged: "quiet P m \<Longrightarrow> quiet P (logged m)"
  unfolding quiet_def by (rule triple_logged)

lemma quiet_onWorld: "quiet P m \<Longrightarrow> quiet (world P) (onWorld m)"
  unfolding quiet_def triple_def world_def onWorld_def by (auto split: prod.splits sum.splits)

lemma quiet_onCap: "quiet (world P) (onCap f)"
  by (simp add: quiet_def triple_def world_def onCap_def split: prod.split)

lemma quiet_healthy:
  assumes "quiet (world P) m"
  shows "quiet (world P) (healthy m)"
proof (rule quietI)
  fix st assume w: "world P st"
  obtain s c where st: "st = (s, c)" by fastforce
  have "quiet (world P) (catching {CapabilityNotReadyError}
         (bindS m (\<lambda>_. bindS (onCap (\<lambda>c. c\<lparr>cp_healthy := Some True\<rparr>)) (\<lambda>_. returnS True)))
         (bindS (onCap (\<lambda>c. c\<lparr>cp_healthy := Some False\<rparr>)) (\<lambda>_. returnS False)))"
    unfolding catching_def
    by (intro quiet_except quiet_bind assms quiet_onCap quiet_return)
      (auto intro: quiet_bind quiet_onCap quiet_return quiet_raise)
  from quietD [OF this w] w show "world P (snd (healthy m st))"
    by (simp add: healthy_def st)
qed

lemma quiet_ensure: "quiet (world P) m \<Longrightarrow> quiet (world P) (ensure_healthy m)"
  unfolding ensure_healthy_def by (intro quiet_bind quiet_healthy) (simp_all add: quiet_return)

lemma quiet_env_steps:
  assumes "quiet_env P e"
  shows "quiet P (pe_create e n)" "quiet P (pe_close_hub e)" "quiet P (pe_close_all e)" "quiet P (pe_open_all e)"
    "quiet P (pe_note e t)" "quiet P (pe_connected e)" "quiet P (pe_bootup e)" "quiet P (pe_pre_off e)" "quiet P (pe_sleep e k)"
  using assms by (simp_all add: quiet_env_def)

lemma quiet_create:
  assumes "quiet_env P e"
  shows "quiet (world P) (create_hub e n caught)"
  unfolding create_hub_def
  by (intro quiet_bind quiet_except quiet_onWorld quiet_env_steps assms quiet_raise quiet_onCap)

lemma quiet_device_check:
  assumes "quiet_env P e"
  shows "quiet (world P) (device_power_health_check e d)"
  unfolding device_power_health_check_def
  by (intro quiet_logged quiet_bind quiet_lift) (auto intro!: quiet_bind quiet_raise quiet_create quiet_onCap assms)

lemma quiet_comm_check:
  assumes "quiet_env P e"
  shows "quiet (world P) (comm_power_health_check e w)"
  unfolding comm_power_health_check_def
  by (auto intro!: quiet_logged quiet_bind quiet_raise quiet_create quiet_onCap assms)

lemma quiet_on_board: "quiet P m \<Longrightarrow> quiet (world P) (on_board e there m)"
  unfolding on_board_def
  by (intro quiet_onWorld quietI) (simp add: quietD)

lemma quiet_board_there: "quiet (world P) (board_there e)"
  unfolding board_there_def by (intro quiet_onWorld quietI) (simp add: askS_def)

section \<open>Switching a port through a capability\<close>

text \<open>
  \<open>moves P Q m\<close>: from \<open>P\<close> the step ends in \<open>Q\<close> when it returns, and in one of the two when it raises.
\<close>

definition moves :: "('s \<Rightarrow> bool) \<Rightarrow> ('s \<Rightarrow> bool) \<Rightarrow> ('s, 'a) stateful \<Rightarrow> bool" where
  "moves P Q m \<longleftrightarrow> triple P m (\<lambda>_. Q) (\<lambda>_ s. P s \<or> Q s)"

lemma moves_before:
  assumes "quiet P m" and "\<And>x. moves P Q (f x)"
  shows "moves P Q (bindS m f)"
  unfolding moves_def
proof (rule triple_bind)
  show "triple P m (\<lambda>_. P) (\<lambda>_ s. P s \<or> Q s)"
    using assms(1) unfolding quiet_def by (rule triple_post) simp_all
  show "triple P (f x) (\<lambda>_. Q) (\<lambda>_ s. P s \<or> Q s)" for x
    using assms(2) [of x] by (simp add: moves_def)
qed

lemma moves_lift: "moves P Q (f x) \<Longrightarrow> moves P Q (bindS (liftS (Inr x)) f)"
  by (simp add: moves_def triple_def bindS_def liftS_def)

lemma moves_after:
  assumes "moves P Q m" and "\<And>x. quiet Q (f x)"
  shows "moves P Q (bindS m f)"
  unfolding moves_def
proof (rule triple_bind)
  show "triple P m (\<lambda>_. Q) (\<lambda>_ s. P s \<or> Q s)" using assms(1) by (simp add: moves_def)
  show "triple Q (f x) (\<lambda>_. Q) (\<lambda>_ s. P s \<or> Q s)" for x
    using assms(2) [of x] unfolding quiet_def by (rule triple_post) simp_all
qed

lemma moves_logged: "moves P Q m \<Longrightarrow> moves P Q (logged m)"
  unfolding moves_def by (rule triple_logged)

lemma moves_return: "(\<And>s. P s \<Longrightarrow> Q s) \<Longrightarrow> moves P Q (returnS x)"
  unfolding moves_def by (rule triple_return)

lemma moves_onWorld: "moves P Q m \<Longrightarrow> moves (world P) (world Q) (onWorld m)"
  unfolding moves_def triple_def world_def onWorld_def by (auto split: prod.splits sum.splits)

lemma movesD:
  assumes "moves P Q m" and "P s" and "m s = (r, s')"
  shows "case r of Inr _ \<Rightarrow> Q s' | Inl _ \<Rightarrow> P s' \<or> Q s'"
  using assms unfolding moves_def triple_def by (cases r) fastforce+

context switch_power
begin

lemma get_triple:
  assumes "readable p"
  shows "triple (world (\<lambda>s. good s \<and> mode s = m)) (onWorld (get_mode p))
    (\<lambda>x st. x = m p \<and> world (\<lambda>s. good s \<and> mode s = m) st) (\<lambda>_ _. False)"
  unfolding triple_def
proof (intro allI impI)
  fix st assume w: "world (\<lambda>s. good s \<and> mode s = m) st"
  obtain s c where st: "st = (s, c)" by fastforce
  from w have "good s" "mode s = m" by (simp_all add: world_def st)
  from get_law [OF this(1) assms] this(2) obtain s' where "get_mode p s = (Inr (m p), s')" "good s'" "mode s' = m" by auto
  then show "case onWorld (get_mode p) st of
      (Inl e, st') \<Rightarrow> False | (Inr x, st') \<Rightarrow> x = m p \<and> world (\<lambda>s. good s \<and> mode s = m) st'"
    by (simp add: st onWorld_def world_def)
qed

lemma after_get:
  assumes "readable p" and "moves (world (\<lambda>s. good s \<and> mode s = m)) Q (f (m p))"
  shows "moves (world (\<lambda>s. good s \<and> mode s = m)) Q (bindS (onWorld (get_mode p)) f)"
  unfolding moves_def
proof (rule triple_bind)
  show "triple (world (\<lambda>s. good s \<and> mode s = m)) (onWorld (get_mode p))
      (\<lambda>x st. x = m p \<and> world (\<lambda>s. good s \<and> mode s = m) st)
      (\<lambda>_ st. world (\<lambda>s. good s \<and> mode s = m) st \<or> Q st)"
    using get_triple [OF assms(1)] by (rule triple_post) simp_all
  show "triple (\<lambda>st. x = m p \<and> world (\<lambda>s. good s \<and> mode s = m) st) (f x) (\<lambda>_. Q)
      (\<lambda>_ st. world (\<lambda>s. good s \<and> mode s = m) st \<or> Q st)" for x
  proof (cases "x = m p")
    case True
    from assms(2) have "triple (world (\<lambda>s. good s \<and> mode s = m)) (f (m p)) (\<lambda>_. Q)
      (\<lambda>_ st. world (\<lambda>s. good s \<and> mode s = m) st \<or> Q st)" by (simp only: moves_def)
    then show ?thesis unfolding True by (rule triple_pre) simp
  qed (simp add: triple_def)
qed

lemma off_moves:
  assumes "switchable p"
  shows "moves (\<lambda>s. good s \<and> mode s = m) (\<lambda>s. good s \<and> mode s = m(p := off_mode)) (power_off p)"
  unfolding moves_def triple_def using off_law [OF _ assms] by fastforce

lemma on_moves:
  assumes "switchable p"
  shows "moves (\<lambda>s. good s \<and> mode s = m) (\<lambda>s. good s \<and> mode s = m(p := on_mode)) (power_on p)"
  unfolding moves_def triple_def using on_law [OF _ assms] by fastforce

end

text \<open>The environment of a capability whose hub is the one of the contract.\<close>

definition drives :: "'s power_env \<Rightarrow> (int \<Rightarrow> ('s, string) stateful) \<Rightarrow> (int \<Rightarrow> ('s, unit) stateful) \<Rightarrow>
    (int \<Rightarrow> ('s, unit) stateful) \<Rightarrow> ('s \<Rightarrow> bool) \<Rightarrow> ('s \<Rightarrow> int \<Rightarrow> string) \<Rightarrow> bool" where
  "drives e get on off good mode \<longleftrightarrow> pe_get e = get \<and> pe_on e = on \<and> pe_off e = off \<and>
     (\<forall>m. quiet_env (\<lambda>s. good s \<and> mode s = m) e)"

context switch_power
begin

lemma device_off_moves:
  assumes e: "drives e get_mode power_on power_off good mode" and p: "dv_port d = Inr p" "switchable p" and o: "off_mode = ''off''"
  shows "moves (world (\<lambda>s. good s \<and> mode s = m)) (world (\<lambda>s. good s \<and> mode s = m(p := off_mode))) (device_power_off e d b)"
proof -
  have ops: "pe_get e = get_mode" "pe_off e = power_off" and q: "\<And>m. quiet_env (\<lambda>s. good s \<and> mode s = m) e"
    using e by (simp_all add: drives_def)
  let ?P = "\<lambda>m s. good s \<and> mode s = m"
  have off: "moves (world (?P m)) (world (?P (m(p := off_mode)))) (onWorld (power_off p))"
    by (intro moves_onWorld off_moves p)
  have same: "m p = ''off'' \<Longrightarrow> m(p := off_mode) = m" using o by auto
  show ?thesis
    unfolding device_power_off_def p(1) ops
  proof (rule moves_logged, rule moves_before [OF quiet_ensure [OF quiet_device_check [OF q]]], rule moves_lift,
      rule after_get [OF switchable_readable [OF p(2)]], goal_cases)
    case 1
    show ?case
    proof (cases "m p = ''off''")
      case True
      then show ?thesis by (simp only: simp_thms if_True same) (rule moves_return)
    next
      case False
      show ?thesis
      proof (simp only: False if_False, rule moves_before [OF quiet_board_there])
        fix there
        let ?note = "pe_note e (''GDM triggered reboot via '' @ dv_hub_type d @ '' power change.'')"
        have "moves (world (?P m)) (world (?P (m(p := off_mode))))
            (bindS (on_board e there ?note) (\<lambda>_. bindS (onWorld (power_off p)) (\<lambda>_. onWorld (pe_bootup e))))"
          by (rule moves_before [OF quiet_on_board [OF quiet_env_steps(5) [OF q]]],
              rule moves_after [OF off quiet_onWorld [OF quiet_env_steps(7) [OF q]]])
        moreover have "moves (world (?P m)) (world (?P (m(p := off_mode))))
            (bindS (on_board e (b \<and> there) (pe_close_all e)) (\<lambda>_. onWorld (power_off p)))"
          by (rule moves_before [OF quiet_on_board [OF quiet_env_steps(3) [OF q]] off])
        ultimately show "moves (world (?P m)) (world (?P (m(p := off_mode))))
            (if dv_reboots d then bindS (on_board e there ?note) (\<lambda>_. bindS (onWorld (power_off p)) (\<lambda>_. onWorld (pe_bootup e)))
             else bindS (on_board e (b \<and> there) (pe_close_all e)) (\<lambda>_. onWorld (power_off p)))"
          by (cases "dv_reboots d") simp_all
      qed
    qed
  qed
qed

lemma device_on_moves:
  assumes e: "drives e get_mode power_on power_off good mode" and p: "dv_port d = Inr p" "switchable p"
  shows "moves (world (\<lambda>s. good s \<and> mode s = m))
    (world (\<lambda>s. good s \<and> mode s = (if m p \<in> {''sync'', ''charge'', ''on''} then m else m(p := on_mode)))) (device_power_on e d no_wait)"
proof -
  have ops: "pe_get e = get_mode" "pe_on e = power_on" and q: "\<And>m. quiet_env (\<lambda>s. good s \<and> mode s = m) e"
    using e by (simp_all add: drives_def)
  let ?P = "\<lambda>m s. good s \<and> mode s = m"
  let ?m = "if m p \<in> {''sync'', ''charge'', ''on''} then m else m(p := on_mode)"
  have on: "moves (world (?P m)) (world (?P (m(p := on_mode)))) (onWorld (power_on p))"
    by (intro moves_onWorld on_moves p)
  show ?thesis
    unfolding device_power_on_def p(1) ops
  proof (rule moves_logged, rule moves_before [OF quiet_ensure [OF quiet_device_check [OF q]]], rule moves_lift,
      rule after_get [OF switchable_readable [OF p(2)]], goal_cases)
    case 1
    show ?case
    proof (cases "m p \<in> {''sync'', ''charge'', ''on''}")
      case True
      then show ?thesis by (simp only: simp_thms if_True) (rule moves_return)
    next
      case False
      show ?thesis
      proof (simp only: False if_False, rule moves_before [OF quiet_board_there],
          rule moves_before [OF quiet_on_board [OF quiet_env_steps(5) [OF q]]], rule moves_after [OF on])
        fix there x
        let ?wait = "bindS (onWorld (pe_connected e)) (\<lambda>_. bindS (on_board e (\<not> dv_reboots d \<and> there) (pe_open_all e)) (\<lambda>_.
                  onWorld (pe_bootup e)))"
        have "quiet (world (?P (m(p := on_mode)))) ?wait"
          by (intro quiet_bind quiet_onWorld quiet_on_board quiet_env_steps q)
        then show "quiet (world (?P (m(p := on_mode)))) (if no_wait then returnS () else ?wait)"
          by (cases no_wait) (simp_all add: quiet_return)
      qed
    qed
  qed
qed

lemma device_cycle_moves:
  assumes e: "drives e get_mode power_on power_off good mode" and p: "dv_port d = Inr p" "switchable p" and o: "off_mode = ''off''"
    and st: "good s" and c: "device_power_cycle e d no_wait t (s, c) = (r, (s', c'))"
  shows "good s' \<and> mode s' \<in> {mode s, (mode s)(p := off_mode), (mode s)(p := on_mode)} \<and>
    (r = Inr () \<longrightarrow> mode s' = (mode s)(p := on_mode))"
proof -
  let ?P = "\<lambda>m s. good s \<and> mode s = m"
  let ?m = "mode s"
  let ?off = "?m(p := off_mode)" and ?on = "?m(p := on_mode)"
  have q: "\<And>m. quiet_env (?P m) e" using e by (simp add: drives_def)
  have "off_mode \<notin> {''sync'', ''charge'', ''on''}" using o by simp
  then have on: "moves (world (?P ?off)) (world (?P ?on)) (device_power_on e d no_wait)"
    using device_on_moves [OF e p, of ?off no_wait] by simp
  have T: "triple (world (?P ?m)) (device_power_cycle e d no_wait t) (\<lambda>_. world (?P ?on))
      (\<lambda>_ st. world (?P ?m) st \<or> world (?P ?off) st \<or> world (?P ?on) st)"
    unfolding device_power_cycle_def
  proof (rule triple_logged, rule triple_bind [where R = "\<lambda>_. world (?P ?m)"], goal_cases)
    case 1
    show ?case using quiet_ensure [OF quiet_device_check [OF q, where d = d]] unfolding quiet_def by (rule triple_post) simp_all
  next
    case (2 x)
    show ?case
    proof (rule triple_bind [where R = "\<lambda>_. world (?P ?off)"], goal_cases)
      case 1
      show ?case using device_off_moves [OF e p o, of ?m True] unfolding moves_def by (rule triple_post) auto
    next
      case (2 x)
      have "moves (world (?P ?off)) (world (?P ?on)) (bindS (onWorld (pe_sleep e t)) (\<lambda>_. device_power_on e d no_wait))"
        by (rule moves_before [OF quiet_onWorld [OF quiet_env_steps(9) [OF q]] on])
      then show ?case unfolding moves_def by (rule triple_post) auto
    qed
  qed
  have W: "world (?P ?m) (s, c)" using st by (simp add: world_def)
  show ?thesis
  proof (cases r)
    case (Inl err)
    from tripleD_exn [OF T c [unfolded Inl] W] Inl show ?thesis by (auto simp: world_def)
  next
    case (Inr u)
    from tripleD_value [OF T c [unfolded Inr] W] Inr show ?thesis by (auto simp: world_def)
  qed
qed

lemma device_off_result:
  assumes e: "drives e get_mode power_on power_off good mode" and p: "dv_port d = Inr p" "switchable p" and o: "off_mode = ''off''"
    and st: "good s" and c: "device_power_off e d b (s, c) = (r, (s', c'))"
  shows "good s' \<and> mode s' \<in> {mode s, (mode s)(p := off_mode)} \<and> (r = Inr () \<longrightarrow> mode s' = (mode s)(p := off_mode))"
proof -
  have "world (\<lambda>s'. good s' \<and> mode s' = mode s) (s, c)" using st by (simp add: world_def)
  from movesD [OF device_off_moves [OF e p o, of "mode s" b] this c] show ?thesis
    by (cases r) (auto simp: world_def)
qed

end

context charging_switch
begin

lemma charge_moves:
  assumes "switchable p"
  shows "moves (\<lambda>s. good s \<and> mode s = m) (\<lambda>s. good s \<and> mode s = m(p := charge_mode)) (power_charge p)"
  unfolding moves_def triple_def using charge_law [OF _ assms] by fastforce

lemma comm_off_moves:
  assumes e: "drives e get_mode power_on power_off good mode" "pe_charge e = power_charge"
    and p: "py_int (cw_port w) = Inr p" "switchable p"
  shows "moves (world (\<lambda>s. good s \<and> mode s = m))
    (world (\<lambda>s. good s \<and> mode s = m(p := if cw_share_cable w then charge_mode else off_mode))) (comm_power_off e w msg)"
proof -
  have ops: "pe_off e = power_off" and q: "\<And>m. quiet_env (\<lambda>s. good s \<and> mode s = m) e"
    using e(1) by (simp_all add: drives_def)
  let ?P = "\<lambda>m s. good s \<and> mode s = m"
  have pre: "quiet (world (?P m)) (if cw_has_pre_off w then onWorld (pe_pre_off e) else returnS ())"
    using quiet_onWorld [OF quiet_env_steps(8) [OF q]] by (simp add: quiet_return)
  have nt: "quiet (?P m) (if cw_share_cable w then pe_note e msg else returnS ())"
    using quiet_env_steps(5) [OF q] by (simp add: quiet_return)
  have last: "moves (world (?P m)) (world (?P (m(p := if cw_share_cable w then charge_mode else off_mode))))
      (if cw_share_cable w then onWorld (power_charge p) else onWorld (power_off p))"
    using moves_onWorld [OF charge_moves [OF p(2)]] moves_onWorld [OF off_moves [OF p(2)]] by simp
  show ?thesis
    unfolding comm_power_off_def p(1) ops e(2)
    by (rule moves_logged, rule moves_before [OF quiet_ensure [OF quiet_comm_check [OF q]]], rule moves_before [OF pre],
        rule moves_before [OF quiet_board_there],
        rule moves_before [OF quiet_on_board [OF quiet_bind [OF quiet_env_steps(3) [OF q] nt]]],
        rule moves_lift, rule last)
qed

lemma comm_off_result:
  assumes "drives e get_mode power_on power_off good mode" "pe_charge e = power_charge"
    and "py_int (cw_port w) = Inr p" "switchable p"
    and st: "good s" and c: "comm_power_off e w msg (s, c) = (r, (s', c'))"
  shows "good s' \<and> mode s' \<in> {mode s, (mode s)(p := if cw_share_cable w then charge_mode else off_mode)} \<and>
    (r = Inr () \<longrightarrow> mode s' = (mode s)(p := if cw_share_cable w then charge_mode else off_mode))"
proof -
  have "world (\<lambda>s'. good s' \<and> mode s' = mode s) (s, c)" using st by (simp add: world_def)
  from movesD [OF comm_off_moves [OF assms(1-4)] this c] show ?thesis
    by (cases r) (auto simp: world_def)
qed

end

section \<open>Over the hubs of the program\<close>



lemma unifi_switch_lists:
  assumes "0 < p" and "p \<le> tp_ports u" and "unifi_switch u poe m p (s, l) = (r, (s', l'))"
  shows "tl_enter l' = tl_enter l @ [interface_cmd p]"
proof -
  have onl: "snd (snd (onSwitch f (a, b))) = b" for f :: "('a, 'b) stateful" and a b
    by (simp add: onSwitch_def split: prod.split)
  obtain q w where b: "bindS (unifi_validate_port u p) (\<lambda>_.
             bindS (create_port_config_command_and_regex p) (\<lambda>telnet_commands.
             bindS (liftS (dict_item (tp_commands u) ''ADJUST_PORTS_MODE'')) (\<lambda>cmd.
             bindS (onSwitch (telnet_port_config_send u telnet_commands (tp_send u (fill_named ''mode'' poe cmd)))) (\<lambda>_.
               onSwitch (verify_mode u p m))))) (s, l) = (q, w)" by (rule prod.exhaust)
  then have "snd w = l'" using assms(3)
    by (cases q) (auto simp: unifi_switch_def logged_def exceptS_def raiseS_def)
  moreover have "tl_enter (snd w) = tl_enter l @ [interface_cmd p]"
    using b assms(1,2)
    by (auto simp: bindS_def unifi_validate_port_def returnS_def create_port_config_command_and_regex_def Let_def liftS_def
        interface_cmd_def onSwitch_def split: prod.splits sum.splits)
  ultimately show ?thesis by simp
qed

lemma run_power_lists:
  "run_power (unifi_power_on u) (unifi_power_off u) es (s, l) = (Inr (), (s', l')) \<Longrightarrow>
   \<forall>e\<in>set es. 0 < fst e \<and> fst e \<le> tp_ports u \<Longrightarrow> tl_enter l' = tl_enter l @ map (\<lambda>e. interface_cmd (fst e)) es"
proof (induction es arbitrary: s l)
  case Nil
  then show ?case by (simp add: returnS_def)
next
  case (Cons e es)
  obtain q s1 l1 where m: "(if snd e then unifi_power_on u (fst e) else unifi_power_off u (fst e)) (s, l) = (q, (s1, l1))"
    by (rule prod_cases3)
  from Cons.prems(1) m have "q = Inr ()" by (cases q) (simp_all add: bindS_def)
  with Cons.prems(1) m have r: "run_power (unifi_power_on u) (unifi_power_off u) es (s1, l1) = (Inr (), (s', l'))"
    by (simp add: bindS_def)
  have "tl_enter l1 = tl_enter l @ [interface_cmd (fst e)]"
    using m Cons.prems(2) unifi_switch_lists [of "fst e" u _ _ s l q s1 l1]
    by (cases "snd e") (simp_all add: unifi_power_on_def unifi_power_off_def)
  with Cons.IH [OF r] Cons.prems(2) show ?case by simp
qed


text \<open>The USB hub capability asks the mode of the port of its own device, whatever port it is told
  to switch: when the device's port is off already, powering off another port returns and
  does nothing, although that port is on.\<close>

theorem usb_hub_skips_other_port:
  assumes "cp_healthy c = Some True" and "py_int (uh_port h) = Inr device_port" and "''off'' \<in> set (pe_modes e)"
    and "pe_get e device_port s = (Inr ''off'', s1)"
  shows "usb_hub_power_off e h port no_wait msg (s, c) = (Inr (), (s1, c))"
proof -
  have ok: "ensure_healthy check (s, c) = (Inr (), (s, c))" for check
    using assms(1) by (simp add: ensure_healthy_def bindS_def healthy_def returnS_def)
  have l: "lower ''off'' = ''off''" by (simp add: lower_def lower_char_def)
  have g: "onWorld (pe_get e device_port) (s, c) = (Inr ''off'', (s1, c))" using assms(4) by (simp add: onWorld_def)
  have v: "verify_power_change_needed e h ''off'' device_port (s, c) = (Inr False, (s1, c))"
    using assms(3) by (simp add: verify_power_change_needed_def usb_hub_supported_modes_def bindS_def ok returnS_def l g)
  show ?thesis
    unfolding usb_hub_power_off_def
    by (rule logged_ok) (simp add: set_port_mode_def bindS_def ok assms(2) liftS_def v returnS_def)
qed

primrec ready_checks :: "'s power_env \<Rightarrow> usb_hub \<Rightarrow> nat \<Rightarrow> ('s, unit) capable" where
  "ready_checks e h 0 = returnS ()"
| "ready_checks e h (Suc k) = bindS (usb_hub_check_device_ready e h) (\<lambda>_. ready_checks e h k)"

lemma ready_checks_users:
  assumes name: "uh_name h \<noteq> PNone" "uh_port h \<noteq> PNone"
    and create: "\<And>s. \<exists>s'. pe_create e (uh_name h) s = (Inr (), s') \<and> users s' = Suc (users s)"
  shows "\<exists>s' c'. ready_checks e h k (s, c) = (Inr (), (s', c')) \<and> users s' = users s + k \<and> (0 < k \<longrightarrow> cp_hub c') \<and>
    (cp_hub c \<longrightarrow> cp_hub c')"
proof (induction k arbitrary: s c)
  case 0
  then show ?case by (simp add: returnS_def)
next
  case (Suc k)
  from create [of s] obtain s1 where s1: "pe_create e (uh_name h) s = (Inr (), s1)" "users s1 = Suc (users s)" by blast
  let ?c1 = "c\<lparr>cp_hub := True, cp_healthy := Some True\<rparr>"
  have h: "usb_hub_health_check e h (s, c) = (Inr (), (s1, ?c1))"
    unfolding usb_hub_health_check_def
    by (rule logged_ok) (simp add: name bindS_def create_hub_def exceptS_def onWorld_def s1(1) onCap_def)
  then have "usb_hub_check_device_ready e h (s, c) = (Inr (), (s1, ?c1))"
    unfolding usb_hub_check_device_ready_def by (rule logged_ok)
  with Suc.IH [of s1 ?c1] s1(2) show ?case by (auto simp: bindS_def)
qed

text \<open>C37. Each readiness check of the USB hub capability creates the hub once more, and closing gives
  back one user of it: after \<open>k + 1\<close> checks and a close, the hub has \<open>k\<close> users more than before.\<close>

theorem ready_checks_leak_hub:
  assumes "uh_name h \<noteq> PNone" "uh_port h \<noteq> PNone"
    and "\<forall>s. \<exists>s'. pe_create e (uh_name h) s = (Inr (), s') \<and> users s' = users s + 1"
    and "\<forall>s. \<exists>s'. pe_close_hub e s = (Inr (), s') \<and> users s' = users s - (1::nat)"
  shows "\<exists>s' c'. bindS (ready_checks e h (k + 1)) (\<lambda>_. close_hub e) (s, c) = (Inr (), (s', c')) \<and> users s' = users s + k"
proof -
  have "\<exists>s' c'. ready_checks e h (k + 1) (s, c) = (Inr (), (s', c')) \<and> users s' = users s + (k + 1) \<and>
      (0 < k + 1 \<longrightarrow> cp_hub c') \<and> (cp_hub c \<longrightarrow> cp_hub c')"
    by (rule ready_checks_users [OF assms(1,2)]) (use assms(3) in auto)
  then obtain s1 c1 where 1: "ready_checks e h (k + 1) (s, c) = (Inr (), (s1, c1))" "users s1 = users s + (k + 1)" "cp_hub c1"
    by auto
  from assms(4) obtain s2 where s2: "pe_close_hub e s1 = (Inr (), s2)" "users s2 = users s1 - 1" by blast
  have "close_hub e (s1, c1) = (Inr (), (s2, c1))"
    unfolding close_hub_def by (rule logged_ok) (simp add: 1(3) onWorld_def s2(1))
  then have "bindS (ready_checks e h (k + 1)) (\<lambda>_. close_hub e) (s, c) = (Inr (), (s2, c1))"
    unfolding bindS_def 1(1) by simp
  with 1(2) s2(2) show ?thesis by (intro exI [of _ s2] exI [of _ c1]) simp
qed

section \<open>Examples\<close>

text \<open>A hub with one port, whose state is the number of its mode.\<close>

definition one_port_mode :: "nat \<Rightarrow> int \<Rightarrow> string" where
  "one_port_mode s p = (if p = 1 then (if s = 0 then ''off'' else if s = 1 then ''sync'' else ''charge'') else ''off'')"

definition one_port_shell :: "nat usb_shell" where
  "one_port_shell =
     \<lparr>us_shell = (\<lambda>cmd s. (Inr [], if cmd = ''mode off 1'' then 0 else if cmd = ''mode sync 1'' then 1
        else if cmd = ''mode charge 1'' then 2 else s)),
      us_regex_shell = (\<lambda>cmd regex s. (Inr (if s = 0 then ''O'' else if s = 1 then ''S'' else ''C''), s))\<rparr>"

definition one_port_env :: "nat power_env" where
  "one_port_env =
     \<lparr>pe_create = (\<lambda>_. returnS ()), pe_close_hub = returnS (), pe_has_power = True, pe_modes = charge_modes,
      pe_get = charge_get_mode (cambrionix_power 1) one_port_shell,
      pe_on = (\<lambda>p. charge_power_on (cambrionix_power 1) one_port_shell p True),
      pe_charge = (\<lambda>p. charge_power_on (cambrionix_power 1) one_port_shell p False),
      pe_off = charge_power_off (cambrionix_power 1) one_port_shell,
      pe_set = charge_set_mode (cambrionix_power 1) one_port_shell,
      pe_exists = (\<lambda>_. True), pe_live = (\<lambda>_. True), pe_close_all = returnS (), pe_open_all = returnS (),
      pe_note = (\<lambda>_. returnS ()), pe_connected = returnS (), pe_bootup = raiseS DeviceError, pe_pre_off = returnS (),
      pe_sleep = (\<lambda>_. returnS ())\<rparr>"

lemma one_port_trusted: "cambrionix_trusted 1 one_port_shell one_port_mode"
proof -
  have n: "show_int 1 = ''1''" by (simp add: show_int_def show_nat.simps digit_def char_of_def bit_Suc_0_iff)
  have "(\<forall>m\<in>set charge_modes. \<exists>out s'. us_shell one_port_shell (''mode '' @ m @ '' '' @ show_int p) s = (Inr out, s') \<and>
        one_port_mode s' = (one_port_mode s)(p := m)) \<and>
     (\<forall>regex. \<exists>flags s'. us_regex_shell one_port_shell (''state '' @ show_int p) regex s = (Inr flags, s') \<and>
        one_port_mode s' = one_port_mode s \<and> flags_show flags (one_port_mode s p))" if "1 \<le> p \<and> p \<le> 1" for s p
  proof -
    have p: "p = 1" using that by simp
    show ?thesis unfolding p n
      by (intro conjI) (auto simp: one_port_shell_def charge_modes_def one_port_mode_def fun_eq_iff flags_show_def)
  qed
  then show ?thesis by (simp add: cambrionix_trusted_def)
qed

lemma one_port_quiet: "quiet_env P one_port_env"
  by (simp add: quiet_env_def one_port_env_def quiet_return quiet_raise)

definition one_port_device :: device_power where
  "one_port_device = \<lparr>dv_hub_type = ''cambrionix'', dv_hub_prop = ''device_usb_hub_name'', dv_port_prop = ''device_usb_port'',
     dv_optional = [(''device_usb_hub_name'', PStr ''cambrionix-1234''), (''device_usb_port'', PInt 1)], dv_persistent = [],
     dv_reboots = False\<rparr>"


definition one_cable :: comm_power where
  "one_cable = \<lparr>cw_hub_type = ''cambrionix'', cw_hub_name = PStr ''cambrionix-1234'', cw_port = PInt 1, cw_share_cable = True,
     cw_waits_bootup = False, cw_has_pre_off = False\<rparr>"


definition one_usb_hub :: usb_hub where
  "one_usb_hub = \<lparr>uh_name = PStr ''cambrionix-1234'', uh_port = PInt 1, uh_reboots = False\<rparr>"

theorem usb_hub_skips_other_port_witness:
  "usb_hub_power_off one_port_env one_usb_hub 2 True [] (0, \<lparr>cp_healthy = Some True, cp_hub = True\<rparr>) =
     (Inr (), (0, \<lparr>cp_healthy = Some True, cp_hub = True\<rparr>))"
proof (rule usb_hub_skips_other_port)
  show "pe_get one_port_env 1 0 = (Inr ''off'', 0)"
    using cambrionix_get [OF one_port_trusted, of 1 0]
    by (simp add: one_port_env_def charge_get_mode_def usb_validate_port_def cambrionix_power_def bindS_def returnS_def
        usb_query_def liftS_def usb_command_def dict_item_def one_port_shell_def)
qed (simp_all add: one_usb_hub_def py_int_def one_port_env_def charge_modes_def)

definition counting_env :: "nat power_env" where
  "counting_env = one_port_env\<lparr>pe_create := (\<lambda>_ s. (Inr (), Suc s)), pe_close_hub := (\<lambda>s. (Inr (), s - 1))\<rparr>"

theorem ready_checks_leak_hub_witness:
  "fst (snd (bindS (ready_checks counting_env one_usb_hub 3) (\<lambda>_. close_hub counting_env) (0, new_capability))) = 2"
  using ready_checks_leak_hub [of one_usb_hub counting_env id 2 0 new_capability]
  by (auto simp: counting_env_def one_usb_hub_def)

text \<open>A switch with one port, behind a telnet session: its depth, and the mode of the port.\<close>

definition one_telnet :: "(nat \<times> string) telnet_power" where
  "one_telnet =
     \<lparr>tp_expect = (\<lambda>c r (d, m). (Inr (\<lambda>_. m),
        (if c = ''telnet localhost'' \<or> c = ''enable'' \<or> c = ''config'' then d + 1
         else if c = ''exit'' then d - 1 else if c = ''interface 0/1'' then 4 else d, m))),
      tp_send = (\<lambda>c (d, m). (Inr (), (d, if c = ''poe opmode auto'' then ''Auto'' else ''Shutdown''))),
      tp_search = (\<lambda>_ _. None),
      tp_commands = [(''ADJUST_PORTS_MODE'', ''poe opmode {mode}''), (''GET_PORT_MODE'', ''show poe port 0/{port}''),
        (''GET_ALL_PORTS_MODE'', ''show poe port all'')],
      tp_regexes = [(''GET_PORT_MODE_REGEX'', ''0/{port}''), (''GET_ALL_PORTS_MODE_REGEX'', ''(.*)'')], tp_ports = 1\<rparr>"

definition one_view :: "(nat \<times> string) telnet_view" where
  "one_view = \<lparr>tv_depth = fst, tv_port = (\<lambda>_. 1), tv_mode = (\<lambda>s p. if p = 1 then snd s else ''Auto'')\<rparr>"

lemma one_telnet_trusted: "telnet_trusted one_telnet one_view"
proof -
  have n: "show_int 1 = ''1''" by (simp add: show_int_def show_nat.simps digit_def char_of_def bit_Suc_0_iff)
  have q: "(0 < q \<and> q \<le> tp_ports one_telnet) = (q = 1)" for q by (auto simp: one_telnet_def)
  have c: "dict_item (tp_commands one_telnet) ''GET_PORT_MODE'' = Inr ''show poe port 0/{port}''"
    "dict_item (tp_commands one_telnet) ''ADJUST_PORTS_MODE'' = Inr ''poe opmode {mode}''"
    "''GET_PORT_MODE_REGEX'' \<in> set (map fst (tp_regexes one_telnet))"
    by (simp_all add: one_telnet_def dict_item_def)
  have v: "tv_mode one_view (d, m) = (\<lambda>p. if p = 1 then m else ''Auto'')" "tv_depth one_view (d, m) = d" for d m
    by (auto simp: one_view_def)
  have e: "tp_expect one_telnet c r (d, m) = (Inr (\<lambda>_. m),
      (if c = ''telnet localhost'' \<or> c = ''enable'' \<or> c = ''config'' then d + 1
       else if c = ''exit'' then d - 1 else if c = ''interface 0/1'' then 4 else d, m))" for c r d m
    by (simp add: one_telnet_def)
  have a': "telnet_answers one_telnet one_view ''telnet localhost'' (d, m) (Suc d)"
    "telnet_answers one_telnet one_view ''enable'' (d, m) (Suc d)"
    "telnet_answers one_telnet one_view ''config'' (d, m) (Suc d)"
    "telnet_answers one_telnet one_view ''exit'' (d, m) (d - 1)" for d m
    by (simp_all add: telnet_answers_def e v)
  have a: "telnet_answers one_telnet one_view ''telnet localhost'' s (Suc (tv_depth one_view s))"
    "telnet_answers one_telnet one_view ''enable'' s (Suc (tv_depth one_view s))"
    "telnet_answers one_telnet one_view ''config'' s (Suc (tv_depth one_view s))"
    "telnet_answers one_telnet one_view ''exit'' s (tv_depth one_view s - 1)" for s
    using a' [of "fst s" "snd s"] by (simp_all add: one_view_def)
  have i1: "selects one_telnet one_view 1 s" for s
  proof -
    obtain d m where s: "s = (d, m)" by fastforce
    show ?thesis unfolding selects_def interface_cmd_def n s
      by (intro allI exI [of _ "\<lambda>_. m"] exI [of _ "(4, m)"]) (simp add: e v, simp add: one_view_def)
  qed
  have i2: "shows_mode one_telnet one_view 1 s" for s
  proof -
    obtain d m where s: "s = (d, m)" by fastforce
    show ?thesis unfolding shows_mode_def n s
      by (intro allI exI [of _ "\<lambda>_. m"] exI [of _ "(d, m)"]) (simp add: e v)
  qed
  have i3: "sets_mode one_telnet one_view ''auto'' ''Auto'' s" "sets_mode one_telnet one_view ''shutdown'' ''Shutdown'' s" for s
  proof -
    obtain d m where s: "s = (d, m)" by fastforce
    have p: "tv_port one_view (d, m) = 1" by (simp add: one_view_def)
    show "sets_mode one_telnet one_view ''auto'' ''Auto'' s" unfolding sets_mode_def s p
      by (intro exI [of _ "(d, ''Auto'')"]) (auto simp: one_telnet_def v fun_eq_iff)
    show "sets_mode one_telnet one_view ''shutdown'' ''Shutdown'' s" unfolding sets_mode_def s p
      by (intro exI [of _ "(d, ''Shutdown'')"]) (auto simp: one_telnet_def v fun_eq_iff)
  qed
  show ?thesis
    unfolding telnet_trusted_def
  proof (intro conjI allI impI, goal_cases)
    case (4 s) then show ?case using a(1) [of s] by simp
  next
    case (5 s) then show ?case using a(2) [of s] by (simp add: numeral_2_eq_2)
  next
    case (6 s) then show ?case using a(3) [of s] by (simp add: numeral_2_eq_2 numeral_3_eq_3)
  next
    case (7 s d) then show ?case using a(4) [of s] by simp
  next
    case (8 s q) then have "q = 1" using q [of q] by simp
    then show ?case using i1 by simp
  next
    case (9 s q) then have "q = 1" using q [of q] by simp
    then show ?case using i2 by simp
  qed (use c i3 in \<open>simp_all only:\<close>)
qed


end
