(* ===== verification/Device_Ready.thy ===== *)
theory Device_Ready
  imports Device_Base
begin

text \<open>
  What \<open>make_device_ready\<close> guarantees when it returns, how often it checks, recovers and flashes
  the device, and what is left of the capabilities after a reset.
\<close>

section \<open>Health checks\<close>

lemma execute_health_checks:
  assumes "execute_health_check_methods checks passed s = ((r, names), s')"
  shows "\<exists>k. k \<le> length checks \<and> names = passed @ map fst (take k checks) \<and>
    (r = Inr () \<longrightarrow> k = length checks) \<and>
    (\<forall>e. r = Inl e \<longrightarrow> k < length checks \<and>
       (\<exists>t. snd (checks ! k) t = (Inl e, s')))"
  using assms
proof (induction checks arbitrary: passed s)
  case (Cons c checks)
  obtain n f where c: "c = (n, f)" by (cases c)
  obtain q s1 where f: "f s = (q, s1)" by fastforce
  show ?case
  proof (cases q)
    case (Inl e)
    with Cons.prems c f show ?thesis by (intro exI [of _ 0]) auto
  next
    case (Inr u)
    with Cons.prems c f have "execute_health_check_methods checks (passed @ [n]) s1 = ((r, names), s')"
      by simp
    from Cons.IH [OF this] obtain k where "k \<le> length checks" "names = (passed @ [n]) @ map fst (take k checks)"
      "r = Inr () \<longrightarrow> k = length checks"
      "\<forall>e. r = Inl e \<longrightarrow> k < length checks \<and> (\<exists>t. snd (checks ! k) t = (Inl e, s'))" by blast
    with c show ?thesis by (intro exI [of _ "Suc k"]) auto
  qed
qed auto

section \<open>A device that is ready\<close>

lemma recovery_loop_ready:
  assumes "\<And>t t'. check_device_ready ops t = (Inr (), t') \<Longrightarrow> P t'"
    and "recovery_loop ops setting n err s = (Returned, s')"
  shows "P s'"
  using assms(2)
proof (induction n arbitrary: err s)
  case (Suc n)
  obtain q s1 where q: "check_device_ready ops s = (q, s1)" by fastforce
  show ?case
  proof (cases q)
    case (Inr u)
    with Suc.prems q assms(1) show ?thesis by auto
  next
    case (Inl e)
    obtain p s2 where p: "o_recover ops e s1 = (p, s2)" by fastforce
    with Suc q Inl show ?thesis by (auto split: if_splits sum.splits)
  qed
qed simp

lemma give_up_ready:
  assumes "\<And>t t'. check_device_ready ops t = (Inr (), t') \<Longrightarrow> P t'"
    and "give_up ops setting err s = (Inr (), s')"
  shows "P s'"
  using assms(2) by (auto simp: give_up_def raiseS_def result_simps split: if_splits dest: assms(1))

text \<open>C14. When \<open>make_device_ready\<close> returns, with another setting than off, the device is in a state
  that a full round of its health checks has left without an error: every way of returning, the
  recovery attempts, the final check and the flashing of a default build, ends with such a round.\<close>

theorem make_device_ready_ready:
  assumes "make_device_ready ops setting s = (Inr (), s')" and "setting \<noteq> ''off''"
  shows "\<exists>t. check_device_ready ops t = (Inr (), s')"
proof -
  obtain q s1 where l: "recovery_loop ops setting (o_recovery_attempts ops) None s = (q, s1)" by fastforce
  note give_up = give_up_ready [of ops "\<lambda>s'. \<exists>t. check_device_ready ops t = (Inr (), s')"]
  show ?thesis
  proof (cases q)
    case Returned
    with l assms have "s' = s1" by (simp add: make_device_ready_def)
    with recovery_loop_ready [OF _ l [unfolded Returned], of "\<lambda>s'. \<exists>t. check_device_ready ops t = (Inr (), s')"]
    show ?thesis by blast
  next
    case (Raised e)
    with l assms show ?thesis by (simp add: make_device_ready_def)
  next
    case (Broke e)
    with l assms have "give_up ops setting e s1 = (Inr (), s')" by (simp add: make_device_ready_def)
    with give_up show ?thesis by blast
  next
    case Exhausted
    obtain p s2 where p: "check_device_ready ops s1 = (p, s2)" by fastforce
    show ?thesis
    proof (cases p)
      case (Inr u)
      with l Exhausted p assms show ?thesis by (auto simp: make_device_ready_def)
    next
      case (Inl e)
      with l Exhausted p assms have "give_up ops setting e s2 = (Inr (), s')"
        by (auto simp: make_device_ready_def split: if_splits)
      with give_up show ?thesis by blast
    qed
  qed
qed

text \<open>With the setting \<open>check_only\<close> the device is checked once and never recovered or flashed: the
  outcome is that of one round of health checks.\<close>

lemma make_device_ready_check_only:
  "make_device_ready ops ''check_only'' s = check_device_ready ops s"
proof (cases "o_recovery_attempts ops")
  case 0
  then show ?thesis
    by (cases "check_device_ready ops s")
      (auto simp: make_device_ready_def give_up_def raiseS_def split: sum.splits)
next
  case (Suc n)
  then show ?thesis
    by (cases "check_device_ready ops s") (auto simp: make_device_ready_def split: sum.splits)
qed

section \<open>How often the device is touched\<close>

text \<open>The device with counters of its rounds of checks, recoveries and flashings.\<close>

record calls =
  n_checks :: nat
  n_recoveries :: nat
  n_flashings :: nat

definition tally :: "(calls \<Rightarrow> calls) \<Rightarrow> ('s, unit) stateful \<Rightarrow> ('s \<times> calls, unit) stateful" where
  "tally count m = (\<lambda>(s, c). case m s of (r, s') \<Rightarrow> (r, (s', count c)))"

definition tallied :: "'s dops \<Rightarrow> ('s \<times> calls) dops" where
  "tallied ops =
     \<lparr>o_health_checks = [(''all checks'', tally (\<lambda>c. c\<lparr>n_checks := Suc (n_checks c)\<rparr>) (check_device_ready ops))],
      o_recover = (\<lambda>e. tally (\<lambda>c. c\<lparr>n_recoveries := Suc (n_recoveries c)\<rparr>) (o_recover ops e)),
      o_upgrade = tally (\<lambda>c. c\<lparr>n_flashings := Suc (n_flashings c)\<rparr>) (o_upgrade ops),
      o_has_flash_build = o_has_flash_build ops, o_recovery_attempts = o_recovery_attempts ops\<rparr>"

lemma tallied_check:
  "check_device_ready (tallied ops) (s, c) =
     (case check_device_ready ops s of (r, s') \<Rightarrow> (r, (s', c\<lparr>n_checks := Suc (n_checks c)\<rparr>)))"
proof -
  have "o_health_checks (tallied ops) =
      [(''all checks'', tally (\<lambda>c. c\<lparr>n_checks := Suc (n_checks c)\<rparr>) (check_device_ready ops))]"
    by (simp add: tallied_def)
  then show ?thesis
    by (cases "check_device_ready ops s"; cases "fst (check_device_ready ops s)")
      (simp_all add: check_device_ready_def [of "tallied ops"] tally_def)
qed

lemma tallied_simps:
  "o_recover (tallied ops) e (s, c) =
     (case o_recover ops e s of (r, s') \<Rightarrow> (r, (s', c\<lparr>n_recoveries := Suc (n_recoveries c)\<rparr>)))"
  "o_upgrade (tallied ops) (s, c) =
     (case o_upgrade ops s of (r, s') \<Rightarrow> (r, (s', c\<lparr>n_flashings := Suc (n_flashings c)\<rparr>)))"
  "o_has_flash_build (tallied ops) = o_has_flash_build ops"
  "o_recovery_attempts (tallied ops) = o_recovery_attempts ops"
  by (simp_all add: tallied_def tally_def)

text \<open>Counting changes nothing of the outcome.\<close>

lemma recovery_loop_tallied:
  assumes "recovery_loop (tallied ops) setting n err (s, c) = (q, (s', c'))"
  shows "recovery_loop ops setting n err s = (q, s') \<and> n_flashings c' = n_flashings c \<and>
    n_checks c \<le> n_checks c' \<and> n_checks c' \<le> n_checks c + n \<and>
    n_recoveries c' \<le> n_recoveries c + n"
  using assms
proof (induction n arbitrary: err s c)
  case (Suc n)
  obtain r s1 where r: "check_device_ready ops s = (r, s1)" by fastforce
  show ?case
  proof (cases r)
    case (Inr u)
    with Suc.prems r show ?thesis by (auto simp: tallied_check)
  next
    case (Inl e)
    show ?thesis
    proof (cases "\<not> is_device_error e \<or> setting = ''check_only'' \<or> err = Some e")
      case True
      with Suc.prems r Inl show ?thesis by (auto simp: tallied_check)
    next
      case False
      obtain p s2 where p: "o_recover ops e s1 = (p, s2)" by fastforce
      let ?c = "c\<lparr>n_checks := Suc (n_checks c), n_recoveries := Suc (n_recoveries c)\<rparr>"
      show ?thesis
      proof (cases p)
        case p': (Inl e')
        with Suc.prems r Inl False p show ?thesis
          by (auto simp: tallied_check tallied_simps split: if_splits)
      next
        case p': (Inr v)
        with Suc.prems r Inl False p
        have "recovery_loop (tallied ops) setting n (Some e) (s2, ?c) = (q, (s', c'))"
          by (simp add: tallied_check tallied_simps)
        from Suc.IH [OF this] r Inl False p p' show ?thesis by auto
      qed
    qed
  qed
qed auto

lemma give_up_tallied:
  assumes "give_up (tallied ops) setting err (s, c) = (r, (s', c'))"
  shows "give_up ops setting err s = (r, s') \<and> n_recoveries c' = n_recoveries c \<and>
    n_checks c' \<le> n_checks c + 1 \<and> n_flashings c' \<le> n_flashings c + 1 \<and>
    (setting \<noteq> ''flash_build'' \<longrightarrow> c' = c)"
proof (cases "setting \<noteq> ''flash_build'' \<or> \<not> o_has_flash_build ops")
  case True
  with assms show ?thesis by (auto simp: give_up_def tallied_simps raiseS_def)
next
  case False
  obtain p s1 where p: "o_upgrade ops s = (p, s1)" by fastforce
  obtain q s2 where q: "check_device_ready ops s1 = (q, s2)" by fastforce
  from assms False p q show ?thesis
    by (cases p) (auto simp: give_up_def tallied_simps tallied_check bindS_def)
qed

lemma make_device_ready_tallied:
  assumes "make_device_ready (tallied ops) setting (s, \<lparr>n_checks = 0, n_recoveries = 0, n_flashings = 0\<rparr>)
    = (r, (s', c'))"
  shows "make_device_ready ops setting s = (r, s') \<and> n_recoveries c' \<le> o_recovery_attempts ops \<and>
    n_checks c' \<le> o_recovery_attempts ops + 2 \<and>
    n_flashings c' \<le> (if setting = ''flash_build'' then 1 else 0)"
proof (cases "setting = ''off''")
  case True
  with assms show ?thesis by (auto simp: make_device_ready_def)
next
  case False
  let ?c = "\<lparr>n_checks = 0, n_recoveries = 0, n_flashings = 0\<rparr>"
  obtain q s1 c1 where l: "recovery_loop (tallied ops) setting (o_recovery_attempts ops) None (s, ?c) = (q, (s1, c1))"
    by (metis prod.collapse)
  note loop = recovery_loop_tallied [OF l]
  consider (ended) "q = Returned \<or> (\<exists>e. q = Raised e)" | (broke) e where "q = Broke e" | (exhausted) "q = Exhausted"
    by (cases q) auto
  then show ?thesis
  proof cases
    case ended
    with assms False l loop show ?thesis by (auto simp: make_device_ready_def tallied_simps)
  next
    case broke
    with assms False l have "give_up (tallied ops) setting e (s1, c1) = (r, (s', c'))"
      by (simp add: make_device_ready_def tallied_simps)
    from give_up_tallied [OF this] loop broke False show ?thesis
      by (auto simp: make_device_ready_def)
  next
    case exhausted
    obtain p s2 where p: "check_device_ready ops s1 = (p, s2)" by fastforce
    let ?c2 = "c1\<lparr>n_checks := Suc (n_checks c1)\<rparr>"
    show ?thesis
    proof (cases "\<exists>e. p = Inl e \<and> is_ready_error e")
      case True
      then obtain e where e: "p = Inl e" "is_ready_error e" by blast
      with assms False l exhausted p have "give_up (tallied ops) setting e (s2, ?c2) = (r, (s', c'))"
        by (simp add: make_device_ready_def tallied_simps tallied_check)
      from give_up_tallied [OF this] loop exhausted False e p show ?thesis
        by (auto simp: make_device_ready_def)
    next
      case other: False
      with assms False l exhausted p loop show ?thesis
        by (cases p) (auto simp: make_device_ready_def tallied_simps tallied_check split: if_splits)
    qed
  qed
qed

text \<open>C15. Making a device ready ends: it recovers the device at most as often as the class allows,
  runs the health checks at most twice more than that, and flashes it at most once and only when
  the setting says so, however checks, recovery and flashing behave.\<close>

theorem make_device_ready_bounded:
  assumes "make_device_ready (tallied ops) setting (s, \<lparr>n_checks = 0, n_recoveries = 0, n_flashings = 0\<rparr>)
    = (r, (s', c'))"
  shows "make_device_ready ops setting s = (r, s') \<and> n_recoveries c' \<le> o_recovery_attempts ops \<and>
    n_checks c' \<le> o_recovery_attempts ops + 2 \<and>
    n_flashings c' \<le> (if setting = ''flash_build'' then 1 else 0)"
  by (rule make_device_ready_tallied [OF assms])

text \<open>A device with a fault that one recovery clears, which shows a second fault.\<close>

definition two_faults :: "exn list dops" where
  "two_faults =
     \<lparr>o_health_checks = [(''check_faults'', (\<lambda>s. case s of [] \<Rightarrow> (Inr (), s) | e # _ \<Rightarrow> (Inl e, s)))],
      o_recover = (\<lambda>e s. (Inr (), tl s)), o_upgrade = (\<lambda>s. (Inr (), [])), o_has_flash_build = True,
      o_recovery_attempts = 1\<rparr>"

theorem make_device_ready_ready_witness:
  "\<exists>t. check_device_ready two_faults t = (Inr (), [])"
proof (rule make_device_ready_ready)
  show "make_device_ready two_faults ''on'' [CheckDeviceReadyError 1] = (Inr (), [])" by code_simp
  show "''on'' \<noteq> ''off''" by simp
qed

theorem make_device_ready_bounded_witness:
  "\<exists>c'. make_device_ready (tallied two_faults) ''flash_build''
      ([CheckDeviceReadyError 1, CheckDeviceReadyError 2], \<lparr>n_checks = 0, n_recoveries = 0, n_flashings = 0\<rparr>)
      = (Inr (), ([], c')) \<and> n_checks c' \<le> 3 \<and> n_flashings c' \<le> 1"
proof -
  let ?s = "[CheckDeviceReadyError 1, CheckDeviceReadyError 2]"
  obtain r s' c' where m: "make_device_ready (tallied two_faults) ''flash_build''
      (?s, \<lparr>n_checks = 0, n_recoveries = 0, n_flashings = 0\<rparr>) = (r, (s', c'))"
    by (metis prod.collapse)
  have "make_device_ready two_faults ''flash_build'' ?s = (Inr (), [])" by code_simp
  moreover have "o_recovery_attempts two_faults = 1" by (simp add: two_faults_def)
  ultimately show ?thesis using make_device_ready_bounded [OF m] m by auto
qed

section \<open>Resetting the capabilities\<close>

lemma reset_auxiliary:
  assumes "reset_capability close_capability True n (slots, closed) = (r, (slots', closed'))"
  shows "slots' = AList.delete n slots"
    and "closed' = closed @ (case map_of slots n of None \<Rightarrow> [] | Some c \<Rightarrow> [c])"
    and "(\<forall>c e. close_capability c = Inl e \<longrightarrow> is_device_error e) \<Longrightarrow> r = Inr ()"
proof -
  have "map_of slots n = None \<Longrightarrow> AList.delete n slots = slots" by (simp add: delete_id map_of_eq_None_iff)
  with assms show "slots' = AList.delete n slots"
    and "closed' = closed @ (case map_of slots n of None \<Rightarrow> [] | Some c \<Rightarrow> [c])"
    and "(\<forall>c e. close_capability c = Inl e \<longrightarrow> is_device_error e) \<Longrightarrow> r = Inr ()"
    by (auto simp: reset_capability_def split: option.splits sum.splits)
qed

lemma reset_all_auxiliary:
  assumes "\<And>c e. close_capability c = Inl e \<Longrightarrow> is_device_error e" and "distinct names"
    and "reset_all_capabilities close_capability True names (slots, closed) = (r, (slots', closed'))"
  shows "r = Inr () \<and> slots' = filter (\<lambda>(n, c). n \<notin> set names) slots \<and>
    closed' = closed @ List.map_filter (map_of slots) names"
  using assms(2,3)
proof (induction names arbitrary: slots closed)
  case Nil
  then show ?case by (simp add: List.map_filter_def)
next
  case (Cons n ns)
  obtain q slots1 closed1 where 1: "reset_capability close_capability True n (slots, closed) = (q, (slots1, closed1))"
    by (metis prod.collapse)
  note d = reset_auxiliary [OF 1]
  have q: "q = Inr ()" using d(3) assms(1) by blast
  with Cons.prems(2) 1 have 2: "reset_all_capabilities close_capability True ns (slots1, closed1) = (r, (slots', closed'))"
    by simp
  have "map_of slots1 m = map_of slots m" if "m \<in> set ns" for m
    using that Cons.prems(1) d(1) by (auto simp: delete_conv')
  then have "List.map_filter (map_of slots1) ns = List.map_filter (map_of slots) ns"
    by (auto simp: List.map_filter_def intro!: map_cong filter_cong)
  with Cons.IH [OF _ 2] Cons.prems(1) d(1,2) show ?case
    by (auto simp: List.map_filter_def AList.delete_eq filter_filter intro!: filter_cong split: option.splits)
qed

text \<open>
  An auxiliary device closes every initialised capability once, in the order of the names, and
  forgets all of them, also when closing raises device errors. Another device stops at the first
  exception: that capability and all behind it stay initialised.
\<close>

lemma reset_primary_stops:
  assumes "map_of slots n = Some c" and "close_capability c = Inl e"
    and "\<And>m. m \<in> set before \<Longrightarrow> map_of slots m = None"
  shows "reset_all_capabilities close_capability False (before @ n # after) (slots, closed) =
    (Inl e, (slots, closed @ [c]))"
  using assms(3)
proof (induction before)
  case Nil
  from assms(1,2) have "reset_capability close_capability False n (slots, closed) = (Inl e, (slots, closed @ [c]))"
    by (simp add: reset_capability_def)
  then show ?case by simp
next
  case (Cons m ms)
  from Cons.prems have "reset_capability close_capability False m (slots, closed) = (Inr (), (slots, closed))"
    by (simp add: reset_capability_def)
  with Cons show ?case by simp
qed

section \<open>Reading a value by a shell command\<close>

text \<open>The text that a try gives: the requested group of a match in the response.\<close>

definition try_text ::
  "(string \<Rightarrow> string option list option) \<Rightarrow> nat \<Rightarrow> bool \<Rightarrow> (string \<times> int) result \<Rightarrow> string option" where
  "try_text re_search regex_group check_return_code r =
     (case r of
        Inl _ \<Rightarrow> None
      | Inr (response, code) \<Rightarrow>
          if check_return_code \<and> code \<noteq> 0 then None
          else Option.bind (re_search response) (\<lambda>groups. match_group groups regex_group))"

text \<open>The command runs until a try gives a text, at most as often as there are tries.\<close>

lemma shell_with_regex_first:
  assumes "\<And>s e s'. shell s = (Inl e, s') \<Longrightarrow> is_device_error e"
  defines "result \<equiv> \<lambda>k s. fst (shell (((\<lambda>s. snd (shell s)) ^^ k) s))"
  shows "shell_with_regex shell re_search g raise_error check tries s =
    (case find (\<lambda>k. try_text re_search g check (result k s) \<noteq> None) [0..<tries] of
       Some k \<Rightarrow> (Inr (the (try_text re_search g check (result k s))), ((\<lambda>s. snd (shell s)) ^^ Suc k) s)
     | None \<Rightarrow> (if raise_error then Inl DeviceError else Inr [], ((\<lambda>s. snd (shell s)) ^^ tries) s))"
proof (induction tries arbitrary: s)
  case 0
  show ?case by simp
next
  case (Suc n)
  obtain r s1 where r: "shell s = (r, s1)" by fastforce
  have shift: "result (Suc k) s = result k s1" for k
    by (simp add: result_def r funpow_Suc_right del: funpow.simps)
  have upt: "[0..<Suc n] = 0 # map Suc [0..<n]" by (simp add: map_Suc_upt upt_conv_Cons)
  have find_map: "find P (map Suc xs) = map_option Suc (find (\<lambda>k. P (Suc k)) xs)" for P xs
    by (induction xs) auto
  show ?case
  proof (cases "try_text re_search g check r")
    case None
    have "shell_with_regex shell re_search g raise_error check (Suc n) s =
        shell_with_regex shell re_search g raise_error check n s1"
      using None r assms(1) by (auto simp: try_text_def split: sum.splits if_splits option.splits)
    moreover have "try_text re_search g check (result 0 s) = None" using None r by (simp add: result_def)
    ultimately show ?thesis
      by (simp add: Suc.IH upt find_map shift r funpow_Suc_right del: funpow.simps upt_Suc
          split: option.splits)
  next
    case (Some t)
    then obtain response code where rr: "r = Inr (response, code)"
      by (auto simp: try_text_def split: sum.splits)
    have "shell_with_regex shell re_search g raise_error check (Suc n) s = (Inr t, s1)"
      using Some r rr by (auto simp: try_text_def split: if_splits option.splits)
    moreover have "result 0 s = r" using r by (simp add: result_def)
    ultimately show ?thesis using Some r by (simp add: upt del: upt_Suc)
  qed
qed

end
