(* ===== verification/Log_Filter.thy ===== *)
theory Log_Filter
  imports Log_Writer
begin

text \<open>
  \<open>gazoo_device/switchboard/log_process.py\<close>: the log filter process, which follows the files of the
  log writer and lets the event parser write the events of their lines. The state holds the text files on
  the disk, by path, and the path and position of the open log file. What one call of \<open>read\<close>
  returns is the next \<open>n\<close> characters, for a number \<open>n\<close> that is an argument. The framer is the
  \<open>NewlineFramer\<close> that the switchboard uses.
\<close>

abbreviation (input) HEADER_LENGTH :: nat where "HEADER_LENGTH \<equiv> 36"

record 'p log_filter =
  f_disk :: disk
  f_directory :: string
  f_filename :: string
  f_event_path :: string
  f_next :: "string list"
  f_buffer :: string
  f_log :: "(string \<times> nat) option"
  f_event :: "string option"
  f_filters :: "'p filters"
  f_stamps :: nat

datatype filter_command = NewLog string | AddFilter string | UnknownFilterCommand

definition new_log_filter :: "disk \<Rightarrow> string \<Rightarrow> 'p filters \<Rightarrow> 'p log_filter" where
  "new_log_filter d log_path filters =
     \<lparr>f_disk = d, f_directory = dirname log_path, f_filename = basename log_path,
      f_event_path = get_event_filename log_path, f_next = [], f_buffer = [], f_log = None, f_event = None,
      f_filters = filters, f_stamps = 0\<rparr>"

text \<open>An event file that is still empty is removed.\<close>

definition close_event_file :: "'p log_filter \<Rightarrow> 'p log_filter" where
  "close_event_file st =
     (case f_event st of
        None \<Rightarrow> st
      | Some p \<Rightarrow>
          st\<lparr>f_disk := (if f_disk st p = Some [] then (f_disk st)(p := None) else f_disk st), f_event := None\<rparr>)"

definition close_files :: "'p log_filter \<Rightarrow> 'p log_filter" where
  "close_files st = (close_event_file st)\<lparr>f_log := None\<rparr>"

definition is_log_swap_or_rotation :: "string \<Rightarrow> 'p log_filter \<Rightarrow> bool \<times> 'p log_filter" where
  "is_log_swap_or_rotation log_line st =
     (if contains ROTATE_LOG_MESSAGE log_line then
        (True, st\<lparr>f_next := f_next st @
           [get_next_log_filename (path_join (f_directory st) (f_filename st))]\<rparr>)
      else if contains NEW_LOG_FILE_MESSAGE log_line \<and> f_next st \<noteq> [] then
        (True, st\<lparr>f_event_path := get_event_filename (last (f_next st))\<rparr>)
      else (False, st))"

definition open_next_log_file :: "'p log_filter \<Rightarrow> 'p log_filter" where
  "open_next_log_file st =
     (if f_next st = [] then st
      else
        let new_log_path = last (f_next st)
        in (close_files (st\<lparr>f_next := butlast (f_next st)\<rparr>))\<lparr>f_buffer := [],
             f_directory := dirname new_log_path, f_filename := basename new_log_path\<rparr>)"

text \<open>
  The event of a line is appended to the event file; \<open>stamp\<close> gives the times of processing.
\<close>

definition write_event ::
  "'p regexes \<Rightarrow> (nat \<Rightarrow> string) \<Rightarrow> string \<Rightarrow> 'p log_filter \<Rightarrow> 'p log_filter" where
  "write_event re stamp log_line st =
     (case f_event st of
        None \<Rightarrow> st
      | Some p \<Rightarrow>
          st\<lparr>f_disk := (f_disk st)(p \<mapsto> (case f_disk st p of None \<Rightarrow> [] | Some s \<Rightarrow> s) @
               process_line re (f_filters st) (stamp (f_stamps st)) log_line HEADER_LENGTH (f_filename st)),
             f_stamps := Suc (f_stamps st)\<rparr>)"

text \<open>The loop over the lines of the framer; the flag is \<open>change_log_file\<close>.\<close>

fun filter_lines ::
  "'p regexes \<Rightarrow> (nat \<Rightarrow> string) \<Rightarrow> string list \<Rightarrow> bool \<Rightarrow> 'p log_filter \<Rightarrow> bool result \<times> 'p log_filter" where
  "filter_lines re stamp [] change st = (Inr change, st)"
| "filter_lines re stamp (log_line # rest) change st =
     (if log_line = [] then (Inl IndexError, st)
      else
        let st1 = (if last log_line = newline then write_event re stamp log_line st
                   else st\<lparr>f_buffer := f_buffer st @ log_line\<rparr>);
            (swap, st2) = is_log_swap_or_rotation log_line st1
        in filter_lines re stamp rest (change \<or> swap) st2)"

definition filter_log_lines ::
  "'p regexes \<Rightarrow> (nat \<Rightarrow> string) \<Rightarrow> nat \<Rightarrow> ('p log_filter, unit) stateful" where
  "filter_log_lines re stamp n st =
     (case f_log st of
        None \<Rightarrow> (Inl ValueError, st)
      | Some (path, pos) \<Rightarrow>
          let log_data = take n (drop pos (case f_disk st path of None \<Rightarrow> [] | Some s \<Rightarrow> s))
          in if log_data = [] then (Inr (), st)
             else
               let log_lines = f_buffer st @ log_data;
                   st1 = st\<lparr>f_log := Some (path, pos + length log_data), f_buffer := []\<rparr>;
                   (ls, exc) = newline_get_lines \<lparr>nf_keepends = True, nf_cleanends = False\<rparr> log_lines
                     (Idx (int (length (f_buffer st)))) None
               in case filter_lines re stamp ls False st1 of
                    (Inl e, st2) \<Rightarrow> (Inl e, st2)
                  | (Inr change, st2) \<Rightarrow>
                      (case exc of
                         Some e \<Rightarrow> (Inl e, st2)
                       | None \<Rightarrow> (Inr (), if change then open_next_log_file st2 else st2)))"

definition process_filter_command ::
  "'p regexes \<Rightarrow> file_system \<Rightarrow> filter_command \<Rightarrow> ('p log_filter, unit) stateful" where
  "process_filter_command re fs command st =
     (case command of
        NewLog path \<Rightarrow> (Inr (), st\<lparr>f_next := path # f_next st\<rparr>)
      | AddFilter path \<Rightarrow>
          (case load_filter_file re fs path (f_filters st) of (r, filters) \<Rightarrow> (r, st\<lparr>f_filters := filters\<rparr>))
      | UnknownFilterCommand \<Rightarrow> (Inl RuntimeError, st))"

definition is_open :: "'p log_filter \<Rightarrow> bool" where
  "is_open st \<longleftrightarrow> f_log st \<noteq> None \<and> f_event st \<noteq> None"

definition open_files :: "'p log_filter \<Rightarrow> 'p log_filter" where
  "open_files st =
     st\<lparr>f_log := Some (path_join (f_directory st) (f_filename st), 0),
        f_disk := (f_disk st)(f_event_path st \<mapsto>
          (case f_disk st (f_event_path st) of None \<Rightarrow> [] | Some s \<Rightarrow> s)),
        f_event := Some (f_event_path st)\<rparr>"

text \<open>One round, with the command in the queue, if there is one.\<close>

definition filter_do_work ::
  "'p regexes \<Rightarrow> file_system \<Rightarrow> (nat \<Rightarrow> string) \<Rightarrow> filter_command option \<Rightarrow> nat \<Rightarrow>
   ('p log_filter, bool) stateful" where
  "filter_do_work re fs stamp command n =
     bindS (case command of None \<Rightarrow> returnS () | Some c \<Rightarrow> process_filter_command re fs c) (\<lambda>_.
     bindS (\<lambda>st.
       if f_disk st (path_join (f_directory st) (f_filename st)) \<noteq> None then
         filter_log_lines re stamp n (if is_open st then st else open_files st)
       else (Inr (), st)) (\<lambda>_.
     returnS True))"

definition filter_pre_run_hook :: "('p log_filter, bool) stateful" where
  "filter_pre_run_hook st = (Inr True, st\<lparr>f_next := []\<rparr>)"

definition filter_post_run_hook :: "('p log_filter, unit) stateful" where
  "filter_post_run_hook st = (Inr (), close_files st)"

end
