(* ===== verification/Log_Follow.thy ===== *)
theory Log_Follow
  imports Log_Filter
begin

text \<open>
  The log filter on a file that grows: a read of any size, at any place of a line, adds the events of
  the lines it completes and keeps the beginning of the next one; a read that sees the line of a
  rotation turns the filter to the next file.
\<close>

section \<open>Lines of a text read in parts\<close>

definition lined :: "string list \<Rightarrow> bool" where
  "lined ls \<longleftrightarrow> list_all (\<lambda>l. l \<noteq> [] \<and> last l = newline \<and> newline \<notin> set (butlast l)) ls"

lemma lined_simps [simp]:
  "lined []" "lined (xs @ ys) \<longleftrightarrow> lined xs \<and> lined ys"
  "lined (l # ls) \<longleftrightarrow> l \<noteq> [] \<and> last l = newline \<and> newline \<notin> set (butlast l) \<and> lined ls"
  by (auto simp: lined_def)

lemma lined_take_drop: "lined ls \<Longrightarrow> lined (take n ls) \<and> lined (drop n ls)"
  by (metis append_take_drop_id lined_simps(2))

lemma lined_line: "lined (l # ls) \<Longrightarrow> \<exists>u. l = u @ [newline] \<and> newline \<notin> set u"
  by (metis append_butlast_last_id lined_simps(3))

lemma text_lines_lined: "lined ls \<Longrightarrow> newline \<notin> set t \<Longrightarrow>
   text_lines (concat ls @ t) = ls @ (if t = [] then [] else [t])"
proof (induction ls)
  case Nil
  then show ?case by (simp add: text_lines_no_newline)
next
  case (Cons l ls)
  then obtain u where "l = u @ [newline]" "newline \<notin> set u" using lined_line by blast
  with Cons show ?case by (simp add: text_lines_newline)
qed

text \<open>A part of the text of lines: some whole lines, and the beginning of the next one.\<close>

lemma part_of_lines:
  assumes "x @ y = concat ls" and "lined ls"
  shows "\<exists>m t. m \<le> length ls \<and> x = concat (take m ls) @ t \<and> newline \<notin> set t \<and>
    (t \<noteq> [] \<longrightarrow> m < length ls \<and> (\<exists>v. ls ! m = t @ v))"
  using assms
proof (induction ls arbitrary: x)
  case Nil
  then show ?case by simp
next
  case (Cons l ls)
  then obtain u where u: "l = u @ [newline]" "newline \<notin> set u" using lined_line by blast
  show ?case
  proof (cases "length x < length l")
    case True
    from Cons.prems(1) have "x @ y = l @ concat ls" by simp
    with True obtain v where v: "l = x @ v" "v \<noteq> []"
      by (auto simp: append_eq_append_conv2)
    with u have "newline \<notin> set x" by (metis append_butlast_last_id butlast_append butlast_snoc in_set_conv_decomp_first u(2) append_assoc UnCI set_append)
    with v show ?thesis by (intro exI [of _ 0] exI [of _ x]) auto
  next
    case False
    from Cons.prems(1) have "x @ y = l @ concat ls" by simp
    with False obtain x' where x': "x = l @ x'" "x' @ y = concat ls"
      by (auto simp: append_eq_append_conv2)
    have "lined ls" using Cons.prems(2) by simp
    from Cons.IH [OF x'(2) this] obtain m t where "m \<le> length ls" "x' = concat (take m ls) @ t" "newline \<notin> set t"
      "t \<noteq> [] \<longrightarrow> m < length ls \<and> (\<exists>v. ls ! m = t @ v)"
      by blast
    with x' show ?thesis by (intro exI [of _ "Suc m"] exI [of _ t]) simp
  qed
qed

lemma framer_exact:
  assumes "d \<noteq> []" and "newline \<notin> set buf"
  shows "newline_get_lines \<lparr>nf_keepends = True, nf_cleanends = False\<rparr> (buf @ d) (Idx (int (length buf))) None =
    (text_lines (buf @ d), None)"
proof -
  have "frame_line True False l = l" for l
    by (simp add: frame_line_def) (metis append_butlast_last_id)
  then have "map (frame_line True False) ls = ls" for ls by (simp add: map_idI)
  moreover from assms have "length buf < length (buf @ d)" by simp
  ultimately show ?thesis
    using split_newlines_only_lines [of "length buf" "buf @ d" False True] assms(2)
    by (simp add: newline_get_lines_def)
qed

section \<open>The events of lines\<close>

text \<open>A text that holds the events of named lines, processed at any times.\<close>

definition events_for ::
  "'p regexes \<Rightarrow> 'p filters \<Rightarrow> (string \<times> string) list \<Rightarrow> string \<Rightarrow> bool" where
  "events_for re filters nls text \<longleftrightarrow> (\<exists>nows. length nows = length nls \<and>
     text = concat (map (\<lambda>(now, name, l). process_line re filters now l HEADER_LENGTH name) (zip nows nls)))"

lemma events_for_Nil [simp]: "events_for re filters [] []"
  by (simp add: events_for_def)

lemma events_for_append:
  assumes "events_for re filters xs s" and "events_for re filters ys t"
  shows "events_for re filters (xs @ ys) (s @ t)"
proof -
  from assms obtain ms ns where m: "length ms = length xs" "length ns = length ys"
    and s: "s = concat (map (\<lambda>(now, name, l). process_line re filters now l HEADER_LENGTH name) (zip ms xs))"
    and t: "t = concat (map (\<lambda>(now, name, l). process_line re filters now l HEADER_LENGTH name) (zip ns ys))"
    by (auto simp: events_for_def)
  then show ?thesis unfolding events_for_def by (intro exI [of _ "ms @ ns"]) simp
qed

lemma events_for_single: "events_for re filters [(name, l)] (process_line re filters now l HEADER_LENGTH name)"
  unfolding events_for_def by (intro exI [of _ "[now]"]) simp

section \<open>The filter on quiet lines\<close>

abbreviation rotates :: "string \<Rightarrow> bool" where
  "rotates l \<equiv> contains ''Rotating from log file'' l"

definition event_text_of :: "disk \<Rightarrow> string \<Rightarrow> string" where
  "event_text_of disk p = (case disk p of None \<Rightarrow> [] | Some s \<Rightarrow> s)"

lemma filter_lines_append:
  "filter_lines re stamp (xs @ ys) ch st =
     (case filter_lines re stamp xs ch st of
        (Inl e, st') \<Rightarrow> (Inl e, st') | (Inr ch', st') \<Rightarrow> filter_lines re stamp ys ch' st')"
  by (induction xs arbitrary: ch st) (auto simp: Let_def split: prod.split)

text \<open>What changes when lines are filtered: the events, the buffer and the number of time stamps.\<close>

definition filtered ::
  "'p log_filter \<Rightarrow> string \<Rightarrow> string \<Rightarrow> string \<Rightarrow> nat \<Rightarrow> 'p log_filter" where
  "filtered st E ev buf k = st\<lparr>f_disk := (f_disk st)(E \<mapsto> event_text_of (f_disk st) E @ ev),
     f_buffer := buf, f_stamps := k\<rparr>"

lemma filter_lines_quiet:
  assumes "f_event st = Some E" and "f_next st = []" and "f_disk st E \<noteq> None"
    and "lined ls" and "list_all (\<lambda>l. \<not> rotates l) ls"
  shows "\<exists>ev k. filter_lines re stamp ls ch st = (Inr ch, filtered st E ev (f_buffer st) k) \<and>
    events_for re (f_filters st) (map (Pair (f_filename st)) ls) ev"
  using assms
proof (induction ls arbitrary: st)
  case Nil
  then obtain s where "f_disk st E = Some s" by auto
  then have "filtered st E [] (f_buffer st) (f_stamps st) = st"
    by (simp add: filtered_def event_text_of_def fun_upd_idem)
  then show ?case by (intro exI [of _ "[]"] exI [of _ "f_stamps st"]) simp
next
  case (Cons l ls)
  define ev1 where "ev1 = process_line re (f_filters st) (stamp (f_stamps st)) l HEADER_LENGTH (f_filename st)"
  define st1 where "st1 = filtered st E ev1 (f_buffer st) (Suc (f_stamps st))"
  have w: "write_event re stamp l st = st1"
    using Cons.prems(1) by (simp add: write_event_def st1_def filtered_def ev1_def event_text_of_def)
  have "is_log_swap_or_rotation l st1 = (False, st1)"
    using Cons.prems by (simp add: is_log_swap_or_rotation_def st1_def filtered_def)
  with w Cons.prems have step: "filter_lines re stamp (l # ls) ch st = filter_lines re stamp ls ch st1" by simp
  have same: "f_event st1 = Some E" "f_next st1 = []" "f_disk st1 E \<noteq> None" "f_filters st1 = f_filters st"
    "f_filename st1 = f_filename st" "f_buffer st1 = f_buffer st"
    using Cons.prems by (simp_all add: st1_def filtered_def)
  from Cons.IH [OF same(1-3)] Cons.prems(4,5) obtain ev k where
    "filter_lines re stamp ls ch st1 = (Inr ch, filtered st1 E ev (f_buffer st) k)"
    and ev: "events_for re (f_filters st) (map (Pair (f_filename st)) ls) ev"
    unfolding same(4-6) by auto
  moreover have "filtered st1 E ev (f_buffer st) k = filtered st E (ev1 @ ev) (f_buffer st) k"
    by (simp add: st1_def filtered_def event_text_of_def)
  moreover have "events_for re (f_filters st) (map (Pair (f_filename st)) (l # ls)) (ev1 @ ev)"
    using events_for_append [OF events_for_single ev] by (simp add: ev1_def)
  ultimately show ?case unfolding step by (intro exI [of _ "ev1 @ ev"] exI [of _ k]) simp
qed

text \<open>The line of a rotation, whole or in part, ends the loop with the change of the file.\<close>

lemma filter_lines_rotation:
  assumes "l \<noteq> []" and "rotates l" and "f_event st = Some E" and "f_disk st E \<noteq> None"
  shows "\<exists>ev buf k. filter_lines re stamp [l] ch st = (Inr True, (filtered st E ev buf k)
      \<lparr>f_next := f_next st @ [get_next_log_filename (path_join (f_directory st) (f_filename st))]\<rparr>) \<and>
    (ev = [] \<or> (\<exists>now. ev = process_line re (f_filters st) now l HEADER_LENGTH (f_filename st)))"
proof (cases "last l = newline")
  case True
  define ev where "ev = process_line re (f_filters st) (stamp (f_stamps st)) l HEADER_LENGTH (f_filename st)"
  have "write_event re stamp l st = filtered st E ev (f_buffer st) (Suc (f_stamps st))"
    using assms(3) by (simp add: write_event_def filtered_def ev_def event_text_of_def)
  with True assms(1,2) show ?thesis
    by (intro exI [of _ ev] exI [of _ "f_buffer st"] exI [of _ "Suc (f_stamps st)"])
      (auto simp: is_log_swap_or_rotation_def filtered_def ev_def)
next
  case False
  obtain s where "f_disk st E = Some s" using assms(4) by auto
  then have "st\<lparr>f_buffer := f_buffer st @ l\<rparr> = filtered st E [] (f_buffer st @ l) (f_stamps st)"
    by (simp add: filtered_def event_text_of_def fun_upd_idem)
  with False assms(1,2) show ?thesis
    by (intro exI [of _ "[]"] exI [of _ "f_buffer st @ l"] exI [of _ "f_stamps st"])
      (auto simp: is_log_swap_or_rotation_def filtered_def)
qed

lemma filter_lines_partial:
  assumes "t \<noteq> []" and "newline \<notin> set t" and "\<not> rotates t" and "f_next st = []"
  shows "filter_lines re stamp [t] ch st = (Inr ch, st\<lparr>f_buffer := f_buffer st @ t\<rparr>)"
proof -
  have "last t \<noteq> newline" using assms(1,2) last_in_set [of t] by metis
  with assms show ?thesis by (simp add: is_log_swap_or_rotation_def)
qed

section \<open>One read of the filter\<close>

text \<open>
  The filter has the file \<open>P\<close> open at \<open>pos\<close>. What is still to be processed, with the buffer, is the
  text of \<open>ls\<close>, of which only the last may tell of a rotation.
\<close>

definition ready_to_read ::
  "string \<Rightarrow> string \<Rightarrow> string list \<Rightarrow> 'p log_filter \<Rightarrow> nat \<Rightarrow> string \<Rightarrow> bool" where
  "ready_to_read P E ls st pos c \<longleftrightarrow> f_log st = Some (P, pos) \<and> f_event st = Some E \<and> f_next st = [] \<and>
     f_disk st E \<noteq> None \<and> f_disk st P = Some c \<and> pos \<le> length c \<and>
     newline \<notin> set (f_buffer st) \<and> \<not> rotates (f_buffer st) \<and> f_buffer st @ drop pos c = concat ls \<and> lined ls"

lemma filter_lines_part:
  assumes "f_event st = Some E" and "f_next st = []" and "f_disk st E \<noteq> None" and "f_buffer st = []"
    and "lined ls" and "list_all (\<lambda>l. \<not> rotates l) ls" and "newline \<notin> set t" "\<not> rotates t"
  shows "\<exists>ev k. filter_lines re stamp (ls @ (if t = [] then [] else [t])) False st =
      (Inr False, filtered st E ev t k) \<and>
    events_for re (f_filters st) (map (Pair (f_filename st)) ls) ev"
proof -
  obtain ev k where q: "filter_lines re stamp ls False st = (Inr False, filtered st E ev [] k)"
    and ev: "events_for re (f_filters st) (map (Pair (f_filename st)) ls) ev"
    using filter_lines_quiet [OF assms(1-3,5,6), of re stamp False] assms(4) by auto
  show ?thesis
  proof (cases "t = []")
    case True
    with q ev show ?thesis by auto
  next
    case False
    have "filter_lines re stamp [t] False (filtered st E ev [] k) = (Inr False, filtered st E ev t k)"
      using filter_lines_partial [OF False assms(7,8), of "filtered st E ev [] k"] assms(2)
      by (simp add: filtered_def del: filter_lines.simps)
    with q ev False show ?thesis by (auto simp: filter_lines_append simp del: filter_lines.simps)
  qed
qed

text \<open>A read within quiet lines.\<close>

lemma read_quiet:
  assumes r: "ready_to_read P E ls st pos c"
    and d: "take n (drop pos c) = d" "d \<noteq> []"
    and x: "f_buffer st @ d = concat (take m ls) @ t" "newline \<notin> set t"
    and q: "list_all (\<lambda>l. \<not> rotates l) (take m ls)" "\<not> rotates t"
  shows "\<exists>ev k. filter_log_lines re stamp n st =
      (Inr (), filtered (st\<lparr>f_log := Some (P, pos + length d)\<rparr>) E ev t k) \<and>
    events_for re (f_filters st) (map (Pair (f_filename st)) (take m ls)) ev"
proof -
  define st1 where "st1 = st\<lparr>f_log := Some (P, pos + length d), f_buffer := []\<rparr>"
  have l: "lined (take m ls)" using r lined_take_drop by (auto simp: ready_to_read_def)
  have t: "text_lines (f_buffer st @ d) = take m ls @ (if t = [] then [] else [t])"
    unfolding x(1) by (rule text_lines_lined [OF l x(2)])
  have "f_event st1 = Some E" "f_next st1 = []" "f_disk st1 E \<noteq> None" "f_buffer st1 = []"
    using r by (simp_all add: st1_def ready_to_read_def)
  from filter_lines_part [OF this l q(1) x(2) q(2), of re stamp] obtain ev k where
    f: "filter_lines re stamp (text_lines (f_buffer st @ d)) False st1 = (Inr False, filtered st1 E ev t k)"
    and ev: "events_for re (f_filters st) (map (Pair (f_filename st)) (take m ls)) ev"
    unfolding t by (auto simp: st1_def)
  have "newline_get_lines \<lparr>nf_keepends = True, nf_cleanends = False\<rparr> (f_buffer st @ d)
      (Idx (int (length (f_buffer st)))) None = (text_lines (f_buffer st @ d), None)"
    using r d(2) by (intro framer_exact) (simp_all add: ready_to_read_def)
  moreover have "n \<noteq> 0" "\<not> length c \<le> pos" using d by auto
  ultimately have "filter_log_lines re stamp n st = (Inr (), filtered st1 E ev t k)"
    using r d f
    by (simp add: filter_log_lines_def ready_to_read_def st1_def Let_def)
  moreover have "filtered st1 E ev t k = filtered (st\<lparr>f_log := Some (P, pos + length d)\<rparr>) E ev t k"
    by (simp add: st1_def filtered_def)
  ultimately show ?thesis using ev by auto
qed

text \<open>The state after the filter has turned to the next file.\<close>

definition turned :: "'p log_filter \<Rightarrow> string \<Rightarrow> string \<Rightarrow> nat \<Rightarrow> 'p log_filter" where
  "turned st E ev k =
     (let D = (f_disk st)(E \<mapsto> event_text_of (f_disk st) E @ ev);
          nxt = get_next_log_filename (path_join (f_directory st) (f_filename st))
      in st\<lparr>f_disk := (if D E = Some [] then D(E := None) else D), f_event := None, f_log := None,
            f_buffer := [], f_next := [], f_directory := dirname nxt, f_filename := basename nxt, f_stamps := k\<rparr>)"

text \<open>A read that sees the line of a rotation behind quiet lines.\<close>

lemma read_rotation:
  assumes r: "ready_to_read P E (qs @ [R]) st pos c"
    and d: "take n (drop pos c) = d" "d \<noteq> []"
    and x: "f_buffer st @ d = concat qs @ t" "t \<noteq> []" "rotates t" "newline \<notin> set (butlast t)"
    and q: "list_all (\<lambda>l. \<not> rotates l) qs"
    and silent: "\<And>now. process_line re (f_filters st) now t HEADER_LENGTH (f_filename st) = []"
  shows "\<exists>ev k. filter_log_lines re stamp n st = (Inr (), turned st E ev k) \<and>
    events_for re (f_filters st) (map (Pair (f_filename st)) qs) ev"
proof -
  define st1 where "st1 = st\<lparr>f_log := Some (P, pos + length d), f_buffer := []\<rparr>"
  have l: "lined qs" using r by (auto simp: ready_to_read_def)
  have t: "text_lines (f_buffer st @ d) = qs @ [t]"
  proof (cases "last t = newline")
    case True
    with x(2,4) have "lined (qs @ [t])" using l by simp
    from text_lines_lined [OF this, of "[]"] show ?thesis unfolding x(1) by simp
  next
    case False
    with x(2,4) have "newline \<notin> set t" by (metis append_butlast_last_id Un_iff empty_iff empty_set set_ConsD set_append)
    from text_lines_lined [OF l this] x(2) show ?thesis unfolding x(1) by simp
  qed
  have s1: "f_event st1 = Some E" "f_next st1 = []" "f_disk st1 E \<noteq> None" "f_buffer st1 = []"
    using r by (simp_all add: st1_def ready_to_read_def)
  obtain ev k where q1: "filter_lines re stamp qs False st1 = (Inr False, filtered st1 E ev [] k)"
    and ev: "events_for re (f_filters st) (map (Pair (f_filename st)) qs) ev"
    using filter_lines_quiet [OF s1(1-3) l q, of re stamp False] s1(4) by (auto simp: st1_def)
  let ?s2 = "filtered st1 E ev [] k"
  have s2: "f_event ?s2 = Some E" "f_disk ?s2 E \<noteq> None" using s1 by (simp_all add: filtered_def)
  obtain ev' buf k' where t1: "filter_lines re stamp [t] False ?s2 = (Inr True, (filtered ?s2 E ev' buf k')
      \<lparr>f_next := f_next ?s2 @ [get_next_log_filename (path_join (f_directory ?s2) (f_filename ?s2))]\<rparr>)"
    and ev': "ev' = [] \<or> (\<exists>now. ev' = process_line re (f_filters ?s2) now t HEADER_LENGTH (f_filename ?s2))"
    using filter_lines_rotation [OF x(2,3) s2, of re stamp False] by blast
  have "ev' = []" using ev' silent by (auto simp: filtered_def st1_def)
  define st3 where "st3 = (filtered st1 E ev buf k')
    \<lparr>f_next := [get_next_log_filename (path_join (f_directory st) (f_filename st))]\<rparr>"
  have "filter_lines re stamp (text_lines (f_buffer st @ d)) False st1 = (Inr True, st3)"
    unfolding t filter_lines_append q1 using t1 s1(2)
    by (simp add: \<open>ev' = []\<close> st3_def filtered_def st1_def event_text_of_def del: filter_lines.simps)
  moreover have "newline_get_lines \<lparr>nf_keepends = True, nf_cleanends = False\<rparr> (f_buffer st @ d)
      (Idx (int (length (f_buffer st)))) None = (text_lines (f_buffer st @ d), None)"
    using r d(2) by (intro framer_exact) (simp_all add: ready_to_read_def)
  moreover have "n \<noteq> 0" "\<not> length c \<le> pos" using d by auto
  ultimately have "filter_log_lines re stamp n st = (Inr (), open_next_log_file st3)"
    using r d by (simp add: filter_log_lines_def ready_to_read_def st1_def Let_def)
  moreover have "open_next_log_file st3 = turned st E ev k'"
    using s1(1) by (simp add: open_next_log_file_def st3_def turned_def close_files_def close_event_file_def
        filtered_def st1_def Let_def)
  ultimately show ?thesis using ev by auto
qed

end
