(* ===== verification/Log_Rounds.thy ===== *)
theory Log_Rounds
  imports Log_Follow
begin

text \<open>
  One round of the log filter on files that the log writer has written, in the middle of a line or
  not: the filter reads on, turns to the next file at the message of a rotation, and its event file
  always holds the events of the lines it has read whole.
\<close>

section \<open>The files and the place of the filter\<close>

text \<open>
  \<open>pss\<close> are the lines written so far, by file: the files of the log, from the \<open>k0\<close>-th on, hold them
  and the messages of the rotations.
\<close>

definition logs_hold :: "string \<Rightarrow> string \<Rightarrow> string \<Rightarrow> nat \<Rightarrow> string list list \<Rightarrow> disk \<Rightarrow> bool" where
  "logs_hold d b e k0 pss D \<longleftrightarrow> pss \<noteq> [] \<and> k0 + length pss \<le> 100000 \<and> list_all lined pss \<and>
     list_all (list_all (\<lambda>l. \<not> rotates l)) pss \<and>
     (\<forall>i<length pss. \<exists>ts. newline \<notin> set ts \<and> D (nth_log d b e (k0 + i)) =
        Some (concat (pss ! i) @ (if Suc i < length pss then rotate_line ts b e (k0 + i) else [])))"

text \<open>The lines that the filter has processed when it is at the m-th line of the j-th file.\<close>

definition seen_lines :: "string \<Rightarrow> string \<Rightarrow> nat \<Rightarrow> string list list \<Rightarrow> nat \<Rightarrow> nat \<Rightarrow> (string \<times> string) list" where
  "seen_lines b e k0 pss j m =
     concat (map (\<lambda>i. map (Pair (rotated b e (k0 + i))) (pss ! i)) [0..<j]) @
     map (Pair (rotated b e (k0 + j))) (take m (pss ! j))"

definition all_lines :: "string \<Rightarrow> string \<Rightarrow> nat \<Rightarrow> string list list \<Rightarrow> (string \<times> string) list" where
  "all_lines b e k0 pss = concat (map (\<lambda>i. map (Pair (rotated b e (k0 + i))) (pss ! i)) [0..<length pss])"

record 'p watch =
  wt_re :: "'p regexes"
  wt_filters :: "'p filters"
  wt_dir :: string
  wt_base :: string
  wt_ext :: string
  wt_first :: nat
  wt_events :: string
  wt_old :: string

abbreviation wt_log :: "'p watch \<Rightarrow> nat \<Rightarrow> string" where
  "wt_log w i \<equiv> nth_log (wt_dir w) (wt_base w) (wt_ext w) (wt_first w + i)"

abbreviation wt_name :: "'p watch \<Rightarrow> nat \<Rightarrow> string" where
  "wt_name w i \<equiv> rotated (wt_base w) (wt_ext w) (wt_first w + i)"

abbreviation wt_hold :: "'p watch \<Rightarrow> string list list \<Rightarrow> disk \<Rightarrow> bool" where
  "wt_hold w \<equiv> logs_hold (wt_dir w) (wt_base w) (wt_ext w) (wt_first w)"

abbreviation wt_seen :: "'p watch \<Rightarrow> string list list \<Rightarrow> nat \<Rightarrow> nat \<Rightarrow> (string \<times> string) list" where
  "wt_seen w \<equiv> seen_lines (wt_base w) (wt_ext w) (wt_first w)"

text \<open>
  The names are proper, the event file is none of the log files, and no filter matches the message
  of a rotation, not even its beginning.
\<close>

definition watch_ok :: "'p watch \<Rightarrow> bool" where
  "watch_ok w \<longleftrightarrow> log_names (wt_dir w) (wt_base w) (wt_ext w) \<and>
     newline \<notin> set (wt_base w) \<and> newline \<notin> set (wt_ext w) \<and>
     (\<forall>i<100000. wt_events w \<noteq> nth_log (wt_dir w) (wt_base w) (wt_ext w) i) \<and>
     (\<forall>now l name. rotates l \<longrightarrow> process_line (wt_re w) (wt_filters w) now l HEADER_LENGTH name = [])"

text \<open>The place of the filter: at the m-th line of the j-th file, \<open>pos\<close> characters read.\<close>

definition at_place :: "'p watch \<Rightarrow> string list list \<Rightarrow> 'p log_filter \<Rightarrow> nat \<Rightarrow> nat \<Rightarrow> nat \<Rightarrow> bool" where
  "at_place w pss st j m pos \<longleftrightarrow> j < length pss \<and> m \<le> length (pss ! j) \<and>
     f_filters st = wt_filters w \<and> f_directory st = wt_dir w \<and> f_filename st = wt_name w j \<and>
     f_event_path st = wt_events w \<and> f_next st = [] \<and>
     newline \<notin> set (f_buffer st) \<and> \<not> rotates (f_buffer st) \<and>
     (case f_log st of
        None \<Rightarrow> f_event st = None \<and> f_buffer st = [] \<and> m = 0 \<and> pos = 0
      | Some (P, p) \<Rightarrow> P = wt_log w j \<and> p = pos \<and> f_event st = Some (wt_events w) \<and>
          f_disk st (wt_events w) \<noteq> None) \<and>
     pos \<le> length (event_text_of (f_disk st) (wt_log w j)) \<and>
     take pos (event_text_of (f_disk st) (wt_log w j)) = concat (take m (pss ! j)) @ f_buffer st \<and>
     (\<exists>ev. event_text_of (f_disk st) (wt_events w) = wt_old w @ ev \<and>
        events_for (wt_re w) (wt_filters w) (wt_seen w pss j m) ev)"

text \<open>The text of a file: its lines, and the line of the rotation when it is not the last.\<close>

lemma rotate_line_lined:
  assumes "newline \<notin> set b" "newline \<notin> set e" "newline \<notin> set ts"
  shows "lined [rotate_line ts b e k]" "rotates (rotate_line ts b e k)"
proof -
  have "newline \<notin> set (count_str i)" for i
    using count_str_digits [of i] by (auto simp: list_all_iff is_digit_def)
  then have "newline \<notin> set (rotated b e i)" for i using assms by (simp add: rotated_def)
  with assms show "lined [rotate_line ts b e k]"
    by (simp add: rotate_line_def add_log_header_def rotate_message_def butlast_append)
  have "rotate_line ts b e k = (ts @ '' GDM-M: '') @ ''Rotating from log file'' @
      ('' '' @ rotated b e k @ '' to '' @ rotated b e (Suc k) @ [newline])"
    by (simp add: rotate_line_def add_log_header_def rotate_message_def)
  then show "rotates (rotate_line ts b e k)" unfolding contains_iff by blast
qed

lemma wt_hold_text:
  assumes "watch_ok w" and "wt_hold w pss D" and "j < length pss"
  obtains R where "D (wt_log w j) = Some (concat (pss ! j @ R))" "lined (pss ! j @ R)"
    "list_all (\<lambda>l. \<not> rotates l) (pss ! j)"
    "if Suc j < length pss then \<exists>r. R = [r] \<and> rotates r else R = []"
proof -
  from assms(2,3) obtain ts where ts: "newline \<notin> set ts" "D (wt_log w j) =
      Some (concat (pss ! j) @ (if Suc j < length pss then rotate_line ts (wt_base w) (wt_ext w) (wt_first w + j) else []))"
    by (auto simp: logs_hold_def)
  have l: "lined (pss ! j)" "list_all (\<lambda>l. \<not> rotates l) (pss ! j)"
    using assms(2,3) by (simp_all add: logs_hold_def list_all_length)
  note r = rotate_line_lined [of "wt_base w" "wt_ext w" ts "wt_first w + j"]
  show thesis
  proof (rule that [of "if Suc j < length pss then [rotate_line ts (wt_base w) (wt_ext w) (wt_first w + j)] else []"])
  qed (use ts l r assms(1) in \<open>auto simp: watch_ok_def\<close>)
qed

lemma event_file_other:
  assumes "watch_ok w" and "wt_hold w pss D" and "j < length pss"
  shows "wt_events w \<noteq> wt_log w j"
  using assms by (simp add: watch_ok_def logs_hold_def)

text \<open>Writing events leaves the files of the log alone.\<close>

lemma wt_hold_cong:
  assumes "watch_ok w" and "wt_hold w pss D" and "\<And>p. p \<noteq> wt_events w \<Longrightarrow> D' p = D p"
  shows "wt_hold w pss D'"
proof -
  have "D' (wt_log w i) = D (wt_log w i)" if "i < length pss" for i
    using assms(3) event_file_other [OF assms(1,2) that] by metis
  with assms(2) show ?thesis by (simp add: logs_hold_def)
qed

lemma seen_lines_more:
  assumes "m + n \<le> length (pss ! j)"
  shows "seen_lines b e k0 pss j (m + n) =
    seen_lines b e k0 pss j m @ map (Pair (rotated b e (k0 + j))) (take n (drop m (pss ! j)))"
  by (simp add: seen_lines_def take_add)

lemma seen_lines_next:
  "seen_lines b e k0 pss (Suc j) 0 = seen_lines b e k0 pss j (length (pss ! j))"
  by (simp add: seen_lines_def)

lemma contains_append: "contains n s \<Longrightarrow> contains n (u @ s @ v)"
  unfolding contains_iff by (metis append_assoc)

text \<open>Opening the files when they are not open.\<close>

lemma at_place_open:
  assumes "watch_ok w" "wt_hold w pss (f_disk st)" "at_place w pss st j m pos"
  defines "st' \<equiv> (if is_open st then st else open_files st)"
  shows "at_place w pss st' j m pos \<and> wt_hold w pss (f_disk st') \<and> f_log st' = Some (wt_log w j, pos) \<and>
    f_disk st' (wt_events w) \<noteq> None \<and> f_event st' = Some (wt_events w)"
proof (cases "f_log st")
  case None
  have "j < length pss" using assms(3) by (simp add: at_place_def)
  note other = event_file_other [OF assms(1,2) this]
  have st': "st' = open_files st" using None by (simp add: st'_def is_open_def)
  have d: "f_disk st' p = (if p = wt_events w then Some (event_text_of (f_disk st) p) else f_disk st p)" for p
    using assms(3) by (simp add: st' open_files_def at_place_def event_text_of_def)
  have "wt_hold w pss (f_disk st')"
    by (rule wt_hold_cong [OF assms(1,2)]) (simp add: d)
  moreover have "at_place w pss st' j m pos"
  proof -
    have z: "m = 0" "pos = 0" "f_buffer st = []" using assms(3) None by (simp_all add: at_place_def)
    obtain ev where ev: "event_text_of (f_disk st) (wt_events w) = wt_old w @ ev"
      "events_for (wt_re w) (wt_filters w) (wt_seen w pss j m) ev"
      using assms(3) by (auto simp: at_place_def)
    have t: "event_text_of (f_disk st') (wt_events w) = wt_old w @ ev"
      using ev(1) d [of "wt_events w"] by (simp add: event_text_of_def)
    have fl: "f_log st' = Some (wt_log w j, 0)" "f_event st' = Some (wt_events w)" "f_disk st' (wt_events w) \<noteq> None"
      "f_filters st' = f_filters st" "f_directory st' = f_directory st" "f_filename st' = f_filename st"
      "f_event_path st' = f_event_path st" "f_next st' = f_next st" "f_buffer st' = f_buffer st"
      using assms(3) by (simp_all add: st' open_files_def at_place_def nth_log_def)
    show ?thesis using assms(3) ev(2) t fl z unfolding at_place_def by (intro conjI) simp_all
  qed
  moreover have "f_log st' = Some (wt_log w j, pos)"
    using assms(3) None by (simp add: st' open_files_def at_place_def nth_log_def)
  moreover have "f_disk st' (wt_events w) \<noteq> None" using d [of "wt_events w"] by simp
  moreover have "f_event st' = Some (wt_events w)"
    using assms(3) by (simp add: st' open_files_def at_place_def)
  ultimately show ?thesis by blast
next
  case (Some a)
  then have "is_open st" using assms(3) by (auto simp: at_place_def is_open_def split: prod.splits)
  with assms Some show ?thesis by (auto simp: at_place_def split: prod.splits)
qed

section \<open>One round of the filter\<close>

definition filter_steps :: "'p watch \<Rightarrow> string list list \<Rightarrow> 'p log_filter \<Rightarrow> nat \<Rightarrow> nat \<Rightarrow> 'p log_filter \<Rightarrow> bool" where
  "filter_steps w pss st j pos st' \<longleftrightarrow> wt_hold w pss (f_disk st') \<and>
     (\<forall>p. p \<noteq> wt_events w \<longrightarrow> f_disk st' p = f_disk st p) \<and>
     (\<exists>j' m' pos'. at_place w pss st' j' m' pos' \<and>
       (j' = j \<and> pos < pos' \<or> j' = Suc j \<and> pos' = 0 \<and> pos < length (event_text_of (f_disk st) (wt_log w j))))"

lemma event_text_Some: "D p = Some s \<Longrightarrow> event_text_of D p = s"
  by (simp add: event_text_of_def)

lemma quiet_round:
  assumes ok: "watch_ok w" and hold: "wt_hold w pss (f_disk st)" and at: "at_place w pss st j m pos"
    and r: "ready_to_read (wt_log w j) (wt_events w) ls st pos c"
    and d: "take n (drop pos c) = d" "d \<noteq> []"
    and x: "f_buffer st @ d = concat (take i ls) @ t" "newline \<notin> set t" "\<not> rotates t"
    and i: "take i ls = take i (drop m (pss ! j))" "m + i \<le> length (pss ! j)"
    and q: "list_all (\<lambda>l. \<not> rotates l) (pss ! j)"
  shows "\<exists>st'. filter_log_lines (wt_re w) stamp n st = (Inr (), st') \<and> filter_steps w pss st j pos st'"
proof -
  have j: "j < length pss" and fl: "f_filters st = wt_filters w" and nm: "f_filename st = wt_name w j"
    using at by (simp_all add: at_place_def)
  note other = event_file_other [OF ok hold j]
  have c: "f_disk st (wt_log w j) = Some c" "pos \<le> length c" "f_disk st (wt_events w) \<noteq> None"
    using r by (simp_all add: ready_to_read_def)
  have "list_all (\<lambda>l. \<not> rotates l) (take i ls)"
    using q set_take_subset [of i "drop m (pss ! j)"] set_drop_subset [of m "pss ! j"]
    unfolding i(1) list_all_iff by blast
  from read_quiet [OF r d x(1,2) this x(3), of "wt_re w" stamp] obtain ev k where
    f: "filter_log_lines (wt_re w) stamp n st =
      (Inr (), filtered (st\<lparr>f_log := Some (wt_log w j, pos + length d)\<rparr>) (wt_events w) ev t k)"
    and ev: "events_for (wt_re w) (wt_filters w) (map (Pair (wt_name w j)) (take i (drop m (pss ! j)))) ev"
    unfolding fl nm i(1) by blast
  define st' where "st' = filtered (st\<lparr>f_log := Some (wt_log w j, pos + length d)\<rparr>) (wt_events w) ev t k"
  have disk: "f_disk st' = (f_disk st)(wt_events w \<mapsto> event_text_of (f_disk st) (wt_events w) @ ev)"
    by (simp add: st'_def filtered_def)
  have same: "f_disk st' p = f_disk st p" if "p \<noteq> wt_events w" for p using that by (simp add: disk)
  have hold': "wt_hold w pss (f_disk st')" by (rule wt_hold_cong [OF ok hold same])
  obtain ev0 where ev0: "event_text_of (f_disk st) (wt_events w) = wt_old w @ ev0"
    "events_for (wt_re w) (wt_filters w) (wt_seen w pss j m) ev0"
    using at by (auto simp: at_place_def)
  have evs: "event_text_of (f_disk st') (wt_events w) = wt_old w @ (ev0 @ ev)"
    "events_for (wt_re w) (wt_filters w) (wt_seen w pss j (m + i)) (ev0 @ ev)"
    using ev0(1) events_for_append [OF ev0(2) ev] seen_lines_more [of m i pss j] i(2)
    by (simp_all add: disk event_text_of_def)
  have len: "length d \<le> length c - pos" using d(1) by auto
  have "take (length d) (drop pos c) = d" unfolding d(1) [symmetric] by (simp add: min_def)
  then have "take (pos + length d) c = take pos c @ d" using len by (simp add: take_add)
  also have "take pos c = concat (take m (pss ! j)) @ f_buffer st"
    using at event_text_Some [of "f_disk st", OF c(1)] by (simp add: at_place_def)
  finally have tk: "take (pos + length d) c = concat (take (m + i) (pss ! j)) @ t"
    using x(1) i(1) by (simp add: take_add)
  have now: "event_text_of (f_disk st') (wt_log w j) = c"
    using same other c(1) by (simp add: event_text_of_def)
  have fl: "f_log st' = Some (wt_log w j, pos + length d)" "f_event st' = f_event st" "f_disk st' (wt_events w) \<noteq> None"
    "f_filters st' = f_filters st" "f_directory st' = f_directory st" "f_filename st' = f_filename st"
    "f_event_path st' = f_event_path st" "f_next st' = f_next st" "f_buffer st' = t"
    by (simp_all add: st'_def filtered_def)
  have "f_event st = Some (wt_events w)" using r by (simp add: ready_to_read_def)
  then have "at_place w pss st' j (m + i) (pos + length d)"
    using at i(2) x(2,3) len c(2) evs tk fl unfolding at_place_def now by (intro conjI) (simp | blast)+
  moreover have "pos < pos + length d" using d(2) by simp
  ultimately have "filter_steps w pss st j pos st'"
    unfolding filter_steps_def using hold' same by blast
  with f show ?thesis by (simp add: st'_def)
qed


text \<open>The name of the next file, from the whole path of the present one.\<close>

lemma five_digits_end_iff:
  "five_digits_end s \<longleftrightarrow> (\<exists>p ds. s = p @ CHR ''.'' # ds \<and> length ds = 5 \<and> list_all is_digit ds)"
proof
  assume "five_digits_end s"
  then have s: "5 < length s" "list_all is_digit (drop (length s - 5) s)" "s ! (length s - 6) = CHR ''.''"
    by (simp_all add: five_digits_end_def)
  have "s = take (length s - 6) s @ s ! (length s - 6) # drop (Suc (length s - 6)) s"
    using s(1) by (simp add: id_take_nth_drop)
  moreover have "Suc (length s - 6) = length s - 5" using s(1) by simp
  ultimately have "s = take (length s - 6) s @ CHR ''.'' # drop (length s - 5) s" using s(3) by simp
  moreover have "length (drop (length s - 5) s) = 5" using s(1) by simp
  ultimately show "\<exists>p ds. s = p @ CHR ''.'' # ds \<and> length ds = 5 \<and> list_all is_digit ds" using s(2) by blast
next
  assume "\<exists>p ds. s = p @ CHR ''.'' # ds \<and> length ds = 5 \<and> list_all is_digit ds"
  then show "five_digits_end s" by (auto simp: five_digits_end_def nth_append)
qed

lemma five_digits_end_path:
  assumes "five_digits_end (d @ CHR ''/'' # b)"
  shows "five_digits_end b"
proof -
  obtain p ds where p: "d @ CHR ''/'' # b = p @ CHR ''.'' # ds" "length ds = 5" "list_all is_digit ds"
    using assms unfolding five_digits_end_iff by blast
  have n: "CHR ''/'' \<notin> set ds" using plain_digits [OF p(3)] by (simp add: plain_def)
  from p(1) consider u where "d = p @ u" "u @ CHR ''/'' # b = CHR ''.'' # ds"
    | u where "p = d @ u" "CHR ''/'' # b = u @ CHR ''.'' # ds"
    by (auto simp: append_eq_append_conv2)
  then show ?thesis
  proof cases
    case 1
    with n show ?thesis by (cases u) auto
  next
    case 2
    then obtain u' where "b = u' @ CHR ''.'' # ds" by (cases u) auto
    with p(2,3) show ?thesis unfolding five_digits_end_iff by blast
  qed
qed

lemma next_log_path:
  assumes "log_names d b e" and "k < 100000"
  shows "get_next_log_filename (path_join d (rotated b e k)) = nth_log d b e (Suc k)"
proof -
  let ?b = "d @ CHR ''/'' # b"
  have l: "CHR ''/'' \<notin> set b" "named b" "plain e" "\<not> has_counter b" "plain_directory d"
    using assms(1) by (simp_all add: log_names_def)
  have r: "path_join d (rotated b e i) = rotated ?b e i" for i
    using path_join_plain(1) [OF l(5) rotated_no_slash [OF assms(1)]] by (simp add: rotated_def)
  have b: "basename ?b = b" "basename b = b"
    using l(1) after_last_split [of "CHR ''/''" b d] after_last_append [of "CHR ''/''" b "[]"]
    by (simp_all add: basename_def after_last_def)
  have "named ?b" using l(2) b by (simp add: named_def)
  moreover have "\<not> has_counter ?b"
  proof
    assume "has_counter ?b"
    then consider "five_digits_end ?b" | "last ?b = newline" "five_digits_end (butlast ?b)"
      by (auto simp: has_counter_def)
    then show False
    proof cases
      case 1
      with l(4) show False using five_digits_end_path by (auto simp: has_counter_def)
    next
      case 2
      then have "b \<noteq> []" by auto
      with 2 have "last b = newline" "five_digits_end (d @ CHR ''/'' # butlast b)" by (auto simp: butlast_append)
      with l(4) \<open>b \<noteq> []\<close> show False using five_digits_end_path by (auto simp: has_counter_def)
    qed
  qed
  ultimately show ?thesis using next_rotated [of ?b e k] l(3) assms(2) by (simp add: nth_log_def r)
qed


lemma rotation_round:
  assumes ok: "watch_ok w" and hold: "wt_hold w pss (f_disk st)" and at: "at_place w pss st j m pos"
    and j: "Suc j < length pss"
    and r: "ready_to_read (wt_log w j) (wt_events w) (drop m (pss ! j) @ [R]) st pos c"
    and d: "take n (drop pos c) = d" "d \<noteq> []"
    and x: "f_buffer st @ d = concat (drop m (pss ! j)) @ t" "t \<noteq> []" "rotates t" "newline \<notin> set (butlast t)"
    and q: "list_all (\<lambda>l. \<not> rotates l) (pss ! j)"
  shows "\<exists>st'. filter_log_lines (wt_re w) stamp n st = (Inr (), st') \<and> filter_steps w pss st j pos st'"
proof -
  let ?E = "wt_events w"
  have names: "log_names (wt_dir w) (wt_base w) (wt_ext w)" using ok by (simp add: watch_ok_def)
  have lt: "wt_first w + j < 100000" using hold j by (simp add: logs_hold_def)
  have st: "f_filters st = wt_filters w" "f_filename st = wt_name w j" "f_directory st = wt_dir w" "m \<le> length (pss ! j)"
    "f_event_path st = ?E"
    using at by (simp_all add: at_place_def)
  have c: "f_disk st (wt_log w j) = Some c" using r by (simp add: ready_to_read_def)
  have silent: "\<And>now. process_line (wt_re w) (f_filters st) now t HEADER_LENGTH (f_filename st) = []"
    using ok x(3) st(1) by (simp add: watch_ok_def)
  have "list_all (\<lambda>l. \<not> rotates l) (drop m (pss ! j))"
    using q set_drop_subset [of m "pss ! j"] unfolding list_all_iff by blast
  from read_rotation [OF r d x this silent, of stamp] obtain ev k where
    f: "filter_log_lines (wt_re w) stamp n st = (Inr (), turned st ?E ev k)"
    and ev: "events_for (wt_re w) (wt_filters w) (map (Pair (wt_name w j)) (drop m (pss ! j))) ev"
    unfolding st by blast
  define st' where "st' = turned st ?E ev k"
  define D where "D = (f_disk st)(?E \<mapsto> event_text_of (f_disk st) ?E @ ev)"
  have nxt: "get_next_log_filename (path_join (f_directory st) (f_filename st)) = wt_log w (Suc j)"
    using next_log_path [OF names lt] st by simp
  have fl: "f_disk st' = (if D ?E = Some [] then D(?E := None) else D)" "f_log st' = None" "f_event st' = None"
    "f_filters st' = wt_filters w" "f_directory st' = wt_dir w" "f_filename st' = wt_name w (Suc j)"
    "f_event_path st' = ?E" "f_next st' = []" "f_buffer st' = []"
    using nxt nth_log_parts [OF names] st(1,5) by (simp_all add: st'_def turned_def D_def Let_def)
  have same: "f_disk st' p = f_disk st p" if "p \<noteq> ?E" for p using that by (simp add: fl(1) D_def)
  have hold': "wt_hold w pss (f_disk st')" by (rule wt_hold_cong [OF ok hold same])
  obtain ev0 where ev0: "event_text_of (f_disk st) ?E = wt_old w @ ev0"
    "events_for (wt_re w) (wt_filters w) (wt_seen w pss j m) ev0"
    using at by (auto simp: at_place_def)
  have "wt_seen w pss (Suc j) 0 = wt_seen w pss j m @ map (Pair (wt_name w j)) (drop m (pss ! j))"
    using seen_lines_more [of m "length (pss ! j) - m" pss j] st(4) by (simp add: seen_lines_next)
  then have evs: "event_text_of (f_disk st') ?E = wt_old w @ (ev0 @ ev)"
    "events_for (wt_re w) (wt_filters w) (wt_seen w pss (Suc j) 0) (ev0 @ ev)"
    using ev0(1) events_for_append [OF ev0(2) ev] by (simp_all add: fl(1) D_def event_text_of_def)
  have "at_place w pss st' (Suc j) 0 0"
    using j evs fl unfolding at_place_def by (intro conjI) (simp add: contains_iff | blast)+
  moreover have "pos < length (event_text_of (f_disk st) (wt_log w j))"
    using d event_text_Some [of "f_disk st", OF c] by (cases "pos < length c") auto
  ultimately have "filter_steps w pss st j pos st'"
    unfolding filter_steps_def using hold' same by blast
  with f show ?thesis by (simp add: st'_def)
qed


text \<open>One round of the filter: it goes on, unless there is nothing to read.\<close>

definition no_step :: "'p watch \<Rightarrow> string list list \<Rightarrow> 'p log_filter \<Rightarrow> nat \<Rightarrow> nat \<Rightarrow> nat \<Rightarrow> 'p log_filter \<Rightarrow> bool" where
  "no_step w pss st j m pos st' \<longleftrightarrow> wt_hold w pss (f_disk st') \<and>
     (\<forall>p. p \<noteq> wt_events w \<longrightarrow> f_disk st' p = f_disk st p) \<and> at_place w pss st' j m pos \<and>
     length (event_text_of (f_disk st) (wt_log w j)) \<le> pos"

lemma open_round:
  assumes ok: "watch_ok w" and hold: "wt_hold w pss (f_disk st)" and at: "at_place w pss st j m pos"
    and opened: "f_log st = Some (wt_log w j, pos)" "f_disk st (wt_events w) \<noteq> None" "f_event st = Some (wt_events w)"
    and n: "0 < n"
  shows "\<exists>st'. filter_log_lines (wt_re w) stamp n st = (Inr (), st') \<and>
    (filter_steps w pss st j pos st' \<or> no_step w pss st j m pos st')"
proof -
  have j: "j < length pss" and m: "m \<le> length (pss ! j)" and nxt: "f_next st = []"
    and buf: "newline \<notin> set (f_buffer st)" "\<not> rotates (f_buffer st)"
    using at by (simp_all add: at_place_def)
  obtain R where R: "f_disk st (wt_log w j) = Some (concat (pss ! j @ R))" "lined (pss ! j @ R)"
    "list_all (\<lambda>l. \<not> rotates l) (pss ! j)" "if Suc j < length pss then \<exists>r. R = [r] \<and> rotates r else R = []"
    using wt_hold_text [OF ok hold j] by blast
  define c where "c = concat (pss ! j @ R)"
  define ls where "ls = drop m (pss ! j) @ R"
  have c: "f_disk st (wt_log w j) = Some c" "event_text_of (f_disk st) (wt_log w j) = c"
    using R(1) by (simp_all add: c_def event_text_of_def)
  have tk: "take pos c = concat (take m (pss ! j)) @ f_buffer st" "pos \<le> length c"
    using at unfolding at_place_def c(2) by simp_all
  have "concat (take m (pss ! j)) @ f_buffer st @ drop pos c = c"
    using tk(1) append_take_drop_id [of pos c] by (metis append_assoc)
  also have "c = concat (take m (pss ! j)) @ concat ls"
    unfolding c_def ls_def by (metis append_assoc append_take_drop_id concat_append)
  finally have rest: "f_buffer st @ drop pos c = concat ls" by simp
  have lined: "lined ls" using R(2) lined_take_drop by (auto simp: ls_def)
  have ready: "ready_to_read (wt_log w j) (wt_events w) ls st pos c"
    using opened nxt buf c tk(2) rest lined by (simp add: ready_to_read_def)
  define d where "d = take n (drop pos c)"
  show ?thesis
  proof (cases "d = []")
    case True
    then have "filter_log_lines (wt_re w) stamp n st = (Inr (), st)"
      using opened c(1) by (simp add: filter_log_lines_def d_def)
    moreover have "no_step w pss st j m pos st"
      using True n hold at by (simp add: no_step_def d_def c(2))
    ultimately show ?thesis by blast
  next
    case False
    have "(f_buffer st @ d) @ drop n (drop pos c) = concat ls"
      using rest by (simp only: d_def append_assoc append_take_drop_id)
    from part_of_lines [OF this lined] obtain i t where i: "i \<le> length ls"
      and x: "f_buffer st @ d = concat (take i ls) @ t" "newline \<notin> set t"
      and t: "t \<noteq> [] \<longrightarrow> i < length ls \<and> (\<exists>v. ls ! i = t @ v)" by blast
    let ?q = "drop m (pss ! j)"
    have quiet: "\<not> rotates (ls ! k)" if "k < length ?q" for k
      using that R(3) unfolding list_all_length by (simp add: ls_def nth_append)
    consider (quiet) "i \<le> length ?q" "\<not> rotates t" | (part) "i \<le> length ?q" "rotates t" | (all) "length ?q < i"
      by linarith
    then show ?thesis
    proof cases
      case quiet
      then have "take i ls = take i ?q" "m + i \<le> length (pss ! j)" using m by (simp_all add: ls_def)
      from quiet_round [OF ok hold at ready d_def [symmetric] False x quiet(2) this R(3)] show ?thesis by blast
    next
      case part
      then have "t \<noteq> []" by (auto simp: contains_iff)
      with t obtain v where v: "i < length ls" "ls ! i = t @ v" by blast
      then have "rotates (ls ! i)" using contains_append [OF part(2), of "[]" v] by simp
      with quiet part(1) have e: "i = length ?q" by (metis le_neq_implies_less)
      with v(1) R(4) obtain r where r: "R = [r]" "Suc j < length pss" by (auto simp: ls_def split: if_splits)
      have "f_buffer st @ d = concat ?q @ t" using x(1) e by (simp add: ls_def)
      moreover have "newline \<notin> set (butlast t)" using x(2) in_set_butlastD by fast
      ultimately show ?thesis
        using rotation_round [OF ok hold at r(2) _ d_def [symmetric] False _ \<open>t \<noteq> []\<close> part(2) _ R(3), of r] ready
        unfolding ls_def r(1) by blast
    next
      case all
      with i R(4) obtain r where r: "R = [r]" "Suc j < length pss" "rotates r" by (auto simp: ls_def split: if_splits)
      with all i have e: "i = length ls" by (simp add: ls_def)
      with t x(1) have "f_buffer st @ d = concat ?q @ r" by (auto simp: ls_def r(1))
      moreover have "r \<noteq> []" "newline \<notin> set (butlast r)" using R(2) by (simp_all add: r(1))
      ultimately show ?thesis
        using rotation_round [OF ok hold at r(2) _ d_def [symmetric] False _ _ r(3) _ R(3), of r] ready
        unfolding ls_def r(1) by blast
    qed
  qed
qed

lemma filter_round:
  assumes ok: "watch_ok w" and hold: "wt_hold w pss (f_disk st)" and at: "at_place w pss st j m pos" and n: "0 < n"
  shows "\<exists>st'. filter_do_work (wt_re w) fs stamp None n st = (Inr True, st') \<and>
    (filter_steps w pss st j pos st' \<or> no_step w pss st j m pos st')"
proof -
  define st1 where "st1 = (if is_open st then st else open_files st)"
  note o1 = at_place_open [OF ok hold at, folded st1_def]
  have j: "j < length pss" using at by (simp add: at_place_def)
  have same: "f_disk st1 p = f_disk st p" if "p \<noteq> wt_events w" for p
    using that at by (simp add: st1_def open_files_def at_place_def)
  obtain R where "f_disk st (wt_log w j) = Some (concat (pss ! j @ R))"
    using wt_hold_text [OF ok hold j] by blast
  then have "f_disk st (path_join (f_directory st) (f_filename st)) \<noteq> None"
    using at by (simp add: at_place_def nth_log_def)
  then have run: "filter_do_work (wt_re w) fs stamp None n st =
      (case filter_log_lines (wt_re w) stamp n st1 of (Inl e, st') \<Rightarrow> (Inl e, st') | (Inr _, st') \<Rightarrow> (Inr True, st'))"
    by (simp add: filter_do_work_def returnS_def bindS_def st1_def split: prod.split sum.split)
  obtain st' where st': "filter_log_lines (wt_re w) stamp n st1 = (Inr (), st')"
    "filter_steps w pss st1 j pos st' \<or> no_step w pss st1 j m pos st'"
    using open_round [OF ok _ _ _ _ _ n] o1 by blast
  have "event_text_of (f_disk st1) (wt_log w j) = event_text_of (f_disk st) (wt_log w j)"
    using same event_file_other [OF ok hold j] by (simp add: event_text_of_def)
  with st'(2) same have "filter_steps w pss st j pos st' \<or> no_step w pss st j m pos st'"
    unfolding filter_steps_def no_step_def by simp
  with run st'(1) show ?thesis by simp
qed

end
