(* ===== verification/Auxiliary_Device.thy ===== *)
theory Auxiliary_Device
  imports Device_Ready Log_Rounds Device_Store
begin

text \<open>
  \<open>gazoo_device/base_classes/auxiliary_device.py\<close>: the life of the instance of an auxiliary device:
  its users, its capabilities, its place among the open devices of the manager, its log file;
  and its commands and checks. What the text shares with the primary devices is used from there.
\<close>

section \<open>Creation\<close>

record ('v, 'c) aux_instance =
  ai_persistent :: "(string \<times> 'v) list"
  ai_optional :: "(string \<times> 'v) list"
  ai_log_file :: string
  ai_users :: int
  ai_slots :: "'c slots"
  ai_closed :: "'c list"
  ai_open :: "string list"

text \<open>\<open>cfg_prefix\<close> is the entry \<open>log_name_prefix\<close>, which is only read when no file name is given.\<close>

record 'v device_cfg =
  cfg_persistent :: "(string \<times> 'v) list"
  cfg_options :: "(string \<times> 'v) list"
  cfg_prefix :: "string option"

definition aux_log_filename :: "string \<Rightarrow> string \<Rightarrow> string \<Rightarrow> string \<Rightarrow> string" where
  "aux_log_filename log_timestamp log_directory device_name name_prefix =
     path_join log_directory
       ((if name_prefix \<noteq> [] then name_prefix @ ''-'' @ device_name @ ''-'' @ log_timestamp
         else device_name @ ''-'' @ log_timestamp) @ ''.txt'')"

text \<open>\<open>text_of\<close> gives the text of a property value.\<close>

definition new_aux_instance ::
  "('v \<Rightarrow> string) \<Rightarrow> string \<Rightarrow> 'v device_cfg \<Rightarrow> string \<Rightarrow> string \<Rightarrow> string list \<Rightarrow> ('v, 'c) aux_instance result" where
  "new_aux_instance text_of log_timestamp cfg log_file_name log_directory open_devices =
     bindE (if log_file_name \<noteq> [] then Inr (path_join log_directory log_file_name)
            else case (cfg_prefix cfg, map_of (cfg_persistent cfg) ''name'') of
                   (Some prefix, Some name) \<Rightarrow>
                     Inr (aux_log_filename log_timestamp log_directory (text_of name) prefix)
                 | _ \<Rightarrow> Inl KeyError) (\<lambda>log_file.
       Inr \<lparr>ai_persistent = cfg_persistent cfg, ai_optional = cfg_options cfg, ai_log_file = log_file,
            ai_users = 1, ai_slots = [], ai_closed = [], ai_open = open_devices\<rparr>)"

section \<open>Users and closing\<close>

definition aux_increment_user_count :: "('v, 'c) aux_instance \<Rightarrow> ('v, 'c) aux_instance" where
  "aux_increment_user_count d = d\<lparr>ai_users := ai_users d + 1\<rparr>"

text \<open>The capability is forgotten also when its closing raises; device errors are ignored.\<close>

definition aux_reset_all_capabilities ::
  "('c \<Rightarrow> unit result) \<Rightarrow> string list \<Rightarrow> (('v, 'c) aux_instance, unit) stateful" where
  "aux_reset_all_capabilities close_capability supported d =
     (case reset_all_capabilities close_capability True supported (ai_slots d, ai_closed d) of
        (r, (slots, closed)) \<Rightarrow> (r, d\<lparr>ai_slots := slots, ai_closed := closed\<rparr>))"

definition aux_cleanup ::
  "('c \<Rightarrow> unit result) \<Rightarrow> string list \<Rightarrow> string \<Rightarrow> (('v, 'c) aux_instance, unit) stateful" where
  "aux_cleanup close_capability supported name =
     bindS (aux_reset_all_capabilities close_capability supported) (\<lambda>_ d.
       (Inr (), d\<lparr>ai_open := removeAll name (ai_open d)\<rparr>))"

definition aux_close ::
  "('c \<Rightarrow> unit result) \<Rightarrow> string list \<Rightarrow> string \<Rightarrow> bool \<Rightarrow> (('v, 'c) aux_instance, unit) stateful" where
  "aux_close close_capability supported name force d =
     (if force then aux_cleanup close_capability supported name (d\<lparr>ai_users := 0\<rparr>)
      else
        let run_cleanup = (ai_users d = 1);
            d1 = (if 0 < ai_users d then d\<lparr>ai_users := ai_users d - 1\<rparr> else d)
        in if run_cleanup then aux_cleanup close_capability supported name d1 else (Inr (), d1))"

definition aux_get_capability_classes ::
  "(string \<Rightarrow> bool result) \<Rightarrow> (string \<Rightarrow> 'k list) \<Rightarrow> string \<Rightarrow> 'k list result" where
  "aux_get_capability_classes has_capability classes_of capability_name =
     bindE (has_capability capability_name) (\<lambda>b.
       if \<not> b then Inl DeviceError else Inr (classes_of capability_name))"

section \<open>The log file\<close>

text \<open>
  The log file may have been rotated: the names are followed while there is a file. The loop ends
  when a name has no file; \<open>None\<close> is that it does not.
\<close>

partial_function (option) follow_rotation :: "(string \<Rightarrow> bool) \<Rightarrow> string \<Rightarrow> string option" where
  "follow_rotation exists current_log_filename =
     (let next_log_filename = get_next_log_filename current_log_filename
      in if exists next_log_filename then follow_rotation exists next_log_filename
         else Some current_log_filename)"

definition aux_log_file_name :: "(string \<Rightarrow> bool) \<Rightarrow> ('v, 'c) aux_instance \<Rightarrow> string option" where
  "aux_log_file_name exists d = follow_rotation exists (ai_log_file d)"

section \<open>Commands, checks and properties\<close>

text \<open>A device error of the command is another try, and so is a response without the group.\<close>

fun command_with_regex ::
  "('s, string) stateful \<Rightarrow> (string \<Rightarrow> string option list option) \<Rightarrow> nat \<Rightarrow> bool \<Rightarrow> nat \<Rightarrow> ('s, string) stateful" where
  "command_with_regex command_fn re_search regex_group raise_error 0 s =
     (if raise_error then (Inl DeviceError, s) else (Inr [], s))"
| "command_with_regex command_fn re_search regex_group raise_error (Suc tries) s =
     (case command_fn s of
        (Inl e, s') \<Rightarrow>
          if is_device_error e then command_with_regex command_fn re_search regex_group raise_error tries s'
          else (Inl e, s')
      | (Inr response, s') \<Rightarrow>
          (case Option.bind (re_search response) (\<lambda>groups. match_group groups regex_group) of
             Some g \<Rightarrow> (Inr g, s')
           | None \<Rightarrow> command_with_regex command_fn re_search regex_group raise_error tries s'))"

definition check_ping_responsiveness ::
  "('s, bool) stateful \<Rightarrow> int \<Rightarrow> (nat \<Rightarrow> int) \<Rightarrow> ('s, unit) stateful" where
  "check_ping_responsiveness ping ping_timeout clock s =
     (let r = retry \<lparr>rc_func = ping, rc_is_successful = is_true, rc_timeout = ping_timeout, rc_interval = 1,
                rc_reraise = True, rc_exc_type = CommunicationTimeoutError, rc_has_name = True,
                rc_repr = (\<lambda>_. []), rc_clock = clock\<rparr> s
      in (case re_result r of Inr _ \<Rightarrow> Inr () | Inl _ \<Rightarrow> Inl (CheckDeviceReadyError 2), re_state r))"

text \<open>An auxiliary device does not recover: it raises the error of the check again.\<close>

definition aux_ops :: "(string \<times> ('s, unit) stateful) list \<Rightarrow> ('s, unit) stateful \<Rightarrow> bool \<Rightarrow> nat \<Rightarrow> 's dops" where
  "aux_ops health_checks upgrade has_flash_build recovery_attempts =
     \<lparr>o_health_checks = health_checks, o_recover = (\<lambda>err s. (Inl err, s)), o_upgrade = upgrade,
      o_has_flash_build = has_flash_build, o_recovery_attempts = recovery_attempts\<rparr>"

definition aux_make_device_ready ::
  "(string \<times> ('s, unit) stateful) list \<Rightarrow> ('s, unit) stateful \<Rightarrow> bool \<Rightarrow> nat \<Rightarrow> string \<Rightarrow> ('s, unit) stateful" where
  "aux_make_device_ready health_checks upgrade has_flash_build recovery_attempts setting =
     make_device_ready (aux_ops health_checks upgrade has_flash_build recovery_attempts) setting"

text \<open>
  Setting a property: persistent ones are refused, dynamic ones go to their setter, which may be
  one of a capability, and all others become options that the manager saves.
\<close>

record ('v, 's) prop_access =
  pa_persistent :: "string list"
  pa_dynamic :: "string list"
  pa_has_setter :: "string \<Rightarrow> ('s, bool) stateful"
  pa_setattr :: "string \<Rightarrow> 'v \<Rightarrow> ('s, unit) stateful"
  pa_set_option :: "string \<Rightarrow> 'v \<Rightarrow> 's \<Rightarrow> 's"
  pa_save :: "string \<Rightarrow> 'v \<Rightarrow> ('s, unit) stateful"

definition aux_set_property :: "('v, 's) prop_access \<Rightarrow> string \<Rightarrow> 'v \<Rightarrow> ('s, unit) stateful" where
  "aux_set_property pa prop_name v =
     (if prop_name \<in> set (pa_persistent pa) then raiseS ValueError
      else if prop_name \<in> set (pa_dynamic pa) then
        bindS (pa_has_setter pa prop_name) (\<lambda>b. if \<not> b then raiseS ValueError else pa_setattr pa prop_name v)
      else (\<lambda>s. pa_save pa prop_name v (pa_set_option pa prop_name v s)))"

definition aux_get_supported_capabilities :: "('k \<Rightarrow> string) \<Rightarrow> 'k list \<Rightarrow> string list" where
  "aux_get_supported_capabilities capability_name flavors = sorted_list_of_set (set (map capability_name flavors))"


section \<open>The last user closes the device\<close>

definition closes :: "('c \<Rightarrow> unit result) \<Rightarrow> string list \<Rightarrow> string \<Rightarrow> nat \<Rightarrow> ('v, 'c) aux_instance \<Rightarrow> ('v, 'c) aux_instance" where
  "closes close_capability supported name m d =
     ((\<lambda>d. snd (aux_close close_capability supported name False d)) ^^ m) d"

lemma aux_cleanup_polite:
  assumes "\<And>c e. close_capability c = Inl e \<Longrightarrow> is_device_error e" and "distinct supported"
  shows "aux_cleanup close_capability supported name d = (Inr (), d\<lparr>
    ai_slots := filter (\<lambda>(n, c). n \<notin> set supported) (ai_slots d),
    ai_closed := ai_closed d @ List.map_filter (map_of (ai_slots d)) supported, ai_open := removeAll name (ai_open d)\<rparr>)"
proof -
  obtain r slots closed where run: "reset_all_capabilities close_capability True supported (ai_slots d, ai_closed d) = (r, (slots, closed))"
    by (metis prod.collapse)
  from reset_all_auxiliary [OF assms run] run show ?thesis
    by (simp add: aux_cleanup_def aux_reset_all_capabilities_def bindS_def)
qed

lemma closes_before_last:
  assumes "int m < ai_users d"
  shows "closes close_capability supported name m d = d\<lparr>ai_users := ai_users d - int m\<rparr>"
  using assms by (induction m) (simp_all add: closes_def aux_close_def Let_def)

lemma closes_after_last:
  assumes "ai_users d \<le> 0"
  shows "closes close_capability supported name m d = d"
  using assms by (induction m) (simp_all add: closes_def aux_close_def Let_def)

lemma closes_add:
  "closes close_capability supported name (m + k) d = closes close_capability supported name m (closes close_capability supported name k d)"
  by (simp add: closes_def funpow_add)

text \<open>C27. A device with n users survives n - 1 calls of \<open>close\<close> with all its capabilities and stays
  open in the manager; the n-th call closes every capability once, forgets them and takes the device from
  the open ones; and further calls change nothing. This holds also when closing capabilities
  raises device errors.\<close>

theorem last_user_closes:
  assumes "\<And>c e. close_capability c = Inl e \<Longrightarrow> is_device_error e" and "distinct supported"
    and "fst ` set (ai_slots d) \<subseteq> set supported" and "ai_users d = int n" and "0 < n"
  shows "closes close_capability supported name m d = (if m < n then d\<lparr>ai_users := int (n - m)\<rparr>
    else d\<lparr>ai_users := 0, ai_slots := [], ai_closed := ai_closed d @ List.map_filter (map_of (ai_slots d)) supported,
      ai_open := removeAll name (ai_open d)\<rparr>)"
proof (cases "m < n")
  case True
  with closes_before_last [of m d close_capability supported name] assms(4) show ?thesis by (simp add: of_nat_diff)
next
  case False
  let ?d = "d\<lparr>ai_users := 1\<rparr>"
  have "filter (\<lambda>(n, c). n \<notin> set supported) (ai_slots d) = []"
    using assms(3) by (fastforce simp: filter_empty_conv)
  then have last: "closes close_capability supported name 1 ?d = d\<lparr>ai_users := 0, ai_slots := [],
      ai_closed := ai_closed d @ List.map_filter (map_of (ai_slots d)) supported, ai_open := removeAll name (ai_open d)\<rparr>"
    by (simp add: closes_def aux_close_def Let_def aux_cleanup_polite [OF assms(1,2)])
  have "closes close_capability supported name (n - 1) d = ?d"
    using closes_before_last [of "n - 1" d close_capability supported name] assms(4,5) by (simp add: of_nat_diff)
  moreover have "m = (m - n) + (1 + (n - 1))" using False assms(5) by simp
  ultimately have "closes close_capability supported name m d =
      closes close_capability supported name (m - n) (closes close_capability supported name 1 ?d)"
    using closes_add [of close_capability supported name "m - n" "1 + (n - 1)" d]
      closes_add [of close_capability supported name 1 "n - 1" d] by simp
  with last closes_after_last [of "d\<lparr>ai_users := 0, ai_slots := [],
      ai_closed := ai_closed d @ List.map_filter (map_of (ai_slots d)) supported, ai_open := removeAll name (ai_open d)\<rparr>"
      close_capability supported name "m - n"] False show ?thesis by simp
qed

theorem last_user_closes_witness:
  "closes (\<lambda>c. if c = 7 then Inl DeviceError else Inr ()) [''shell'', ''switchboard''] ''hub-1'' 2
     \<lparr>ai_persistent = [], ai_optional = [], ai_log_file = [], ai_users = 2,
      ai_slots = [(''switchboard'', 5), (''shell'', 7)], ai_closed = [], ai_open = [''hub-1'', ''cam-1'']\<rparr> =
   (\<lparr>ai_persistent = [], ai_optional = [], ai_log_file = [], ai_users = 0, ai_slots = [],
     ai_closed = [7, 5], ai_open = [''cam-1'']\<rparr> :: (nat, nat) aux_instance)"
proof -
  let ?close = "\<lambda>c::nat. if c = 7 then Inl DeviceError else Inr ()"
  let ?d = "\<lparr>ai_persistent = [], ai_optional = [], ai_log_file = [], ai_users = 2,
      ai_slots = [(''switchboard'', 5), (''shell'', 7)], ai_closed = [], ai_open = [''hub-1'', ''cam-1'']\<rparr> :: (nat, nat) aux_instance"
  have polite: "?close c = Inl e \<Longrightarrow> is_device_error e" for c e by (auto simp: is_device_error_def split: if_splits)
  have "distinct [''shell'', ''switchboard'']" "fst ` set (ai_slots ?d) \<subseteq> set [''shell'', ''switchboard'']"
    "ai_users ?d = int 2" "0 < (2::nat)" by simp_all
  from last_user_closes [OF polite this, where name = "''hub-1''" and m = 2] show ?thesis by (simp add: List.map_filter_def)
qed

section \<open>The log file is the one being written\<close>

lemma follow_rotation_to:
  assumes "\<And>i. i < n \<Longrightarrow> get_next_log_filename (f i) = f (Suc i)" and "\<And>i. j < i \<Longrightarrow> i \<le> k \<Longrightarrow> exists (f i)"
    and "\<not> exists (f (Suc k))" and "j \<le> k" and "k < n"
  shows "follow_rotation exists (f j) = Some (f k)"
  using assms(2,4)
proof (induction "k - j" arbitrary: j)
  case 0
  then have "j = k" by simp
  with assms(1) [of k] assms(3,5) show ?case by (subst follow_rotation.simps) (simp add: Let_def)
next
  case (Suc x)
  then have "exists (f (Suc j))" and "get_next_log_filename (f j) = f (Suc j)" using assms(1) [of j] assms(5) by simp_all
  then have "follow_rotation exists (f j) = follow_rotation exists (f (Suc j))"
    by (subst follow_rotation.simps) (simp add: Let_def)
  with Suc show ?case by simp
qed


lemma log_pieces_length: "length (log_pieces M cur ls) \<le> Suc (length ls)"
  by (induction M cur ls rule: log_pieces.induct) (auto simp: Let_def le_SucI)

text \<open>The property \<open>log_file_name\<close> of a device finds the file that the log writer is writing, however often it
  has rotated: the search for the last file ends, at the file that is open in the writer.\<close>

theorem log_file_is_current:
  assumes "log_names d b e" and "0 < M" and "\<forall>p. can_open p" and "writing d b e M 0 cur st"
    and "Suc (length lines) < 100000" and "list_all (\<lambda>l. l \<noteq> []) lines"
    and "\<forall>i. 0 < i \<and> i < 100000 \<longrightarrow> w_disk st (nth_log d b e i) = None" and "ai_log_file dev = nth_log d b e 0"
  shows "\<exists>st' p. writer_rounds stamp can_open (line_rounds lines) st = (Inr (), st') \<and> w_file st' = Opened p \<and>
    aux_log_file_name (\<lambda>p. w_disk st' p \<noteq> None) dev = Some p"
proof -
  let ?ps = "log_pieces M cur lines"
  have "0 + length lines < 100000" using assms(5) by simp
  from writer_pieces [OF assms(1-4) this assms(6,7), of stamp] obtain st' where
    r: "writer_rounds stamp can_open (line_rounds lines) st = (Inr (), st')"
    and w: "writing d b e M (length ?ps - 1) (last ?ps) st'"
    and h: "holds_pieces d b e 0 ?ps (w_disk st')"
    and a: "\<forall>i. length ?ps - 1 < i \<and> i < 100000 \<longrightarrow> w_disk st' (nth_log d b e i) = None" by auto
  have len: "0 < length ?ps" "length ?ps < 100000"
    using log_pieces_length [of M cur lines] assms(5) by (simp_all add: le_less_trans)
  have "follow_rotation (\<lambda>p. w_disk st' p \<noteq> None) (nth_log d b e 0) = Some (nth_log d b e (length ?ps - 1))"
  proof (rule follow_rotation_to [where n = 100000])
    show "get_next_log_filename (nth_log d b e i) = nth_log d b e (Suc i)" if "i < 100000" for i
      using next_log_path [OF assms(1) that] by (simp add: nth_log_def)
    show "w_disk st' (nth_log d b e i) \<noteq> None" if "0 < i" "i \<le> length ?ps - 1" for i
    proof -
      have "i < length ?ps" using that len by linarith
      with h show ?thesis unfolding holds_pieces_def by fastforce
    qed
    show "\<not> w_disk st' (nth_log d b e (Suc (length ?ps - 1))) \<noteq> None" using a len by simp
  qed (use len in simp_all)
  with r w show ?thesis by (simp add: aux_log_file_name_def assms(8) writing_def)
qed

theorem log_file_is_current_witness:
  "\<exists>st' p. writer_rounds (\<lambda>_. ''<t>'') (\<lambda>_. True) (line_rounds [''hello'', ''big'' @ [newline], ''world'' @ [newline]]) sample_writer =
       (Inr (), st') \<and> w_file st' = Opened p \<and> p = ''/tmp/echo.00002.txt'' \<and>
     aux_log_file_name (\<lambda>p. w_disk st' p \<noteq> None)
       (\<lparr>ai_persistent = [], ai_optional = [], ai_log_file = ''/tmp/echo.txt'', ai_users = 1, ai_slots = [],
         ai_closed = [], ai_open = []\<rparr> :: (nat, nat) aux_instance) = Some p"
proof -
  let ?lines = "[''hello'', ''big'' @ [newline], ''world'' @ [newline]]"
  let ?dev = "\<lparr>ai_persistent = [], ai_optional = [], ai_log_file = ''/tmp/echo.txt'', ai_users = 1, ai_slots = [],
         ai_closed = [], ai_open = []\<rparr> :: (nat, nat) aux_instance"
  have names: "log_names ''/tmp'' ''echo'' ''txt''" by code_simp
  have w: "writing ''/tmp'' ''echo'' ''txt'' 10 0 [] sample_writer" by code_simp
  have zero: "nth_log ''/tmp'' ''echo'' ''txt'' 0 = ''/tmp/echo.txt''" by code_simp
  have "w_disk sample_writer (nth_log ''/tmp'' ''echo'' ''txt'' i) = None" if "0 < i \<and> i < 100000" for i
    using nth_log_inj [OF names, of 0 i] that zero by (auto simp: sample_writer_def)
  then have none: "\<forall>i. 0 < i \<and> i < 100000 \<longrightarrow> w_disk sample_writer (nth_log ''/tmp'' ''echo'' ''txt'' i) = None" by blast
  have "ai_log_file ?dev = nth_log ''/tmp'' ''echo'' ''txt'' 0" by (simp add: zero)
  from log_file_is_current [OF names _ _ w _ _ none this, of "\<lambda>_. True" ?lines "\<lambda>_. ''<t>''"]
  obtain st' p where r: "writer_rounds (\<lambda>_. ''<t>'') (\<lambda>_. True) (line_rounds ?lines) sample_writer = (Inr (), st')"
    and p: "w_file st' = Opened p" "aux_log_file_name (\<lambda>p. w_disk st' p \<noteq> None) ?dev = Some p" by auto
  have "w_file (snd (writer_rounds (\<lambda>_. ''<t>'') (\<lambda>_. True) (line_rounds ?lines) sample_writer)) = Opened ''/tmp/echo.00002.txt''"
    by code_simp
  with r p show ?thesis by simp
qed

end
