(* ===== verification/Power_Hubs.thy ===== *)
theory Power_Hubs
  imports Power_Facts Auxiliary_Device
begin

text \<open>
  The power hubs (\<open>gazoo_device/auxiliary_devices/cambrionix.py\<close>, \<open>yepkit.py\<close>, \<open>dli_powerswitch.py\<close>,
  \<open>dlink_switch.py\<close>, \<open>unifi_poe_switch.py\<close>), the requests of \<open>utility/http_utils.py\<close>, and the scripts
  of a DLI switch (\<open>capabilities/embedded_script_dli_powerswitch.py\<close>). Times are in microseconds.
\<close>

section \<open>The serial line of a Cambrionix hub\<close>

text \<open>
  The hub answers what is written to it: \<open>dl_answer out\<close> is all it has sent once \<open>out\<close> was written, and
  a read waits in vain when all of that was read. The \<open>n\<close>-th read of what is waiting gives at
  most \<open>dl_chunk n + 1\<close> characters.
\<close>

record hub_line =
  dl_answer :: "string \<Rightarrow> string"
  dl_chunk :: "nat \<Rightarrow> nat"

record port_state =
  pt_out :: string
  pt_read :: nat
  pt_reads :: nat
  pt_open :: bool

type_synonym 'a port_op = "(port_state, 'a) stateful"

definition waiting :: "hub_line \<Rightarrow> port_state \<Rightarrow> string" where
  "waiting d p = drop (pt_read p) (dl_answer d (pt_out p))"

definition serial_write :: "string \<Rightarrow> unit port_op" where
  "serial_write s = doS (\<lambda>p. p\<lparr>pt_out := pt_out p @ s\<rparr>)"

definition serial_take :: "nat \<Rightarrow> port_state \<Rightarrow> port_state" where
  "serial_take n p = p\<lparr>pt_read := pt_read p + n, pt_reads := Suc (pt_reads p)\<rparr>"

definition PROMPT :: string where
  "PROMPT = newline # ''>> ''"

definition CRLF :: string where
  "CRLF = [cret, newline]"

function get_response_from :: "hub_line \<Rightarrow> string \<Rightarrow> string list port_op" where
  "get_response_from d read_data p =
     (if ends_with read_data PROMPT then (Inr (splitlines str_line_end read_data), p)
      else if waiting d p = [] then (Inl DeviceError, p)
      else let n = min (Suc (dl_chunk d (pt_reads p))) (length (waiting d p))
           in get_response_from d (read_data @ take n (waiting d p)) (serial_take n p))"
  by pat_completeness auto
termination
  by (relation "measure (\<lambda>(d, r, p). length (waiting d p))") (auto simp: waiting_def serial_take_def)

declare get_response_from.simps [simp del]

definition get_response :: "hub_line \<Rightarrow> string list port_op" where
  "get_response d = get_response_from d []"

function await_echo :: "hub_line \<Rightarrow> char \<Rightarrow> unit port_op" where
  "await_echo d c p =
     (case waiting d p of
        [] \<Rightarrow> (Inl DeviceError, p)
      | x # _ \<Rightarrow> if x = c then (Inr (), serial_take 1 p) else await_echo d c (serial_take 1 p))"
  by pat_completeness auto
termination
  by (relation "measure (\<lambda>(d, c, p). length (waiting d p))")
    (auto simp: waiting_def serial_take_def dest!: arg_cong [where f = length])

declare await_echo.simps [simp del]

primrec write_chars :: "hub_line \<Rightarrow> bool \<Rightarrow> string \<Rightarrow> unit port_op" where
  "write_chars d reboot [] = returnS ()"
| "write_chars d reboot (c # cs) =
     bindS (serial_write [c]) (\<lambda>_.
       if reboot \<and> c = cret then returnS ()
       else bindS (await_echo d c) (\<lambda>_. write_chars d reboot cs))"

definition write_command :: "hub_line \<Rightarrow> string \<Rightarrow> unit port_op" where
  "write_command d command =
     bindS (serial_write (char_of (3 :: nat) # CRLF)) (\<lambda>_.
     bindS (get_response d) (\<lambda>_.
       write_chars d (starts_with command ''reboot'') (command @ (if ends_with command CRLF then [] else CRLF))))"

text \<open>\<open>_command\<close>; opening the port is a parameter. The reboot commands have no response.\<close>

definition hub_command :: "hub_line \<Rightarrow> unit port_op \<Rightarrow> string \<Rightarrow> string list option port_op" where
  "hub_command d open_port command =
     bindS open_port (\<lambda>_.
       finallyS
         (bindS (write_command d command) (\<lambda>_.
            if starts_with command ''reboot'' then returnS None
            else bindS (get_response d) (\<lambda>response.
                   case response of
                     [] \<Rightarrow> raiseS IndexError
                   | l # _ \<Rightarrow> if starts_with l ''*E'' then raiseS DeviceError else returnS (Some (butlast response)))))
         (doS (\<lambda>p. p\<lparr>pt_open := False\<rparr>)))"

section \<open>Cambrionix\<close>

text \<open>A hub is its commands, as a function over its state.\<close>

type_synonym 's hub_commands = "string \<Rightarrow> ('s, string list option) stateful"

fun join_words :: "string list \<Rightarrow> string" where
  "join_words [] = []"
| "join_words [w] = w"
| "join_words (w # ws) = w @ '' '' @ join_words ws"

text \<open>\<open>_list_to_str\<close>: \<open>None\<close> stays what it is.\<close>

definition list_to_str :: "string list option \<Rightarrow> string option" where
  "list_to_str lst = map_option join_words lst"

definition cambrionix_shell :: "'s hub_commands \<Rightarrow> string \<Rightarrow> ('s, string option) stateful" where
  "cambrionix_shell cmd command = bindS (cmd command) (\<lambda>response. returnS (list_to_str response))"

definition cambrionix_shell_code :: "'s hub_commands \<Rightarrow> string \<Rightarrow> ('s, string option \<times> int) stateful" where
  "cambrionix_shell_code cmd command =
     exceptS (bindS (cambrionix_shell cmd command) (\<lambda>response. returnS (response, 0)))
       (\<lambda>e. if is_device_error e then returnS (Some [], -1) else raiseS e)"

definition check_clear_flags :: "'s hub_commands \<Rightarrow> ('s, unit) stateful" where
  "check_clear_flags cmd = bindS (cmd ''cef'') (\<lambda>_. bindS (cmd ''crf'') (\<lambda>_. returnS ()))"

definition cambrionix_reboot :: "'s hub_commands \<Rightarrow> string \<Rightarrow> ('s, unit) stateful" where
  "cambrionix_reboot cmd reboot_method =
     logged (if lower reboot_method \<notin> {''watchdog'', ''shell''} then raiseS ValueError
       else bindS (cmd (if reboot_method = ''watchdog'' then ''reboot watchdog'' else ''reboot'')) (\<lambda>_. returnS ()))"

text \<open>\<open>recover\<close> of the hubs that reboot: only for a device that does not respond.\<close>

definition recover_by_reboot :: "(exn \<Rightarrow> bool) \<Rightarrow> ('s, unit) stateful \<Rightarrow> exn \<Rightarrow> ('s, unit) stateful" where
  "recover_by_reboot not_responsive reboot error = logged (if not_responsive error then reboot else raiseS error)"

definition split_colon :: "string \<Rightarrow> (string \<times> string) option" where
  "split_colon line =
     (if CHR '':'' \<in> set line
      then Some (takeWhile (\<lambda>c. c \<noteq> CHR '':'') line, tl (dropWhile (\<lambda>c. c \<noteq> CHR '':'') line)) else None)"

definition sysinfo_of :: "string list \<Rightarrow> (string \<times> string) list result" where
  "sysinfo_of strings =
     (case strings of
        [] \<Rightarrow> Inl IndexError
      | l # _ \<Rightarrow> Inr (foldl (\<lambda>d line. case split_colon line of
            None \<Rightarrow> d | Some (k, v) \<Rightarrow> AList.update (lower k) (rstrip (dropWhile is_space v)) d) [(''name'', l)] strings))"

definition get_system_status :: "'s hub_commands \<Rightarrow> ('s, (string \<times> string) list) stateful" where
  "get_system_status cmd =
     bindS (cmd ''system'') (\<lambda>r. case r of None \<Rightarrow> raiseS TypeError | Some strings \<Rightarrow> liftS (sysinfo_of strings))"

definition firmware_version :: "'s hub_commands \<Rightarrow> ('s, string) stateful" where
  "firmware_version cmd = bindS (get_system_status cmd) (\<lambda>d. liftS (dict_item d ''firmware''))"

definition get_system_hardware :: "'s hub_commands \<Rightarrow> ('s, string) stateful" where
  "get_system_hardware cmd = bindS (get_system_status cmd) (\<lambda>d. liftS (dict_item d ''hardware''))"

text \<open>
  \<open>get_detection_info\<close>: \<open>port_count\<close> is the number of ports that \<open>CAMBRIONIX_PORT_MAP\<close> has for a model,
  \<open>serial_of\<close> the serial number in the name of a serial path.
\<close>

definition cambrionix_address :: "props \<Rightarrow> pval result" where
  "cambrionix_address persistent =
     (let v = get_or_none persistent ''console_port_name''
      in if pv_true v then Inr v else dict_item persistent ''hub_port_name'')"

definition cambrionix_detection_info ::
  "'s hub_commands \<Rightarrow> (string \<Rightarrow> nat option) \<Rightarrow> (pval \<Rightarrow> pval result) \<Rightarrow> props \<Rightarrow> ('s, props \<times> props) stateful" where
  "cambrionix_detection_info cmd port_count serial_of persistent =
     logged (bindS (get_system_hardware cmd) (\<lambda>model.
       case port_count model of
         None \<Rightarrow> raiseS DeviceError
       | Some n \<Rightarrow>
           bindS (liftS (cambrionix_address (AList.update ''model'' (PStr model) persistent))) (\<lambda>address.
           bindS (liftS (serial_of address)) (\<lambda>serial.
             returnS (dict_update persistent [(''model'', PStr model), (''console_port_name'', address), (''total_ports'', PInt (int n)),
                 (''ftdi_serial_number'', serial), (''serial_number'', serial)], [])))))"

definition cambrionix_is_connected :: "(pval \<Rightarrow> bool) \<Rightarrow> props \<Rightarrow> bool result" where
  "cambrionix_is_connected exists_path persistent =
     bindE (if ''console_port_name'' \<in> set (map fst persistent) then dict_item persistent ''console_port_name''
            else dict_item persistent ''hub_port_name'') (\<lambda>address. Inr (exists_path address))"

section \<open>Yepkit\<close>

definition yepkit_shell :: "'s host \<Rightarrow> string \<Rightarrow> ('s, string) stateful" where
  "yepkit_shell h command =
     (if \<not> contains ''ykushcmd'' command then raiseS DeviceError
      else bindS (runS h (split_on CHR '' '' command) None) (\<lambda>e.
             if ce_code e = 0 then returnS (ce_stdout e) else raiseS CommandFailed))"

definition yepkit_shell_code :: "'s host \<Rightarrow> string \<Rightarrow> ('s, string \<times> int) stateful" where
  "yepkit_shell_code h command =
     bindS (yepkit_shell h command) (\<lambda>r. returnS (r, if contains ''Application Help'' r then -1 else 0))"

definition yepkit_detection_info :: "string \<Rightarrow> props \<Rightarrow> ('s, props \<times> props) stateful" where
  "yepkit_detection_info address persistent =
     logged (if length address < 4 then raiseS RuntimeError
       else returnS (dict_update persistent [(''serial_number'', PStr address), (''model'', PStr ''yepkit''), (''total_ports'', PInt 3)], []))"

definition yepkit_is_connected :: "'s host \<Rightarrow> props \<Rightarrow> ('s, bool) stateful" where
  "yepkit_is_connected h persistent =
     bindS (liftS (dict_item persistent ''console_port_name'')) (\<lambda>v.
     bindS (get_all_yepkit_serials h) (\<lambda>serials. returnS (v \<in> PStr ` set serials)))"

text \<open>\<open>shell_with_regex\<close> of a hub, as its capability calls it: five tries, and no error.\<close>

definition hub_regex_shell ::
  "(string \<Rightarrow> ('s, string) stateful) \<Rightarrow> (string \<Rightarrow> string \<Rightarrow> string option list option) \<Rightarrow> string \<Rightarrow> string \<Rightarrow> ('s, string) stateful" where
  "hub_regex_shell shell re_search command regex = command_with_regex (shell command) (re_search regex) 1 False 5"

section \<open>HTTP requests\<close>

record http_response =
  hr_code :: int
  hr_text :: string

text \<open>The attempts of a request: \<open>retryable\<close> are the exceptions of requests and urllib3.\<close>

primrec http_tries :: "(exn \<Rightarrow> bool) \<Rightarrow> ('s, 'r) stateful \<Rightarrow> nat \<Rightarrow> ('s, 'r) stateful" where
  "http_tries retryable request 0 = raiseS UnboundLocalError"
| "http_tries retryable request (Suc n) =
     exceptS request (\<lambda>e. if retryable e \<and> 0 < n then http_tries retryable request n else raiseS e)"

definition checked_response ::
  "(exn \<Rightarrow> bool) \<Rightarrow> ('s, http_response) stateful \<Rightarrow> int list \<Rightarrow> nat \<Rightarrow> ('s, http_response) stateful" where
  "checked_response retryable request valid_return_codes tries =
     (if tries = 0 then raiseS UnboundLocalError
      else bindS (exceptS (http_tries retryable request tries) (\<lambda>_. raiseS RuntimeError)) (\<lambda>response.
             if hr_code response \<notin> set (if valid_return_codes = [] then [200] else valid_return_codes) then raiseS RuntimeError
             else returnS response))"

text \<open>\<open>headers_ok\<close> and \<open>json_ok\<close>: the arguments are of the types that the functions ask for.\<close>

definition send_http_get ::
  "(exn \<Rightarrow> bool) \<Rightarrow> ('s, http_response) stateful \<Rightarrow> bool \<Rightarrow> int list \<Rightarrow> nat \<Rightarrow> ('s, http_response) stateful" where
  "send_http_get retryable get headers_ok valid_return_codes tries =
     (if \<not> headers_ok then raiseS TypeError else checked_response retryable get valid_return_codes tries)"

definition send_http_post ::
  "(exn \<Rightarrow> bool) \<Rightarrow> ('s, http_response) stateful \<Rightarrow> bool \<Rightarrow> bool \<Rightarrow> int list \<Rightarrow> nat \<Rightarrow> ('s, http_response) stateful" where
  "send_http_post retryable post json_ok headers_ok valid_return_codes tries =
     (if \<not> json_ok then raiseS TypeError else if \<not> headers_ok then raiseS TypeError
      else checked_response retryable post valid_return_codes tries)"

section \<open>DLI power switch\<close>

record 's dli_env =
  de_get :: "string \<Rightarrow> (string \<times> string) list \<Rightarrow> ('s, http_response) stateful"
  de_post :: "string \<Rightarrow> (string \<times> string) list \<Rightarrow> string option \<Rightarrow> json option \<Rightarrow> ('s, http_response) stateful"
  de_retryable :: "exn \<Rightarrow> bool"
  de_log :: "string \<Rightarrow> ('s, unit) stateful"

definition format_response :: "string \<Rightarrow> string" where
  "format_response text_in = filter (\<lambda>c. c \<notin> set [CHR ''['', CHR 0x22, CHR '']'']) text_in"

definition dli_write_command ::
  "'s dli_env \<Rightarrow> string \<Rightarrow> string \<Rightarrow> (string \<times> string) list \<Rightarrow> string option \<Rightarrow> json option \<Rightarrow> ('s, string) stateful" where
  "dli_write_command v http_method url headers data json_data =
     bindS (de_log v (''Sending command '' @ url @ newline # [])) (\<lambda>_.
     bindS (exceptS
        (if contains ''GET'' http_method
         then send_http_get (de_retryable v) (de_get v url headers) True [200, 206, 207] 1
         else send_http_post (de_retryable v) (de_post v url headers data json_data) True True [200, 206, 207] 1)
        (\<lambda>err. if err = RuntimeError \<or> err = TypeError
               then bindS (de_log v (''Command '' @ url @ '' failed'' @ newline # [])) (\<lambda>_. raiseS err) else raiseS err)) (\<lambda>response.
     bindS (de_log v (''Command '' @ url @ '' sent successfully.'' @ newline # [])) (\<lambda>_.
       returnS (format_response (hr_text response)))))"

definition dli_detection_info :: "'s dli_env \<Rightarrow> string \<Rightarrow> props \<Rightarrow> ('s, props \<times> props) stateful" where
  "dli_detection_info v ip persistent =
     logged (bindS (dli_write_command v ''GET'' (''http://'' @ ip @ ''/restapi/config/serial/'') [(''Accept'', ''application/json'')] None None)
       (\<lambda>serial. returnS (dict_update persistent [(''model'', PStr ''LPC9''), (''serial_number'', PStr serial)], [])))"

text \<open>The scripts of the switch.\<close>

definition script_url :: "string \<Rightarrow> string \<Rightarrow> string \<Rightarrow> string" where
  "script_url base_url ip endpoint = fill_named ''ip'' ip base_url @ endpoint"

definition script_headers :: "(string \<times> string) list" where
  "script_headers = [(''Accept'', ''application/json''), (''Content-Type'', ''application/json''), (''X-CSRF'', ''x'')]"

type_synonym 's dli_http = "string \<Rightarrow> string \<Rightarrow> (string \<times> string) list \<Rightarrow> json option \<Rightarrow> ('s, string) stateful"

definition get_current_running_threads :: "'s dli_http \<Rightarrow> string \<Rightarrow> string \<Rightarrow> ('s, string) stateful" where
  "get_current_running_threads http base_url ip = http ''GET'' (script_url base_url ip ''script/threads/'') script_headers None"

fun join_commas :: "string list \<Rightarrow> string" where
  "join_commas [] = []"
| "join_commas [w] = w"
| "join_commas (w # ws) = w @ '','' @ join_commas ws"

definition run_script :: "'s dli_http \<Rightarrow> string \<Rightarrow> string \<Rightarrow> string \<Rightarrow> string list \<Rightarrow> ('s, string) stateful" where
  "run_script http base_url ip script_name script_args =
     logged (http ''POST'' (script_url base_url ip ''script/start/'') script_headers
       (Some (JList [JDict [(''user_function'', JStr script_name),
          (''source'', JStr (script_name @ ''('' @ join_commas script_args @ '')''))]])))"

definition terminate_script :: "'s dli_http \<Rightarrow> string \<Rightarrow> string \<Rightarrow> string \<Rightarrow> ('s, string) stateful" where
  "terminate_script http base_url ip thread_id =
     logged (http ''POST'' (script_url base_url ip ''script/stop/'') script_headers (Some (JList [JStr thread_id])))"

section \<open>D-Link switch\<close>

definition dlink_total_ports :: "'s host \<Rightarrow> string \<Rightarrow> ('s, nat) stateful" where
  "dlink_total_ports h ip =
     bindS (snmp_run h (''snmpget -v 2c -c private '' @ ip @ '':161 1.3.6.1.2.1.2.1.0'')) (\<lambda>response.
       case mode_response response of None \<Rightarrow> raiseS DeviceError | Some n \<Rightarrow> returnS (parse_nat n))"

text \<open>\<open>model_name\<close> is \<open>get_dlink_model_name\<close> of theory \<open>Detect_Criteria\<close>.\<close>

definition dlink_detection_info :: "'s host \<Rightarrow> ('s, string) stateful \<Rightarrow> string \<Rightarrow> props \<Rightarrow> ('s, props \<times> props) stateful" where
  "dlink_detection_info h model_name ip persistent =
     logged (bindS model_name (\<lambda>model. bindS (dlink_total_ports h ip) (\<lambda>n.
       returnS (dict_update persistent [(''model'', PStr model), (''serial_number'', PStr (replace_all ''.'' [] ip)),
         (''total_ports'', PInt (int n))], []))))"

definition hub_is_connected :: "'s host \<Rightarrow> props \<Rightarrow> ('s, bool) stateful" where
  "hub_is_connected h persistent =
     bindS (liftS (dict_item persistent ''console_port_name'')) (\<lambda>v.
       case v of PStr ip \<Rightarrow> pings h ip | _ \<Rightarrow> raiseS TypeError)"

section \<open>Unifi switch\<close>

record 's unifi_env =
  ue_shell :: "string \<Rightarrow> ('s, string) stateful"
  ue_shell_code :: "string \<Rightarrow> ('s, string \<times> int) stateful"
  ue_regex :: "string \<Rightarrow> ('s, string) stateful"
  ue_ping :: "('s, bool) stateful"
  ue_note :: "string \<Rightarrow> ('s, unit) stateful"
  ue_close_all :: "('s, unit) stateful"
  ue_open_all :: "('s, unit) stateful"
  ue_wait_connected :: "int \<Rightarrow> ('s, unit) stateful"
  ue_sleep :: "int \<Rightarrow> ('s, unit) stateful"
  ue_time :: "('s, int) stateful"

text \<open>The shell command for \<open>TELNET\<close>, and the one that marks the log.\<close>

definition TELNET_CMD :: string where
  "TELNET_CMD = ''echo '' @ [CHR 0x27] @ ''exit'' @ [CHR 0x27] @ '' | telnet localhost''"

definition unifi_total_ports :: "'s unifi_env \<Rightarrow> ('s, int) stateful" where
  "unifi_total_ports u = bindS (ue_regex u ''NUMBER_OF_PORTS'') (\<lambda>s. liftS (py_int (PStr s)))"

definition check_telnet_connect :: "'s unifi_env \<Rightarrow> ('s, unit) stateful" where
  "check_telnet_connect u =
     exceptS (bindS (ue_shell_code u TELNET_CMD) (\<lambda>(response, return_code).
                if return_code \<noteq> 0 then raiseS DeviceError else returnS ()))
       (\<lambda>_. raiseS (CheckDeviceReadyError 2))"

definition unifi_detection_info :: "'s unifi_env \<Rightarrow> props \<Rightarrow> ('s, props \<times> props) stateful" where
  "unifi_detection_info u persistent =
     logged (bindS (ue_regex u ''MODEL'') (\<lambda>model. bindS (ue_regex u ''SERIAL_NUMBER'') (\<lambda>serial.
       returnS (dict_update persistent [(''model'', PStr model), (''serial_number'', PStr (replace_all '':'' [] serial))], []))))"

text \<open>
  \<open>_ensure_device_goes_offline\<close>: two failed pings in a row. The loop has fuel; when every sleep takes
  its half second, \<open>timeout div 500000 + 1\<close> rounds are enough.
\<close>

fun offline_loop :: "'s unifi_env \<Rightarrow> int \<Rightarrow> nat \<Rightarrow> nat \<Rightarrow> ('s, unit) stateful" where
  "offline_loop u end_time 0 count_down = raiseS OutOfFuel"
| "offline_loop u end_time (Suc fuel) count_down =
     bindS (ue_time u) (\<lambda>now.
       if now < end_time then
         bindS (ue_ping u) (\<lambda>up.
           let count_now = (if up then 0 else Suc count_down)
           in if count_now = 2 then returnS ()
              else bindS (ue_sleep u 500000) (\<lambda>_. offline_loop u end_time fuel count_now))
       else raiseS DeviceError)"

definition ensure_device_goes_offline :: "'s unifi_env \<Rightarrow> int \<Rightarrow> ('s, unit) stateful" where
  "ensure_device_goes_offline u timeout =
     bindS (ue_time u) (\<lambda>start_time.
     bindS (offline_loop u (start_time + timeout) (nat (timeout div 500000 + 2)) 0) (\<lambda>_.
     bindS (ue_close_all u) (\<lambda>_. ue_sleep u 5000000)))"

fun online_loop :: "'s unifi_env \<Rightarrow> int \<Rightarrow> nat \<Rightarrow> ('s, unit) stateful" where
  "online_loop u end_time 0 = raiseS OutOfFuel"
| "online_loop u end_time (Suc fuel) =
     bindS (ue_time u) (\<lambda>now.
       if now < end_time then
         bindS (exceptS (bindS (ue_shell_code u TELNET_CMD) (\<lambda>(_, return_code). returnS (return_code = 0)))
                  (\<lambda>e. if is_device_error e then returnS False else raiseS e)) (\<lambda>done_now.
           if done_now then returnS ()
           else bindS (ue_sleep u 500000) (\<lambda>_. online_loop u end_time fuel))
       else raiseS DeviceError)"

text \<open>\<open>_ensure_device_is_online\<close>; numbers 1 and 3 are \<open>DeviceNotConnectedError\<close> and \<open>DeviceNotBootupCompleteError\<close>.\<close>

definition ensure_device_is_online :: "'s unifi_env \<Rightarrow> int \<Rightarrow> ('s, unit) stateful" where
  "ensure_device_is_online u timeout =
     bindS (ue_time u) (\<lambda>start_time.
     bindS (exceptS (ue_wait_connected u timeout)
              (\<lambda>e. raiseS (if e = CheckDeviceReadyError 1 then CheckDeviceReadyError 3 else e))) (\<lambda>_.
     bindS (ue_sleep u 10000000) (\<lambda>_.
     bindS (ue_open_all u) (\<lambda>_. online_loop u (start_time + timeout) (nat (timeout div 500000 + 2))))))"

definition verify_reboot :: "'s unifi_env \<Rightarrow> ('s, unit) stateful" where
  "verify_reboot u = bindS (ensure_device_goes_offline u 60000000) (\<lambda>_. ensure_device_is_online u 120000000)"

definition unifi_reboot :: "'s unifi_env \<Rightarrow> string \<Rightarrow> bool \<Rightarrow> ('s, unit) stateful" where
  "unifi_reboot u inject_log_marker no_wait =
     logged (bindS (ue_shell u inject_log_marker) (\<lambda>_.
             bindS (ue_note u ''GDM triggered reboot'') (\<lambda>_.
             bindS (ue_shell u ''reboot'') (\<lambda>_. if no_wait then returnS () else verify_reboot u))))"

end
