(* ===== verification/Hub_Facts.thy ===== *)
theory Hub_Facts
  imports Power_Hubs
begin

text \<open>
  The answer of a Cambrionix hub is read completely, however it is cut into reads; what a hub that
  does not answer looks like to the power capabilities; the bounds of HTTP requests; when a
  Unifi switch counts as offline.
\<close>

section \<open>Reading an answer\<close>

text \<open>The prompt comes at the end of the text and not before.\<close>

definition prompt_at_end :: "string \<Rightarrow> bool" where
  "prompt_at_end s \<longleftrightarrow> ends_with s PROMPT \<and> (\<forall>n<length s. \<not> ends_with (take n s) PROMPT)"

lemma get_response_complete:
  "prompt_at_end (acc @ waiting d p) \<Longrightarrow>
   \<exists>n. get_response_from d acc p = (Inr (splitlines str_line_end (acc @ waiting d p)),
     p\<lparr>pt_read := pt_read p + length (waiting d p), pt_reads := n\<rparr>)"
proof (induction d acc p rule: get_response_from.induct)
  case (1 d acc p)
  show ?case
  proof (cases "waiting d p = []")
    case True
    with 1(2) have "ends_with acc PROMPT" by (simp add: prompt_at_end_def)
    with True show ?thesis
      by (subst get_response_from.simps) (cases p, simp)
  next
    case False
    then have "length acc < length (acc @ waiting d p)" by simp
    with 1(2) have "\<not> ends_with (take (length acc) (acc @ waiting d p)) PROMPT"
      unfolding prompt_at_end_def by blast
    then have e: "\<not> ends_with acc PROMPT" by simp
    let ?n = "min (Suc (dl_chunk d (pt_reads p))) (length (waiting d p))"
    have w: "waiting d (serial_take ?n p) = drop ?n (waiting d p)"
      by (simp add: waiting_def serial_take_def add.commute)
    have t: "(acc @ take ?n (waiting d p)) @ waiting d (serial_take ?n p) = acc @ waiting d p"
      unfolding w by simp
    from 1(1) [OF e False refl] 1(2) obtain m where
      G: "get_response_from d (acc @ take ?n (waiting d p)) (serial_take ?n p) =
        (Inr (splitlines str_line_end (acc @ waiting d p)),
         (serial_take ?n p)\<lparr>pt_read := pt_read (serial_take ?n p) + length (waiting d (serial_take ?n p)), pt_reads := m\<rparr>)"
      unfolding t by blast
    have E: "pt_read (serial_take ?n p) + length (waiting d (serial_take ?n p)) = pt_read p + length (waiting d p)"
      unfolding w by (simp add: serial_take_def)
    have "get_response_from d acc p = get_response_from d (acc @ take ?n (waiting d p)) (serial_take ?n p)"
      using e False by (subst get_response_from.simps) (simp add: Let_def)
    with G [unfolded E] show ?thesis by (intro exI [of _ m]) (simp add: serial_take_def)
  qed
qed

text \<open>
  A hub that has read \<open>pre\<close> after \<open>base\<close> echoes every character of a command, and after the last one gives the
  answer \<open>t\<close>.
\<close>

primrec echoes :: "hub_line \<Rightarrow> string \<Rightarrow> string \<Rightarrow> string \<Rightarrow> bool" where
  "echoes d base [] t = True"
| "echoes d base (c # cs) t \<longleftrightarrow>
     dl_answer d (base @ [c]) = dl_answer d base @ [c] @ (if cs = [] then t else []) \<and> echoes d (base @ [c]) cs t"

lemma write_chars_echo:
  "echoes d (pt_out p) cs t \<Longrightarrow> cs \<noteq> [] \<Longrightarrow> waiting d p = [] \<Longrightarrow> pt_read p = length (dl_answer d (pt_out p)) \<Longrightarrow>
   \<exists>p'. write_chars d False cs p = (Inr (), p') \<and> waiting d p' = t \<and> pt_out p' = pt_out p @ cs"
proof (induction cs arbitrary: p)
  case (Cons c cs)
  let ?p1 = "p\<lparr>pt_out := pt_out p @ [c]\<rparr>"
  let ?r = "if cs = [] then t else []"
  have a: "dl_answer d (pt_out p @ [c]) = dl_answer d (pt_out p) @ [c] @ ?r" and es: "echoes d (pt_out p @ [c]) cs t"
    using Cons.prems(1) by simp_all
  have w: "waiting d ?p1 = c # ?r" using a Cons.prems(4) by (simp add: waiting_def)
  let ?p2 = "serial_take 1 ?p1"
  have e: "await_echo d c ?p1 = (Inr (), ?p2)" by (subst await_echo.simps) (simp add: w)
  have w2: "waiting d ?p2 = ?r" using a Cons.prems(4) by (simp add: waiting_def serial_take_def)
  have step: "write_chars d False (c # cs) p = write_chars d False cs ?p2"
    using e by (simp add: bindS_def serial_write_def doS_def)
  show ?case
  proof (cases "cs = []")
    case True
    with step w2 show ?thesis by (simp add: returnS_def serial_take_def)
  next
    case False
    have "pt_read ?p2 = length (dl_answer d (pt_out ?p2))" using a False Cons.prems(4) by (simp add: serial_take_def)
    from Cons.IH [OF _ False _ this] es w2 False obtain p' where
      "write_chars d False cs ?p2 = (Inr (), p')" "waiting d p' = t" "pt_out p' = pt_out ?p2 @ cs"
      by (auto simp: serial_take_def)
    with step show ?thesis by (auto simp: serial_take_def)
  qed
qed simp


section \<open>A hub that does not answer\<close>

lemma regex_gives_up:
  assumes "\<And>s. \<exists>s'. command_fn s = (Inl DeviceError, s')"
  shows "\<exists>s'. command_with_regex command_fn re_search g False n s = (Inr [], s')"
proof (induction n arbitrary: s)
  case (Suc n)
  from assms [of s] obtain s1 where "command_fn s = (Inl DeviceError, s1)" by blast
  with Suc.IH [of s1] show ?case by (simp add: is_device_error_def)
qed simp

text \<open>C39. A Cambrionix hub whose shell only fails is taken for a hub that charges: the query of the mode
  gives up after its tries without an error. So \<open>DevicePowerDefault.on\<close> returns as if the port were
  on, and neither switches it nor waits for the device.\<close>

theorem silent_hub_counts_as_on:
  assumes "\<forall>cmd s. \<exists>s'. shell cmd s = (Inl DeviceError, s')"
    and "us_regex_shell sh = hub_regex_shell shell re_search" and "pe_get e = charge_get_mode (cambrionix_power n) sh"
    and "cp_healthy c = Some True" and "dv_port d = Inr p" and "1 \<le> p" and "p \<le> n"
  shows "\<exists>s'. charge_get_mode (cambrionix_power n) sh p s = (Inr ''charge'', s') \<and>
    device_power_on e d no_wait (s, c) = (Inr (), (s', c))"
proof -
  from cambrionix_commands(3) [of n] obtain regex where
    r: "dict_item (up_regexes (cambrionix_power n)) ''GET_MODE_REGEX'' = Inr regex" by blast
  have "\<exists>s'. command_with_regex (shell (''state '' @ show_int p)) (re_search regex) 1 False 5 s = (Inr [], s')"
    by (rule regex_gives_up) (use assms(1) in blast)
  then obtain s' where s': "us_regex_shell sh (''state '' @ show_int p) regex s = (Inr [], s')"
    unfolding assms(2) hub_regex_shell_def by blast
  have m: "(if contains ''O'' [] then ''off'' else if contains ''S'' [] then ''sync'' else ''charge'') = ''charge''" by simp
  have g: "charge_get_mode (cambrionix_power n) sh p s = (Inr ''charge'', s')"
    by (simp only: charge_get_mode_def cambrionix_port [OF assms(6,7)] bindS_def returnS_def usb_query_def liftS_def
        cambrionix_commands r s' m prod.case sum.case)
  have ok: "ensure_healthy check (s, c) = (Inr (), (s, c))" for check
    using assms(4) by (simp add: ensure_healthy_def bindS_def healthy_def returnS_def)
  have "device_power_on e d no_wait (s, c) = (Inr (), (s', c))"
    unfolding device_power_on_def
    by (rule logged_ok) (simp add: bindS_def ok assms(5) liftS_def assms(3) onWorld_def g returnS_def)
  with g show ?thesis by blast
qed

section \<open>Requests\<close>

text \<open>At most \<open>tries\<close> requests are made, and a response that is returned has a valid code.\<close>

lemma http_tries_count:
  assumes "\<And>s. count (snd (request s)) = Suc (count s)"
  shows "count (snd (http_tries retryable request n s)) \<le> count s + n"
proof (induction n arbitrary: s)
  case (Suc n)
  obtain r s1 where m: "request s = (r, s1)" by fastforce
  with assms [of s] have "count s1 = Suc (count s)" by simp
  with m Suc.IH [of s1] show ?case by (cases r) (simp_all add: exceptS_def raiseS_def)
qed (simp add: raiseS_def)

lemma checked_response_valid:
  assumes "checked_response retryable request codes tries s = (Inr response, s')"
  shows "hr_code response \<in> set (if codes = [] then [200] else codes)"
  using assms by (auto simp: checked_response_def bindS_def raiseS_def returnS_def split: if_splits prod.splits sum.splits)

section \<open>Going offline\<close>

text \<open>
  A world in which the pings are recorded (\<open>seen\<close>) and the time (\<open>now\<close>) never goes back and passes while
  sleeping.
\<close>

definition timed :: "'s unifi_env \<Rightarrow> ('s \<Rightarrow> bool list) \<Rightarrow> ('s \<Rightarrow> int) \<Rightarrow> bool" where
  "timed u seen now \<longleftrightarrow>
     (\<forall>s. \<exists>up s'. ue_ping u s = (Inr up, s') \<and> seen s' = seen s @ [up] \<and> now s \<le> now s') \<and>
     (\<forall>s k. \<exists>s'. ue_sleep u k s = (Inr (), s') \<and> seen s' = seen s \<and> now s + k \<le> now s') \<and>
     (\<forall>s. ue_time u s = (Inr (now s), s)) \<and>
     (\<forall>s. \<exists>s'. ue_close_all u s = (Inr (), s') \<and> seen s' = seen s)"

lemma offline_loop_ends:
  assumes t: "timed u seen now"
  shows "end_time - now s \<le> 500000 * (int fuel - 1) \<Longrightarrow> 0 < fuel \<Longrightarrow> n = 0 \<or> n = 1 \<and> (\<exists>h. seen s = h @ [False]) \<Longrightarrow>
    \<exists>r s'. offline_loop u end_time fuel n s = (r, s') \<and>
      (r = Inr () \<and> (\<exists>h. seen s' = h @ [False, False]) \<or> r = Inl DeviceError \<and> end_time \<le> now s')"
proof (induction fuel arbitrary: s n)
  case (Suc fuel)
  have now: "ue_time u s = (Inr (now s), s)" using t by (simp add: timed_def)
  show ?case
  proof (cases "now s < end_time")
    case False
    then show ?thesis by (simp add: bindS_def now raiseS_def)
  next
    case True
    from t obtain up s1 where p: "ue_ping u s = (Inr up, s1)" "seen s1 = seen s @ [up]" "now s \<le> now s1"
      unfolding timed_def by blast
    from t obtain s2 where sl: "ue_sleep u 500000 s1 = (Inr (), s2)" "seen s2 = seen s1" "now s1 + 500000 \<le> now s2"
      unfolding timed_def by blast
    have fuel: "end_time - now s2 \<le> 500000 * (int fuel - 1)" "0 < fuel"
      using Suc.prems(1) True p(3) sl(3) by (simp_all add: algebra_simps)
    let ?n = "if up then 0 else Suc n"
    have step: "offline_loop u end_time (Suc fuel) n s =
        (if ?n = 2 then (Inr (), s1) else offline_loop u end_time fuel ?n s2)"
      by (simp add: bindS_def now True p(1) sl(1) Let_def returnS_def)
    show ?thesis
    proof (cases "?n = 2")
      case two: True
      then have "\<not> up" "n = 1" by (simp_all split: if_splits)
      with Suc.prems(3) p(2) obtain h where "seen s1 = h @ [False, False]" by auto
      with step two show ?thesis by auto
    next
      case False
      have "?n = 0 \<or> ?n = 1 \<and> (\<exists>h. seen s2 = h @ [False])"
        using False Suc.prems(3) p(2) sl(2) by auto
      from Suc.IH [OF fuel this] step False show ?thesis by simp
    qed
  qed
qed simp

text \<open>C40. Waiting for a Unifi switch to go offline ends: it returns only after two pings in a row failed,
  so that a single lost ping does not count, and raises only when the time is over.\<close>

theorem goes_offline_ends:
  assumes "timed u seen now" and "0 \<le> timeout" and "seen s = []"
  shows "\<exists>r s'. ensure_device_goes_offline u timeout s = (r, s') \<and>
    (r = Inr () \<and> (\<exists>h. seen s' = h @ [False, False]) \<or> r = Inl DeviceError \<and> now s + timeout \<le> now s')"
proof -
  have now: "ue_time u s = (Inr (now s), s)" using assms(1) by (simp add: timed_def)
  let ?fuel = "nat (timeout div 500000 + 2)"
  have "0 \<le> timeout div 500000" using assms(2) by simp
  then have f: "now s + timeout - now s \<le> 500000 * (int ?fuel - 1)" "0 < ?fuel" by simp_all
  from offline_loop_ends [OF assms(1) f, of 0] obtain r s1 where
    l: "offline_loop u (now s + timeout) ?fuel 0 s = (r, s1)"
    "r = Inr () \<and> (\<exists>h. seen s1 = h @ [False, False]) \<or> r = Inl DeviceError \<and> now s + timeout \<le> now s1" by auto
  from assms(1) obtain s2 where c: "ue_close_all u s1 = (Inr (), s2)" "seen s2 = seen s1" unfolding timed_def by blast
  from assms(1) obtain s3 where d: "ue_sleep u 5000000 s2 = (Inr (), s3)" "seen s3 = seen s2" unfolding timed_def by blast
  show ?thesis
  proof (cases r)
    case (Inl e)
    with l show ?thesis by (auto simp: ensure_device_goes_offline_def bindS_def now)
  next
    case (Inr x)
    with l c d show ?thesis by (auto simp: ensure_device_goes_offline_def bindS_def now)
  qed
qed

section \<open>Examples\<close>

text \<open>A switch that answers two pings and no more; the state is the pings so far and the time.\<close>

definition leaving_switch :: "(bool list \<times> int) unifi_env" where
  "leaving_switch =
     \<lparr>ue_shell = (\<lambda>_. returnS []), ue_shell_code = (\<lambda>_. returnS ([], 0)), ue_regex = (\<lambda>_. returnS []),
      ue_ping = (\<lambda>(seen, t). (Inr (length seen < 2), (seen @ [length seen < 2], t))), ue_note = (\<lambda>_. returnS ()),
      ue_close_all = returnS (), ue_open_all = returnS (), ue_wait_connected = (\<lambda>_. returnS ()),
      ue_sleep = (\<lambda>k (seen, t). (Inr (), (seen, t + k))), ue_time = (\<lambda>(seen, t). (Inr t, (seen, t)))\<rparr>"

theorem goes_offline_ends_witness:
  "\<exists>r s'. ensure_device_goes_offline leaving_switch 60000000 ([], 0) = (r, s') \<and>
    (r = Inr () \<and> (\<exists>h. fst s' = h @ [False, False]) \<or> r = Inl DeviceError \<and> 60000000 \<le> snd s')"
proof -
  have "timed leaving_switch fst snd"
    by (auto simp: timed_def leaving_switch_def returnS_def)
  from goes_offline_ends [OF this, of 60000000 "([], 0)"] show ?thesis by simp
qed

definition silent_shell :: "nat usb_shell" where
  "silent_shell = \<lparr>us_shell = (\<lambda>_. raiseS DeviceError), us_regex_shell = hub_regex_shell (\<lambda>_. raiseS DeviceError) (\<lambda>_ _. None)\<rparr>"

theorem silent_hub_counts_as_on_witness:
  "fst (device_power_on (one_port_env\<lparr>pe_get := charge_get_mode (cambrionix_power 1) silent_shell\<rparr>)
     one_port_device False (0, \<lparr>cp_healthy = Some True, cp_hub = True\<rparr>)) = Inr ()"
proof -
  let ?e = "one_port_env\<lparr>pe_get := charge_get_mode (cambrionix_power 1) silent_shell\<rparr>"
  have p: "dv_port one_port_device = Inr 1"
    by (simp add: dv_port_def dv_port_number_def device_power_prop_def one_port_device_def get_or_none_def py_int_def Let_def)
  obtain s' where
    "device_power_on ?e one_port_device False (0, \<lparr>cp_healthy = Some True, cp_hub = True\<rparr>) = (Inr (), (s', \<lparr>cp_healthy = Some True, cp_hub = True\<rparr>))"
    using silent_hub_counts_as_on [of "\<lambda>_. raiseS DeviceError" silent_shell "\<lambda>_ _. None" ?e 1
        "\<lparr>cp_healthy = Some True, cp_hub = True\<rparr>" one_port_device 1 0 False] p
    by (auto simp: raiseS_def silent_shell_def)
  then show ?thesis by simp
qed

text \<open>A hub that echoes, and answers "ok" to the command "cef".\<close>

definition echo_hub :: hub_line where
  "echo_hub = \<lparr>dl_answer = (\<lambda>out. if out = [] then [] else PROMPT @ drop 3 out @
       (if drop 3 out = ''cef'' @ CRLF then ''ok'' @ [cret] @ PROMPT else [])), dl_chunk = (\<lambda>_. 0)\<rparr>"


end
