(* ===== verification/Manager_Tables.thy ===== *)
theory Manager_Tables
  imports Manager
begin

text \<open>
  What the operations of the manager keep of its tables: dictionaries have distinct keys, every
  device has options and knows its name, and every alias names a device.
\<close>

section \<open>Sorting a dictionary\<close>

lemma map_of_sort_key [simp]:
  assumes "distinct (map fst d)"
  shows "map_of (sort_key fst d) = map_of d"
proof (rule ext)
  fix k
  have s: "distinct (map fst (sort_key fst d))"
    using assms by (simp add: distinct_map inj_on_def)
  show "map_of (sort_key fst d) k = map_of d k"
  proof (cases "map_of d k")
    case None
    then have "k \<notin> fst ` set (sort_key fst d)" by (simp add: map_of_eq_None_iff)
    then have "map_of (sort_key fst d) k = None" by (simp only: map_of_eq_None_iff not_False_eq_True)
    with None show ?thesis by simp
  next
    case (Some v)
    then have "(k, v) \<in> set (sort_key fst d)" using map_of_SomeD by fastforce
    with s Some show ?thesis by simp
  qed
qed

lemma distinct_sort_key [simp]:
  "distinct (map fst (sort_key fst d)) = distinct (map fst d)"
  by (simp add: distinct_map)

lemma update_same: "map_of d k = Some v \<Longrightarrow> AList.update k v d = d"
  by (induction d) (auto split: if_splits)

lemma map_of_with_name:
  "map_of (map with_name d) n = map_option (\<lambda>p. AList.update ''name'' (PStr n) p) (map_of d n)"
  by (induction d) (auto simp: with_name_def)

lemma map_of_options_of:
  "map_of (map (options_of q) d) n = (if n \<in> fst ` set d then Some (the (map_of q n)) else None)"
  by (induction d) (auto simp: options_of_def)

section \<open>Well-formed tables\<close>

definition catg_ok :: "catg \<Rightarrow> bool" where
  "catg_ok c \<longleftrightarrow>
     distinct (map fst (c_persistent c)) \<and> map fst (c_options c) = map fst (c_persistent c) \<and>
     (\<forall>n p. map_of (c_persistent c) n = Some p \<longrightarrow> map_of p ''name'' = Some (PStr n))"

abbreviation names :: "catg \<Rightarrow> string set" where
  "names c \<equiv> fst ` set (c_persistent c)"

lemma catg_ok_dom:
  "catg_ok c \<Longrightarrow> dom (map_of (c_options c)) = dom (map_of (c_persistent c))"
  by (simp add: catg_ok_def dom_map_of_conv_image_fst flip: set_map)

lemma device_config_Some_iff:
  assumes "catg_ok c"
  shows "device_config c n \<noteq> None \<longleftrightarrow> n \<in> names c"
proof -
  from catg_ok_dom [OF assms] have "map_of (c_options c) n = None \<longleftrightarrow> map_of (c_persistent c) n = None"
    by (metis domIff)
  then have "device_config c n \<noteq> None \<longleftrightarrow> map_of (c_persistent c) n \<noteq> None"
    by (auto simp: device_config_def split: option.splits)
  then show ?thesis by (simp add: map_of_eq_None_iff)
qed

lemma combine_ok:
  assumes "combine_devices_and_device_options devices os = Inr c" and "distinct (map fst devices)"
  shows "catg_ok c" and "names c = fst ` set devices" and "\<And>a m. map_of (c_aliases c) a = Some m \<Longrightarrow> m \<in> names c"
    and "device_config c n = (case (map_of devices n, map_of os n) of
           (Some p, Some q) \<Rightarrow> Some (AList.update ''name'' (PStr n) p, q) | _ \<Rightarrow> None)"
proof -
  note eq = combine_eq [OF assms]
  have known: "fst ` set devices \<subseteq> dom (map_of os)" by (rule create_aliases_known [OF eq(3)])
  show "catg_ok c" unfolding catg_ok_def
    using assms(2) by (auto simp: eq(1,2) map_of_with_name map_of_update_if comp_def)
  show nm: "names c = fst ` set devices" by (simp add: eq(1) image_image)
  show "device_config c n = (case (map_of devices n, map_of os n) of
           (Some p, Some q) \<Rightarrow> Some (AList.update ''name'' (PStr n) p, q) | _ \<Rightarrow> None)"
  proof (cases "map_of devices n")
    case None
    then show ?thesis by (simp add: device_config_def eq(1) map_of_with_name)
  next
    case (Some p)
    then have n: "n \<in> fst ` set devices" by (metis domI dom_map_of_conv_image_fst)
    with known obtain q where "map_of os n = Some q" by auto
    with Some n show ?thesis
      by (simp add: device_config_def eq(1,2) map_of_with_name map_of_options_of)
  qed
  show "m \<in> names c" if m: "map_of (c_aliases c) a = Some m" for a m
  proof -
    from m create_aliases_lookup [OF eq(3), of a] obtain d
      where "find (claims os a) (rev devices) = Some d" and "m = fst d" by auto
    then have "d \<in> set devices" by (metis find_Some_iff nth_mem set_rev)
    with \<open>m = fst d\<close> nm show ?thesis by simp
  qed
qed

section \<open>Loading what was saved\<close>

lemma config_section_sorted:
  assumes "distinct (map fst conf)"
  shows "config_section key (sorted_file conf) = sort_key fst (config_section key conf)"
proof -
  have d: "distinct (map fst (map (\<lambda>(k, d). (k, sort_key fst d)) conf))"
    using assms by (simp add: comp_def case_prod_beta)
  have "map_of (map (\<lambda>(k, d). (k, sort_key fst d)) conf) key = map_option (sort_key fst) (map_of conf key)"
    by (induction conf) auto
  then show ?thesis
    by (simp add: config_section_def sorted_file_def map_of_sort_key [OF d] split: option.splits)
qed

lemma device_files_distinct [simp]:
  "distinct (map fst (fst (make_device_configs d d' q q')))"
  "distinct (map fst (snd (make_device_configs d d' q q')))"
  by (simp_all add: make_device_configs_def)

lemma device_files_sections [simp]:
  "config_section ''devices'' (fst (make_device_configs d d' q q')) = d"
  "config_section ''other_devices'' (fst (make_device_configs d d' q q')) = d'"
  "config_section ''device_options'' (snd (make_device_configs d d' q q')) = q"
  "config_section ''other_device_options'' (snd (make_device_configs d d' q q')) = q'"
  by (simp_all add: make_device_configs_def config_section_def)

lemma reload_Inr:
  assumes "reload_configuration st = (Inr (), st')"
  obtains c c' where
    "load_category st ''devices'' ''device_options'' = Inr c"
    "load_category st ''other_devices'' ''other_device_options'' = Inr c'"
    "st' = st\<lparr>m_config := f_config st, m_gazoo := c, m_other := c'\<rparr>"
proof -
  from assms obtain st1 where 1: "load_devices (st\<lparr>m_config := f_config st\<rparr>) = (Inr (), st1)"
    and 2: "load_other_devices st1 = (Inr (), st')"
    by (auto simp: reload_configuration_def result_simps)
  from 1 obtain c where c: "load_category (st\<lparr>m_config := f_config st\<rparr>) ''devices'' ''device_options'' = Inr c"
    and st1: "st1 = st\<lparr>m_config := f_config st, m_gazoo := c\<rparr>"
    by (auto simp: load_devices_def split: sum.splits)
  from 2 obtain c' where c': "load_category st1 ''other_devices'' ''other_device_options'' = Inr c'"
    and st': "st' = st1\<lparr>m_other := c'\<rparr>"
    by (auto simp: load_other_devices_def split: sum.splits)
  from c c' st' st1 show thesis by (intro that [of c c']) (simp_all add: load_category_def)
qed

text \<open>
  Saving tables and loading them again gives back the configuration of every device, when the
  options belong to the devices and every device knows its name.
\<close>

definition resaved :: "(string \<times> props) list \<Rightarrow> (string \<times> props) list \<Rightarrow> string \<Rightarrow> (props \<times> props) option" where
  "resaved d q n =
     (case (map_of d n, map_of q n) of
        (Some p, Some o1) \<Rightarrow> Some (AList.update ''name'' (PStr n) p, o1) | _ \<Rightarrow> None)"

lemma reload_saved:
  assumes "save_configs (make_device_configs d d' q q') st = (Inr (), st1)"
    and "reload_configuration st1 = (Inr (), st')"
    and "distinct (map fst d)" and "distinct (map fst d')" and "distinct (map fst q)" and "distinct (map fst q')"
  shows "device_config (m_gazoo st') n = resaved d q n"
    and "device_config (m_other st') n = resaved d' q' n"
proof -
  from assms(1) have st1: "st1 = st\<lparr>f_devices := sorted_file (fst (make_device_configs d d' q q')),
      f_options := sorted_file (snd (make_device_configs d d' q q'))\<rparr>"
    by (simp add: save_configs_def)
  from assms(2) obtain c c' where
    c: "load_category st1 ''devices'' ''device_options'' = Inr c" and
    c': "load_category st1 ''other_devices'' ''other_device_options'' = Inr c'" and
    st': "st' = st1\<lparr>m_config := f_config st1, m_gazoo := c, m_other := c'\<rparr>"
    by (rule reload_Inr)
  have sc: "combine_devices_and_device_options (sort_key fst d) (sort_key fst q) = Inr c"
    "combine_devices_and_device_options (sort_key fst d') (sort_key fst q') = Inr c'"
    using c c' by (simp_all add: load_category_def st1 config_section_sorted)
  show "device_config (m_gazoo st') n = resaved d q n"
    using combine_ok(4) [OF sc(1)] assms(3,5) by (simp add: st' resaved_def)
  show "device_config (m_other st') n = resaved d' q' n"
    using combine_ok(4) [OF sc(2)] assms(4,6) by (simp add: st' resaved_def)
qed

lemma saved_config:
  assumes "catg_ok c"
  shows "resaved (c_persistent c) (c_options c) n = device_config c n"
  using assms by (auto simp: resaved_def catg_ok_def device_config_def update_same split: option.splits)

lemma deleted_config:
  assumes "catg_ok c"
  shows "resaved (AList.delete m (c_persistent c)) (AList.delete m (c_options c)) n =
         (if n = m then None else device_config c n)"
  using saved_config [OF assms, of n] by (simp add: resaved_def delete_conv')

lemma catg_ok_distinct:
  assumes "catg_ok c"
  shows "distinct (map fst (c_persistent c))" and "distinct (map fst (c_options c))"
    and "distinct (map fst (AList.delete n (c_persistent c)))"
    and "distinct (map fst (AList.delete n (c_options c)))"
  using assms by (simp_all add: catg_ok_def distinct_delete)

lemma device_config_lookup:
  "device_config c n \<noteq> None \<longleftrightarrow> map_of (c_persistent c) n \<noteq> None \<and> map_of (c_options c) n \<noteq> None"
  by (auto simp: device_config_def split: option.splits)

lemma delete_configs:
  assumes "delete ident st = (Inr (), st')" and "known_device st ident = Inr name"
    and "catg_ok (m_gazoo st)" and "catg_ok (m_other st)"
  shows "device_config (category_of other st') n =
    (if n = name \<and> other = (device_config (m_gazoo st) name = None) then None
     else device_config (category_of other st) n)"
proof -
  let ?g = "m_gazoo st" and ?h = "m_other st"
  from assms(1) obtain conf st1 where conf: "delete_config st ident = Inr conf"
    and s: "save_configs conf st = (Inr (), st1)" and r: "reload_configuration st1 = (Inr (), st')"
    by (auto simp: delete_def readS_def result_simps save_configs_def)
  from conf assms(2) have cw: "configs_without st name = Inr conf"
    by (simp add: delete_config_def)
  note dist = catg_ok_distinct [OF assms(3)] catg_ok_distinct [OF assms(4)]
  note simps = saved_config [OF assms(3)] saved_config [OF assms(4)]
    deleted_config [OF assms(3)] deleted_config [OF assms(4)]
  show ?thesis
  proof (cases "device_config ?g name = None")
    case False
    then have "conf = make_device_configs (AList.delete name (c_persistent ?g)) (c_persistent ?h)
        (AList.delete name (c_options ?g)) (c_options ?h)"
      using cw device_config_lookup [of ?g name]
      by (auto simp: configs_without_def Let_def split: if_splits)
    from reload_saved [OF s [unfolded this] r dist(3,5,4,6), of n] False show ?thesis
      by (cases other) (auto simp: category_of_def simps)
  next
    case True
    then have "conf = make_device_configs (c_persistent ?g) (AList.delete name (c_persistent ?h))
        (c_options ?g) (AList.delete name (c_options ?h))"
      using cw device_config_lookup [of ?g name]
      by (auto simp: configs_without_def Let_def split: if_splits)
    from reload_saved [OF s [unfolded this] r dist(1,7,2,8), of n] True show ?thesis
      by (cases other) (auto simp: category_of_def simps)
  qed
qed

text \<open>C12. Deleting a device removes the configuration of the device that the identifier resolves
  to, in the category it belongs to (the Gazoo devices first), and changes the configuration of
  no other device of either category, although both files are rewritten and read again.\<close>

theorem delete_removes_one:
  assumes "delete ident st = (Inr (), st')" and "known_device st ident = Inr name"
    and "catg_ok (m_gazoo st)" and "catg_ok (m_other st)"
  shows "device_config (category_of other st') n =
    (if n = name \<and> other = (device_config (m_gazoo st) name = None) then None
     else device_config (category_of other st) n)"
  by (rule delete_configs [OF assms])

definition demo_catg :: catg where
  "demo_catg =
     \<lparr>c_aliases = [(''cam-1'', ''cam-1''), (''kitchen'', ''cam-1''), (''hub-2'', ''hub-2'')],
      c_persistent = [(''hub-2'', [(''device_type'', PStr ''hub''), (''name'', PStr ''hub-2'')]),
        (''cam-1'', [(''device_type'', PStr ''cam''), (''console_port_name'', PStr ''/dev/1''),
           (''name'', PStr ''cam-1'')])],
      c_options = [(''hub-2'', [(''alias'', PNone)]), (''cam-1'', [(''alias'', PStr ''Kitchen'')])]\<rparr>"

definition demo_mgr :: mgr where
  "demo_mgr =
     \<lparr>m_gazoo = demo_catg, m_other = \<lparr>c_aliases = [], c_persistent = [], c_options = []\<rparr>,
      f_devices = [], f_options = [], m_config = [], f_config = [], m_open = [], m_power = []\<rparr>"

lemma catg_ok_code:
  "catg_ok c \<longleftrightarrow>
     distinct (map fst (c_persistent c)) \<and> map fst (c_options c) = map fst (c_persistent c) \<and>
     list_all (\<lambda>(n, p). map_of p ''name'' = Some (PStr n)) (c_persistent c)"
proof (cases "distinct (map fst (c_persistent c))")
  case True
  then have "map_of (c_persistent c) n = Some p \<longleftrightarrow> (n, p) \<in> set (c_persistent c)" for n p
    by simp
  then show ?thesis by (auto simp: catg_ok_def list_all_iff)
qed (simp add: catg_ok_def)

lemma demo_mgr_ok: "catg_ok (m_gazoo demo_mgr)" "catg_ok (m_other demo_mgr)"
  by (simp_all add: catg_ok_code demo_mgr_def demo_catg_def)

theorem delete_removes_one_witness:
  "fst (delete ''KITCHEN'' demo_mgr) = Inr () \<and>
   device_config (m_gazoo (snd (delete ''KITCHEN'' demo_mgr))) ''cam-1'' = None \<and>
   device_config (m_gazoo (snd (delete ''KITCHEN'' demo_mgr))) ''hub-2'' =
     Some ([(''device_type'', PStr ''hub''), (''name'', PStr ''hub-2'')], [(''alias'', PNone)])"
proof -
  have ok: "fst (delete ''KITCHEN'' demo_mgr) = Inr ()"
    and n: "known_device demo_mgr ''KITCHEN'' = Inr ''cam-1''" by code_simp+
  then obtain st' where d: "delete ''KITCHEN'' demo_mgr = (Inr (), st')" by (metis prod.collapse)
  have g: "device_config (m_gazoo demo_mgr) ''cam-1'' \<noteq> None"
    "device_config (m_gazoo demo_mgr) ''hub-2'' =
       Some ([(''device_type'', PStr ''hub''), (''name'', PStr ''hub-2'')], [(''alias'', PNone)])"
    by (simp_all add: demo_mgr_def demo_catg_def device_config_def)
  note r = delete_removes_one [OF d n demo_mgr_ok, of False]
  from r [of "''cam-1''"] r [of "''hub-2''"] g ok show ?thesis
    by (auto simp: d category_of_def)
qed

end
