(* ===== verification/Manager_Open.thy ===== *)
theory Manager_Open
  imports Manager_Tables
begin

text \<open>
  The open devices of the manager as reference counters: an auxiliary device counts its users,
  another device has one user while it is open. Creation counts up, closing counts down, and the
  operations that open a device for themselves leave the counters as they were.
\<close>

section \<open>Reference counters\<close>

definition users_of :: "inst \<Rightarrow> nat" where
  "users_of i = (if k_aux (i_class i) then i_users i else 1)"

definition users :: "mgr \<Rightarrow> string \<Rightarrow> nat" where
  "users st n = (case map_of (m_open st) n of None \<Rightarrow> 0 | Some i \<Rightarrow> users_of i)"

definition rc_open :: "string \<Rightarrow> (string \<Rightarrow> nat) \<Rightarrow> string \<Rightarrow> nat" where
  "rc_open n u = u(n := Suc (u n))"

definition rc_close :: "string \<Rightarrow> (string \<Rightarrow> nat) \<Rightarrow> string \<Rightarrow> nat" where
  "rc_close n u = u(n := u n - 1)"

lemma rc_close_open [simp]: "rc_close n (rc_open n u) = u"
  by (simp add: rc_open_def rc_close_def)

text \<open>Names are unique, and an open device has a user.\<close>

definition open_ok :: "mgr \<Rightarrow> bool" where
  "open_ok st \<longleftrightarrow> distinct (map fst (m_open st)) \<and>
     (\<forall>n i. map_of (m_open st) n = Some i \<longrightarrow> users_of i \<noteq> 0)"

lemma users_zero_iff: "open_ok st \<Longrightarrow> users st n = 0 \<longleftrightarrow> map_of (m_open st) n = None"
  by (auto simp: users_def open_ok_def split: option.splits)

lemma users_cong: "m_open st' = m_open st \<Longrightarrow> users st' = users st"
  by (simp add: users_def fun_eq_iff)

lemma open_ok_cong: "m_open st' = m_open st \<Longrightarrow> open_ok st' = open_ok st"
  by (simp add: open_ok_def)

lemma map_of_delete_if: "map_of (AList.delete k d) a = (if a = k then None else map_of d a)"
  by (simp add: delete_conv' fun_upd_def)

lemma open_ok_remove: "open_ok st \<Longrightarrow> open_ok (remove_open n st)"
  by (auto simp: open_ok_def remove_open_def map_of_delete_if distinct_delete split: if_splits)

lemma open_ok_update:
  "open_ok st \<Longrightarrow> users_of i \<noteq> 0 \<Longrightarrow> open_ok (st\<lparr>m_open := AList.update n i (m_open st)\<rparr>)"
  by (auto simp: open_ok_def map_of_update_if split: if_splits)

section \<open>Closing\<close>

definition only_open :: "mgr \<Rightarrow> mgr \<Rightarrow> bool" where
  "only_open st st' \<longleftrightarrow> st' = st\<lparr>m_open := m_open st'\<rparr>"

lemma close_instance_counts:
  assumes "open_ok st" and "close_instance n False st = (r, st')"
  shows "r = Inr ()" and "users st' = rc_close n (users st)" and "open_ok st'" and "only_open st st'"
proof -
  have "r = Inr () \<and> users st' = rc_close n (users st) \<and> open_ok st' \<and> only_open st st'"
  proof (cases "map_of (m_open st) n")
    case None
    with assms show ?thesis
      by (auto simp: close_instance_def users_def rc_close_def only_open_def fun_eq_iff)
  next
    case (Some i)
    show ?thesis
    proof (cases "users_of i = 1")
      case True
      with Some assms(2) have eq: "r = Inr ()" "st' = remove_open n st"
        by (auto simp: close_instance_def users_of_def split: if_splits)
      have "users (remove_open n st) = rc_close n (users st)"
        by (auto simp: fun_eq_iff users_def rc_close_def remove_open_def map_of_delete_if Some True)
      with eq open_ok_remove [OF assms(1)] show ?thesis by (simp add: only_open_def remove_open_def)
    next
      case False
      let ?st = "st\<lparr>m_open := AList.update n (i\<lparr>i_users := i_users i - 1\<rparr>) (m_open st)\<rparr>"
      have "users_of i \<noteq> 0" using assms(1) Some unfolding open_ok_def by blast
      with False have aux: "k_aux (i_class i)" and pos: "i_users i > 1"
        by (simp_all add: users_of_def split: if_splits)
      with Some assms(2) have eq: "r = Inr ()" "st' = ?st"
        by (auto simp: close_instance_def)
      have "users ?st = rc_close n (users st)"
        by (auto simp: fun_eq_iff users_def rc_close_def map_of_update_if Some users_of_def aux)
      moreover have "open_ok ?st"
        by (rule open_ok_update [OF assms(1)]) (use pos in \<open>simp add: users_of_def aux\<close>)
      ultimately show ?thesis using eq by (simp add: only_open_def)
    qed
  qed
  then show "r = Inr ()" and "users st' = rc_close n (users st)" and "open_ok st'" and "only_open st st'"
    by simp_all
qed

lemma only_open_trans: "only_open st st1 \<Longrightarrow> only_open st1 st2 \<Longrightarrow> only_open st st2"
  unfolding only_open_def by (metis mgr.update_convs(7) mgr.surjective)

section \<open>Closing every device\<close>

lemma remove_open_keys: "fst ` set (m_open (remove_open n st)) = fst ` set (m_open st) - {n}"
  by (simp add: remove_open_def delete_keys flip: set_map)

lemma close_instance_keys:
  assumes "close_instance n False st = (r, st')" and "open_ok st"
  shows "fst ` set (m_open st') \<subseteq> fst ` set (m_open st)"
    and "map_of (m_open st') m = Some i \<Longrightarrow>
         (if m = n then k_aux (i_class i) else map_of (m_open st) m = Some i)"
proof -
  show "fst ` set (m_open st') \<subseteq> fst ` set (m_open st)"
  proof (cases "map_of (m_open st) n")
    case None
    with assms(1) show ?thesis by (simp add: close_instance_def)
  next
    case (Some i)
    then have n: "n \<in> fst ` set (m_open st)" by (metis domI dom_map_of_conv_image_fst)
    from assms(1) Some have "st' = st \<or> st' = remove_open n st \<or>
        (\<exists>j. st' = st\<lparr>m_open := AList.update n j (m_open st)\<rparr>)"
      by (auto simp: close_instance_def split: if_splits)
    then show ?thesis
    proof (elim disjE exE)
      fix j assume "st' = st\<lparr>m_open := AList.update n j (m_open st)\<rparr>"
      with n show ?thesis by (simp add: dom_update)
    qed (use remove_open_keys [of n st] in auto)
  qed
  show "map_of (m_open st') m = Some i \<Longrightarrow>
         (if m = n then k_aux (i_class i) else map_of (m_open st) m = Some i)"
    using assms(1)
    by (auto simp: close_instance_def remove_open_def map_of_delete_if map_of_update_if
        split: option.splits if_splits)
qed

lemma close_each_False:
  assumes "open_ok st" and "close_each False ns st = (r, st')"
  shows "r = Inr () \<and> open_ok st' \<and> only_open st st' \<and>
    fst ` set (m_open st') \<subseteq> fst ` set (m_open st) \<and>
    (\<forall>m i. map_of (m_open st') m = Some i \<longrightarrow>
       (m \<in> set ns \<longrightarrow> k_aux (i_class i)) \<and> (m \<notin> set ns \<longrightarrow> map_of (m_open st) m = Some i))"
  using assms
proof (induction ns arbitrary: st)
  case Nil
  then show ?case by (simp add: only_open_def)
next
  case (Cons n ns)
  obtain r1 st1 where 1: "close_instance n False st = (r1, st1)" by fastforce
  note c = close_instance_counts [OF Cons.prems(1) 1]
  with Cons.prems(2) 1 have 2: "close_each False ns st1 = (r, st')" by simp
  note k = close_instance_keys [OF 1 Cons.prems(1)]
  note ih = Cons.IH [OF c(3) 2]
  show ?case
  proof (intro conjI allI impI)
    show "r = Inr ()" and "open_ok st'" using ih by simp_all
    show "only_open st st'" using ih c(4) only_open_trans by blast
    show "fst ` set (m_open st') \<subseteq> fst ` set (m_open st)" using ih k(1) by blast
    fix m i assume m: "map_of (m_open st') m = Some i"
    show "k_aux (i_class i)" if "m \<in> set (n # ns)"
      using ih m that k(2) by (metis set_ConsD)
    show "map_of (m_open st) m = Some i" if "m \<notin> set (n # ns)"
      using ih m that k(2) by (metis list.set_intros)
  qed
qed

lemma close_each_True:
  assumes "\<And>m i. map_of (m_open st) m = Some i \<Longrightarrow> k_aux (i_class i)"
    and "fst ` set (m_open st) \<subseteq> set ns"
  shows "close_each True ns st = (Inr (), st\<lparr>m_open := []\<rparr>)"
  using assms
proof (induction ns arbitrary: st)
  case Nil
  then have "m_open st = []" by simp
  then show ?case by simp
next
  case (Cons n ns)
  have 1: "close_instance n True st = (Inr (), remove_open n st)"
    using Cons.prems(1) [of n]
    by (auto simp: close_instance_def remove_open_def delete_id map_of_eq_None_iff split: option.splits)
  have "close_each True ns (remove_open n st) = (Inr (), (remove_open n st)\<lparr>m_open := []\<rparr>)"
    using Cons.prems remove_open_keys [of n st]
    by (intro Cons.IH) (auto simp: remove_open_def map_of_delete_if split: if_splits)
  with 1 show ?case by (simp add: remove_open_def)
qed

lemma close_open_devices_empty:
  assumes "open_ok st"
  shows "close_open_devices st = (Inr (), st\<lparr>m_open := []\<rparr>)"
proof -
  let ?ns = "map fst (m_open st)"
  obtain r st1 where 1: "close_each False ?ns st = (r, st1)" by fastforce
  note c = close_each_False [OF assms 1]
  from c have st1: "st\<lparr>m_open := []\<rparr> = st1\<lparr>m_open := []\<rparr>" "r = Inr ()"
    unfolding only_open_def by (metis mgr.update_convs(7) mgr.surjective)+
  have aux: "k_aux (i_class i)" if m: "map_of (m_open st1) m = Some i" for m i
  proof -
    from m have "m \<in> fst ` set (m_open st1)" by (metis domI dom_map_of_conv_image_fst)
    with c have "m \<in> set ?ns" by auto
    with c m show ?thesis by blast
  qed
  show ?thesis
  proof (cases "m_open st1 = []")
    case True
    with 1 st1 show ?thesis by (simp add: close_open_devices_def)
  next
    case False
    have "close_each True (map fst (m_open st1)) st1 = (Inr (), st1\<lparr>m_open := []\<rparr>)"
      by (rule close_each_True) (auto intro: aux)
    with 1 st1 False show ?thesis by (simp add: close_open_devices_def)
  qed
qed

text \<open>After \<open>close_open_devices\<close> no device is open, whatever the user counts of the auxiliary
  devices were, nothing is raised (no primary device gets an argument \<open>force\<close>), and nothing else
  changes.\<close>

theorem close_open_devices_closes_all:
  assumes "open_ok st"
  shows "close_open_devices st = (Inr (), st\<lparr>m_open := []\<rparr>)"
  by (rule close_open_devices_empty [OF assms])

definition hub_class :: dclass where
  "hub_class = \<lparr>k_aux = True, k_comm = ''HubComms'', k_persistent = [''name''], k_dynamic = [], k_setters = []\<rparr>"

definition cam_class :: dclass where
  "cam_class = \<lparr>k_aux = False, k_comm = ''CamComms'', k_persistent = [''name''],
     k_dynamic = [''volume'', ''uptime''], k_setters = [''volume'']\<rparr>"

definition two_open :: mgr where
  "two_open = demo_mgr\<lparr>m_open :=
     [(''cam-1'', \<lparr>i_class = cam_class, i_users = 1, i_other = False\<rparr>),
      (''hub-2'', \<lparr>i_class = hub_class, i_users = 3, i_other = False\<rparr>)]\<rparr>"

lemma two_open_ok: "open_ok two_open"
  by (simp add: open_ok_def two_open_def users_of_def cam_class_def hub_class_def)

theorem close_open_devices_closes_all_witness:
  "users two_open ''hub-2'' = 3 \<and> m_open (snd (close_open_devices two_open)) = []"
  using close_open_devices_closes_all [OF two_open_ok]
  by (simp add: users_def two_open_def users_of_def hub_class_def)

section \<open>Creating\<close>

definition counted :: "(string \<Rightarrow> nat) \<Rightarrow> mgr \<Rightarrow> bool" where
  "counted u st \<longleftrightarrow> open_ok st \<and> users st = u"

lemma counted_cong: "m_open st' = m_open st \<Longrightarrow> counted u st' = counted u st"
  using open_ok_cong [of st' st] users_cong [of st' st] by (simp add: counted_def)

lemma close_counted:
  "triple (counted u) (close_instance n False) (\<lambda>_. counted (rc_close n u)) (\<lambda>_ _. False)"
proof (rule tripleI)
  fix st r st' assume c: "counted u st" and m: "close_instance n False st = (Inr r, st')"
  then show "counted (rc_close n u) st'"
    using close_instance_counts(2,3) [OF _ m] by (simp add: counted_def)
next
  fix st e st' assume c: "counted u st" and m: "close_instance n False st = (Inl e, st')"
  then show False using close_instance_counts(1) [OF _ m] by (simp add: counted_def)
qed

lemma update_device_config_counted:
  "triple (counted u) (update_device_config other n) (\<lambda>_. counted u) (\<lambda>_. counted u)"
proof -
  have "m_open st' = m_open st" if "update_device_config other n st = (r, st')" for r st st'
    using that
    by (auto simp: update_device_config_def update_category_def Let_def split: option.splits)
  then show ?thesis by (intro tripleI) (metis counted_cong)+
qed

lemma open_instance_counted:
  "u n = 0 \<Longrightarrow>
   triple (counted u) (open_instance k other n setting) (\<lambda>_. counted (rc_open n u)) (\<lambda>_. counted u)"
  by (rule tripleI)
    (auto simp: open_instance_def counted_def users_def rc_open_def fun_eq_iff map_of_update_if
      users_of_def intro!: open_ok_update split: if_splits)

text \<open>A device that is not ready is closed again, when the environment raises a device error.\<close>

definition polite :: "menv \<Rightarrow> string \<Rightarrow> bool" where
  "polite env setting \<longleftrightarrow> (\<forall>n e. e_ready env n setting = Inl e \<longrightarrow> is_device_error e)"

lemma make_ready_counted:
  assumes "polite env setting"
  shows "triple (counted (rc_open n u)) (make_ready env n setting)
           (\<lambda>_. counted (rc_open n u)) (\<lambda>_. counted u)"
proof (cases "e_ready env n setting")
  case (Inr v)
  then show ?thesis by (intro tripleI) (simp_all add: make_ready_def)
next
  case (Inl e)
  with assms have "is_device_error e" by (auto simp: polite_def)
  with Inl have "make_ready env n setting = bindS (close_instance n False) (\<lambda>_. raiseS e)"
    by (simp add: make_ready_def fun_eq_iff)
  moreover have "triple (counted (rc_open n u)) (bindS (close_instance n False) (\<lambda>_. raiseS e))
      (\<lambda>_ _. False) (\<lambda>_. counted u)"
    using close_counted [of "rc_open n u" n]
    by (intro triple_bind [of _ _ "\<lambda>_. counted u"] triple_raise) (auto elim: triple_post)
  ultimately show ?thesis by (auto elim: triple_post)
qed

text \<open>A new device counts up; when a step raises, the counters are as before.\<close>

lemma create_new_counted:
  assumes "polite env setting" and "u cname = 0"
  shows "triple (counted u) (create_new env (\<lambda>_. returnS ()) name cname other t setting)
    (\<lambda>x st. x = cname \<and> counted (rc_open cname u) st) (\<lambda>_. counted u)"
  unfolding create_new_def
proof (rule triple_bind)
  show "triple (counted u) (returnS ()) (\<lambda>_. counted u) (\<lambda>_. counted u)"
    by (rule triple_return)
  have ready: "triple (counted (rc_open cname u))
      (bindS (make_ready env cname setting) (\<lambda>_. returnS cname))
      (\<lambda>x st. x = cname \<and> counted (rc_open cname u) st) (\<lambda>_. counted u)"
    by (rule triple_bind [OF make_ready_counted [OF assms(1)]]) (simp add: triple_return)
  have opened: "triple (counted u) (bindS (open_instance k other cname setting)
      (\<lambda>_. bindS (make_ready env cname setting) (\<lambda>_. returnS cname)))
      (\<lambda>x st. x = cname \<and> counted (rc_open cname u) st) (\<lambda>_. counted u)" for k
    by (rule triple_bind [OF open_instance_counted [of u cname, OF assms(2)] ready])
  have "triple (counted u) (bindS (liftS (supported_device_class env t))
      (\<lambda>k. bindS (open_instance k other cname setting)
        (\<lambda>_. bindS (make_ready env cname setting) (\<lambda>_. returnS cname))))
      (\<lambda>x st. x = cname \<and> counted (rc_open cname u) st) (\<lambda>_. counted u)"
    by (rule triple_bind [OF triple_lift opened]) simp_all
  then show "triple (counted u) (bindS (update_device_config other cname)
      (\<lambda>_. bindS (liftS (supported_device_class env t))
      (\<lambda>k. bindS (open_instance k other cname setting)
        (\<lambda>_. bindS (make_ready env cname setting) (\<lambda>_. returnS cname)))))
      (\<lambda>x st. x = cname \<and> counted (rc_open cname u) st) (\<lambda>_. counted u)" for x :: unit
    by (rule triple_bind [OF update_device_config_counted])
qed

lemma increment_counted:
  "triple (counted u) (increment_user_count n) (\<lambda>_. counted (rc_open n u)) (\<lambda>_. counted u)"
proof (rule tripleI)
  fix st v st' assume c: "counted u st" and m: "increment_user_count n st = (Inr v, st')"
  then obtain i where i: "map_of (m_open st) n = Some i" and aux: "k_aux (i_class i)"
    and st': "st' = st\<lparr>m_open := AList.update n (i\<lparr>i_users := i_users i + 1\<rparr>) (m_open st)\<rparr>"
    by (auto simp: increment_user_count_def split: option.splits if_splits)
  have "open_ok st'" unfolding st'
    by (rule open_ok_update) (use c in \<open>simp_all add: counted_def users_of_def aux\<close>)
  moreover have "users st' = rc_open n (users st)"
    by (simp add: st' users_def rc_open_def fun_eq_iff map_of_update_if users_of_def i aux)
  ultimately show "counted (rc_open n u) st'" using c by (simp add: counted_def)
qed (auto simp: increment_user_count_def split: option.splits if_splits)

text \<open>
  A name is not an alias of another device: looking up the name that an identifier resolves to
  gives the same name.
\<close>

definition names_ok :: "mgr \<Rightarrow> bool" where
  "names_ok st \<longleftrightarrow> (\<forall>ident \<in> fst ` set (get_aliases st ''all'').
     case map_of (get_aliases st ''all'') ident of
       None \<Rightarrow> True | Some n \<Rightarrow> known_device st n = Inr n)"

lemma known_device_eq [result_simps]:
  "known_device st ident = Inr n \<longleftrightarrow> map_of (get_aliases st ''all'') (lower ident) = Some n"
  by (auto simp: known_device_def get_device_name_def bindE_def split: option.splits sum.splits)

lemma names_okD: "names_ok st \<Longrightarrow> known_device st ident = Inr n \<Longrightarrow> known_device st n = Inr n"
  unfolding names_ok_def known_device_eq
  by (drule bspec [of _ _ "lower ident"]) (force dest: map_of_SomeD, simp add: known_device_eq)

lemma device_and_typeD:
  assumes "device_and_type st ident = Inr (name, cname, other, t)" and "names_ok st"
  shows "cname = name" and "known_device st name = Inr name"
  using assms names_okD by (auto simp: device_and_type_def bindE_eq_Inr)

text \<open>What the creation of a device does to the counters, from the state the device was looked up in.\<close>

lemma create_device_counts:
  assumes "create_device_with env (\<lambda>_. returnS ()) ident setting raise_open st = (r, st')"
    and "counted u st" and "names_ok st" and "polite env setting" and "\<not> ends_with ident ''sim''"
  shows "(\<exists>e. r = Inl e) \<and> counted u st' \<or>
    (\<exists>name other t. r = Inr name \<and> device_and_type st ident = Inr (name, name, other, t) \<and>
       (if u name = 0 \<or> is_auxiliary_type env t then counted (rc_open name u) st'
        else \<not> raise_open \<and> st' = st))"
proof (cases "type_check (PStr ident) [T_str]")
  case (Inl e)
  with assms show ?thesis by (auto simp: create_device_with_def bindS_def liftS_def)
next
  case tc: (Inr v)
  show ?thesis
  proof (cases "device_and_type st ident")
    case (Inl e)
    with tc assms show ?thesis by (auto simp: create_device_with_def bindS_def liftS_def readS_def)
  next
    case (Inr d)
    then obtain name cname other t where d: "device_and_type st ident = Inr (name, cname, other, t)"
      by (metis surj_pair)
    note n = device_and_typeD [OF d assms(3)]
    have z: "u name = 0 \<longleftrightarrow> map_of (m_open st) name = None"
      using assms(2) users_zero_iff [of st name] by (auto simp: counted_def)
    consider "u name = 0" | "u name \<noteq> 0" "is_auxiliary_type env t"
      | "u name \<noteq> 0" "\<not> is_auxiliary_type env t" by blast
    then show ?thesis
    proof cases
      case 1
      with tc assms(1,5) d z have c: "create_new env (\<lambda>_. returnS ()) name name other t setting st = (r, st')"
        by (simp add: create_device_with_def bindS_def liftS_def readS_def n)
      note t3 = create_new_counted [of env setting u name name other t, OF assms(4) 1]
      show ?thesis
      proof (cases r)
        case (Inl e)
        with tripleD_exn [OF t3 c [unfolded Inl] assms(2)] show ?thesis by simp
      next
        case (Inr x)
        with tripleD_value [OF t3 c [unfolded Inr] assms(2)] d n 1 show ?thesis by auto
      qed
    next
      case 2
      have o: "get_open_device st name = Inr name"
        using n(2) 2 z by (simp add: get_open_device_def)
      obtain r1 st1 where i: "increment_user_count name st = (r1, st1)" by fastforce
      from tc assms(1,5) d z o i 2 have r: "r = (case r1 of Inl e \<Rightarrow> Inl e | Inr _ \<Rightarrow> Inr name)" "st' = st1"
        by (auto simp: create_device_with_def bindS_def liftS_def readS_def n returnS_def split: sum.splits)
      show ?thesis
      proof (cases r1)
        case (Inl e)
        with tripleD_exn [OF increment_counted i [unfolded Inl] assms(2)] r show ?thesis by simp
      next
        case (Inr x)
        with tripleD_value [OF increment_counted i [unfolded Inr] assms(2)] r d n 2 show ?thesis by auto
      qed
    next
      case 3
      have o: "get_open_device st name = Inr name"
        using n(2) 3 z by (simp add: get_open_device_def)
      from tc assms(1,5) d z o 3 have "st' = st" "r = (if raise_open then Inl DeviceError else Inr name)"
        by (auto simp: create_device_with_def bindS_def liftS_def readS_def n split: if_splits)
      with assms(2) d n 3 show ?thesis by (cases raise_open) auto
    qed
  qed
qed

lemma create_and_close_counted:
  assumes "create_and_close_device env ident body st = (r, st')"
    and "counted u st" and "names_ok st" and "polite env ''off''" and "\<not> ends_with ident ''sim''"
    and body: "\<And>v n. triple (counted v) (body n) (\<lambda>_. counted v) (\<lambda>_. counted v)"
  shows "counted u st'"
proof (cases "device_and_type st ident")
  case (Inl e)
  with assms(1,2) show ?thesis
    by (auto simp: create_and_close_device_def bindS_def readS_def should_close_def)
next
  case (Inr d)
  then obtain name cname other t where d: "device_and_type st ident = Inr (name, cname, other, t)"
    by (metis surj_pair)
  let ?closing = "is_auxiliary_type env t \<or> map_of (m_open st) name = None"
  obtain r1 st1 where c: "create_device_with env (\<lambda>_. returnS ()) ident ''off'' False st = (r1, st1)"
    by fastforce
  note created = create_device_counts [OF c assms(2,3,4,5)]
  show ?thesis
  proof (cases r1)
    case (Inl e)
    with assms(1) c d have "st' = st1"
      by (auto simp: create_and_close_device_def bindS_def readS_def should_close_def)
    with created Inl show ?thesis by simp
  next
    case (Inr x)
    with created d device_and_typeD [OF d assms(3)]
    have x: "x = name" and cnt: "if u name = 0 \<or> is_auxiliary_type env t
        then counted (rc_open name u) st1 else st1 = st" by auto
    from assms(1) c d Inr x have f: "finallyS (body name)
        (if ?closing then close_instance name False else returnS ()) st1 = (r, st')"
      by (simp add: create_and_close_device_def bindS_def readS_def should_close_def)
    have z: "u name = 0 \<longleftrightarrow> map_of (m_open st) name = None"
      using assms(2) users_zero_iff [of st name] by (auto simp: counted_def)
    show ?thesis
    proof (cases ?closing)
      case True
      have cl: "triple (counted (rc_open name u)) (close_instance name False) (\<lambda>_. counted u) (\<lambda>_. counted u)"
        by (rule triple_post [OF close_counted [of "rc_open name u" name]]) simp_all
      have "triple (counted (rc_open name u)) (finallyS (body name) (close_instance name False))
          (\<lambda>_. counted u) (\<lambda>_. counted u)"
        by (rule triple_finally [OF body cl cl])
      from tripleD_value [OF this] tripleD_exn [OF this] f True cnt z show ?thesis by (cases r) auto
    next
      case False
      have cl: "triple (counted u) (returnS ()) (\<lambda>_. counted u) (\<lambda>_. counted u)"
        by (rule triple_return)
      have "triple (counted u) (finallyS (body name) (returnS ())) (\<lambda>_. counted u) (\<lambda>_. counted u)"
        by (rule triple_finally [OF body cl cl])
      from tripleD_value [OF this] tripleD_exn [OF this] f False cnt z assms(2) show ?thesis
        by (cases r) auto
    qed
  qed
qed

definition demo_env :: menv where
  "demo_env =
     \<lparr>e_class = [''cam'' \<mapsto> cam_class, ''hub'' \<mapsto> hub_class],
      e_ready = (\<lambda>n setting. if setting = ''flash_build'' then Inl DeviceError else Inr ()),
      e_setattr = (\<lambda>_ _ _. Inr ()), e_sim = (\<lambda>_. Inl DeviceError), e_is_static_ip = (\<lambda>_. False),
      e_get_mode = (\<lambda>_ _. Inr ''off''), e_set_mode = (\<lambda>_ _ _. Inr ()),
      e_detect = (\<lambda>conf _ _ _. Inr conf)\<rparr>"

lemma demo_polite: "polite demo_env setting"
  by (simp add: polite_def demo_env_def is_device_error_def)

lemma two_open_names: "names_ok two_open"
  by code_simp

lemma two_open_counted: "counted (users two_open) two_open"
  by (simp add: counted_def two_open_ok)



section \<open>Setting a property\<close>

lemma update_category_open [simp]: "m_open (update_category other f st) = m_open st"
  by (simp add: update_category_def)

lemma put_option_open [simp]: "m_open (put_option other n p v st) = m_open st"
  by (simp add: put_option_def)

lemma counted_keepsI:
  "(\<And>st r st'. m st = (r, st') \<Longrightarrow> m_open st' = m_open st) \<Longrightarrow>
   triple (counted u) m (\<lambda>_. counted u) (\<lambda>_. counted u)"
  by (rule tripleI) (metis counted_cong)+

lemma save_property_open:
  "save_property_to_config n p v st = (r, st') \<Longrightarrow> m_open st' = m_open st"
  by (auto simp: save_property_to_config_def save_options_def Let_def split: if_splits)

lemma device_set_property_open:
  "device_set_property env n p v st = (r, st') \<Longrightarrow> m_open st' = m_open st"
  by (auto simp: device_set_property_def dest: save_property_open split: option.splits if_splits)

lemma realign_alias_open:
  "realign_alias v old n st = (r, st') \<Longrightarrow> m_open st' = m_open st"
  by (auto simp: realign_alias_def bindS_def liftS_def returnS_def
      split: if_splits sum.splits prod.splits)

lemma set_body_counted:
  "triple (counted u) (bindS (if p = ''alias''
       then bindS (readS (\<lambda>st. old_alias st n)) (\<lambda>old. realign_alias v old n) else returnS ())
     (\<lambda>_. device_set_property env n p v)) (\<lambda>_. counted u) (\<lambda>_. counted u)"
proof (rule triple_bind)
  show "triple (counted u) (if p = ''alias''
       then bindS (readS (\<lambda>st. old_alias st n)) (\<lambda>old. realign_alias v old n) else returnS ())
     (\<lambda>_. counted u) (\<lambda>_. counted u)"
    by (auto intro!: counted_keepsI dest: realign_alias_open
        simp: bindS_def readS_def returnS_def split: sum.splits)
  show "triple (counted u) (device_set_property env n p v) (\<lambda>_. counted u) (\<lambda>_. counted u)"
    by (rule counted_keepsI) (rule device_set_property_open)
qed

lemma set_prop_counted:
  assumes "set_prop env ident p v st = (r, st')" and "counted u st" and "names_ok st"
    and "polite env ''off''" and "\<not> ends_with ident ''sim''"
  shows "counted u st'"
proof (cases "is_manager_config ident")
  case True
  have "m_open st' = m_open st"
    using assms(1) True
    by (auto simp: set_prop_def set_config_prop_def bindS_def liftS_def Let_def split: sum.splits)
  with assms(2) counted_cong show ?thesis by blast
next
  case False
  show ?thesis
  proof (cases "\<exists>e. type_check (PStr p) [T_str] = Inl e \<or>
      type_check v [T_str, T_NoneType, T_int, T_float, T_dict] = Inl e")
    case True
    with assms(1) \<open>\<not> is_manager_config ident\<close> have "st' = st"
      by (auto simp: set_prop_def set_device_prop_def bindS_def liftS_def split: sum.splits)
    with assms(2) show ?thesis by simp
  next
    case F: False
    obtain a b where "type_check (PStr p) [T_str] = Inr a"
      "type_check v [T_str, T_NoneType, T_int, T_float, T_dict] = Inr b"
      using F by (metis sum.exhaust)
    with assms(1) False have "create_and_close_device env ident (\<lambda>name.
           bindS (if p = ''alias''
                  then bindS (readS (\<lambda>st. old_alias st name)) (\<lambda>old. realign_alias v old name)
                  else returnS ()) (\<lambda>_. device_set_property env name p v)) st = (r, st')"
      by (simp add: set_prop_def set_device_prop_def bindS_def liftS_def)
    from create_and_close_counted [OF this assms(2-5) set_body_counted] show ?thesis .
  qed
qed

text \<open>Setting a property of a device, which opens the device for itself and closes it again,
  leaves the users of every device as they were, whether it succeeds or raises.\<close>

theorem set_prop_keeps_users:
  assumes "set_prop env ident p v st = (r, st')" and "open_ok st" and "names_ok st"
    and "polite env ''off''" and "\<not> ends_with ident ''sim''"
  shows "users st' = users st"
  using set_prop_counted [OF assms(1) _ assms(3-5), of "users st"] assms(2)
  by (simp add: counted_def)

theorem set_prop_keeps_users_witness:
  "users (snd (set_prop demo_env ''kitchen'' ''alias'' (PStr ''Attic'') two_open)) = users two_open \<and>
   known_device (snd (set_prop demo_env ''kitchen'' ''alias'' (PStr ''Attic'') two_open)) ''ATTIC'' = Inr ''cam-1''"
proof
  obtain r st' where s: "set_prop demo_env ''kitchen'' ''alias'' (PStr ''Attic'') two_open = (r, st')"
    by fastforce
  from set_prop_keeps_users [OF s two_open_ok two_open_names demo_polite] s
  show "users (snd (set_prop demo_env ''kitchen'' ''alias'' (PStr ''Attic'') two_open)) = users two_open"
    by (simp add: ends_with_def)
  show "known_device (snd (set_prop demo_env ''kitchen'' ''alias'' (PStr ''Attic'') two_open)) ''ATTIC''
    = Inr ''cam-1''" by code_simp
qed

end
