(* ===== verification/Manager_Props.thy ===== *)
theory Manager_Props
  imports Manager_Open
begin

text \<open>
  What becomes of the alias of a device when it is removed, and what redetection does to the
  options of the device and to the power hub it uses.
\<close>

section \<open>Removing the alias\<close>

lemma find_device_category:
  "find_device_configuration st name ''all'' = Some (other, p, q) \<Longrightarrow>
   device_config (category_of other st) name = Some (p, q) \<and>
   (\<not> other \<longrightarrow> device_config (m_other st) name = None)"
  by (auto simp: find_device_configuration_def category_of_def split: option.splits)

lemma find_device_all:
  "find_device_configuration st name ''all'' =
     (case device_config (m_other st) name of
        Some (p, q) \<Rightarrow> Some (True, p, q)
      | None \<Rightarrow> (case device_config (m_gazoo st) name of Some (p, q) \<Rightarrow> Some (False, p, q) | None \<Rightarrow> None))"
  by (simp add: find_device_configuration_def)

lemma device_config_options:
  "device_config c n = Some (p, q) \<Longrightarrow>
   device_config (c\<lparr>c_options := AList.update n q' (c_options c)\<rparr>) n = Some (p, q')"
  by (auto simp: device_config_def map_of_update_if split: option.splits)

lemma device_config_options_other:
  "m \<noteq> n \<Longrightarrow> device_config (c\<lparr>c_options := AList.update n q' (c_options c)\<rparr>) m = device_config c m"
  by (auto simp: device_config_def map_of_update_if)

lemma device_config_persistent:
  "device_config c n = Some (p, q) \<Longrightarrow>
   device_config (c\<lparr>c_persistent := AList.update n p' (c_persistent c)\<rparr>) n = Some (p', q)"
  by (auto simp: device_config_def map_of_update_if split: option.splits)

lemma known_device_update_category:
  assumes "\<And>c. c_aliases (f c) = c_aliases c"
  shows "known_device (update_category other f st) i = known_device st i"
  using assms by (simp add: known_device_def get_device_name_def get_aliases_def update_category_def)

lemma remove_device_propD:
  assumes "remove_device_prop ident p st = (Inr (), st1)"
  obtains name other pp q where
    "known_device st ident = Inr name"
    "find_device_configuration st name ''all'' = Some (other, pp, q)" "map_of q p \<noteq> None"
    "find_device_configuration st1 name ''all'' = Some (other, pp, AList.delete p q)"
    "\<And>i. known_device st1 i = known_device st i" "m_open st1 = m_open st"
proof -
  from assms obtain name other pp q where n: "known_device st ident = Inr name"
    and c: "find_device_configuration st name ''all'' = Some (other, pp, q)"
    and q: "map_of q p \<noteq> None"
    and st1: "save_options (update_category other
        (\<lambda>c. c\<lparr>c_options := AList.update name (AList.delete p q) (c_options c)\<rparr>) st) = (Inr (), st1)"
    by (auto simp: remove_device_prop_def readS_def result_simps subscripted_def
        get_device_configuration_def split: option.splits if_splits)
  let ?f = "\<lambda>c. c\<lparr>c_options := AList.update name (AList.delete p q) (c_options c)\<rparr>"
  from find_device_category [OF c] have dc: "device_config (category_of other st) name = Some (pp, q)"
    and no: "\<not> other \<longrightarrow> device_config (m_other st) name = None" by auto
  have "find_device_configuration st1 name ''all'' = Some (other, pp, AList.delete p q)"
    using st1 device_config_options [OF dc] no
    by (cases other) (auto simp: find_device_all save_options_def update_category_def category_of_def)
  moreover have "known_device st1 i = known_device st i" for i
  proof -
    have "known_device st1 i = known_device (update_category other ?f st) i"
      using st1 by (auto simp: save_options_def known_device_def get_device_name_def get_aliases_def)
    also have "\<dots> = known_device st i" by (rule known_device_update_category) simp
    finally show ?thesis .
  qed
  moreover have "m_open st1 = m_open st" using st1 by (auto simp: save_options_def)
  ultimately show thesis using n c q by (intro that)
qed

lemma update_device_config_options:
  assumes "update_device_config other n st = (Inr (), st')"
    and "device_config (category_of other st) n = Some (p, q)"
  shows "option_of st' other n a = dict_item q a"
  using assms device_config_persistent [OF assms(2)]
  by (auto simp: update_device_config_def option_of_def category_of_def update_category_def Let_def)

lemma create_new_fresh:
  assumes "create_new env (\<lambda>_. returnS ()) name cname other t setting st = (Inr x, st')"
    and "device_config (category_of other st) cname = Some (p, q)"
  shows "x = cname" and "old_alias st' cname = dict_item q ''alias''"
proof -
  from assms(1) obtain st1 k st2 where u: "update_device_config other cname st = (Inr (), st1)"
    and o: "open_instance k other cname setting st1 = (Inr (), st2)"
    and r: "make_ready env cname setting st2 = (Inr (), st')" and x: "x = cname"
    by (auto simp: create_new_def returnS_def liftS_def result_simps)
  show "x = cname" by (rule x)
  from r have st': "st' = st2"
    by (auto simp: make_ready_def raiseS_def result_simps split: sum.splits if_splits)
  from o have st2: "st2 = st1\<lparr>m_open := AList.update cname
      \<lparr>i_class = k, i_users = 1, i_other = other\<rparr> (m_open st1)\<rparr>"
    by (auto simp: open_instance_def split: if_splits)
  have "option_of st2 other cname ''alias'' = option_of st1 other cname ''alias''"
    by (simp add: option_of_def category_of_def st2)
  with update_device_config_options [OF u assms(2)]
  show "old_alias st' cname = dict_item q ''alias''"
    by (simp add: old_alias_def st' st2 map_of_update_if)
qed

lemma finallyS_fails: "fst (body st) = Inl e \<Longrightarrow> \<exists>e. fst (finallyS body clean st) = Inl e"
  by (cases "body st"; cases "fst (clean (snd (body st)))")
    (auto simp: finallyS_def split: prod.splits sum.splits)

lemma set_alias_without_option:
  assumes "find_device_configuration st name ''all'' = Some (other, pp, q)"
    and "map_of q ''alias'' = None" and "known_device st name = Inr name"
    and "known_device st ident = Inr name" and "map_of (m_open st) name = None"
    and "\<not> ends_with ident ''sim''"
  shows "\<exists>e. fst (set_device_prop env ident ''alias'' v st) = Inl e"
proof (rule ccontr)
  assume "\<not> ?thesis"
  then obtain st' where ok: "set_device_prop env ident ''alias'' v st = (Inr (), st')"
    by (cases "set_device_prop env ident ''alias'' v st"; cases "fst (set_device_prop env ident ''alias'' v st)")
      auto
  let ?body = "\<lambda>name. bindS (bindS (readS (\<lambda>st. old_alias st name)) (\<lambda>old. realign_alias v old name))
      (\<lambda>_. device_set_property env name ''alias'' v)"
  from ok obtain closing x st1 where
    c: "create_device_with env (\<lambda>_. returnS ()) ident ''off'' False st = (Inr x, st1)"
    and f: "finallyS (?body x) (if closing then close_instance x False else returnS ()) st1 = (Inr (), st')"
    by (auto simp: set_device_prop_def create_and_close_device_def liftS_def readS_def result_simps)
  from assms(3) have dt: "device_and_type st ident = Inr d \<Longrightarrow> \<exists>t. d = (name, name, other, t)" for d
    using assms(1,4)
    by (auto simp: device_and_type_def subscripted_def get_device_configuration_def bindE_eq_Inr)
  from c assms(6) obtain d where "device_and_type st ident = Inr d"
    by (auto simp: create_device_with_def liftS_def readS_def result_simps)
  with dt obtain t where d: "device_and_type st ident = Inr (name, name, other, t)" by blast
  from c d assms(5,6) have n: "create_new env (\<lambda>_. returnS ()) name name other t ''off'' st = (Inr x, st1)"
    by (auto simp: create_device_with_def liftS_def readS_def result_simps)
  from find_device_category [OF assms(1)]
  have dc: "device_config (category_of other st) name = Some (pp, q)" by simp
  have "old_alias st1 x = Inl KeyError"
    using create_new_fresh [OF n dc] assms(2) by (simp add: dict_item_def)
  then have "fst (?body x st1) = Inl KeyError"
    by (simp add: readS_def)
  from finallyS_fails [of "?body x" st1, OF this] f show False by (metis fst_conv Inl_Inr_False)
qed

text \<open>Once the property \<open>alias\<close> of a device was removed, no alias can be set for it any more (the
  setter reads the old alias first and raises), while the removed alias still finds the device
  until the configuration is loaded again.\<close>

theorem removed_alias_stuck:
  assumes "remove_prop ident ''alias'' st = (Inr (), st1)" and "names_ok st"
    and "known_device st ident = Inr name" and "map_of (m_open st) name = None"
    and "\<not> ends_with ident ''sim''"
  shows "(\<exists>e. fst (set_prop env ident ''alias'' v st1) = Inl e) \<and>
    (\<forall>i. known_device st1 i = known_device st i)"
proof -
  from assms(1) have m: "\<not> is_manager_config ident"
    and r: "remove_device_prop ident ''alias'' st = (Inr (), st1)"
    by (auto simp: remove_prop_def raiseS_def split: if_splits)
  obtain n other pp q where n: "known_device st ident = Inr n"
    and c: "find_device_configuration st1 n ''all'' = Some (other, pp, AList.delete ''alias'' q)"
    and k: "\<And>i. known_device st1 i = known_device st i" and o: "m_open st1 = m_open st"
    by (rule remove_device_propD [OF r], rule that) assumption+
  from n assms(3) have "n = name" by simp
  have "\<exists>e. fst (set_device_prop env ident ''alias'' v st1) = Inl e"
    using names_okD [OF assms(2,3)] assms(3,4,5) k o \<open>n = name\<close>
    by (intro set_alias_without_option [OF c]) (simp_all add: map_of_delete_if)
  with m k show ?thesis by (simp add: set_prop_def)
qed

theorem removed_alias_stuck_witness:
  "\<exists>st1. remove_prop ''kitchen'' ''alias'' demo_mgr = (Inr (), st1) \<and>
     (\<exists>e. fst (set_prop demo_env ''cam-1'' ''alias'' (PStr ''attic'') st1) = Inl e) \<and>
     known_device st1 ''kitchen'' = Inr ''cam-1''"
proof -
  have ok: "fst (remove_prop ''cam-1'' ''alias'' demo_mgr) = Inr ()"
    and same: "remove_prop ''cam-1'' ''alias'' demo_mgr = remove_prop ''kitchen'' ''alias'' demo_mgr"
    and n: "names_ok demo_mgr" "known_device demo_mgr ''cam-1'' = Inr ''cam-1''"
    and kitchen: "known_device demo_mgr ''kitchen'' = Inr ''cam-1''"
    and closed: "map_of (m_open demo_mgr) ''cam-1'' = None" by code_simp+
  from ok obtain st1 where r: "remove_prop ''cam-1'' ''alias'' demo_mgr = (Inr (), st1)"
    by (metis prod.collapse)
  have "\<not> ends_with ''cam-1'' ''sim''" by (simp add: ends_with_def)
  from removed_alias_stuck [OF r n closed this, of demo_env "PStr ''attic''"] r same kitchen
  show ?thesis by (intro exI [of _ st1]) simp
qed

section \<open>Redetection and the power hub\<close>

text \<open>A method that leaves the open devices alone.\<close>

definition keeps_open :: "'a manager \<Rightarrow> bool" where
  "keeps_open m \<longleftrightarrow> (\<forall>st. m_open (snd (m st)) = m_open st)"

lemma keeps_openD: "keeps_open m \<Longrightarrow> m st = (r, st') \<Longrightarrow> m_open st' = m_open st"
  by (metis keeps_open_def snd_conv)

lemma keeps_open_bind [intro]:
  assumes "keeps_open m" and "\<And>x. keeps_open (f x)"
  shows "keeps_open (bindS m f)"
  unfolding keeps_open_def
proof
  fix st
  obtain r st1 where m: "m st = (r, st1)" by fastforce
  note 1 = keeps_openD [OF assms(1) m]
  show "m_open (snd (bindS m f st)) = m_open st"
  proof (cases r)
    case (Inr x)
    obtain r2 st2 where f: "f x st1 = (r2, st2)" by fastforce
    from keeps_openD [OF assms(2) f] 1 m f Inr show ?thesis by simp
  qed (use 1 m in simp)
qed

lemma keeps_open_basic [intro]:
  "keeps_open (returnS x)" "keeps_open (liftS r)" "keeps_open (readS f)" "keeps_open (raiseS e)"
  by (simp_all add: keeps_open_def returnS_def liftS_def readS_def raiseS_def)

lemma keeps_open_ignoring [intro]: "keeps_open m \<Longrightarrow> keeps_open (ignoring_device_errors x m)"
  unfolding keeps_open_def
proof
  fix st assume k: "\<forall>st. m_open (snd (m st)) = m_open st"
  obtain r st1 where m: "m st = (r, st1)" by fastforce
  with k have "m_open st1 = m_open st" by (metis snd_conv)
  with m show "m_open (snd (ignoring_device_errors x m st)) = m_open st"
    by (auto simp: ignoring_device_errors_def split: sum.splits)
qed

lemma keeps_open_files [intro]:
  "keeps_open (save_configs conf)" "keeps_open reload_configuration" "keeps_open (set_mode env h i m)"
proof -
  show "keeps_open (save_configs conf)" "keeps_open (set_mode env h i m)"
    by (auto simp: keeps_open_def save_configs_def set_mode_def split: sum.splits)
  have "keeps_open load_devices" "keeps_open load_other_devices"
    by (auto simp: keeps_open_def load_devices_def load_other_devices_def split: sum.splits)
  then have "keeps_open (bindS load_devices (\<lambda>_. load_other_devices))" by auto
  then show "keeps_open reload_configuration"
    by (simp add: keeps_open_def reload_configuration_def)
qed

lemma keeps_open_restore [intro]: "keeps_open (restore_power env p hub)"
  by (cases hub; cases "fst hub"; cases p) (auto simp: restore_power_def)

lemma keeps_open_detect [intro]:
  "keeps_open (detect_configs env False ips save types addrs conf)"
  by (auto simp: keeps_open_def detect_configs_def liftS_def)

lemma keeps_open_redetect_on [intro]: "keeps_open (redetect_on env name p comms_port hub_port hub)"
  unfolding redetect_on_def by (intro keeps_open_bind; auto)

lemma power_on_created:
  assumes "create_device env None h ''on'' True st = (Inr hub, st1)"
    and "power_on env h port st = (r, st2)"
  shows "m_open st2 = m_open st1"
proof -
  let ?rest = "ignoring_device_errors (Some hub, None)
            (bindS (liftS (e_get_mode env hub port)) (\<lambda>original.
               if original = ''sync'' then returnS (Some hub, Some original)
               else ignoring_device_errors (Some hub, Some original)
                      (bindS (set_mode env hub port (Some ''sync'')) (\<lambda>_.
                         returnS (Some hub, Some original)))))"
  have k: "keeps_open ?rest" by (auto intro!: keeps_open_ignoring keeps_open_bind)
  obtain r1 st3 where r1: "?rest st1 = (r1, st3)" by fastforce
  with assms have "st2 = st3"
    by (auto simp: power_on_def ignoring_device_errors_def [of "(None, None)"] split: sum.splits if_splits)
  with keeps_openD [OF k r1] show ?thesis by simp
qed

text \<open>Redetection never closes the power hub that it opens: each successful redetection of a device
  on a hub leaves one more user of the hub.\<close>

theorem redetect_leaks_hub:
  assumes "redetect env ident st = (Inr (), st')" and "known_device st ident = Inr name"
    and "usb_hub_name_and_port st name = Inr (PStr h, PInt port)" and "h \<noteq> []" and "port \<noteq> 0"
    and "create_device env None h ''on'' True st = (Inr hub, st1)"
    and "open_ok st" and "names_ok st" and "polite env ''on''" and "\<not> ends_with h ''sim''"
  shows "users st' = rc_open hub (users st)"
proof -
  from assms(1-5) obtain p comms_port hub_modes st2 where h: "power_on env h port st = (Inr hub_modes, st2)"
    and r: "redetect_on env name p comms_port (PInt port) hub_modes st2 = (Inr (), st')"
    unfolding redetect_def
    by (fastforce simp: bindS_eq_Inr readS_def liftS_def hub_step_def split_beta)
  have "users st1 = rc_open hub (users st)"
  proof -
    have "create_device_with env (\<lambda>_. returnS ()) h ''on'' True st = (Inr hub, st1)"
      using assms(6) by (simp add: create_device_def)
    from create_device_counts [OF this _ assms(8,9,10), of "users st"] assms(7)
    show ?thesis by (auto simp: counted_def split: if_splits)
  qed
  moreover have "m_open st' = m_open st1"
    using power_on_created [OF assms(6) h] keeps_openD [OF keeps_open_redetect_on r] by simp
  ultimately show ?thesis using users_cong by metis
qed

definition on_hub :: mgr where
  "on_hub = demo_mgr\<lparr>m_gazoo := demo_catg\<lparr>c_options :=
     [(''hub-2'', [(''alias'', PNone)]),
      (''cam-1'', [(''usb_hub'', PStr ''hub-2''), (''usb_port'', PInt 3)])]\<rparr>\<rparr>"

definition finding_env :: menv where
  "finding_env = demo_env\<lparr>e_detect := (\<lambda>_ _ _ _. Inr (current_configs on_hub))\<rparr>"

lemma finding_polite: "polite finding_env setting"
  using demo_polite by (simp add: polite_def finding_env_def)

theorem redetect_leaks_hub_witness:
  "users on_hub ''hub-2'' = 0 \<and> users (snd (redetect finding_env ''cam-1'' on_hub)) ''hub-2'' = 1"
proof -
  have r: "fst (redetect finding_env ''cam-1'' on_hub) = Inr ()"
    and n: "known_device on_hub ''cam-1'' = Inr ''cam-1''"
    and h: "usb_hub_name_and_port on_hub ''cam-1'' = Inr (PStr ''hub-2'', PInt 3)"
    and c: "fst (create_device finding_env None ''hub-2'' ''on'' True on_hub) = Inr ''hub-2''"
    and ok: "names_ok on_hub" and z: "users on_hub ''hub-2'' = 0" by code_simp+
  from r obtain st' where r': "redetect finding_env ''cam-1'' on_hub = (Inr (), st')" by (metis prod.collapse)
  from c obtain st1 where c': "create_device finding_env None ''hub-2'' ''on'' True on_hub = (Inr ''hub-2'', st1)"
    by (metis prod.collapse)
  have "open_ok on_hub" by (simp add: open_ok_def on_hub_def demo_mgr_def)
  moreover have "\<not> ends_with ''hub-2'' ''sim''" by (simp add: ends_with_def)
  ultimately show ?thesis
    using redetect_leaks_hub [OF r' n h _ _ c' _ ok finding_polite] r' z by (simp add: rc_open_def)
qed

end
