(* ===== verification/Package_Registrar.thy ===== *)
theory Package_Registrar
  imports Common_Utils
begin

text \<open>
  Registration of extension packages (\<open>package_registrar.py\<close>, \<open>extensions.py\<close>,
  \<open>capabilities/interfaces/capability_base.py\<close>). Python classes are numbers; what reflection
  tells of them is the table \<open>classes\<close>, a parameter. The registered extensions are a state that
  registration changes step by step and restores when it fails. Sets are lists without
  duplicates. The conformance rules for class bodies are the flag \<open>ci_issues\<close>.
\<close>

section \<open>Classes, packages and the registry\<close>

record cinfo =
  ci_is_class :: bool
  ci_name :: string
  ci_mro :: "nat list"
  ci_abstract :: bool
  ci_public :: bool
  ci_own_name :: "string option"
  ci_device_type :: string
  ci_flavors :: "nat list"
  ci_sub_flavors :: "nat list"
  ci_used_devices :: "nat list"
  ci_comm :: "nat option"
  ci_issues :: bool

type_synonym ctable = "nat \<Rightarrow> cinfo"

text \<open>The base classes of the framework, and \<open>object\<close> and \<open>abc.ABC\<close>.\<close>

definition OBJECT :: nat where
  "OBJECT = 0"
definition ABC :: nat where
  "ABC = 1"
definition AUXILIARY_BASE :: nat where
  "AUXILIARY_BASE = 2"
definition PRIMARY_BASE :: nat where
  "PRIMARY_BASE = 3"
definition COMM_BASE :: nat where
  "COMM_BASE = 4"
definition CAPABILITY_BASE :: nat where
  "CAPABILITY_BASE = 5"

record keyobj =
  key_id :: nat
  key_file :: string
  key_type :: nat
  key_package :: string

record query =
  q_is_enum :: bool
  q_is_valid :: bool

record exported =
  ne_primary :: "nat list"
  ne_auxiliary :: "nat list"
  ne_virtual :: "nat list"
  ne_comm :: "nat list"
  ne_criteria :: "(string \<times> (nat \<times> query) list) list"
  ne_interfaces :: "nat list"
  ne_flavors :: "nat list"
  ne_keys :: "keyobj list"
  ne_mixin :: "(nat \<times> bool) option"

record package =
  p_import_path :: string
  p_version :: "string option"
  p_export :: "exported result option"
  p_download_key :: "nat option"

record exts =
  ex_auxiliary :: "nat list"
  ex_primary :: "nat list"
  ex_virtual :: "nat list"
  ex_interfaces :: "(string \<times> nat) list"
  ex_capabilities :: "(string \<times> string list) list"
  ex_flavors :: "(string \<times> nat) list"
  ex_comm :: "(string \<times> nat) list"
  ex_criteria :: "(string \<times> (nat \<times> query) list) list"
  ex_packages :: "(string \<times> string \<times> string) list"
  ex_keys :: "((string \<times> nat \<times> string) \<times> nat \<times> nat) list"
  ex_mixins :: "nat list"
  ex_name_cache :: "(nat \<times> string) list"

type_synonym 'a registering = "exts \<Rightarrow> 'a result \<times> exts"

definition union :: "'b list \<Rightarrow> 'b list \<Rightarrow> 'b list" where
  "union xs ys = remdups (xs @ ys)"

section \<open>Implicit export\<close>

text \<open>
  One pass over the device classes not yet processed: their capability flavors and sub-flavors,
  and the device classes those use.
\<close>

definition flavors_of :: "ctable \<Rightarrow> nat \<Rightarrow> nat list" where
  "flavors_of classes d =
     union (ci_flavors (classes d)) (concat (map (\<lambda>f. ci_sub_flavors (classes f)) (ci_flavors (classes d))))"

definition used_devices :: "ctable \<Rightarrow> nat \<Rightarrow> nat list" where
  "used_devices classes d = concat (map (\<lambda>f. ci_used_devices (classes f)) (flavors_of classes d))"

fun export_loop ::
  "ctable \<Rightarrow> nat \<Rightarrow> nat list \<Rightarrow> nat list \<times> nat list \<times> nat list \<Rightarrow> (nat list \<times> nat list) option" where
  "export_loop classes 0 unprocessed acc = None"
| "export_loop classes (Suc fuel) unprocessed (devices, flavors, used) =
     (if unprocessed = [] then Some (devices, flavors)
      else
        let devices' = union devices unprocessed;
            flavors' = union flavors (concat (map (flavors_of classes) unprocessed));
            used' = union used (concat (map (used_devices classes) unprocessed))
        in export_loop classes fuel (filter (\<lambda>d. d \<notin> set devices') used') (devices', flavors', used'))"

definition parent_interfaces :: "ctable \<Rightarrow> nat list \<Rightarrow> nat \<Rightarrow> nat list" where
  "parent_interfaces classes additional flavor =
     filter (\<lambda>p. p \<notin> {OBJECT, ABC, CAPABILITY_BASE} \<and>
                 (ci_abstract (classes p) \<or> \<not> ci_public (classes p) \<or> p \<in> set additional))
       (tl (ci_mro (classes flavor)))"

definition is_subclass :: "ctable \<Rightarrow> nat \<Rightarrow> nat \<Rightarrow> bool" where
  "is_subclass classes c parent \<longleftrightarrow> parent \<in> set (ci_mro (classes c))"

definition implicit_export ::
  "ctable \<Rightarrow> nat \<Rightarrow> nat list \<Rightarrow> nat list \<Rightarrow>
   (nat list \<times> nat list \<times> nat list \<times> nat list \<times> nat list) result" where
  "implicit_export classes fuel device_classes additional =
     (case export_loop classes fuel (remdups device_classes) ([], [], []) of
        None \<Rightarrow> Inl OutOfFuel
      | Some (devices, flavors) \<Rightarrow>
          let extra = filter (\<lambda>d. d \<notin> set device_classes) devices
          in Inr (remdups (concat (map (parent_interfaces classes additional) flavors)), flavors,
               remdups (List.map_filter (\<lambda>d. ci_comm (classes d)) devices),
               filter (\<lambda>d. is_subclass classes d AUXILIARY_BASE) extra,
               filter (\<lambda>d. is_subclass classes d PRIMARY_BASE) extra))"

section \<open>Checks\<close>

definition assert_subclasses :: "ctable \<Rightarrow> nat list \<Rightarrow> nat \<Rightarrow> bool \<Rightarrow> unit result" where
  "assert_subclasses classes cs parent allow_abstract =
     (if list_ex (\<lambda>c. \<not> ci_is_class (classes c)) cs \<or>
         list_ex (\<lambda>c. ci_is_class (classes c) \<and> \<not> is_subclass classes c parent) cs \<or>
         \<not> allow_abstract \<and> list_ex (\<lambda>c. ci_abstract (classes c)) cs
      then Inl PackageRegistrationError else Inr ())"

definition assert_unique :: "string list \<Rightarrow> unit result" where
  "assert_unique names = (if distinct names then Inr () else Inl PackageRegistrationError)"

definition raise_if_redefined :: "(string \<times> nat) list \<Rightarrow> (string \<times> nat) list \<Rightarrow> unit result" where
  "raise_if_redefined new_classes old_classes =
     (if list_ex (\<lambda>(n, c). case map_of old_classes n of None \<Rightarrow> False | Some d \<Rightarrow> c \<noteq> d) new_classes
      then Inl PackageRegistrationError else Inr ())"

definition known_devices :: "exts \<Rightarrow> nat list" where
  "known_devices st = remdups (ex_auxiliary st @ ex_primary st @ ex_virtual st)"

definition exported_devices :: "exported \<Rightarrow> nat list" where
  "exported_devices ne = ne_auxiliary ne @ ne_primary ne @ ne_virtual ne"

definition validate_device_class_type_and_uniqueness :: "ctable \<Rightarrow> exported \<Rightarrow> exts \<Rightarrow> unit result" where
  "validate_device_class_type_and_uniqueness classes ne st =
     bindE (assert_subclasses classes (ne_auxiliary ne) AUXILIARY_BASE False) (\<lambda>_.
     bindE (assert_subclasses classes (ne_primary ne) PRIMARY_BASE False) (\<lambda>_.
     bindE (assert_subclasses classes (ne_virtual ne) PRIMARY_BASE False) (\<lambda>_.
       let exported = remdups (exported_devices ne);
           types = (\<lambda>cs. map (\<lambda>c. ci_device_type (classes c)) cs);
           new = filter (\<lambda>c. c \<notin> set (known_devices st)) exported
       in bindE (assert_unique (types exported)) (\<lambda>_.
            if list_ex (\<lambda>t. t \<in> set (types (known_devices st))) (types new)
            then Inl PackageRegistrationError else Inr ()))))"

text \<open>A dictionary of classes by their generated names: a later class replaces one of the same name.\<close>

fun names_to_classes :: "ctable \<Rightarrow> nat list \<Rightarrow> (string \<times> nat) list \<Rightarrow> (string \<times> nat) list result" where
  "names_to_classes classes [] d = Inr d"
| "names_to_classes classes (c # cs) d =
     bindE (generate_name (ci_name (classes c))) (\<lambda>n. names_to_classes classes cs (AList.update n c d))"

section \<open>Names of capabilities\<close>

definition get_capability_interface :: "ctable \<Rightarrow> exts \<Rightarrow> nat \<Rightarrow> nat result" where
  "get_capability_interface classes st c =
     (if c = CAPABILITY_BASE then Inr c
      else case find (\<lambda>p. p \<in> snd ` set (ex_interfaces st)) (ci_mro (classes c)) of
        Some p \<Rightarrow> Inr p | None \<Rightarrow> Inl TypeError)"

definition get_default_capability_name :: "ctable \<Rightarrow> nat \<Rightarrow> string result" where
  "get_default_capability_name classes c =
     (if c = CAPABILITY_BASE then Inl ValueError
      else bindE (title_to_snake_case (ci_name (classes c))) (\<lambda>n.
        if ends_with n ''_base'' then Inr (take (length n - 5) n) else Inl RuntimeError))"

text \<open>\<open>get_capability_name\<close> keeps its results in a cache (\<open>functools.lru_cache\<close>), exceptions are not kept.\<close>

definition get_capability_name :: "ctable \<Rightarrow> nat \<Rightarrow> string registering" where
  "get_capability_name classes c st =
     (case ci_own_name (classes c) of
        Some n \<Rightarrow> (Inr n, st)
      | None \<Rightarrow>
          (case map_of (ex_name_cache st) c of
             Some n \<Rightarrow> (Inr n, st)
           | None \<Rightarrow>
               (case bindE (get_capability_interface classes st c) (get_default_capability_name classes) of
                  Inl e \<Rightarrow> (Inl e, st)
                | Inr n \<Rightarrow> (Inr n, st\<lparr>ex_name_cache := AList.update c n (ex_name_cache st)\<rparr>))))"

definition capability_name_or_default :: "ctable \<Rightarrow> nat \<Rightarrow> string registering" where
  "capability_name_or_default classes c st =
     (case get_capability_name classes c st of
        (r, st') \<Rightarrow>
          if r = Inl TypeError then (get_default_capability_name classes c, st') else (r, st'))"

definition add_to :: "'k \<Rightarrow> 'v \<Rightarrow> ('k \<times> 'v list) list \<Rightarrow> ('k \<times> 'v list) list" where
  "add_to k v d = AList.update k (union (case map_of d k of None \<Rightarrow> [] | Some vs \<Rightarrow> vs) [v]) d"

fun capabilities_of ::
  "(nat \<Rightarrow> string registering) \<Rightarrow> ('v \<times> nat) list \<Rightarrow> (string \<times> 'v list) list \<Rightarrow>
   (string \<times> 'v list) list registering" where
  "capabilities_of name_of [] d = returnS d"
| "capabilities_of name_of ((v, c) # cs) d =
     bindS (name_of c) (\<lambda>n. capabilities_of name_of cs (add_to n v d))"

text \<open>The classes that all interfaces inherit from, below the base of the capabilities.\<close>

definition common_ancestors :: "ctable \<Rightarrow> nat list \<Rightarrow> nat list" where
  "common_ancestors classes cs =
     (case map (\<lambda>c. takeWhile (\<lambda>a. a \<noteq> CAPABILITY_BASE) (ci_mro (classes c))) cs of
        [] \<Rightarrow> [] | as # bss \<Rightarrow> foldl (\<lambda>as bs. filter (\<lambda>a. a \<in> set bs) as) as bss)"

definition merge_capabilities ::
  "exts \<Rightarrow> (string \<times> nat list) list \<Rightarrow> (string \<times> nat list) list result" where
  "merge_capabilities st new =
     foldE (\<lambda>(cap_name, if_names) d.
         bindE (mapE (dict_item (ex_interfaces st)) if_names) (\<lambda>interfaces.
           Inr (AList.update cap_name
             (union (case map_of d cap_name of None \<Rightarrow> [] | Some cs \<Rightarrow> cs) interfaces) d)))
       (ex_capabilities st) new"

definition validate_capability_interfaces :: "ctable \<Rightarrow> nat list \<Rightarrow> unit registering" where
  "validate_capability_interfaces classes interfaces =
     bindS (liftS (assert_subclasses classes interfaces CAPABILITY_BASE True)) (\<lambda>_.
     bindS (liftS (names_to_classes classes interfaces [])) (\<lambda>new_interfaces.
     bindS (liftS (assert_unique (map fst new_interfaces))) (\<lambda>_.
     bindS (readS (\<lambda>st. raise_if_redefined new_interfaces (ex_interfaces st))) (\<lambda>_.
     bindS (capabilities_of (capability_name_or_default classes) (map (\<lambda>c. (c, c)) interfaces) []) (\<lambda>new_capabilities.
     bindS (liftS (assert_unique (map fst new_interfaces @ map fst new_capabilities))) (\<lambda>_.
     bindS (readS (\<lambda>st. merge_capabilities st new_capabilities)) (\<lambda>merged.
       liftS (if list_ex (\<lambda>(_, cs). common_ancestors classes cs = []) merged
              then Inl PackageRegistrationError else Inr ()))))))))"

section \<open>Registration\<close>

definition validate_capability_flavors :: "ctable \<Rightarrow> nat list \<Rightarrow> exts \<Rightarrow> unit result" where
  "validate_capability_flavors classes flavors st =
     bindE (assert_subclasses classes flavors CAPABILITY_BASE False) (\<lambda>_.
     bindE (names_to_classes classes flavors []) (\<lambda>new_flavors.
     bindE (assert_unique (map fst new_flavors)) (\<lambda>_.
     bindE (raise_if_redefined new_flavors (ex_flavors st)) (\<lambda>_.
     bindE (assert_unique (map fst new_flavors @ map fst (ex_interfaces st) @ map fst (ex_capabilities st))) (\<lambda>_.
       if list_ex (\<lambda>f. ci_issues (classes f)) flavors then Inl PackageRegistrationError else Inr ())))))"

definition validate_device_class_conformance :: "ctable \<Rightarrow> nat list \<Rightarrow> unit result" where
  "validate_device_class_conformance classes devices =
     (if list_ex (\<lambda>d. ci_issues (classes d)) devices then Inl PackageRegistrationError else Inr ())"

definition comm_dict :: "ctable \<Rightarrow> nat list \<Rightarrow> (string \<times> nat) list" where
  "comm_dict classes comms = foldl (\<lambda>d c. AList.update (ci_name (classes c)) c d) [] comms"

definition validate_comm_type_classes :: "ctable \<Rightarrow> nat list \<Rightarrow> exts \<Rightarrow> unit result" where
  "validate_comm_type_classes classes comms st =
     bindE (assert_subclasses classes comms COMM_BASE False) (\<lambda>_.
       raise_if_redefined (comm_dict classes comms) (ex_comm st))"

definition validate_detect_criteria :: "ctable \<Rightarrow> exported \<Rightarrow> exts \<Rightarrow> unit result" where
  "validate_detect_criteria classes ne st =
     (if list_ex (\<lambda>(comm_type_name, query_dict).
            list_ex (\<lambda>(_, q). \<not> q_is_enum q \<or> \<not> q_is_valid q) query_dict \<or>
            map_of (ex_criteria st) comm_type_name = None \<and>
            comm_type_name \<notin> (\<lambda>c. ci_name (classes c)) ` set (ne_comm ne)) (ne_criteria ne)
      then Inl PackageRegistrationError else Inr ())"

text \<open>Keys are equal when their data are; the same object may come from several packages.\<close>

definition key_data :: "keyobj \<Rightarrow> string \<times> nat \<times> string" where
  "key_data k = (key_file k, key_type k, key_package k)"

definition key_path :: "string \<times> nat \<times> string \<Rightarrow> string" where
  "key_path = (\<lambda>(f, _, p). p @ ''/'' @ f)"

text \<open>
  A registered key goes with its object and the function that downloads it. A dictionary keeps the
  object of the first of several equal keys.
\<close>

definition validate_keys :: "keyobj list \<Rightarrow> exts \<Rightarrow> unit result" where
  "validate_keys keys st =
     (let old = map (\<lambda>(data, object_id, _). (object_id, data)) (ex_keys st);
          by_id = dict_update [] (old @ map (\<lambda>k. (key_id k, key_data k)) keys)
      in assert_unique (map (\<lambda>(_, data). key_path data) by_id))"

definition add_key ::
  "nat \<Rightarrow> keyobj \<Rightarrow> ((string \<times> nat \<times> string) \<times> nat \<times> nat) list \<Rightarrow>
   ((string \<times> nat \<times> string) \<times> nat \<times> nat) list" where
  "add_key download_key k d =
     (case map_of d (key_data k) of
        None \<Rightarrow> AList.update (key_data k) (key_id k, download_key) d
      | Some (object_id, _) \<Rightarrow> AList.update (key_data k) (object_id, download_key) d)"

definition validate_manager_cli_mixin :: "(nat \<times> bool) option \<Rightarrow> unit result" where
  "validate_manager_cli_mixin mixin =
     (case mixin of None \<Rightarrow> Inr ()
      | Some (_, valid) \<Rightarrow> if valid then Inr () else Inl PackageRegistrationError)"

text \<open>The package with the classes that the implicit export adds.\<close>

definition with_implicit :: "ctable \<Rightarrow> nat \<Rightarrow> exported \<Rightarrow> exported result" where
  "with_implicit classes fuel ne =
     bindE (implicit_export classes fuel (exported_devices ne) (ne_interfaces ne))
       (\<lambda>(interfaces, flavors, comms, auxiliary, primary).
         Inr (ne\<lparr>ne_interfaces := union (ne_interfaces ne) interfaces,
                ne_flavors := union (ne_flavors ne) flavors,
                ne_comm := union (ne_comm ne) comms,
                ne_auxiliary := union (ne_auxiliary ne) auxiliary,
                ne_primary := union (ne_primary ne) primary\<rparr>))"

definition changeS :: "('s \<Rightarrow> 's) \<Rightarrow> ('s, unit) stateful" where
  "changeS f st = (Inr (), f st)"

definition merge_lists :: "(string \<times> string list) list \<Rightarrow> (string \<times> string list) list \<Rightarrow> (string \<times> string list) list" where
  "merge_lists old new =
     foldl (\<lambda>d (k, vs). AList.update k (union vs (case map_of d k of None \<Rightarrow> [] | Some ws \<Rightarrow> ws)) d) old new"

definition register_interfaces :: "ctable \<Rightarrow> nat list \<Rightarrow> unit registering" where
  "register_interfaces classes interfaces =
     bindS (validate_capability_interfaces classes interfaces) (\<lambda>_.
     bindS (liftS (names_to_classes classes interfaces [])) (\<lambda>new_interfaces.
     bindS (changeS (\<lambda>st. st\<lparr>ex_interfaces := dict_update (ex_interfaces st) new_interfaces\<rparr>)) (\<lambda>_.
     bindS (capabilities_of (get_capability_name classes) new_interfaces []) (\<lambda>new_capabilities.
       changeS (\<lambda>st. st\<lparr>ex_capabilities := merge_lists (ex_capabilities st) new_capabilities\<rparr>)))))"

definition register_flavors :: "ctable \<Rightarrow> nat list \<Rightarrow> unit registering" where
  "register_flavors classes flavors =
     bindS (readS (validate_capability_flavors classes flavors)) (\<lambda>_.
     bindS (liftS (names_to_classes classes flavors [])) (\<lambda>new_flavors.
       changeS (\<lambda>st. st\<lparr>ex_flavors := dict_update (ex_flavors st) new_flavors\<rparr>)))"

definition merge_criteria ::
  "(string \<times> (nat \<times> query) list) list \<Rightarrow> (string \<times> (nat \<times> query) list) list \<Rightarrow>
   (string \<times> (nat \<times> query) list) list" where
  "merge_criteria old new =
     foldl (\<lambda>d (k, qs). AList.update k (case map_of d k of None \<Rightarrow> qs | Some ps \<Rightarrow> dict_update ps qs) d) old new"

definition add_exports :: "ctable \<Rightarrow> exported \<Rightarrow> exts \<Rightarrow> exts" where
  "add_exports classes ne st =
     st\<lparr>ex_auxiliary := union (ex_auxiliary st) (ne_auxiliary ne),
        ex_primary := union (ex_primary st) (ne_primary ne),
        ex_virtual := union (ex_virtual st) (ne_virtual ne),
        ex_comm := dict_update (ex_comm st) (comm_dict classes (ne_comm ne)),
        ex_criteria := merge_criteria (ex_criteria st) (ne_criteria ne)\<rparr>"

definition add_package :: "exported \<Rightarrow> string \<Rightarrow> string \<Rightarrow> string \<Rightarrow> nat option \<Rightarrow> exts \<Rightarrow> exts" where
  "add_package ne package_name version import_path download_key st =
     st\<lparr>ex_keys := (case download_key of
          None \<Rightarrow> ex_keys st | Some f \<Rightarrow> foldl (\<lambda>d k. add_key f k d) (ex_keys st) (ne_keys ne)),
        ex_mixins := ex_mixins st @ (case ne_mixin ne of None \<Rightarrow> [] | Some (m, _) \<Rightarrow> [m]),
        ex_packages := AList.update package_name (version, import_path) (ex_packages st)\<rparr>"

definition register_exports ::
  "ctable \<Rightarrow> nat \<Rightarrow> exported \<Rightarrow> string \<Rightarrow> string \<Rightarrow> string \<Rightarrow> nat option \<Rightarrow>
   unit registering" where
  "register_exports classes fuel given package_name version import_path download_key =
     bindS (readS (validate_device_class_type_and_uniqueness classes given)) (\<lambda>_.
     bindS (liftS (with_implicit classes fuel given)) (\<lambda>ne.
     bindS (readS (validate_device_class_type_and_uniqueness classes ne)) (\<lambda>_.
     bindS (register_interfaces classes (ne_interfaces ne)) (\<lambda>_.
     bindS (register_flavors classes (ne_flavors ne)) (\<lambda>_.
     bindS (liftS (validate_device_class_conformance classes (exported_devices ne))) (\<lambda>_.
     bindS (readS (validate_comm_type_classes classes (ne_comm ne))) (\<lambda>_.
     bindS (readS (validate_detect_criteria classes ne)) (\<lambda>_.
     bindS (readS (validate_keys (ne_keys ne))) (\<lambda>_.
     bindS (liftS (validate_manager_cli_mixin (ne_mixin ne))) (\<lambda>_.
     bindS (changeS (add_exports classes ne)) (\<lambda>_.
     bindS (liftS (if ne_keys ne \<noteq> [] \<and> download_key = None then Inl PackageRegistrationError else Inr ())) (\<lambda>_.
       changeS (add_package ne package_name version import_path download_key)))))))))))))"

text \<open>\<open>_copy_extensions\<close> and \<open>_restore_extensions\<close>: the mixins (and the cache of names) are not part of it.\<close>

definition restore_extensions :: "exts \<Rightarrow> exts \<Rightarrow> exts" where
  "restore_extensions backup st =
     backup\<lparr>ex_mixins := ex_mixins st, ex_name_cache := ex_name_cache st\<rparr>"

definition last_component :: "string \<Rightarrow> string" where
  "last_component path = rev (takeWhile (\<lambda>c. c \<noteq> CHR ''.'') (rev path))"

definition validate_extension_package :: "package \<Rightarrow> string \<Rightarrow> exts \<Rightarrow> (string \<times> exported result) result" where
  "validate_extension_package p package_name st =
     (if map_of (ex_packages st) package_name \<noteq> None then Inl PackageRegistrationError
      else case p_version p of
        None \<Rightarrow> Inl PackageRegistrationError
      | Some v \<Rightarrow>
          if v = [] then Inl PackageRegistrationError
          else case p_export p of
            None \<Rightarrow> Inl PackageRegistrationError
          | Some export \<Rightarrow> Inr (v, export))"

definition register :: "ctable \<Rightarrow> nat \<Rightarrow> package \<Rightarrow> unit registering" where
  "register classes fuel p st =
     (let package_name = last_component (p_import_path p)
      in case validate_extension_package p package_name st of
           Inl e \<Rightarrow> (Inl e, st)
         | Inr (v, Inl e) \<Rightarrow> (Inl e, st)
         | Inr (v, Inr ne) \<Rightarrow>
             (case register_exports classes fuel ne package_name v (p_import_path p) (p_download_key p) st of
                (r, st') \<Rightarrow>
                  if r = Inl PackageRegistrationError then (r, restore_extensions st st') else (r, st')))"

definition is_registered :: "package \<Rightarrow> exts \<Rightarrow> bool" where
  "is_registered p st \<longleftrightarrow> map_of (ex_packages st) (last_component (p_import_path p)) \<noteq> None"

text \<open>\<open>import_and_register\<close>: the import is \<open>None\<close> when it fails.\<close>

definition import_and_register ::
  "ctable \<Rightarrow> nat \<Rightarrow> package option \<Rightarrow> bool registering" where
  "import_and_register classes fuel imported st =
     (case imported of
        None \<Rightarrow> (Inr False, st)
      | Some p \<Rightarrow>
          (case register classes fuel p st of
             (Inr _, st') \<Rightarrow> (Inr True, st')
           | (Inl e, st') \<Rightarrow>
               if e = PackageRegistrationError then (Inr False, st') else (Inl e, st')))"

definition import_and_register_all ::
  "ctable \<Rightarrow> nat \<Rightarrow> package option list \<Rightarrow> unit registering" where
  "import_and_register_all classes fuel packages st =
     foldl (\<lambda>(r, st) p. case r of
         Inl e \<Rightarrow> (Inl e, st)
       | Inr _ \<Rightarrow> (case import_and_register classes fuel p st of
                     (Inl e, st') \<Rightarrow> (Inl e, st') | (Inr _, st') \<Rightarrow> (Inr (), st'))) (Inr (), st) packages"

end
