(* ===== verification/Package_Facts.thy ===== *)
theory Package_Facts
  imports Package_Registrar
begin

text \<open>
  What registration keeps: a failed registration leaves the extensions as they were, device types
  stay unique, and the implicit export ends with the device classes that are reachable through
  the capabilities.
\<close>

section \<open>Atomic registration\<close>

text \<open>Most steps leave the device classes and the mixins alone.\<close>

definition stable :: "exts \<Rightarrow> nat list \<times> nat list \<times> nat list \<times> nat list" where
  "stable st = (ex_mixins st, ex_auxiliary st, ex_primary st, ex_virtual st)"

definition keeps_stable :: "'a registering \<Rightarrow> bool" where
  "keeps_stable m \<longleftrightarrow>
     (\<forall>P. triple (\<lambda>st. P (stable st)) m (\<lambda>_ st. P (stable st)) (\<lambda>_ st. P (stable st)))"

lemma keeps_stable_bind [intro]:
  "keeps_stable m \<Longrightarrow> (\<And>x. keeps_stable (f x)) \<Longrightarrow> keeps_stable (bindS m f)"
  unfolding keeps_stable_def by (blast intro: triple_bind)

lemma keeps_stable_basic [intro]:
  "keeps_stable (returnS x)" "keeps_stable (liftS r)" "keeps_stable (readS f)"
  unfolding keeps_stable_def by (auto intro: triple_return triple_lift triple_read)

lemma keeps_stable_change [intro]:
  "(\<And>st. stable (f st) = stable st) \<Longrightarrow> keeps_stable (changeS f)"
  by (simp add: keeps_stable_def triple_def changeS_def)

lemma get_capability_name_cache:
  "get_capability_name classes c st = (r, st') \<Longrightarrow> \<exists>cache. st' = st\<lparr>ex_name_cache := cache\<rparr>"
  by (fastforce simp: get_capability_name_def intro: exI [of _ "ex_name_cache st"]
      split: option.splits sum.splits)

lemma name_or_default_cache:
  "capability_name_or_default classes c st = (r, st') \<Longrightarrow> \<exists>cache. st' = st\<lparr>ex_name_cache := cache\<rparr>"
  by (auto simp: capability_name_or_default_def dest: get_capability_name_cache
      split: prod.splits if_splits)

lemma capabilities_of_cache:
  assumes "\<And>c st r st'. name_of c st = (r, st') \<Longrightarrow> \<exists>cache. st' = st\<lparr>ex_name_cache := cache\<rparr>"
  shows "capabilities_of name_of cs d st = (r, st') \<Longrightarrow> \<exists>cache. st' = st\<lparr>ex_name_cache := cache\<rparr>"
proof (induction cs arbitrary: d st)
  case Nil
  then have "st' = st\<lparr>ex_name_cache := ex_name_cache st\<rparr>" by (simp add: returnS_def)
  then show ?case ..
next
  case (Cons vc cs)
  obtain v c where vc: "vc = (v, c)" by (cases vc)
  obtain q st1 where 1: "name_of c st = (q, st1)" by fastforce
  then obtain cache where st1: "st1 = st\<lparr>ex_name_cache := cache\<rparr>" using assms by blast
  show ?case
  proof (cases q)
    case (Inl e)
    with Cons.prems 1 st1 vc show ?thesis by auto
  next
    case (Inr n)
    with Cons.prems 1 vc have "capabilities_of name_of cs (add_to n v d) st1 = (r, st')" by simp
    from Cons.IH [OF this] st1 show ?thesis by auto
  qed
qed

lemma keeps_stable_capabilities [intro]:
  assumes "\<And>c st r st'. name_of c st = (r, st') \<Longrightarrow> \<exists>cache. st' = st\<lparr>ex_name_cache := cache\<rparr>"
  shows "keeps_stable (capabilities_of name_of cs d)"
proof -
  have "stable st' = stable st" if "capabilities_of name_of cs d st = (r, st')" for st r st'
  proof -
    have "\<exists>cache. st' = st\<lparr>ex_name_cache := cache\<rparr>"
      by (rule capabilities_of_cache [OF _ that]) (rule assms)
    then show ?thesis by (auto simp: stable_def)
  qed
  then show ?thesis unfolding keeps_stable_def by (intro allI tripleI) metis+
qed

lemma keeps_stable_interfaces [intro]: "keeps_stable (register_interfaces classes cs)"
  unfolding register_interfaces_def validate_capability_interfaces_def
  by (intro keeps_stable_bind keeps_stable_basic keeps_stable_change keeps_stable_capabilities)
    (auto simp: stable_def dest: get_capability_name_cache name_or_default_cache)

lemma keeps_stable_flavors [intro]: "keeps_stable (register_flavors classes fs)"
  unfolding register_flavors_def by (intro keeps_stable_bind keeps_stable_basic keeps_stable_change) (simp add: stable_def)

lemma add_exports_mixins [simp]: "ex_mixins (add_exports classes ne st) = ex_mixins st"
  by (simp add: add_exports_def)

text \<open>
  The registration in three parts: the checks of the devices, the steps that keep devices and
  mixins, and the end, where the package is added.
\<close>

definition middle_steps :: "ctable \<Rightarrow> exported \<Rightarrow> unit registering" where
  "middle_steps classes ne =
     bindS (register_interfaces classes (ne_interfaces ne)) (\<lambda>_.
     bindS (register_flavors classes (ne_flavors ne)) (\<lambda>_.
     bindS (liftS (validate_device_class_conformance classes (exported_devices ne))) (\<lambda>_.
     bindS (readS (validate_comm_type_classes classes (ne_comm ne))) (\<lambda>_.
     bindS (readS (validate_detect_criteria classes ne)) (\<lambda>_.
     bindS (readS (validate_keys (ne_keys ne))) (\<lambda>_.
       liftS (validate_manager_cli_mixin (ne_mixin ne))))))))"

lemma keeps_stable_middle: "keeps_stable (middle_steps classes ne)"
  unfolding middle_steps_def
  by (intro keeps_stable_bind keeps_stable_basic keeps_stable_interfaces keeps_stable_flavors)

lemma bindS_assoc: "bindS (bindS m f) g = bindS m (\<lambda>x. bindS (f x) g)"
  by (rule ext) (auto simp: bindS_def split: prod.splits sum.splits)

lemma register_exports_parts:
  "register_exports classes fuel given package_name v i dk =
     bindS (readS (validate_device_class_type_and_uniqueness classes given)) (\<lambda>_.
     bindS (liftS (with_implicit classes fuel given)) (\<lambda>ne.
     bindS (readS (validate_device_class_type_and_uniqueness classes ne)) (\<lambda>_.
     bindS (middle_steps classes ne) (\<lambda>_.
     bindS (changeS (add_exports classes ne)) (\<lambda>_.
     bindS (liftS (if ne_keys ne \<noteq> [] \<and> dk = None then Inl PackageRegistrationError else Inr ())) (\<lambda>_.
       changeS (add_package ne package_name v i dk)))))))"
  by (simp add: register_exports_def middle_steps_def bindS_assoc)

lemma register_exports_mixins:
  assumes "register_exports classes fuel ne n v i dk st = (Inl e, st')"
  shows "ex_mixins st' = ex_mixins st"
proof -
  let ?T = "\<lambda>m. triple (\<lambda>s. ex_mixins s = ex_mixins st) m (\<lambda>_ _. True) (\<lambda>_ s. ex_mixins s = ex_mixins st)"
  have last: "?T (changeS f)" for f :: "exts \<Rightarrow> exts" by (simp add: triple_def changeS_def)
  have step: "?T (bindS m f)" if k: "keeps_stable m" and f: "\<And>y. ?T (f y)"
    for m :: "'a registering" and f :: "'a \<Rightarrow> unit registering"
  proof -
    from k have "triple (\<lambda>s. (\<lambda>(m, _). m = ex_mixins st) (stable s)) m
        (\<lambda>_ s. (\<lambda>(m, _). m = ex_mixins st) (stable s)) (\<lambda>_ s. (\<lambda>(m, _). m = ex_mixins st) (stable s))"
      unfolding keeps_stable_def by blast
    then have "triple (\<lambda>s. ex_mixins s = ex_mixins st) m (\<lambda>_ s. ex_mixins s = ex_mixins st)
        (\<lambda>_ s. ex_mixins s = ex_mixins st)" by (simp add: stable_def)
    from triple_bind [OF this f] show ?thesis .
  qed
  have add: "?T (bindS (changeS (add_exports classes ne)) f)" if "\<And>y. ?T (f y)" for f :: "unit \<Rightarrow> unit registering" and ne
    by (rule triple_bind [OF _ that]) (simp add: triple_def changeS_def)
  have "?T (register_exports classes fuel ne n v i dk)"
    unfolding register_exports_parts
    by (intro step keeps_stable_basic keeps_stable_middle add last)
  from tripleD_exn [OF this assms] show ?thesis by simp
qed

lemma register_failed:
  assumes "register classes fuel p st = (Inl PackageRegistrationError, st')"
  shows "st' = st\<lparr>ex_name_cache := ex_name_cache st'\<rparr>"
proof -
  let ?n = "last_component (p_import_path p)"
  consider (early) "st' = st" | (late) v ne st1 where
    "register_exports classes fuel ne ?n v (p_import_path p) (p_download_key p) st = (Inl PackageRegistrationError, st1)"
    "st' = restore_extensions st st1"
  proof (cases "validate_extension_package p ?n st")
    case (Inl e)
    with assms early show ?thesis by (simp add: register_def)
  next
    case (Inr x)
    obtain v q where x: "x = (v, q)" by (cases x)
    show ?thesis
    proof (cases q)
      case (Inl e)
      with assms \<open>validate_extension_package p ?n st = Inr x\<close> x early show ?thesis by (simp add: register_def)
    next
      case ne: (Inr ne)
      obtain r st1 where r: "register_exports classes fuel ne ?n v (p_import_path p) (p_download_key p) st = (r, st1)"
        by fastforce
      from assms Inr x ne r have "r = Inl PackageRegistrationError \<and> st' = restore_extensions st st1"
        by (auto simp: register_def split: if_splits)
      with r late show ?thesis by blast
    qed
  qed
  then show ?thesis
  proof cases
    case early
    then show ?thesis by simp
  next
    case late
    with register_exports_mixins [OF late(1)] show ?thesis by (simp add: restore_extensions_def)
  qed
qed


section \<open>Device types stay unique\<close>

definition device_type :: "ctable \<Rightarrow> nat \<Rightarrow> string" where
  "device_type classes c = ci_device_type (classes c)"

text \<open>No two registered device classes have the same type, so a type determines its class.\<close>

definition types_unique :: "ctable \<Rightarrow> exts \<Rightarrow> bool" where
  "types_unique classes st \<longleftrightarrow> inj_on (device_type classes) (set (known_devices st))"

lemma known_devices_set: "set (known_devices st) = set (ex_auxiliary st) \<union> set (ex_primary st) \<union> set (ex_virtual st)"
  by (simp add: known_devices_def ac_simps)

lemma known_devices_stable: "stable st' = stable st \<Longrightarrow> known_devices st' = known_devices st"
  by (simp add: stable_def known_devices_def)

lemma types_unique_stable: "stable st' = stable st \<Longrightarrow> types_unique classes st' = types_unique classes st"
  unfolding types_unique_def using known_devices_stable [of st' st] by simp

lemma validated_exports:
  assumes "validate_device_class_type_and_uniqueness classes ne st = Inr ()" and "types_unique classes st"
  shows "inj_on (device_type classes) (set (known_devices st) \<union> set (exported_devices ne))"
proof -
  let ?t = "device_type classes" and ?K = "set (known_devices st)" and ?E = "set (exported_devices ne)"
  from assms(1) have d: "distinct (map ?t (remdups (exported_devices ne)))"
    and n: "\<forall>c \<in> ?E - ?K. ?t c \<notin> ?t ` ?K"
    by (auto simp: validate_device_class_type_and_uniqueness_def bindE_eq_Inr Let_def assert_unique_def
        device_type_def [abs_def] list_ex_iff split: if_splits)
  from d have e: "inj_on ?t ?E" by (simp add: distinct_map)
  show ?thesis
  proof (rule inj_onI)
    fix x y assume "x \<in> ?K \<union> ?E" "y \<in> ?K \<union> ?E" "?t x = ?t y"
    then show "x = y" using n e assms(2)
      unfolding types_unique_def by (metis Diff_iff UnE image_eqI inj_onD)
  qed
qed

lemma add_exports_unique:
  assumes "inj_on (device_type classes) (set (known_devices st) \<union> set (exported_devices ne))"
  shows "types_unique classes (add_exports classes ne st)"
proof -
  have "set (known_devices (add_exports classes ne st)) = set (known_devices st) \<union> set (exported_devices ne)"
    by (auto simp: known_devices_set add_exports_def union_def exported_devices_def)
  with assms show ?thesis by (simp add: types_unique_def)
qed

lemma keeps_stableD:
  assumes "keeps_stable m" and "\<And>st st'. stable st' = stable st \<Longrightarrow> P st' = P st"
  shows "triple P m (\<lambda>_. P) (\<lambda>_. P)"
proof (rule tripleI)
  have s: "triple (\<lambda>s. stable s = stable st) m (\<lambda>_ s. stable s = stable st) (\<lambda>_ s. stable s = stable st)" for st
    using assms(1) unfolding keeps_stable_def by (drule_tac spec [of _ "\<lambda>x. x = stable st"])
  show "P st'" if "P st" "m st = (Inr x, st')" for st x st'
    using tripleD_value [OF s that(2)] assms(2) that(1) by blast
  show "P st'" if "P st" "m st = (Inl e, st')" for st e st'
    using tripleD_exn [OF s that(2)] assms(2) that(1) by blast
qed

lemma register_exports_unique:
  "triple (types_unique classes) (register_exports classes fuel given n v i dk)
     (\<lambda>_. types_unique classes) (\<lambda>_. types_unique classes)"
proof -
  let ?U = "types_unique classes"
  let ?V = "\<lambda>ne st. inj_on (device_type classes) (set (known_devices st) \<union> set (exported_devices ne)) \<and> ?U st"
  have stable_U: "triple ?U m (\<lambda>_. ?U) (\<lambda>_. ?U)" if "keeps_stable m" for m :: "'a registering"
    by (rule keeps_stableD [OF that]) (rule types_unique_stable)
  have end1: "triple ?U (changeS (add_package ne n v i dk)) (\<lambda>_. ?U) (\<lambda>_. ?U)" for ne
    by (simp add: triple_def changeS_def add_package_def types_unique_def known_devices_def)
  have end2: "triple ?U (bindS (liftS r) (\<lambda>_. changeS (add_package ne n v i dk))) (\<lambda>_. ?U) (\<lambda>_. ?U)" for ne r
    by (rule triple_bind [OF stable_U end1]) (rule keeps_stable_basic)
  have added: "triple (?V ne) (changeS (add_exports classes ne)) (\<lambda>_. ?U) (\<lambda>_. ?U)" for ne
    using add_exports_unique by (simp add: triple_def changeS_def)
  have mid: "triple (?V ne) (middle_steps classes ne) (\<lambda>_. ?V ne) (\<lambda>_. ?U)" for ne
  proof -
    have "?V ne st' = ?V ne st" if "stable st' = stable st" for st st'
      using known_devices_stable [OF that] types_unique_stable [OF that] by simp
    from keeps_stableD [OF keeps_stable_middle this] show ?thesis by (rule triple_post) simp_all
  qed
  have check: "triple ?U (readS (validate_device_class_type_and_uniqueness classes ne)) (\<lambda>_. ?V ne) (\<lambda>_. ?U)" for ne
    by (rule triple_read) (auto simp: validated_exports)
  show ?thesis
    unfolding register_exports_parts
    by (rule triple_bind [OF stable_U [OF keeps_stable_basic(3)]],
        rule triple_bind [OF stable_U [OF keeps_stable_basic(2)]],
        rule triple_bind [OF check], rule triple_bind [OF mid], rule triple_bind [OF added], rule end2)
qed

lemma register_unique:
  assumes "types_unique classes st" and "register classes fuel p st = (r, st')"
  shows "types_unique classes st'"
proof -
  let ?n = "last_component (p_import_path p)"
  show ?thesis
  proof (cases "\<exists>v ne. validate_extension_package p ?n st = Inr (v, Inr ne)")
    case False
    then consider e where "validate_extension_package p ?n st = Inl e"
      | v e where "validate_extension_package p ?n st = Inr (v, Inl e)"
      by (metis sum.exhaust surj_pair)
    then have "st' = st" using assms(2) by cases (simp_all add: register_def)
    with assms(1) show ?thesis by simp
  next
    case True
    then obtain v ne where v: "validate_extension_package p ?n st = Inr (v, Inr ne)" by blast
    obtain q st1 where q: "register_exports classes fuel ne ?n v (p_import_path p) (p_download_key p) st = (q, st1)"
      by fastforce
    have u: "types_unique classes st1"
    proof (cases q)
      case (Inl e)
      with tripleD_exn [OF register_exports_unique q [unfolded Inl] assms(1)] show ?thesis by simp
    next
      case (Inr x)
      with tripleD_value [OF register_exports_unique q [unfolded Inr] assms(1)] show ?thesis by simp
    qed
    have "types_unique classes (restore_extensions st st1)"
      using assms(1) by (simp add: types_unique_def known_devices_def restore_extensions_def)
    moreover have "st' = st1 \<or> st' = restore_extensions st st1"
      using assms(2) v q by (auto simp: register_def split: sum.splits if_splits)
    ultimately show ?thesis using u by blast
  qed
qed

lemma import_and_register_unique:
  assumes "types_unique classes st" and "import_and_register classes fuel p st = (r, st')"
  shows "types_unique classes st'"
proof (cases p)
  case (Some q)
  obtain x st1 where x: "register classes fuel q st = (x, st1)" by fastforce
  with assms(2) Some have "st' = st1"
    by (auto simp: import_and_register_def split: sum.splits if_splits)
  with register_unique [OF assms(1) x] show ?thesis by simp
qed (use assms in \<open>simp add: import_and_register_def\<close>)

lemma import_all_unique:
  "types_unique classes st \<Longrightarrow> import_and_register_all classes fuel ps st = (r, st') \<Longrightarrow> types_unique classes st'"
proof -
  have "types_unique classes (snd (foldl (\<lambda>(r, st) p. case r of
         Inl e \<Rightarrow> (Inl e, st)
       | Inr _ \<Rightarrow> (case import_and_register classes fuel p st of
                     (Inl e, st') \<Rightarrow> (Inl e, st') | (Inr _, st') \<Rightarrow> (Inr (), st'))) (q, st) ps))"
    if "types_unique classes st" for q st
    using that
  proof (induction ps arbitrary: q st)
    case (Cons p ps)
    obtain x st1 where x: "import_and_register classes fuel p st = (x, st1)" by fastforce
    from Cons import_and_register_unique [OF Cons.prems x] x show ?case
      by (cases q; cases x) auto
  qed simp
  from this [of st "Inr ()"]
  show "types_unique classes st \<Longrightarrow> import_and_register_all classes fuel ps st = (r, st') \<Longrightarrow> types_unique classes st'"
    unfolding import_and_register_all_def by (metis snd_conv)
qed

text \<open>C17. However packages are registered, in whatever order and with whatever failures, no two
  different device classes with the same device type become known.\<close>

theorem registered_types_unique:
  assumes "types_unique classes st" and "import_and_register_all classes fuel packages st = (r, st')"
  shows "types_unique classes st'"
  by (rule import_all_unique [OF assms])

definition demo_class :: "string \<Rightarrow> nat list \<Rightarrow> cinfo" where
  "demo_class n mro =
     \<lparr>ci_is_class = True, ci_name = n, ci_mro = mro, ci_abstract = False, ci_public = True,
      ci_own_name = None, ci_device_type = n, ci_flavors = [], ci_sub_flavors = [],
      ci_used_devices = [], ci_comm = None, ci_issues = False\<rparr>"

text \<open>Two cameras of the same type, a hub that the power flavor of the cameras uses, and their parts.\<close>

definition demo_classes :: ctable where
  "demo_classes c =
     (if c = 10 then (demo_class ''cam'' [10, 3, 0])\<lparr>ci_flavors := [20], ci_comm := Some 40\<rparr>
      else if c = 11 then demo_class ''cam'' [11, 3, 0]
      else if c = 12 then demo_class ''hub'' [12, 2, 0]
      else if c = 20 then (demo_class ''Power_hub'' [20, 21, 5, 1, 0])\<lparr>ci_used_devices := [12], ci_own_name := Some ''power''\<rparr>
      else if c = 21 then (demo_class ''Power_base'' [21, 5, 1, 0])\<lparr>ci_abstract := True, ci_own_name := Some ''power''\<rparr>
      else demo_class ''SerialComms'' [40, 4, 0])"

definition no_exports :: exported where
  "no_exports = \<lparr>ne_primary = [], ne_auxiliary = [], ne_virtual = [], ne_comm = [], ne_criteria = [],
     ne_interfaces = [], ne_flavors = [], ne_keys = [], ne_mixin = None\<rparr>"

definition demo_package :: "string \<Rightarrow> exported \<Rightarrow> package" where
  "demo_package path ne = \<lparr>p_import_path = path, p_version = Some ''1.0'', p_export = Some (Inr ne),
     p_download_key = None\<rparr>"

definition cam_package :: package where
  "cam_package = demo_package ''lab.cams'' (no_exports\<lparr>ne_primary := [10]\<rparr>)"

text \<open>The same with a key but no function to download it: the last check fails.\<close>

definition keyed_package :: package where
  "keyed_package = demo_package ''lab.cams'' (no_exports\<lparr>ne_primary := [10],
     ne_keys := [\<lparr>key_id = 1, key_file = ''id_rsa'', key_type = 0, key_package = ''cams''\<rparr>]\<rparr>)"

definition rival_package :: package where
  "rival_package = demo_package ''other.cams2'' (no_exports\<lparr>ne_primary := [11]\<rparr>)"

definition nothing_registered :: exts where
  "nothing_registered = \<lparr>ex_auxiliary = [], ex_primary = [], ex_virtual = [], ex_interfaces = [],
     ex_capabilities = [], ex_flavors = [], ex_comm = [], ex_criteria = [], ex_packages = [],
     ex_keys = [], ex_mixins = [], ex_name_cache = []\<rparr>"


theorem registered_types_unique_witness:
  "\<exists>st'. import_and_register_all demo_classes 5 [Some cam_package, None, Some rival_package]
       nothing_registered = (Inr (), st') \<and> types_unique demo_classes st' \<and>
     ex_primary st' = [10] \<and> ex_auxiliary st' = [12] \<and> ex_capabilities st' = [(''power'', [''power_base''])]"
proof -
  let ?run = "import_and_register_all demo_classes 5 [Some cam_package, None, Some rival_package] nothing_registered"
  have "fst ?run = Inr ()" and "ex_primary (snd ?run) = [10]" and "ex_auxiliary (snd ?run) = [12]"
    and "ex_capabilities (snd ?run) = [(''power'', [''power_base''])]" by code_simp+
  moreover have "types_unique demo_classes nothing_registered"
    by (simp add: types_unique_def known_devices_def nothing_registered_def)
  from registered_types_unique [OF this prod.collapse [symmetric], of 5 "[Some cam_package, None, Some rival_package]"]
  have "types_unique demo_classes (snd ?run)" .
  ultimately show ?thesis by (intro exI [of _ "snd ?run"]) (simp add: prod_eq_iff)
qed

section \<open>The unchecked names\<close>

text \<open>
  The names of the new interfaces (and flavors) are checked for duplicates only after they have
  become the keys of a dictionary, which has none: two classes of one package with the same name
  pass, and the first is lost.
\<close>

lemma names_to_classes_distinct:
  "names_to_classes classes cs d = Inr d' \<Longrightarrow> distinct (map fst d) \<Longrightarrow> distinct (map fst d')"
  by (induction cs arbitrary: d) (auto simp: result_simps)

lemma unique_check_passes:
  assumes "names_to_classes classes cs [] = Inr d"
  shows "assert_unique (map fst d) = Inr ()"
  using names_to_classes_distinct [OF assms] by (simp add: assert_unique_def)

section \<open>Implicit export\<close>

definition uses :: "ctable \<Rightarrow> (nat \<times> nat) set" where
  "uses classes = {(d, e). e \<in> set (used_devices classes d)}"

definition reachable :: "ctable \<Rightarrow> nat list \<Rightarrow> nat set" where
  "reachable classes ds = (uses classes)\<^sup>* `` set ds"

lemma set_union [simp]: "set (union xs ys) = set xs \<union> set ys"
  by (simp add: union_def)

lemma reachable_closed:
  assumes "set ds \<subseteq> D" and "\<And>d e. d \<in> D \<Longrightarrow> e \<in> set (used_devices classes d) \<Longrightarrow> e \<in> D"
  shows "reachable classes ds \<subseteq> D"
proof
  fix e assume "e \<in> reachable classes ds"
  then obtain d where "d \<in> set ds" "(d, e) \<in> (uses classes)\<^sup>*" by (auto simp: reachable_def)
  from this(2,1) assms(1) show "e \<in> D"
    by (induction rule: rtrancl_induct) (auto simp: uses_def assms(2))
qed

lemma reachable_step:
  "d \<in> reachable classes ds \<Longrightarrow> e \<in> set (used_devices classes d) \<Longrightarrow> e \<in> reachable classes ds"
  by (auto simp: reachable_def uses_def intro: rtrancl_into_rtrancl)

lemma export_loop_reachable:
  assumes "finite (reachable classes ds)"
    and "card (reachable classes ds - set D) < fuel"
    and "set D \<union> set U \<subseteq> reachable classes ds" and "set ds \<subseteq> set D \<union> set U" and "set D \<inter> set U = {}"
    and "set X = (\<Union>d \<in> set D. set (used_devices classes d))" and "set X \<subseteq> set D \<union> set U"
    and "set F = (\<Union>d \<in> set D. set (flavors_of classes d))"
  shows "\<exists>D' F'. export_loop classes fuel U (D, F, X) = Some (D', F') \<and> set D' = reachable classes ds \<and>
    set F' = (\<Union>d \<in> reachable classes ds. set (flavors_of classes d))"
  using assms(2-)
proof (induction fuel arbitrary: D U X F)
  case (Suc fuel)
  show ?case
  proof (cases "U = []")
    case True
    with Suc.prems have "reachable classes ds \<subseteq> set D"
      by (intro reachable_closed) auto
    with Suc.prems(2) have "set D = reachable classes ds" by auto
    with True Suc.prems(7) show ?thesis by simp
  next
    case False
    let ?D = "union D U" and ?F = "union F (concat (map (flavors_of classes) U))"
      and ?X = "union X (concat (map (used_devices classes) U))"
    let ?U = "filter (\<lambda>d. d \<notin> set ?D) ?X"
    let ?R = "reachable classes ds"
    have X: "set ?X = (\<Union>d \<in> set ?D. set (used_devices classes d))" using Suc.prems(5) by auto
    have XR: "set ?X \<subseteq> ?R" using X Suc.prems(2) by (auto intro: reachable_step)
    have "card (?R - set ?D) < card (?R - set D)"
    proof (rule psubset_card_mono)
      show "finite (?R - set D)" using assms(1) by simp
      from False obtain u where "u \<in> set U" by (cases U) auto
      with Suc.prems(2,4) have "u \<in> ?R - set D" "u \<notin> ?R - set ?D" by auto
      then show "?R - set ?D \<subset> ?R - set D" by auto
    qed
    with Suc.prems(1) have "card (?R - set ?D) < fuel" by simp
    then have "\<exists>D' F'. export_loop classes fuel ?U (?D, ?F, ?X) = Some (D', F') \<and> set D' = ?R \<and>
        set F' = (\<Union>d \<in> ?R. set (flavors_of classes d))"
    proof (rule Suc.IH)
      show "set ?D \<union> set ?U \<subseteq> ?R" using XR Suc.prems(2) by auto
      show "set ds \<subseteq> set ?D \<union> set ?U" using Suc.prems(3) by auto
      show "set ?D \<inter> set ?U = {}" by auto
      show "set ?X = (\<Union>d \<in> set ?D. set (used_devices classes d))" by (rule X)
      show "set ?X \<subseteq> set ?D \<union> set ?U" by auto
      show "set ?F = (\<Union>d \<in> set ?D. set (flavors_of classes d))" using Suc.prems(7) by auto
    qed
    with False show ?thesis by (simp add: Let_def)
  qed
qed simp

text \<open>The loop of the implicit export ends, and finds exactly the device classes reachable from
  the exported ones through the devices that their capability flavors use, and the flavors of
  all of them; a fuel above the number of those classes is enough.\<close>

theorem implicit_export_reachable:
  assumes "finite (reachable classes ds)" and "card (reachable classes ds) < fuel"
  shows "\<exists>devices flavors. export_loop classes fuel (remdups ds) ([], [], []) = Some (devices, flavors) \<and>
    set devices = reachable classes ds \<and>
    set flavors = (\<Union>d \<in> reachable classes ds. set (flavors_of classes d))"
  by (rule export_loop_reachable [OF assms(1)]) (use assms(2) in \<open>auto simp: reachable_def\<close>)

theorem implicit_export_reachable_witness:
  "\<exists>devices flavors. export_loop demo_classes 5 [10] ([], [], []) = Some (devices, flavors) \<and>
    set devices = {10, 12} \<and> 20 \<in> set flavors"
proof -
  have u10: "used_devices demo_classes 10 = [12]" and u12: "used_devices demo_classes 12 = []"
    and f: "20 \<in> set (flavors_of demo_classes 10)"
    by (simp_all add: used_devices_def flavors_of_def union_def demo_classes_def demo_class_def)
  have "reachable demo_classes [10] \<subseteq> {10, 12}"
    by (rule reachable_closed) (auto simp: u10 u12)
  moreover have "10 \<in> reachable demo_classes [10]" by (simp add: reachable_def)
  then have "12 \<in> reachable demo_classes [10]" by (rule reachable_step) (simp add: u10)
  ultimately have r: "reachable demo_classes [10] = {10, 12}" using \<open>10 \<in> _\<close> by auto
  from implicit_export_reachable [of demo_classes "[10]" 5] f show ?thesis by (auto simp: r)
qed

end
