(* ===== verification/Event_Labels.thy ===== *)
theory Event_Labels
  imports Event_History
begin

text \<open>
  Properties of \<open>Event_Parser\<close>, continued: the queries for one label, which look for the text of
  the label, the state of a label, and lines whose time cannot be read.
\<close>

section \<open>Queries by label\<close>

definition label_groups :: "'p regexes \<Rightarrow> 'p filters \<Rightarrow> string \<Rightarrow> string \<times> string \<Rightarrow> json option" where
  "label_groups re filters label nl = map_of (matches re filters (snd nl)) label"

text \<open>What a query for one label returns of a line.\<close>

definition label_event ::
  "tools \<Rightarrow> 'p regexes \<Rightarrow> 'p filters \<Rightarrow> nat \<Rightarrow> string \<Rightarrow> string \<times> string \<Rightarrow> parsed_event" where
  "label_event t re filters h label nl =
     \<lparr>system_timestamp = the (strptime t (slice 1 27 (snd nl)) ''%Y-%m-%d %H:%M:%S.%f''),
      entries = (''raw_log_line'', JStr (drop h (rstrip (snd nl)))) #
        (case label_groups re filters label nl of None \<Rightarrow> [] | Some j \<Rightarrow> [(label, j)])\<rparr>"

lemma line_data_label:
  assumes "well_named filters" and "CHR ''.'' \<in> set label"
  shows "map_of (line_data re filters h name nl) label = label_groups re filters label nl"
    "map_of (line_data re filters h name nl) ''raw_log_line'' = Some (JStr (drop h (rstrip (snd nl))))"
proof -
  obtain now l where nl: "nl = (now, l)" by (cases nl)
  have "''raw_log_line'' \<notin> fst ` set (matches re filters l)"
    by (rule no_dot_not_label [OF assms(1)]) simp
  then have "map_of (matches re filters l) ''raw_log_line'' = None" by (simp add: map_of_eq_None_iff)
  then show "map_of (line_data re filters h name nl) ''raw_log_line'' = Some (JStr (drop h (rstrip (snd nl))))"
    by (simp add: line_data_def line_entries_def nl map_add_def)
  have "label \<noteq> ''log_filename''" "label \<noteq> ''raw_log_line''" "label \<noteq> ''system_timestamp''"
    "label \<noteq> ''matched_timestamp''"
    using assms(2) by auto
  then show "map_of (line_data re filters h name nl) label = label_groups re filters label nl"
    by (simp add: line_data_def line_entries_def nl map_add_def label_groups_def split: option.split)
qed

lemma event_of_labelled_line:
  assumes "well_named filters" and "stamped t nl" and "CHR ''.'' \<in> set label"
  shows "event_of_output t (line_text re filters h name nl) (Some [label]) None =
    Inr (Some (label_event t re filters h label nl))"
proof -
  let ?d = "line_data re filters h name nl"
  have l: "loads (line_text re filters h name nl) = Inr (JDict ?d)"
    unfolding line_text_def by (rule loads_dumps [OF storable_line_data [OF assms(1)]])
  have n: "line_text re filters h name nl \<noteq> []" by (simp add: line_text_def)
  have "py_item (JDict ?d) ''system_timestamp'' = Inr (JStr (slice 1 27 (snd nl)))"
    using line_data_lookup [OF assms(1)] by (simp add: py_item_def)
  moreover have "py_item (JDict ?d) ''raw_log_line'' = Inr (JStr (drop h (rstrip (snd nl))))"
    using line_data_label(2) [OF assms(1,3)] by (simp add: py_item_def)
  moreover have "label \<noteq> ''raw_log_line''" using assms(3) by auto
  ultimately show ?thesis
    using n line_data_label(1) [OF assms(1,3), of re h name nl]
    by (simp add: event_of_output_def l get_datetime_stamped [OF assms(2)] label_event_def
        split: option.splits del: One_nat_def)
qed

lemma contains_refl [simp]: "contains x x"
  unfolding contains_iff by (metis append_Nil append_Nil2)

lemma event_of_output_line:
  assumes "well_named filters"
  shows "event_of_output t (line_text re filters h name nl @ [newline]) labels st =
    event_of_output t (line_text re filters h name nl) labels st"
proof -
  have "line_text re filters h name nl \<noteq> []" by (simp add: line_text_def)
  with loads_dumps_line [OF storable_line_data [OF assms]] loads_dumps [OF storable_line_data [OF assms]]
  show ?thesis by (simp add: event_of_output_def line_text_def del: storable.simps dumps_dict)
qed

lemma separated_member: "x \<in> set xs \<Longrightarrow> contains x (separated xs)"
proof (induction xs rule: separated.induct)
  case (3 x' x2 xs)
  show ?case
  proof (cases "x = x'")
    case True
    have "separated (x' # x2 # xs) = [] @ x' @ ('', '' @ separated (x2 # xs))" by simp
    with True show ?thesis unfolding contains_iff by blast
  next
    case False
    with 3 obtain us vs where "separated (x2 # xs) = us @ x @ vs" by (auto simp: contains_iff)
    then have "separated (x' # x2 # xs) = (x' @ '', '' @ us) @ x @ vs" by simp
    then show ?thesis unfolding contains_iff by blast
  qed
qed simp_all

lemma contains_trans: "contains a b \<Longrightarrow> contains b c \<Longrightarrow> contains a c"
  unfolding contains_iff by (metis append_assoc)

lemma contains_key:
  assumes "map_of kvs k = Some j"
  shows "contains (dumps_string k) (dumps (JDict kvs))"
proof -
  have "contains (dumps_string k) (dumps_member (k, j))"
    unfolding contains_iff dumps_member_def by (metis append_Nil fst_conv)
  moreover have "contains (dumps_member (k, j)) (separated (map dumps_member kvs))"
    using map_of_SomeD [OF assms] by (intro separated_member) force
  moreover have "contains (separated (map dumps_member kvs)) (dumps (JDict kvs))"
    unfolding contains_iff dumps_dict by blast
  ultimately show ?thesis by (blast intro: contains_trans)
qed

text \<open>A parser that has written the events of a log, and a query for one of its labels.\<close>

definition wrote ::
  "tools \<Rightarrow> 'p regexes \<Rightarrow> 'p event_parser \<Rightarrow> nat \<Rightarrow> string \<Rightarrow> (string \<times> string) list \<Rightarrow> query_env \<Rightarrow> bool" where
  "wrote t re p h name lines env \<longleftrightarrow> well_named (filters_dict p) \<and>
     list_all (stamped t) (filter (matching re (filters_dict p)) lines) \<and>
     event_text env = events_text re (filters_dict p) h name lines"

definition found_by_text ::
  "tools \<Rightarrow> 'p regexes \<Rightarrow> 'p event_parser \<Rightarrow> nat \<Rightarrow> string \<Rightarrow> string \<Rightarrow> (string \<times> string) list \<Rightarrow>
   (string \<times> string) list" where
  "found_by_text t re p h name label lines =
     filter (\<lambda>nl. word_match t label (line_text re (filters_dict p) h name nl))
       (filter (matching re (filters_dict p)) lines)"

lemma label_ok:
  assumes "wrote t re p h name lines env" and "label \<in> set (get_event_labels p)"
  shows "well_named (filters_dict p)" "CHR ''.'' \<in> set label" "label \<noteq> []"
proof -
  show "well_named (filters_dict p)" using assms(1) by (simp add: wrote_def)
  with assms(2) show "CHR ''.'' \<in> set label"
    by (auto simp: well_named_def get_event_labels_def list_all_iff)
  then show "label \<noteq> []" by auto
qed

lemma found_events:
  assumes "wrote t re p h name lines env" and "label \<in> set (get_event_labels p)"
    and "set ls \<subseteq> set (found_by_text t re p h name label lines)"
  shows "get_events_from_json_output t (map (line_text re (filters_dict p) h name) ls) (Some [label]) None
    = Inr (map (label_event t re (filters_dict p) h label) ls)"
proof (intro events_of_lines event_of_labelled_line label_ok [OF assms(1,2)])
  fix nl assume "nl \<in> set ls"
  with assms(3) have "nl \<in> set (filter (matching re (filters_dict p)) lines)"
    by (auto simp: found_by_text_def)
  with assms(1) show "stamped t nl" unfolding wrote_def list_all_iff by blast
qed

lemma grep_written:
  assumes "wrote t re p h name lines env"
  shows "grep_lines (word_match t) [label] (event_text env) =
      map (line_text re (filters_dict p) h name) (found_by_text t re p h name label lines)"
    "grep_lines (word_match t) [label] (tac (event_text env)) =
      map (line_text re (filters_dict p) h name) (rev (found_by_text t re p h name label lines))"
proof -
  let ?f = "filters_dict p" and ?ls = "filter (matching re (filters_dict p)) lines"
  have w: "well_named ?f" using assms by (simp add: wrote_def)
  note prints = line_texts_printable [OF w, of re h name]
  have e: "event_text env = print_lines (map (line_text re ?f h name) ?ls)"
    using assms events_text_lines [OF w] by (simp add: wrote_def)
  show "grep_lines (word_match t) [label] (event_text env) =
      map (line_text re ?f h name) (found_by_text t re p h name label lines)"
    unfolding e grep_print [OF prints(1)] by (simp add: filter_map comp_def found_by_text_def)
  have e': "tac (event_text env) = print_lines (map (line_text re ?f h name) (rev ?ls))"
    unfolding e by (subst tac_print [OF prints(1)]) (simp add: rev_map)
  show "grep_lines (word_match t) [label] (tac (event_text env)) =
      map (line_text re ?f h name) (rev (found_by_text t re p h name label lines))"
    unfolding e' grep_print [OF prints(1)] by (simp add: filter_map comp_def found_by_text_def rev_filter)
qed

lemma verify_label: "label \<in> set (get_event_labels p) \<Longrightarrow>
   verify_event_labels p (Labels [Some label]) = Inr [label]"
  by (simp add: verify_event_labels_def)

lemma splitlines_texts:
  assumes "well_named filters"
  shows "splitlines line_end (print_lines (map (line_text re filters h name) ls)) =
    map (line_text re filters h name) ls"
  by (rule splitlines_print [OF _ line_texts_printable(3) [OF assms]]) simp

text \<open>A query for one label returns, newest first, the events whose text the pattern of the
  label occurs in. When \<open>grep\<close> finds a quoted label, these are all events that have the label,
  each with its groups, and possibly others, which come without the label; the count counts
  them too.\<close>

theorem history_of_label:
  assumes "wrote t re p h name lines env" and "label \<in> set (get_event_labels p)"
    and "prompt env timeout"
    and "\<forall>l. contains (dumps_string label) l \<longrightarrow> word_match t label l"
  defines "found \<equiv> found_by_text t re p h name label lines"
  shows "get_event_history t env p (Labels [Some label]) None None timeout =
      Inr (history_result (rev (map (label_event t re (filters_dict p) h label) found), False)) \<and>
    get_event_history_count t env p label timeout =
      Inr \<lparr>timedout = False, results_list = [], result_count = int (length found)\<rparr> \<and>
    filter (\<lambda>nl. label_groups re (filters_dict p) label nl \<noteq> None) found =
      filter (\<lambda>nl. label_groups re (filters_dict p) label nl \<noteq> None) lines"
proof (intro conjI)
  let ?f = "filters_dict p"
  have w: "well_named ?f" and dot: "CHR ''.'' \<in> set label" and ne: "label \<noteq> []"
    using label_ok [OF assms(1,2)] by blast+
  have c: "command_end env = None" using assms(3) by (simp add: prompt_def)
  have "get_events_from_json_output t (map (line_text re ?f h name) (rev found)) (Some [label]) None
      = Inr (map (label_event t re ?f h label) (rev found))"
    unfolding found_def by (rule found_events [OF assms(1,2)]) simp
  moreover have "rev (splitlines line_end (print_lines (map (line_text re ?f h name) found))) =
      map (line_text re ?f h name) (rev found)"
    unfolding splitlines_texts [OF w] by (simp add: rev_map)
  ultimately have "get_all_event_history t env (event_file_path p) (Some [label]) None timeout =
      Inr (rev (map (label_event t re ?f h label) found), False)"
    using grep_written(1) [OF assms(1), of label]
    by (simp add: get_all_event_history_def when_prompt [OF assms(3)] c delivered_def grep_history_def ne
        found_def rev_map)
  then show "get_event_history t env p (Labels [Some label]) None None timeout =
      Inr (history_result (rev (map (label_event t re ?f h label) found), False))"
    by (simp add: get_event_history_def verify_label [OF assms(2)] as_parser_error_def)
  show "get_event_history_count t env p label timeout =
      Inr \<lparr>timedout = False, results_list = [], result_count = int (length found)\<rparr>"
    using grep_written(1) [OF assms(1), of label]
    by (simp add: get_event_history_count_def verify_label [OF assms(2)] get_event_history_count_of_def
        when_prompt [OF assms(3)] c was_killed_def as_parser_error_def found_def)
  have "matching re ?f nl \<and> word_match t label (line_text re ?f h name nl)"
    if "label_groups re ?f label nl = Some j" for nl j
  proof
    have "matches re ?f (snd nl) \<noteq> []" using that by (auto simp: label_groups_def)
    then show "matching re ?f nl" using matches_nil [of re ?f "snd nl" "fst nl"] by simp
    have "map_of (line_data re ?f h name nl) label = Some j"
      using line_data_label(1) [OF w dot] that by simp
    then have "contains (dumps_string label) (line_text re ?f h name nl)"
      unfolding line_text_def by (rule contains_key)
    with assms(4) show "word_match t label (line_text re ?f h name nl)" by blast
  qed
  then show "filter (\<lambda>nl. label_groups re ?f label nl \<noteq> None) found =
      filter (\<lambda>nl. label_groups re ?f label nl \<noteq> None) lines"
    unfolding found_def found_by_text_def filter_filter by (intro filter_cong) blast+
qed

lemma sample_wrote:
  "wrote sample_tools sample_regexes sample_parser 36 ''log.txt'' sample_lines (sample_env sample_text)"
  using sample_ok(1,3) by (auto simp: wrote_def list_all_iff sample_env_def sample_text_def)

theorem history_of_label_witness:
  "get_event_history_count sample_tools (sample_env sample_text) sample_parser ''basic.boot'' 1000000 =
     Inr \<lparr>timedout = False, results_list = [], result_count = 1\<rparr>"
proof -
  have l: "''basic.boot'' \<in> set (get_event_labels sample_parser)"
    by (simp add: get_event_labels_def sample_parser_def)
  have "\<forall>l. contains (dumps_string ''basic.boot'') l \<longrightarrow> word_match sample_tools ''basic.boot'' l"
    by (simp add: sample_tools_def)
  from history_of_label [OF sample_wrote l sample_ok(2) this]
  have "get_event_history_count sample_tools (sample_env sample_text) sample_parser ''basic.boot'' 1000000 =
      Inr \<lparr>timedout = False, results_list = [], result_count = int (length
        (found_by_text sample_tools sample_regexes sample_parser 36 ''log.txt'' ''basic.boot'' sample_lines))\<rparr>"
    by blast
  also have "length (found_by_text sample_tools sample_regexes sample_parser 36 ''log.txt'' ''basic.boot''
      sample_lines) = 1"
    by code_simp
  finally show ?thesis by simp
qed

lemma last_event_written:
  assumes "wrote t re p h name lines env" and "label \<in> set (get_event_labels p)"
    and "prompt env timeout"
    and "found_by_text t re p h name label lines = ms @ [nl]"
  shows "get_last_event t env p (Labels [Some label]) timeout =
    Inr \<lparr>timedout = False, results_list = [label_event t re (filters_dict p) h label nl], result_count = 1\<rparr>"
proof -
  let ?f = "filters_dict p"
  have w: "well_named ?f" and ne: "label \<noteq> []"
    using label_ok [OF assms(1,2)] by blast+
  have c: "command_end env = None" using assms(3) by (simp add: prompt_def)
  let ?l = "line_text re ?f h name nl"
  have "nl \<in> set (filter (matching re ?f) lines)"
    using arg_cong [OF assms(4), of set] by (auto simp: found_by_text_def)
  then have st: "stamped t nl"
    using assms(1) unfolding wrote_def list_all_iff by blast
  have g: "grep_lines (word_match t) [label] (tac (event_text env)) = ?l # map (line_text re ?f h name) (rev ms)"
    using grep_written(2) [OF assms(1), of label] by (simp add: assms(4))
  have "event_of_output t (?l @ [newline]) (Some [label]) None =
      Inr (Some (label_event t re ?f h label nl))"
    using event_of_output_line [OF w] event_of_labelled_line [OF w st label_ok(2) [OF assms(1,2)]] by simp
  then have "get_events_from_json_output t [?l @ [newline]] (Some [label]) None =
      Inr [label_event t re ?f h label nl]"
    by (simp add: get_events_from_json_output_def)
  then have "get_last_event_of t env (Some label) timeout = Inr (Some (label_event t re ?f h label nl), False)"
    by (simp add: get_last_event_of_def ne when_prompt [OF assms(3)] c was_killed_def delivered_def g
        print_lines_def)
  then show ?thesis
    by (simp add: get_last_event_def verify_label [OF assms(2)] as_parser_error_def)
qed

text \<open>The state of a label is the group of its last event; but when the last event that the
  query finds by its text does not have the label, a \<open>KeyError\<close> is raised, whatever
  \<open>raise_error\<close> says, even though older events have the label.\<close>

theorem last_event_state:
  assumes "wrote t re p h name lines env" and "label \<in> set (get_event_labels p)"
    and "prompt env timeout"
    and "found_by_text t re p h name label lines = ms @ [nl]"
  shows "get_last_event_state t env p label raise_error timeout group_index =
    (case label_groups re (filters_dict p) label nl of
       None \<Rightarrow> Inl KeyError
     | Some (JList gs) \<Rightarrow>
         if group_index < int (length gs) then py_index gs group_index
         else if raise_error then Inl ParserError else Inr (JStr [])
     | Some _ \<Rightarrow> Inl TypeError)"
proof -
  have "label \<noteq> ''raw_log_line''" using label_ok(2) [OF assms(1,2)] by auto
  moreover have "\<exists>gs. j = JList gs" if "label_groups re (filters_dict p) label nl = Some j" for j
  proof -
    have "list_all (\<lambda>(k, j). \<exists>gs. j = JList gs) (matches re fs l)" for fs l
    proof (induction fs)
      case (Cons f fs)
      then show ?case by (cases f) (simp add: json_groups_def split: option.splits)
    qed simp
    then have all: "\<forall>kj\<in>set (matches re (filters_dict p) (snd nl)). case kj of (k, j) \<Rightarrow> \<exists>gs. j = JList gs"
      unfolding list_all_iff by blast
    from that have "(label, j) \<in> set (matches re (filters_dict p) (snd nl))"
      unfolding label_groups_def by (rule map_of_SomeD)
    with all show ?thesis by fast
  qed
  ultimately show ?thesis
    unfolding get_last_event_state_def last_event_written [OF assms]
    by (auto simp: label_event_def Let_def split: option.splits)
qed


text \<open>A device that prints the name of a label.\<close>

definition foreign_lines :: "(string \<times> string) list" where
  "foreign_lines = [(''t1'', sample_line ''000001'' ''up''), (''t2'', sample_line ''000002'' ''off: no basic.boot'')]"

definition foreign_tools :: tools where
  "foreign_tools = sample_tools\<lparr>word_match := contains\<rparr>"

theorem last_event_state_witness:
  "get_last_event_state foreign_tools (sample_env (events_text sample_regexes (filters_dict sample_parser) 36
     ''log.txt'' foreign_lines)) sample_parser ''basic.boot'' False 1000000 0 = Inl KeyError"
proof -
  let ?env = "sample_env (events_text sample_regexes (filters_dict sample_parser) 36 ''log.txt'' foreign_lines)"
  have l: "''basic.boot'' \<in> set (get_event_labels sample_parser)"
    by (simp add: get_event_labels_def sample_parser_def)
  have "list_all (stamped foreign_tools) foreign_lines"
    by (simp add: stamped_def foreign_tools_def sample_tools_def foreign_lines_def sample_line_def slice_def)
  then have w: "wrote foreign_tools sample_regexes sample_parser 36 ''log.txt'' foreign_lines ?env"
    using sample_ok(1) by (auto simp: wrote_def list_all_iff sample_env_def)
  have f: "found_by_text foreign_tools sample_regexes sample_parser 36 ''log.txt'' ''basic.boot'' foreign_lines
      = [(''t1'', sample_line ''000001'' ''up'')] @ [(''t2'', sample_line ''000002'' ''off: no basic.boot'')]"
    by code_simp
  have "label_groups sample_regexes (filters_dict sample_parser) ''basic.boot''
      (''t2'', sample_line ''000002'' ''off: no basic.boot'') = None"
    by code_simp
  with last_event_state [OF w l sample_ok(2) f] show ?thesis by simp
qed

section \<open>Lines without a time\<close>

lemma event_of_any_line:
  assumes "well_named filters"
  shows "event_of_output t (line_text re filters h name nl) None st =
    bindE (get_datetime t (JStr (slice 1 27 (snd nl)))) (\<lambda>d. Inr
      (if case st of None \<Rightarrow> True | Some s \<Rightarrow> s \<le> d then Some \<lparr>system_timestamp = d,
         entries = AList.delete ''system_timestamp'' (line_data re filters h name nl)\<rparr> else None))"
proof -
  let ?d = "line_data re filters h name nl"
  have l: "loads (line_text re filters h name nl) = Inr (JDict ?d)"
    unfolding line_text_def by (rule loads_dumps [OF storable_line_data [OF assms(1)]])
  have n: "line_text re filters h name nl \<noteq> []" by (simp add: line_text_def)
  have "py_item (JDict ?d) ''system_timestamp'' = Inr (JStr (slice 1 27 (snd nl)))"
    using line_data_lookup [OF assms(1)] by (simp add: py_item_def)
  with n show ?thesis
    by (cases "get_datetime t (JStr (slice 1 27 (snd nl)))")
      (simp_all add: event_of_output_def l del: One_nat_def)
qed

lemma first_datetime_cases:
  "(\<exists>d. first_datetime t (JStr s) fs = Inr d) \<or> first_datetime t (JStr s) fs = Inl RuntimeError"
  by (induction fs) (simp_all add: get_datetime_from_format_def split: option.split)

lemma mapE_raises:
  assumes "x \<in> set xs" and "f x = Inl e" and "\<And>y e'. y \<in> set xs \<Longrightarrow> f y = Inl e' \<Longrightarrow> e' = e"
  shows "mapE f xs = Inl e"
  using assms
proof (induction xs)
  case (Cons y ys)
  show ?case
  proof (cases "f y")
    case (Inl e')
    with Cons.prems(3) [of y e'] show ?thesis by simp
  next
    case (Inr z)
    with Cons.prems(1,2) have "x \<in> set ys" by auto
    then have "mapE f ys = Inl e"
    proof (rule Cons.IH)
      show "e' = e" if "y' \<in> set ys" "f y' = Inl e'" for y' e'
        using that by (intro Cons.prems(3)) simp_all
    qed (rule Cons.prems(2))
    with Inr show ?thesis by simp
  qed
qed simp

text \<open>One event without a readable time spoils the file: when some matched line of the log
  does not have a time in its header, for instance the second line of a note, every query of
  the history of all labels raises \<open>ParserError\<close>.\<close>

theorem unstamped_line_spoils_history:
  assumes "well_named (filters_dict p)" and "prompt env timeout"
    and "event_text env = events_text re (filters_dict p) h name lines"
    and "nl \<in> set lines" and "matching re (filters_dict p) nl"
    and "get_datetime t (JStr (slice 1 27 (snd nl))) = Inl RuntimeError"
  shows "get_event_history t env p NoLabels None start_time timeout = Inl ParserError"
proof -
  let ?f = "filters_dict p" and ?ls = "filter (matching re (filters_dict p)) lines"
  let ?text = "line_text re (filters_dict p) h name"
  note prints = line_texts_printable [OF assms(1), of re h name]
  have c: "command_end env = None" using assms(2) by (simp add: prompt_def)
  have wr: "event_text env = print_lines (map ?text ?ls)"
    using assms(3) events_text_lines [OF assms(1)] by simp
  have tac: "tac (event_text env) = print_lines (map ?text (rev ?ls))"
    unfolding wr by (subst tac_print [OF prints(1)]) (simp add: rev_map)
  have s: "splitlines str_line_end (tac (event_text env)) = map ?text (rev ?ls)"
    unfolding tac by (rule splitlines_print [OF _ prints(2)]) (simp add: str_line_end_def)
  have ev: "event_of_output t (?text x) None start_time = Inl e \<longleftrightarrow>
      get_datetime t (JStr (slice 1 27 (snd x))) = Inl e" for x e
    unfolding event_of_any_line [OF assms(1)]
    by (cases "get_datetime t (JStr (slice 1 27 (snd x)))") simp_all
  have "mapE (\<lambda>out. event_of_output t out None start_time) (map ?text (rev ?ls)) = Inl RuntimeError"
  proof (rule mapE_raises)
    show "?text nl \<in> set (map ?text (rev ?ls))" using assms(4,5) by simp
    show "event_of_output t (?text nl) None start_time = Inl RuntimeError"
      unfolding ev by (rule assms(6))
    fix y e assume "y \<in> set (map ?text (rev ?ls))" "event_of_output t y None start_time = Inl e"
    then obtain x where "get_datetime t (JStr (slice 1 27 (snd x))) = Inl e" using ev by auto
    then show "e = RuntimeError"
      using first_datetime_cases [of t "slice 1 27 (snd x)" datetime_formats] by (auto simp: get_datetime_def)
  qed
  then have "get_all_event_history t env (event_file_path p) None start_time timeout = Inl RuntimeError"
    by (simp add: get_all_event_history_def when_prompt [OF assms(2)] c was_killed_def s
        get_events_from_json_output_def)
  then show ?thesis
    by (cases start_time) (simp_all add: get_event_history_def as_parser_error_def)
qed

theorem unstamped_line_spoils_history_witness:
  "get_event_history sample_tools (sample_env (events_text sample_regexes (filters_dict sample_parser) 36
     ''log.txt'' (sample_lines @ [(''t4'', ''switched off'')]))) sample_parser NoLabels None None 1000000
   = Inl ParserError"
proof (rule unstamped_line_spoils_history [where nl = "(''t4'', ''switched off'')"])
  show "matching sample_regexes (filters_dict sample_parser) (''t4'', ''switched off'')"
    by (simp add: matching_def sample_regexes_def sample_parser_def)
  show "get_datetime sample_tools (JStr (slice 1 27 (snd (''t4'', ''switched off'')))) = Inl RuntimeError"
    by code_simp
  show "prompt (sample_env (events_text sample_regexes (filters_dict sample_parser) 36 ''log.txt''
      (sample_lines @ [(''t4'', ''switched off'')]))) 1000000"
    by (rule sample_ok(2))
  show "(''t4'', ''switched off'') \<in> set (sample_lines @ [(''t4'', ''switched off'')])"
    by (simp only: set_append) simp
qed (simp_all only: sample_ok, simp only: sample_env_def query_env.simps)

end
