(* ===== verification/Event_Match.thy ===== *)
theory Event_Match
  imports Event_Parser
begin

text \<open>
  \<open>gazoo_device/capabilities/event_parser_default.py\<close>, third part: matching of cause and effect
  events, and waiting for labels.
\<close>

section \<open>Causes and effects\<close>

definition nearest_datetime :: "int list \<Rightarrow> int \<Rightarrow> int result" where
  "nearest_datetime datetime_list target_datetime =
     (if datetime_list = [] then Inl ParserError
      else
        let work_list = filter (\<lambda>d. d < target_datetime) datetime_list
        in if work_list = [] then Inl ParserError
           else Inr (arg_min_list (\<lambda>d. abs (d - target_datetime)) work_list))"

record event_match =
  event_delta :: int
  cause_event :: parsed_event
  effect_event :: parsed_event

definition index_of :: "'a \<Rightarrow> 'a list \<Rightarrow> nat" where
  "index_of x xs = length (takeWhile (\<lambda>y. y \<noteq> x) xs)"

text \<open>The loop over the effect events; \<open>wrk\<close> is \<open>wrk_datetime_list\<close>.\<close>

fun match_loop :: "parsed_event list \<Rightarrow> int list \<Rightarrow> parsed_event list \<Rightarrow> event_match list" where
  "match_loop causes wrk [] = []"
| "match_loop causes wrk (effect # effects) =
     (case nearest_datetime wrk (system_timestamp effect) of
        Inl _ \<Rightarrow> []
      | Inr d \<Rightarrow>
          \<lparr>event_delta = system_timestamp effect - d,
           cause_event = causes ! index_of d (map system_timestamp causes),
           effect_event = effect\<rparr> # match_loop causes (remove1 d wrk) effects)"

fun remove_matched ::
  "event_match list \<Rightarrow> parsed_event list \<times> parsed_event list \<Rightarrow> parsed_event list \<times> parsed_event list" where
  "remove_matched [] remaining = remaining"
| "remove_matched (m # ms) (rc, re) =
     remove_matched ms
       (if rc \<noteq> [] \<and> re \<noteq> [] then (remove1 (cause_event m) rc, remove1 (effect_event m) re) else (rc, re))"

definition unmatched_events ::
  "parser_result \<Rightarrow> parser_result \<Rightarrow> parsed_event list \<times> parsed_event list" where
  "unmatched_events cause_hist effect_hist =
     (let causes = (if timedout cause_hist then [] else results_list cause_hist);
          remaining_effects = (if timedout effect_hist then [] else results_list effect_hist);
          matches = match_loop causes (map system_timestamp causes) (results_list effect_hist)
      in remove_matched (sort_key event_delta matches) (causes, remaining_effects))"

text \<open>The two queries of the history see the event file one after the other.\<close>

definition get_unmatched_events ::
  "tools \<Rightarrow> query_env \<Rightarrow> query_env \<Rightarrow> 'p event_parser \<Rightarrow> string \<Rightarrow> string \<Rightarrow>
   (parsed_event list \<times> parsed_event list) result" where
  "get_unmatched_events t env1 env2 p event_cause_label event_effect_label =
     bindE (get_event_history t env1 p (Labels [Some event_cause_label]) None None 10000000) (\<lambda>causes.
     bindE (get_event_history t env2 p (Labels [Some event_effect_label]) None None 10000000) (\<lambda>effects.
       Inr (unmatched_events causes effects)))"

definition get_unexpected_reboots ::
  "tools \<Rightarrow> query_env \<Rightarrow> query_env \<Rightarrow> 'p event_parser \<Rightarrow> parsed_event list result" where
  "get_unexpected_reboots t env1 env2 p =
     bindE (get_unmatched_events t env1 env2 p ''basic.reboot_trigger'' ''basic.bootup'') (\<lambda>(_, bootups).
       Inr bootups)"

section \<open>Waiting for labels\<close>

text \<open>
  \<open>looks k\<close> is what the k-th query of a wait sees, \<open>now n\<close> the n-th reading of the clock. One pass
  over the labels; its result is whether a query timed out, the found and the missed labels, the
  time of the last event, and the number of queries made.
\<close>

fun label_pass ::
  "tools \<Rightarrow> 'p event_parser \<Rightarrow> (nat \<Rightarrow> query_env) \<Rightarrow> int \<Rightarrow> int \<Rightarrow> string list \<Rightarrow>
   bool \<times> string list \<times> string list \<times> int \<Rightarrow> nat \<Rightarrow>
   ((bool \<times> string list \<times> string list \<times> int) \<times> nat) result" where
  "label_pass t p looks start_datetime time_per_label [] acc k = Inr (acc, k)"
| "label_pass t p looks start_datetime time_per_label (label # labels)
     (any_was_killed, found_labels, missed_labels, max_found_time) k =
     bindE (get_last_event t (looks k) p (Labels [Some label]) time_per_label) (\<lambda>result.
       let any' = (any_was_killed \<or> timedout result)
       in case results_list result of
            e # _ \<Rightarrow>
              if start_datetime \<le> system_timestamp e then
                label_pass t p looks start_datetime time_per_label labels
                  (any', List.insert label found_labels, missed_labels, max max_found_time (system_timestamp e))
                  (Suc k)
              else label_pass t p looks start_datetime time_per_label labels
                  (any', found_labels, List.insert label missed_labels, max_found_time) (Suc k)
          | [] \<Rightarrow> label_pass t p looks start_datetime time_per_label labels
                  (any', found_labels, List.insert label missed_labels, max_found_time) (Suc k))"

record found_result =
  all_found :: bool
  found_labels :: "string list"
  missed_labels :: "string list"
  max_found_time :: int

text \<open>
  The loop of \<open>_find_all_event_labels\<close>; \<open>n\<close> counts the readings of the clock and \<open>k\<close> the queries.
\<close>

fun find_loop ::
  "nat \<Rightarrow> tools \<Rightarrow> 'p event_parser \<Rightarrow> (nat \<Rightarrow> query_env) \<Rightarrow> (nat \<Rightarrow> int) \<Rightarrow> string list \<Rightarrow> int \<Rightarrow>
   int \<Rightarrow> int \<Rightarrow> found_result \<Rightarrow> nat \<Rightarrow> nat \<Rightarrow> (found_result \<times> nat \<times> nat) result" where
  "find_loop 0 t p looks now labels start_datetime timeout start_time r n k = Inl OutOfFuel"
| "find_loop (Suc fuel) t p looks now labels start_datetime timeout start_time r n k =
     (if all_found r then Inr (r, n, k)
      else if \<not> now n < start_time + timeout then Inr (r, Suc n, k)
      else
        let remaining_time = timeout - (now (Suc n) - start_time);
            time_per_label = remaining_time div int (max (length labels) 1)
        in bindE (label_pass t p looks start_datetime time_per_label labels
             (False, [], [], max_found_time r) k)
             (\<lambda>((any_was_killed, found, missed, mft), k').
               find_loop fuel t p looks now labels start_datetime timeout start_time
                 \<lparr>all_found = (\<not> any_was_killed \<and> length found = length labels), found_labels = found,
                  missed_labels = missed, max_found_time = mft\<rparr> (Suc (Suc n)) k'))"

definition find_all_event_labels ::
  "tools \<Rightarrow> 'p event_parser \<Rightarrow> (nat \<Rightarrow> query_env) \<Rightarrow> (nat \<Rightarrow> int) \<Rightarrow> string list \<Rightarrow> int \<Rightarrow> int \<Rightarrow>
   nat \<Rightarrow> nat \<Rightarrow> (found_result \<times> nat \<times> nat) result" where
  "find_all_event_labels t p looks now labels start_datetime timeout n k =
     find_loop (nat timeout + 2) t p looks now labels start_datetime timeout (now n)
       \<lparr>all_found = False, found_labels = [], missed_labels = [], max_found_time = start_datetime\<rparr> (Suc n) k"

fun in_order_loop ::
  "tools \<Rightarrow> 'p event_parser \<Rightarrow> (nat \<Rightarrow> query_env) \<Rightarrow> (nat \<Rightarrow> int) \<Rightarrow> string list \<Rightarrow> int \<Rightarrow> int \<Rightarrow>
   string list \<Rightarrow> int \<Rightarrow> nat \<Rightarrow> nat \<Rightarrow> (found_result \<times> nat \<times> nat) result" where
  "in_order_loop t p looks now [] timeout start_time found last_time n k =
     Inr (\<lparr>all_found = True, found_labels = found, missed_labels = [], max_found_time = last_time\<rparr>, n, k)"
| "in_order_loop t p looks now (label # labels) timeout start_time found last_time n k =
     bindE (find_all_event_labels t p looks now [label] last_time (timeout - (now n - start_time)) (Suc n) k)
       (\<lambda>(r, n', k').
         if all_found r then
           in_order_loop t p looks now labels timeout start_time (List.insert label found)
             (max_found_time r) n' k'
         else Inr (\<lparr>all_found = False, found_labels = found, missed_labels = remdups (label # labels),
                max_found_time = last_time\<rparr>, n', k'))"

definition find_event_labels_in_order ::
  "tools \<Rightarrow> 'p event_parser \<Rightarrow> (nat \<Rightarrow> query_env) \<Rightarrow> (nat \<Rightarrow> int) \<Rightarrow> string list \<Rightarrow> int \<Rightarrow> int \<Rightarrow>
   (found_result \<times> nat \<times> nat) result" where
  "find_event_labels_in_order t p looks now labels start_datetime timeout =
     in_order_loop t p looks now labels timeout (now 0) [] start_datetime 1 0"

text \<open>\<open>start_datetime\<close> is the given time, or the present one.\<close>

definition wait_for_event_labels ::
  "tools \<Rightarrow> 'p event_parser \<Rightarrow> (nat \<Rightarrow> query_env) \<Rightarrow> (nat \<Rightarrow> int) \<Rightarrow> labels_arg \<Rightarrow> bool \<Rightarrow> int \<Rightarrow> int \<Rightarrow>
   bool \<Rightarrow> bool result" where
  "wait_for_event_labels t p looks now event_labels raise_error timeout start_datetime in_order =
     bindE (verify_event_labels p event_labels) (\<lambda>labels.
     bindE (if in_order then find_event_labels_in_order t p looks now labels start_datetime timeout
            else find_all_event_labels t p looks now labels start_datetime timeout 0 0) (\<lambda>(r, _, _).
       if \<not> all_found r \<and> raise_error then Inl ParserError else Inr (all_found r)))"

end
