(* ===== verification/Event_Match_Facts.thy ===== *)
theory Event_Match_Facts
  imports Event_Match "HOL-Library.Multiset"
begin

text \<open>
  Properties of \<open>Event_Match\<close>: the matching of causes and effects is one to one and maximal.
\<close>

section \<open>Matching\<close>

lemma nearest_datetime_Inr:
  assumes "nearest_datetime ds t = Inr d"
  shows "d \<in> set ds" "d < t" "\<And>x. x \<in> set ds \<Longrightarrow> x < t \<Longrightarrow> x \<le> d"
proof -
  let ?w = "filter (\<lambda>d. d < t) ds" and ?f = "\<lambda>d. abs (d - t)"
  from assms have w: "?w \<noteq> []" and d: "d = arg_min_list ?f ?w"
    by (auto simp: nearest_datetime_def Let_def split: if_splits)
  have "d \<in> set ?w" unfolding d using w by (rule arg_min_list_in)
  then show "d \<in> set ds" and lt: "d < t" by auto
  have "?f d = Min (?f ` set ?w)" unfolding d using w by (rule f_arg_min_list_f)
  then have "?f d \<le> ?f x" if "x \<in> set ?w" for x
    using that by simp
  then show "x \<le> d" if "x \<in> set ds" "x < t" for x
    using that lt by fastforce
qed

lemma nearest_datetime_Inl: "nearest_datetime ds t = Inl e \<Longrightarrow> x \<in> set ds \<Longrightarrow> t \<le> x"
  by (auto simp: nearest_datetime_def Let_def filter_empty_conv split: if_splits)

lemma index_of: "x \<in> set xs \<Longrightarrow> index_of x xs < length xs \<and> xs ! index_of x xs = x"
  by (induction xs) (auto simp: index_of_def)

definition stamps :: "parsed_event list \<Rightarrow> int list" where
  "stamps = map system_timestamp"

lemma stamp_inj: "distinct (stamps cs) \<Longrightarrow> c \<in> set cs \<Longrightarrow> c' \<in> set cs \<Longrightarrow>
   system_timestamp c = system_timestamp c' \<Longrightarrow> c = c'"
  by (auto simp: stamps_def distinct_map inj_on_def)

lemma match_loop_sound:
  assumes "distinct (stamps causes)" and "distinct wrk" and "set wrk \<subseteq> set (stamps causes)"
  shows "\<forall>m\<in>set (match_loop causes wrk effects). cause_event m \<in> set causes \<and>
      system_timestamp (cause_event m) \<in> set wrk \<and>
      system_timestamp (cause_event m) < system_timestamp (effect_event m)"
    "distinct (map cause_event (match_loop causes wrk effects))"
    "map effect_event (match_loop causes wrk effects) =
      take (length (match_loop causes wrk effects)) effects"
proof -
  let ?good = "\<lambda>wrk m. cause_event m \<in> set causes \<and> system_timestamp (cause_event m) \<in> set wrk \<and>
      system_timestamp (cause_event m) < system_timestamp (effect_event m)"
  have "(\<forall>m\<in>set (match_loop causes wrk effects). ?good wrk m) \<and>
      distinct (map cause_event (match_loop causes wrk effects)) \<and>
      map effect_event (match_loop causes wrk effects) =
        take (length (match_loop causes wrk effects)) effects"
    using assms(2,3)
  proof (induction effects arbitrary: wrk)
    case (Cons e es)
    show ?case
    proof (cases "nearest_datetime wrk (system_timestamp e)")
      case (Inr d)
      note d = nearest_datetime_Inr [OF Inr]
      define c where "c = causes ! index_of d (map system_timestamp causes)"
      have "d \<in> set (map system_timestamp causes)"
        using d(1) Cons.prems(2) by (auto simp: stamps_def)
      from index_of [OF this] have c: "c \<in> set causes" "system_timestamp c = d"
        unfolding c_def by (metis length_map nth_mem, metis length_map nth_map)
      have "distinct (remove1 d wrk)" "set (remove1 d wrk) \<subseteq> set (stamps causes)"
        using Cons.prems set_remove1_subset [of d wrk] by (simp, blast)
      note IH = Cons.IH [OF this]
      have "\<forall>m\<in>set (match_loop causes (remove1 d wrk) es). ?good (remove1 d wrk) m" using IH by blast
      moreover from this have "c \<notin> cause_event ` set (match_loop causes (remove1 d wrk) es)"
        using c(2) Cons.prems(1) by (auto simp: set_remove1_eq)
      ultimately show ?thesis
        using IH c d Cons.prems(1)
        by (auto simp: Inr c_def [symmetric] set_remove1_eq simp del: set_remove1_subset)
    qed simp
  qed simp
  then show "\<forall>m\<in>set (match_loop causes wrk effects). ?good wrk m"
    "distinct (map cause_event (match_loop causes wrk effects))"
    "map effect_event (match_loop causes wrk effects) =
      take (length (match_loop causes wrk effects)) effects"
    by blast+
qed

text \<open>Unmatched effects have no unused cause before them, when the effects come newest first.\<close>

lemma match_loop_maximal:
  assumes "distinct wrk" and "sorted_wrt (\<lambda>e e'. system_timestamp e' < system_timestamp e) effects"
    and "distinct (stamps causes)" and "set wrk \<subseteq> set (stamps causes)"
  shows "\<forall>e\<in>set (drop (length (match_loop causes wrk effects)) effects).
    \<forall>x\<in>set wrk - system_timestamp ` cause_event ` set (match_loop causes wrk effects).
      system_timestamp e \<le> x"
  using assms
proof (induction effects arbitrary: wrk)
  case (Cons e es)
  show ?case
  proof (cases "nearest_datetime wrk (system_timestamp e)")
    case (Inl x)
    note n = nearest_datetime_Inl [OF Inl]
    have "system_timestamp e' \<le> system_timestamp e" if "e' \<in> set (e # es)" for e'
      using that Cons.prems(2) by auto
    with n show ?thesis by (fastforce simp: Inl)
  next
    case (Inr d)
    note d = nearest_datetime_Inr [OF Inr]
    define c where "c = causes ! index_of d (map system_timestamp causes)"
    have "d \<in> set (map system_timestamp causes)"
      using d(1) Cons.prems(4) by (auto simp: stamps_def)
    from index_of [OF this] have c: "system_timestamp c = d"
      unfolding c_def by (metis length_map nth_map)
    have "set (remove1 d wrk) = set wrk - {d}"
      using Cons.prems(1) by (simp add: set_remove1_eq)
    moreover have "\<forall>e\<in>set (drop (length (match_loop causes (remove1 d wrk) es)) es).
        \<forall>x\<in>set (remove1 d wrk) - system_timestamp ` cause_event ` set (match_loop causes (remove1 d wrk) es).
          system_timestamp e \<le> x"
      using Cons.prems calculation by (intro Cons.IH) auto
    ultimately show ?thesis
      using c by (auto simp: Inr c_def [symmetric])
  qed
qed simp

lemma remove_matched_filter:
  assumes "distinct rc" "distinct re" "distinct (map cause_event ms)" "distinct (map effect_event ms)"
    and "cause_event ` set ms \<subseteq> set rc" "effect_event ` set ms \<subseteq> set re"
  shows "remove_matched ms (rc, re) =
    (filter (\<lambda>c. c \<notin> cause_event ` set ms) rc, filter (\<lambda>e. e \<notin> effect_event ` set ms) re)"
  using assms
proof (induction ms arbitrary: rc re)
  case (Cons m ms)
  let ?rc = "remove1 (cause_event m) rc" and ?re = "remove1 (effect_event m) re"
  have r: "?rc = filter (\<lambda>c. c \<noteq> cause_event m) rc" "?re = filter (\<lambda>e. e \<noteq> effect_event m) re"
    using Cons.prems(1,2)
    by (simp_all add: distinct_remove1_removeAll removeAll_filter_not_eq neq_commute)
  have "rc \<noteq> []" "re \<noteq> []" using Cons.prems(5,6) by auto
  then have "remove_matched (m # ms) (rc, re) = remove_matched ms (?rc, ?re)" by simp
  also have "\<dots> = (filter (\<lambda>c. c \<notin> cause_event ` set ms) ?rc, filter (\<lambda>e. e \<notin> effect_event ` set ms) ?re)"
  proof (rule Cons.IH)
    have "cause_event x \<noteq> cause_event m \<and> effect_event x \<noteq> effect_event m" if "x \<in> set ms" for x
      using that Cons.prems(3,4) by (auto simp: image_iff)
    then show "cause_event ` set ms \<subseteq> set ?rc" "effect_event ` set ms \<subseteq> set ?re"
      using Cons.prems by (auto simp: set_remove1_eq)
  qed (use Cons.prems in simp_all)
  also have "\<dots> = (filter (\<lambda>c. c \<notin> cause_event ` set (m # ms)) rc,
      filter (\<lambda>e. e \<notin> effect_event ` set (m # ms)) re)"
    unfolding r filter_filter by (auto intro!: filter_cong)
  finally show ?case .
qed simp


lemma descending_distinct: "sorted_wrt (\<lambda>e e'. f e' < (f e :: int)) es \<Longrightarrow> distinct es"
  by (induction es) auto

text \<open>Causes and effects are matched one to one, each effect with a cause before it, the newest
  effects first; what remains are the other causes and the oldest effects, and none of the
  remaining effects has a remaining cause before it. This for histories that did not time out,
  of causes with different times and effects from the newest to the oldest.\<close>

theorem unmatched_events_maximal:
  assumes "\<not> timedout ch" "\<not> timedout eh" and "distinct (stamps (results_list ch))"
    and "sorted_wrt (\<lambda>e e'. system_timestamp e' < system_timestamp e) (results_list eh)"
  shows "\<exists>ms :: event_match list. unmatched_events ch eh =
      (filter (\<lambda>c. c \<notin> cause_event ` set ms) (results_list ch), drop (length ms) (results_list eh)) \<and>
    map effect_event ms = take (length ms) (results_list eh) \<and> distinct (map cause_event ms) \<and>
    (\<forall>m\<in>set ms. cause_event m \<in> set (results_list ch) \<and>
       system_timestamp (cause_event m) < system_timestamp (effect_event m)) \<and>
    (\<forall>c\<in>set (fst (unmatched_events ch eh)). \<forall>e\<in>set (snd (unmatched_events ch eh)).
       system_timestamp e \<le> system_timestamp c)"
proof -
  let ?cs = "results_list ch" and ?es = "results_list eh"
  define ms where "ms = match_loop ?cs (stamps ?cs) ?es"
  define sorted where "sorted = sort_key event_delta ms"
  note sound = match_loop_sound [OF assms(3,3) order.refl, of ?es, folded ms_def]
  have de: "distinct ?es"
    using assms(4) by (rule descending_distinct)
  have perm: "mset sorted = mset ms" by (simp add: sorted_def)
  then have s: "set sorted = set ms" by (rule mset_eq_setD)
  have dc: "distinct (map cause_event sorted)"
    using sound(2) perm by (metis mset_map mset_eq_imp_distinct_iff)
  have "distinct (map effect_event ms)" unfolding sound(3) using de by (rule distinct_take)
  then have dd: "distinct (map effect_event sorted)"
    using perm by (metis mset_map mset_eq_imp_distinct_iff)
  have effs: "effect_event ` set ms = set (take (length ms) ?es)"
    using arg_cong [OF sound(3), of set] by simp
  have "remove_matched sorted (?cs, ?es) =
      (filter (\<lambda>c. c \<notin> cause_event ` set sorted) ?cs, filter (\<lambda>e. e \<notin> effect_event ` set sorted) ?es)"
  proof (rule remove_matched_filter [OF _ de dc dd])
    show "distinct ?cs" using assms(3) by (simp add: stamps_def distinct_map)
    show "cause_event ` set sorted \<subseteq> set ?cs" using sound(1) by (auto simp: s)
    show "effect_event ` set sorted \<subseteq> set ?es" unfolding s effs by (rule set_take_subset)
  qed
  moreover have "filter (\<lambda>e. e \<notin> set (take (length ms) ?es)) ?es = drop (length ms) ?es"
  proof -
    have "set (take (length ms) ?es) \<inter> set (drop (length ms) ?es) = {}"
      using de by (simp add: set_take_disj_set_drop_if_distinct)
    then have "filter (\<lambda>e. e \<notin> set (take (length ms) ?es)) (take (length ms) ?es @ drop (length ms) ?es) =
        drop (length ms) ?es"
      unfolding filter_append by (auto simp: filter_empty_conv filter_id_conv)
    then show ?thesis by (simp only: append_take_drop_id)
  qed
  ultimately have u: "unmatched_events ch eh =
      (filter (\<lambda>c. c \<notin> cause_event ` set ms) ?cs, drop (length ms) ?es)"
    using assms(1,2)
    by (simp add: unmatched_events_def ms_def [unfolded stamps_def, symmetric] sorted_def [symmetric] s effs)
  have max: "\<forall>e\<in>set (drop (length ms) ?es). \<forall>x\<in>set (stamps ?cs) - system_timestamp ` cause_event ` set ms.
      system_timestamp e \<le> x"
    using match_loop_maximal [OF assms(3,4,3) order.refl] unfolding ms_def .
  have "system_timestamp e \<le> system_timestamp c"
    if c: "c \<in> set ?cs" "c \<notin> cause_event ` set ms" and e: "e \<in> set (drop (length ms) ?es)" for c e
  proof -
    have "system_timestamp c \<notin> system_timestamp ` cause_event ` set ms"
    proof
      assume "system_timestamp c \<in> system_timestamp ` cause_event ` set ms"
      then obtain m where m: "m \<in> set ms" "system_timestamp c = system_timestamp (cause_event m)" by blast
      with sound(1) have "cause_event m \<in> set ?cs" by blast
      from stamp_inj [OF assms(3) c(1) this m(2)] m(1) c(2) show False by blast
    qed
    moreover have "system_timestamp c \<in> set (stamps ?cs)" using c(1) by (simp add: stamps_def)
    ultimately show ?thesis using max e by blast
  qed
  then have "\<forall>c\<in>set (fst (unmatched_events ch eh)). \<forall>e\<in>set (snd (unmatched_events ch eh)).
      system_timestamp e \<le> system_timestamp c"
    unfolding u by simp
  moreover have "\<forall>m\<in>set ms. cause_event m \<in> set ?cs \<and>
      system_timestamp (cause_event m) < system_timestamp (effect_event m)"
    using sound(1) by blast
  ultimately show ?thesis using u sound(2,3) by (intro exI [of _ ms]) (intro conjI)
qed

definition event_at :: "int \<Rightarrow> parsed_event" where
  "event_at n = \<lparr>system_timestamp = n, entries = []\<rparr>"

definition result_of :: "int list \<Rightarrow> parser_result" where
  "result_of ns = \<lparr>timedout = False, results_list = map event_at ns, result_count = int (length ns)\<rparr>"

theorem unmatched_events_maximal_witness:
  "unmatched_events (result_of [30, 10]) (result_of [40, 35, 20, 5]) =
     ([], map event_at [20, 5])"
proof -
  have "\<not> timedout (result_of ns)" for ns by (simp add: result_of_def)
  moreover have "distinct (stamps (results_list (result_of [30, 10])))"
    by (simp add: result_of_def stamps_def event_at_def)
  moreover have "sorted_wrt (\<lambda>e e'. system_timestamp e' < system_timestamp e)
      (results_list (result_of [40, 35, 20, 5]))"
    by (simp add: result_of_def event_at_def)
  ultimately have "\<exists>ms :: event_match list. map effect_event ms = take (length ms) (results_list (result_of [40, 35, 20, 5]))"
    using unmatched_events_maximal [of "result_of [30, 10]" "result_of [40, 35, 20, 5]"] by blast
  moreover have "unmatched_events (result_of [30, 10]) (result_of [40, 35, 20, 5]) =
      ([], map event_at [20, 5])"
    by code_simp
  ultimately show ?thesis by blast
qed

end
