(* ===== verification/Event_Wait.thy ===== *)
theory Event_Wait
  imports Event_Match Event_History
begin

text \<open>
  Properties of \<open>Event_Match\<close>, continued: what a successful wait for labels has seen, and that a
  wait ends.
\<close>

section \<open>What a wait has seen\<close>

text \<open>Some query of the wait returned an event of the label at time \<open>ts\<close>, not before \<open>start\<close>.\<close>

definition seen ::
  "tools \<Rightarrow> 'p event_parser \<Rightarrow> (nat \<Rightarrow> query_env) \<Rightarrow> int \<Rightarrow> string \<Rightarrow> int \<Rightarrow> bool" where
  "seen t p looks start label ts \<longleftrightarrow> start \<le> ts \<and>
     (\<exists>k tm r e es. get_last_event t (looks k) p (Labels [Some label]) tm = Inr r \<and>
        results_list r = e # es \<and> system_timestamp e = ts)"

definition pass_inv ::
  "tools \<Rightarrow> 'p event_parser \<Rightarrow> (nat \<Rightarrow> query_env) \<Rightarrow> int \<Rightarrow> string set \<Rightarrow> string list \<Rightarrow> int \<Rightarrow> bool" where
  "pass_inv t p looks start L found m \<longleftrightarrow> distinct found \<and> set found \<subseteq> L \<and>
     (\<forall>l\<in>set found. \<exists>ts\<le>m. seen t p looks start l ts) \<and>
     (m = start \<or> (\<exists>l\<in>L. seen t p looks start l m)) \<and> start \<le> m"

lemma pass_inv_found:
  assumes "pass_inv t p looks start L found m" and "label \<in> L" and "seen t p looks start label ts"
  shows "pass_inv t p looks start L (List.insert label found) (max m ts)"
proof -
  have "start \<le> ts" using assms(3) by (simp add: seen_def)
  moreover have "\<exists>ts'\<le>max m ts. seen t p looks start l ts'" if "l \<in> set (List.insert label found)" for l
  proof (cases "l = label")
    case True
    with assms(3) show ?thesis by (intro exI [of _ ts]) simp
  next
    case False
    with that assms(1) obtain ts' where "ts' \<le> m" "seen t p looks start l ts'"
      by (auto simp: pass_inv_def)
    then show ?thesis by (intro exI [of _ ts']) simp
  qed
  moreover have "max m ts = start \<or> (\<exists>l\<in>L. seen t p looks start l (max m ts))"
  proof (cases "ts \<le> m")
    case True
    with assms(1) show ?thesis by (simp add: pass_inv_def max_absorb1)
  next
    case False
    with assms(2,3) show ?thesis by (auto simp: max_def)
  qed
  ultimately show ?thesis using assms(1,2) unfolding pass_inv_def by auto
qed

lemma label_pass_inv:
  assumes "label_pass t p looks start tm labels (a, found, missed, m) k = Inr ((a', found', missed', m'), k')"
    and "pass_inv t p looks start L found m" and "set labels \<subseteq> L"
  shows "pass_inv t p looks start L found' m'"
  using assms
proof (induction labels arbitrary: a found missed m k)
  case (Cons label labels)
  from Cons.prems(1) obtain r where
    q: "get_last_event t (looks k) p (Labels [Some label]) tm = Inr r"
    by (auto simp: result_simps)
  show ?case
  proof (cases "\<exists>e es. results_list r = e # es \<and> start \<le> system_timestamp e")
    case True
    then obtain e es where e: "results_list r = e # es" "start \<le> system_timestamp e" by blast
    with q have "seen t p looks start label (system_timestamp e)"
      unfolding seen_def by blast
    with Cons.prems have "pass_inv t p looks start L (List.insert label found) (max m (system_timestamp e))"
      by (intro pass_inv_found) auto
    then show ?thesis using Cons.prems q e by (intro Cons.IH) (auto simp: Let_def)
  next
    case False
    then show ?thesis using Cons.prems q
      by (cases "results_list r") (auto simp: Let_def intro: Cons.IH)
  qed
qed simp

text \<open>All labels found: then they differ, and each one was seen.\<close>

lemma all_found_seen:
  assumes "pass_inv t p looks start (set labels) found m" and "length found = length labels"
  shows "distinct labels" "set found = set labels"
    "\<And>l. l \<in> set labels \<Longrightarrow> \<exists>ts. seen t p looks start l ts"
proof -
  have d: "distinct found" "set found \<subseteq> set labels" using assms(1) by (auto simp: pass_inv_def)
  have "length labels = card (set found)" using d(1) assms(2) by (simp add: distinct_card)
  also have "\<dots> \<le> card (set labels)" using d(2) by (simp add: card_mono)
  finally have "card (set labels) = length labels" using card_length [of labels] by simp
  then show "distinct labels" by (rule card_distinct)
  then have "card (set found) = card (set labels)"
    using d(1) assms(2) by (simp add: distinct_card)
  then show s: "set found = set labels" using d(2) by (simp add: card_subset_eq)
  show "\<exists>ts. seen t p looks start l ts" if "l \<in> set labels" for l
    using that assms(1) unfolding s [symmetric] pass_inv_def by blast
qed

definition result_inv ::
  "tools \<Rightarrow> 'p event_parser \<Rightarrow> (nat \<Rightarrow> query_env) \<Rightarrow> int \<Rightarrow> string list \<Rightarrow> found_result \<Rightarrow> bool" where
  "result_inv t p looks start labels r \<longleftrightarrow>
     pass_inv t p looks start (set labels) (found_labels r) (max_found_time r) \<and>
     (all_found r \<longrightarrow> length (found_labels r) = length labels)"

lemma find_loop_inv:
  assumes "find_loop fuel t p looks now labels start timeout start_time r n k = Inr (r', n', k')"
    and "result_inv t p looks start labels r"
  shows "result_inv t p looks start labels r'"
  using assms
proof (induction fuel arbitrary: r n k)
  case (Suc fuel)
  show ?case
  proof (cases "all_found r \<or> \<not> now n < start_time + timeout")
    case True
    with Suc.prems show ?thesis by (auto split: if_splits)
  next
    case False
    define tm where "tm = (timeout - (now (Suc n) - start_time)) div int (max (length labels) (Suc 0))"
    from False Suc.prems(1) obtain a found missed m k1 where
      pass: "label_pass t p looks start tm labels (False, [], [], max_found_time r) k = Inr ((a, found, missed, m), k1)"
      and rest: "find_loop fuel t p looks now labels start timeout start_time
        \<lparr>all_found = (\<not> a \<and> length found = length labels), found_labels = found, missed_labels = missed,
         max_found_time = m\<rparr> (Suc (Suc n)) k1 = Inr (r', n', k')"
      by (auto simp: result_simps Let_def tm_def [symmetric] split: prod.splits)
    have "pass_inv t p looks start (set labels) [] (max_found_time r)"
      using Suc.prems(2) by (simp add: result_inv_def pass_inv_def)
    from label_pass_inv [OF pass this order.refl] rest show ?thesis
      by (intro Suc.IH) (auto simp: result_inv_def)
  qed
qed simp

lemma find_all_inv:
  assumes "find_all_event_labels t p looks now labels start timeout n k = Inr (r, n', k')"
  shows "result_inv t p looks start labels r"
  using assms unfolding find_all_event_labels_def
  by (rule find_loop_inv) (simp add: result_inv_def pass_inv_def)


lemma verify_strings:
  assumes "verify_event_labels p (Labels (map Some labels)) = Inr ls"
  shows "ls = labels"
proof -
  have "List.map_filter id (map Some labels) = labels" by (induction labels) simp_all
  with assms show ?thesis by (auto simp: verify_event_labels_def split: if_splits)
qed

definition fast_env :: query_env where
  "fast_env = (sample_env sample_text)\<lparr>clock := (\<lambda>_. 0)\<rparr>"



lemma find_one_seen:
  assumes "find_all_event_labels t p looks now [label] start timeout n k = Inr (r, n', k')" and "all_found r"
  shows "seen t p looks start label (max_found_time r)"
proof -
  from find_all_inv [OF assms(1)] assms(2) have inv:
    "pass_inv t p looks start {label} (found_labels r) (max_found_time r)" "length (found_labels r) = 1"
    by (simp_all add: result_inv_def)
  then obtain l where "found_labels r = [l]" by (auto simp: length_Suc_conv)
  with inv(1) obtain ts where ts: "ts \<le> max_found_time r" "seen t p looks start label ts"
    by (auto simp: pass_inv_def)
  show ?thesis
  proof (cases "max_found_time r = start")
    case True
    with ts have "ts = max_found_time r" by (simp add: seen_def)
    with ts show ?thesis by simp
  next
    case False
    with inv(1) show ?thesis by (auto simp: pass_inv_def)
  qed
qed

text \<open>Times of events, one for each label, none before the one of the label before it.\<close>

fun seen_in_order ::
  "tools \<Rightarrow> 'p event_parser \<Rightarrow> (nat \<Rightarrow> query_env) \<Rightarrow> int \<Rightarrow> string list \<Rightarrow> int list \<Rightarrow> bool" where
  "seen_in_order t p looks start [] [] = True"
| "seen_in_order t p looks start (l # ls) (ts # tss) =
     (seen t p looks start l ts \<and> seen_in_order t p looks ts ls tss)"
| "seen_in_order t p looks start _ _ = False"

lemma in_order_seen:
  assumes "in_order_loop t p looks now labels timeout start_time found since n k = Inr (r, n', k')"
    and "all_found r"
  shows "\<exists>tss. seen_in_order t p looks since labels tss"
  using assms
proof (induction labels arbitrary: found since n k)
  case Nil
  show ?case by (rule exI [of _ "[]"]) simp
next
  case (Cons label labels)
  from Cons.prems obtain r1 n1 k1 where
    f: "find_all_event_labels t p looks now [label] since (timeout - (now n - start_time)) (Suc n) k = Inr (r1, n1, k1)"
    and a: "all_found r1"
    and rest: "in_order_loop t p looks now labels timeout start_time (List.insert label found)
      (max_found_time r1) n1 k1 = Inr (r, n', k')"
    by (auto simp: result_simps split: if_splits)
  from Cons.IH [OF rest Cons.prems(2)] obtain tss where "seen_in_order t p looks (max_found_time r1) labels tss" ..
  with find_one_seen [OF f a] show ?case by (intro exI [of _ "max_found_time r1 # tss"]) simp
qed

text \<open>When the wait for labels in order returns True, every label was seen in an event, the
  first not older than the start and each other not older than the event of the label before.\<close>

theorem wait_in_order_sound:
  assumes "wait_for_event_labels t p looks now (Labels (map Some labels)) raise_error timeout start True = Inr True"
  shows "\<exists>tss. seen_in_order t p looks start labels tss"
proof -
  from assms obtain r n k where
    f: "in_order_loop t p looks now labels timeout (now 0) [] start 1 0 = Inr (r, n, k)" and "all_found r"
    by (auto simp: wait_for_event_labels_def find_event_labels_in_order_def result_simps split: if_splits
      dest!: verify_strings)
  then show ?thesis by (rule in_order_seen)
qed

theorem wait_in_order_sound_witness:
  "\<exists>tss. seen_in_order sample_tools sample_parser (\<lambda>_. fast_env) 0 [''basic.boot'', ''power.lost''] tss"
proof -
  have "wait_for_event_labels sample_tools sample_parser (\<lambda>_. fast_env) (\<lambda>n. int n)
      (Labels (map Some [''basic.boot'', ''power.lost''])) False 10 0 True = Inr True"
    by code_simp
  from wait_in_order_sound [OF this] show ?thesis .
qed

section \<open>A wait ends\<close>

text \<open>The model's own failure never comes out of a query whose clock advances.\<close>

definition in_fuel :: "'a result \<Rightarrow> bool" where
  "in_fuel r \<longleftrightarrow> r \<noteq> Inl OutOfFuel"

lemma in_fuel_simps [simp]: "in_fuel (Inr x)" "in_fuel (Inl e) \<longleftrightarrow> e \<noteq> OutOfFuel"
  by (simp_all add: in_fuel_def)

lemma in_fuel_bind: "in_fuel m \<Longrightarrow> (\<And>x. m = Inr x \<Longrightarrow> in_fuel (f x)) \<Longrightarrow> in_fuel (bindE m f)"
  by (cases m) auto

lemma in_fuel_parser_error: "in_fuel r \<Longrightarrow> in_fuel (as_parser_error r)"
  by (cases r) (auto simp: as_parser_error_def)

lemma in_fuel_mapE: "(\<And>x. x \<in> set xs \<Longrightarrow> in_fuel (f x)) \<Longrightarrow> in_fuel (mapE f xs)"
  by (induction xs) (auto intro!: in_fuel_bind)

lemma in_fuel_py_item: "in_fuel (py_item v k)"
  by (auto simp: py_item_def split: json.splits option.splits)

lemma in_fuel_get_datetime: "in_fuel (get_datetime t v)"
proof -
  have "in_fuel (first_datetime t v fs)" for fs
  proof (induction fs)
    case (Cons f fs)
    then show ?case
      by (cases v) (auto simp: get_datetime_from_format_def split: option.splits)
  qed simp
  then show ?thesis by (simp add: get_datetime_def)
qed

lemma in_fuel_event: "in_fuel (event_of_output t out labels st)"
proof (cases "loads out")
  case (Inr v)
  have "in_fuel (case v of
        JDict kvs \<Rightarrow> Inr (f kvs :: parsed_event option) | _ \<Rightarrow> Inl TypeError)" for f
    by (cases v) simp_all
  then show ?thesis
    unfolding event_of_output_def Inr
    by (auto intro!: in_fuel_bind in_fuel_py_item in_fuel_get_datetime split: option.split)
qed (simp add: event_of_output_def)

lemma in_fuel_events: "in_fuel (get_events_from_json_output t outs labels st)"
  unfolding get_events_from_json_output_def
  by (intro in_fuel_bind in_fuel_mapE in_fuel_event) simp

lemma in_fuel_when:
  assumes "clock_ok env" and "in_fuel found"
  shows "in_fuel (when_file_exists env timeout d found)"
proof -
  obtain b r where "wait_for_event_file env timeout = Some (b, r)"
    using wait_for_event_file_total [OF assms(1), of timeout] by auto
  then show ?thesis using assms(2) by (cases b) (auto simp: when_file_exists_def intro!: in_fuel_bind)
qed

lemma in_fuel_last_event_of:
  assumes "clock_ok env"
  shows "in_fuel (get_last_event_of t env label timeout)"
proof -
  obtain b r where w: "wait_for_event_file env timeout = Some (b, r)"
    using wait_for_event_file_total [OF assms, of timeout] by auto
  show ?thesis
    unfolding get_last_event_of_def
    by (auto simp: w Let_def intro!: in_fuel_when in_fuel_bind in_fuel_events assms split: option.split)
qed

lemma in_fuel_last_event:
  assumes "clock_ok env"
  shows "in_fuel (get_last_event t env p (Labels ls) timeout)"
proof -
  have "in_fuel (bindE (mapE (\<lambda>l. get_last_event_of t env l timeout) labels) (\<lambda>x. Inr (f x)))" for labels f
    using in_fuel_last_event_of [OF assms] by (intro in_fuel_bind in_fuel_mapE) simp_all
  then have "in_fuel (as_parser_error (bindE (mapE (\<lambda>l. get_last_event_of t env l timeout) labels)
      (\<lambda>x. Inr (f x))))" for labels f
    by (intro in_fuel_parser_error)
  moreover have "in_fuel (verify_event_labels p (Labels ls))"
    by (simp add: verify_event_labels_def)
  ultimately show ?thesis
    unfolding get_last_event_def Let_def by (auto intro!: in_fuel_bind)
qed

lemma in_fuel_pass:
  assumes "\<And>k. clock_ok (looks k)"
  shows "in_fuel (label_pass t p looks start tm labels acc k)"
proof (induction labels arbitrary: acc k)
  case (Cons l labels)
  obtain a f m x where acc: "acc = (a, f, m, x)" by (cases acc) auto
  show ?case unfolding acc label_pass.simps
    using in_fuel_last_event [OF assms] Cons.IH
    by (auto simp: Let_def intro!: in_fuel_bind split: list.split)
qed simp

lemma in_fuel_find_loop:
  assumes "\<And>k. clock_ok (looks k)" and now: "\<And>n. now n < now (Suc n)"
    and "start_time + timeout - now n < int fuel" and "0 < fuel"
  shows "in_fuel (find_loop fuel t p looks now labels start timeout start_time r n k)"
  using assms(3,4)
proof (induction fuel arbitrary: r n k)
  case (Suc fuel)
  have step: "in_fuel (find_loop fuel t p looks now labels start timeout start_time r' (Suc (Suc n)) k')"
    if "now n < start_time + timeout" for r' k'
    using Suc.prems that now [of n] now [of "Suc n"] by (intro Suc.IH) auto
  show ?case
    using step by (auto simp: Let_def intro!: in_fuel_bind in_fuel_pass assms(1) split: prod.split)
qed simp

lemma in_fuel_find_all:
  assumes "\<And>k. clock_ok (looks k)" and now: "\<And>n. now n < now (Suc n)"
  shows "in_fuel (find_all_event_labels t p looks now labels start timeout n k)"
  unfolding find_all_event_labels_def
  using now [of n] by (intro in_fuel_find_loop assms) auto

lemma in_fuel_in_order:
  assumes "\<And>k. clock_ok (looks k)" and now: "\<And>n. now n < now (Suc n)"
  shows "in_fuel (in_order_loop t p looks now labels timeout start_time found since n k)"
proof (induction labels arbitrary: found since n k)
  case (Cons l labels)
  then show ?case
    using in_fuel_find_all [of looks now] assms
    by (auto intro!: in_fuel_bind split: prod.split)
qed simp

text \<open>Waiting for labels, in any order or in the given one, always ends with a result or an
  exception of the program, whatever the files and the labels: the rounds of the wait for the
  file and the passes over the labels are bounded by the time-out, as long as the clock
  advances and the rounds of the wait for the file are 0.1 seconds apart.\<close>

theorem wait_ends:
  assumes "\<forall>k. clock_ok (looks k)" and "\<forall>n. now n < now (Suc n)"
  shows "wait_for_event_labels t p looks now event_labels raise_error timeout start in_order \<noteq> Inl OutOfFuel"
proof -
  have "in_fuel (verify_event_labels p event_labels)"
    by (cases event_labels) (simp_all add: verify_event_labels_def)
  moreover have "in_fuel (if in_order then find_event_labels_in_order t p looks now labels start timeout
      else find_all_event_labels t p looks now labels start timeout 0 0)" for labels
    using in_fuel_in_order [of looks now t p] in_fuel_find_all [of looks now t p] assms
    unfolding find_event_labels_in_order_def by (simp split: if_split)
  ultimately have "in_fuel (wait_for_event_labels t p looks now event_labels raise_error timeout start in_order)"
    unfolding wait_for_event_labels_def by (auto intro!: in_fuel_bind split: prod.split)
  then show ?thesis by (simp add: in_fuel_def)
qed

theorem wait_ends_witness:
  "wait_for_event_labels sample_tools sample_parser (\<lambda>_. sample_env sample_text) int
     (Labels [Some ''power.lost'', Some ''power.lost'']) True 1000000 0 False \<noteq> Inl OutOfFuel"
  by (rule wait_ends) (simp_all add: clock_ok_def sample_env_def)

end
