(* ===== verification/Log_Pipeline.thy ===== *)
theory Log_Pipeline
  imports Log_Rounds
begin

text \<open>
  The log writer and the log filter together: the writer appends lines to the current file and
  rotates, the filter reads the files at its own pace, in any interleaving. The invariant is that
  the event file holds the events of a prefix of the lines written; when the writer rests, the
  filter catches up.
\<close>

section \<open>The place of the filter when the files grow\<close>

lemma seen_lines_grow:
  assumes "\<forall>i<j. pss' ! i = pss ! i" and "pss' ! j = pss ! j @ ls" and "m \<le> length (pss ! j)"
  shows "seen_lines b e k0 pss' j m = seen_lines b e k0 pss j m"
proof -
  have e: "map (\<lambda>i. map (Pair (rotated b e (k0 + i))) (pss' ! i)) [0..<j] =
      map (\<lambda>i. map (Pair (rotated b e (k0 + i))) (pss ! i)) [0..<j]"
    using assms(1) by simp
  show ?thesis unfolding seen_lines_def e using assms(2,3) by simp
qed

lemma at_place_grow:
  assumes at: "at_place w pss st j m pos" and D: "D (wt_events w) = f_disk st (wt_events w)"
    and more: "event_text_of D (wt_log w j) = event_text_of (f_disk st) (wt_log w j) @ s"
    and pss: "length pss \<le> length pss'" "\<forall>i<j. pss' ! i = pss ! i" "pss' ! j = pss ! j @ ls"
  shows "at_place w pss' (st\<lparr>f_disk := D\<rparr>) j m pos"
proof -
  have m: "m \<le> length (pss ! j)" using at by (simp add: at_place_def)
  note seen = seen_lines_grow [OF pss(2,3) m, of "wt_base w" "wt_ext w" "wt_first w"]
  have e: "event_text_of D (wt_events w) = event_text_of (f_disk st) (wt_events w)"
    using D by (simp add: event_text_of_def)
  show ?thesis
    using at pss(1,3) D more seen e unfolding at_place_def
    by (intro conjI) (simp split: option.splits prod.splits | force)+
qed

section \<open>The two processes\<close>

text \<open>
  The log directory is shared: each process works on the disk the other one has left. The ghost
  \<open>written\<close> collects the lines with the names of the files they went to.
\<close>

record 'p log_system =
  ls_writer :: log_writer
  ls_filter :: "'p log_filter"
  ls_written :: "(string \<times> string) list"

abbreviation ls_disk :: "'p log_system \<Rightarrow> disk" where
  "ls_disk s \<equiv> f_disk (ls_filter s)"

definition log_line_ok :: "string \<Rightarrow> bool" where
  "log_line_ok l \<longleftrightarrow> l \<noteq> [] \<and> newline \<notin> set (butlast l) \<and> \<not> rotates (with_eol l)"

inductive log_step :: "'p watch \<Rightarrow> 'p log_system \<Rightarrow> 'p log_system \<Rightarrow> bool" for w where
  write_line: "log_line_ok l \<Longrightarrow> wt_first w + length (ls_written s) < 99998 \<Longrightarrow> \<forall>p. can_open p \<Longrightarrow>
    \<forall>i. newline \<notin> set (stamp i) \<Longrightarrow>
    writer_do_work stamp can_open None (Some l) ((ls_writer s)\<lparr>w_disk := ls_disk s\<rparr>) = (r, wr) \<Longrightarrow>
    log_step w s (s\<lparr>ls_writer := wr, ls_filter := (ls_filter s)\<lparr>f_disk := w_disk wr\<rparr>,
      ls_written := ls_written s @ [(w_filename (ls_writer s), with_eol l)]\<rparr>)"
| read_lines: "0 < n \<Longrightarrow> filter_do_work (wt_re w) fs stamp None n (ls_filter s) = (r, flt) \<Longrightarrow>
    log_step w s (s\<lparr>ls_filter := flt\<rparr>)"

definition log_start :: "'p watch \<Rightarrow> int \<Rightarrow> 'p log_system \<Rightarrow> bool" where
  "log_start w M s \<longleftrightarrow>
     writing (wt_dir w) (wt_base w) (wt_ext w) M (wt_first w) [] ((ls_writer s)\<lparr>w_disk := ls_disk s\<rparr>) \<and>
     f_filters (ls_filter s) = wt_filters w \<and> f_directory (ls_filter s) = wt_dir w \<and>
     f_filename (ls_filter s) = wt_name w 0 \<and> f_event_path (ls_filter s) = wt_events w \<and>
     f_next (ls_filter s) = [] \<and> f_buffer (ls_filter s) = [] \<and> f_log (ls_filter s) = None \<and>
     f_event (ls_filter s) = None \<and> event_text_of (ls_disk s) (wt_events w) = wt_old w \<and>
     (\<forall>i. wt_first w < i \<and> i < 100000 \<longrightarrow> ls_disk s (nth_log (wt_dir w) (wt_base w) (wt_ext w) i) = None) \<and>
     ls_written s = []"

definition log_inv :: "'p watch \<Rightarrow> int \<Rightarrow> 'p log_system \<Rightarrow> string list list \<Rightarrow> bool" where
  "log_inv w M s pss \<longleftrightarrow> wt_hold w pss (ls_disk s) \<and>
     (\<exists>j m pos. at_place w pss (ls_filter s) j m pos) \<and>
     writing (wt_dir w) (wt_base w) (wt_ext w) M (wt_first w + length pss - 1) (concat (last pss))
       ((ls_writer s)\<lparr>w_disk := ls_disk s\<rparr>) \<and>
     (\<forall>i. wt_first w + length pss \<le> i \<and> i < 100000 \<longrightarrow> ls_disk s (nth_log (wt_dir w) (wt_base w) (wt_ext w) i) = None) \<and>
     ls_written s = all_lines (wt_base w) (wt_ext w) (wt_first w) pss \<and>
     length pss \<le> Suc (length (all_lines (wt_base w) (wt_ext w) (wt_first w) pss))"

lemma log_inv_start:
  assumes "watch_ok w" and "log_start w M s" and "wt_first w < 100000"
  shows "log_inv w M s [[]]"
proof -
  have h: "wt_hold w [[]] (ls_disk s)"
    using assms by (simp add: logs_hold_def log_start_def writing_def)
      (metis list.set(1) empty_iff)
  moreover have "at_place w [[]] (ls_filter s) 0 0 0"
    using assms(2) by (simp add: at_place_def log_start_def contains_iff seen_lines_def writing_def)
  ultimately show ?thesis using assms(2) by (auto simp: log_inv_def log_start_def all_lines_def)
qed

lemma all_lines_snoc:
  "all_lines b e k0 (pss @ [ls]) = all_lines b e k0 pss @ map (Pair (rotated b e (k0 + length pss))) ls"
proof -
  have e: "map (\<lambda>i. map (Pair (rotated b e (k0 + i))) ((pss @ [ls]) ! i)) [0..<length pss] =
      map (\<lambda>i. map (Pair (rotated b e (k0 + i))) (pss ! i)) [0..<length pss]"
    by (simp add: nth_append)
  show ?thesis using arg_cong [OF e, of concat] by (simp add: all_lines_def)
qed

section \<open>A step of the writer\<close>

text \<open>The files that end with the message of a rotation.\<close>

definition closed_logs :: "string \<Rightarrow> string \<Rightarrow> string \<Rightarrow> nat \<Rightarrow> string list list \<Rightarrow> disk \<Rightarrow> bool" where
  "closed_logs d b e k0 pss D \<longleftrightarrow> list_all lined pss \<and> list_all (list_all (\<lambda>l. \<not> rotates l)) pss \<and>
     (\<forall>i<length pss. \<exists>ts. newline \<notin> set ts \<and>
        D (nth_log d b e (k0 + i)) = Some (concat (pss ! i) @ rotate_line ts b e (k0 + i)))"

lemma logs_hold_snoc:
  "logs_hold d b e k0 (init @ [ls]) D \<longleftrightarrow> k0 + Suc (length init) \<le> 100000 \<and> lined ls \<and>
     list_all (\<lambda>l. \<not> rotates l) ls \<and> closed_logs d b e k0 init D \<and>
     D (nth_log d b e (k0 + length init)) = Some (concat ls)"
proof -
  have "(\<exists>ts. newline \<notin> set ts \<and> x) \<longleftrightarrow> x" for x :: bool using empty_iff list.set(1) by metis
  then show ?thesis
    by (auto simp: logs_hold_def closed_logs_def nth_append All_less_Suc)
qed

lemma closed_logs_snoc:
  "closed_logs d b e k0 (init @ [ls]) D \<longleftrightarrow> closed_logs d b e k0 init D \<and> lined ls \<and>
     list_all (\<lambda>l. \<not> rotates l) ls \<and> (\<exists>ts. newline \<notin> set ts \<and>
       D (nth_log d b e (k0 + length init)) = Some (concat ls @ rotate_line ts b e (k0 + length init)))"
  by (auto simp: closed_logs_def nth_append All_less_Suc)

lemma closed_logs_cong:
  assumes "closed_logs d b e k0 pss D" and "\<And>i. i < length pss \<Longrightarrow> D' (nth_log d b e (k0 + i)) = D (nth_log d b e (k0 + i))"
  shows "closed_logs d b e k0 pss D'"
  using assms by (simp add: closed_logs_def)


lemma writing_disk [simp]:
  "writing d b e M k cur (wr\<lparr>w_disk := w_disk wr\<rparr>) = writing d b e M k cur wr"
  by (simp add: writing_def)

lemma lined_with_eol: "l \<noteq> [] \<Longrightarrow> newline \<notin> set (butlast l) \<Longrightarrow> lined [with_eol l]"
  by (cases l rule: rev_cases) (auto simp: with_eol_def butlast_append)

lemma log_inv_write:
  assumes ok: "watch_ok w" "0 < M" and inv: "log_inv w M s pss" and l: "log_line_ok l"
    and lt: "wt_first w + length (ls_written s) < 99998" and o: "\<forall>p. can_open p" "\<forall>i. newline \<notin> set (stamp i)"
    and run: "writer_do_work stamp can_open None (Some l) ((ls_writer s)\<lparr>w_disk := ls_disk s\<rparr>) = (r, wr)"
  shows "\<exists>pss'. log_inv w M (s\<lparr>ls_writer := wr, ls_filter := (ls_filter s)\<lparr>f_disk := w_disk wr\<rparr>,
      ls_written := ls_written s @ [(w_filename (ls_writer s), with_eol l)]\<rparr>) pss' \<and> r = Inr True"
proof -
  let ?d = "wt_dir w" and ?b = "wt_base w" and ?e = "wt_ext w" and ?k0 = "wt_first w" and ?E = "wt_events w"
  have names: "log_names ?d ?b ?e" using ok by (simp add: watch_ok_def)
  have "pss \<noteq> []" using inv by (simp add: log_inv_def logs_hold_def)
  then obtain init ls where pss: "pss = init @ [ls]" by (metis append_butlast_last_id)
  define k where "k = ?k0 + length init"
  define st where "st = (ls_writer s)\<lparr>w_disk := ls_disk s\<rparr>"
  have D: "w_disk st = ls_disk s" by (simp add: st_def)
  have inv': "logs_hold ?d ?b ?e ?k0 (init @ [ls]) (ls_disk s)" "writing ?d ?b ?e M k (concat ls) st"
    "\<forall>i. k < i \<and> i < 100000 \<longrightarrow> ls_disk s (nth_log ?d ?b ?e i) = None"
    "ls_written s = all_lines ?b ?e ?k0 (init @ [ls])"
    using inv by (simp_all add: log_inv_def pss k_def st_def)
  have "length pss \<le> Suc (length (ls_written s))" using inv by (simp add: log_inv_def)
  then have len: "length init \<le> length (ls_written s)" by (simp add: pss)
  obtain j m pos where at: "at_place w pss (ls_filter s) j m pos" using inv by (auto simp: log_inv_def)
  have k: "Suc k < 100000" using lt len by (simp add: k_def)
  have absent: "w_disk st (nth_log ?d ?b ?e (Suc k)) = None" using inv'(3) k by (simp add: D)
  have nl: "l \<noteq> []" using l by (simp add: log_line_ok_def)
  from one_line [OF names ok(2) k inv'(2) nl o(1) absent, of stamp] run [folded st_def]
  have r: "r = Inr True"
    and st1: "if M \<le> utf8_size (concat ls @ with_eol l) then writing ?d ?b ?e M (Suc k) [] wr \<and>
        w_disk wr = (ls_disk s)(nth_log ?d ?b ?e k \<mapsto> (concat ls @ with_eol l) @ rotate_line (stamp (w_stamps st)) ?b ?e k,
          nth_log ?d ?b ?e (Suc k) \<mapsto> [])
      else writing ?d ?b ?e M k (concat ls @ with_eol l) wr \<and>
        w_disk wr = (ls_disk s)(nth_log ?d ?b ?e k \<mapsto> concat ls @ with_eol l)"
    by (simp_all add: D)
  let ?l = "with_eol l"
  have line: "lined [?l]" "\<not> rotates ?l"
    using l lined_with_eol by (simp_all add: log_line_ok_def)
  have inj: "nth_log ?d ?b ?e i \<noteq> nth_log ?d ?b ?e i'" if "i \<noteq> i'" "i < 100000" "i' < 100000" for i i'
    using nth_log_inj [OF names that(2,3)] that(1) by blast
  have other: "?E \<noteq> nth_log ?d ?b ?e i" if "i < 100000" for i using ok that by (simp add: watch_ok_def)
  have name: "w_filename (ls_writer s) = rotated ?b ?e k" using inv'(2) by (simp add: writing_def st_def)
  have same: "w_disk wr p = ls_disk s p" if "p \<noteq> nth_log ?d ?b ?e k" "p \<noteq> nth_log ?d ?b ?e (Suc k)" for p
    using st1 that by (auto split: if_splits)
  have same_i: "w_disk wr (nth_log ?d ?b ?e i) = ls_disk s (nth_log ?d ?b ?e i)" if "i < k \<or> Suc k < i \<and> i < 100000" for i
    using that k inj [of i k] inj [of i "Suc k"] by (intro same) auto
  have same_E: "w_disk wr ?E = ls_disk s ?E" using k other by (intro same) simp_all
  have hold: "?k0 + Suc (length init) \<le> 100000" "lined ls" "list_all (\<lambda>l. \<not> rotates l) ls"
    "closed_logs ?d ?b ?e ?k0 init (ls_disk s)" "ls_disk s (nth_log ?d ?b ?e k) = Some (concat ls)"
    using inv'(1) by (simp_all add: logs_hold_snoc k_def)
  have closed: "closed_logs ?d ?b ?e ?k0 init (w_disk wr)"
    by (rule closed_logs_cong [OF hold(4)]) (simp add: same_i k_def)
  have written: "ls_written s @ [(w_filename (ls_writer s), ?l)] = all_lines ?b ?e ?k0 (init @ [ls @ [?l]])"
    by (simp add: inv'(4) all_lines_snoc name k_def)
  have len': "length init < length (all_lines ?b ?e ?k0 (init @ [ls @ [?l]]))"
    unfolding written [symmetric] using len by simp
  have grown: "\<exists>j m pos. at_place w pss' ((ls_filter s)\<lparr>f_disk := w_disk wr\<rparr>) j m pos"
    if pss': "pss' = (init @ [ls @ [?l]]) @ more" and t: "w_disk wr (nth_log ?d ?b ?e k) = Some (concat ls @ u)" for pss' more u
  proof -
    have j: "j \<le> length init" using at by (simp add: at_place_def pss)
    have p: "length pss \<le> length pss'" "\<forall>i<j. pss' ! i = pss ! i" using j by (simp_all add: pss pss' nth_append)
    show ?thesis
    proof (cases "j = length init")
      case True
      then have "event_text_of (w_disk wr) (wt_log w j) = event_text_of (ls_disk s) (wt_log w j) @ u"
        using t hold(5) by (simp add: event_text_of_def k_def)
      moreover have "pss' ! j = pss ! j @ [?l]" using True by (simp add: pss pss' nth_append)
      ultimately show ?thesis using at_place_grow [where D = "w_disk wr", OF at same_E _ p] by blast
    next
      case False
      then have "event_text_of (w_disk wr) (wt_log w j) = event_text_of (ls_disk s) (wt_log w j) @ []"
        using j same_i [of "?k0 + j"] by (simp add: event_text_of_def k_def)
      moreover have "pss' ! j = pss ! j @ []" using False j by (simp add: pss pss' nth_append)
      ultimately show ?thesis using at_place_grow [where D = "w_disk wr", OF at same_E _ p] by blast
    qed
  qed
  show ?thesis
  proof (cases "M \<le> utf8_size (concat ls @ ?l)")
    case False
    with st1 have w: "writing ?d ?b ?e M k (concat ls @ ?l) wr"
      and dk: "w_disk wr = (ls_disk s)(nth_log ?d ?b ?e k \<mapsto> concat ls @ ?l)" by simp_all
    have "logs_hold ?d ?b ?e ?k0 (init @ [ls @ [?l]]) (w_disk wr)"
      using hold(1-3) line closed dk by (simp add: logs_hold_snoc k_def)
    moreover have "\<exists>j m pos. at_place w (init @ [ls @ [?l]]) ((ls_filter s)\<lparr>f_disk := w_disk wr\<rparr>) j m pos"
      by (rule grown [where more = "[]" and u = ?l]) (simp_all add: dk)
    moreover have "w_disk wr (nth_log ?d ?b ?e i) = None" if "?k0 + Suc (length init) \<le> i \<and> i < 100000" for i
      using that inv'(3) inj [of i k] by (simp add: dk k_def)
    ultimately show ?thesis
      using w written len' r by (intro exI [of _ "init @ [ls @ [?l]]"]) (simp add: log_inv_def k_def)
  next
    case True
    let ?pss = "(init @ [ls @ [?l]]) @ [[]]"
    from True st1 have w: "writing ?d ?b ?e M (Suc k) [] wr"
      and dk: "w_disk wr = (ls_disk s)(nth_log ?d ?b ?e k \<mapsto> (concat ls @ ?l) @ rotate_line (stamp (w_stamps st)) ?b ?e k,
          nth_log ?d ?b ?e (Suc k) \<mapsto> [])" by simp_all
    have kk: "nth_log ?d ?b ?e k \<noteq> nth_log ?d ?b ?e (Suc k)" using inj k by simp
    have "closed_logs ?d ?b ?e ?k0 (init @ [ls @ [?l]]) (w_disk wr)"
      unfolding closed_logs_snoc using closed hold(2,3) line o(2) kk
      by (auto simp: dk k_def)
    then have "logs_hold ?d ?b ?e ?k0 ?pss (w_disk wr)"
      unfolding logs_hold_snoc using k by (simp add: k_def dk)
    moreover have "\<exists>j m pos. at_place w ?pss ((ls_filter s)\<lparr>f_disk := w_disk wr\<rparr>) j m pos"
      by (rule grown [OF refl, where u = "?l @ rotate_line (stamp (w_stamps st)) ?b ?e k"]) (use kk in \<open>simp add: dk\<close>)
    moreover have "w_disk wr (nth_log ?d ?b ?e i) = None" if "?k0 + Suc (Suc (length init)) \<le> i \<and> i < 100000" for i
      using that inv'(3) same_i [of i] by (simp add: k_def)
    moreover have "all_lines ?b ?e ?k0 ?pss = all_lines ?b ?e ?k0 (init @ [ls @ [?l]])"
      by (subst all_lines_snoc) simp
    ultimately show ?thesis
      using w written len' r by (intro exI [of _ ?pss]) (simp add: log_inv_def k_def)
  qed
qed


section \<open>A step of the filter, and what is reached\<close>

lemma writing_other:
  assumes "log_names d b e" and "\<And>p. p \<noteq> E \<Longrightarrow> D' p = D p" and "nth_log d b e k \<noteq> E"
  shows "writing d b e M k cur (wr\<lparr>w_disk := D'\<rparr>) = writing d b e M k cur (wr\<lparr>w_disk := D\<rparr>)"
  using assms by (simp add: writing_def)

lemma log_inv_read:
  assumes ok: "watch_ok w" and inv: "log_inv w M s pss" and n: "0 < n"
    and run: "filter_do_work (wt_re w) fs stamp None n (ls_filter s) = (r, flt)"
  shows "r = Inr True \<and> log_inv w M (s\<lparr>ls_filter := flt\<rparr>) pss"
proof -
  let ?E = "wt_events w"
  obtain j m pos where hold: "wt_hold w pss (ls_disk s)" and at: "at_place w pss (ls_filter s) j m pos"
    using inv by (auto simp: log_inv_def)
  have r: "r = Inr True" and flt: "wt_hold w pss (f_disk flt)" "\<And>p. p \<noteq> ?E \<Longrightarrow> f_disk flt p = ls_disk s p"
      "\<exists>j m pos. at_place w pss flt j m pos"
    using filter_round [OF ok hold at n, of fs stamp] unfolding run filter_steps_def no_step_def by blast+
  have other: "?E \<noteq> nth_log (wt_dir w) (wt_base w) (wt_ext w) i" if "i < 100000" for i
    using ok that by (simp add: watch_ok_def)
  have k: "wt_first w + length pss - 1 < 100000" using hold by (simp add: logs_hold_def) linarith
  have names: "log_names (wt_dir w) (wt_base w) (wt_ext w)" using ok by (simp add: watch_ok_def)
  have "writing (wt_dir w) (wt_base w) (wt_ext w) M (wt_first w + length pss - 1) (concat (last pss))
      ((ls_writer s)\<lparr>w_disk := f_disk flt\<rparr>) =
    writing (wt_dir w) (wt_base w) (wt_ext w) M (wt_first w + length pss - 1) (concat (last pss))
      ((ls_writer s)\<lparr>w_disk := ls_disk s\<rparr>)"
    by (rule writing_other [OF names flt(2)]) (use other [OF k] in auto)
  moreover have "f_disk flt (nth_log (wt_dir w) (wt_base w) (wt_ext w) i) =
      ls_disk s (nth_log (wt_dir w) (wt_base w) (wt_ext w) i)" if "i < 100000" for i
    using flt(2) other [OF that] by metis
  ultimately show ?thesis using inv flt r by (simp add: log_inv_def)
qed

lemma log_inv_step:
  assumes "watch_ok w" "0 < M" "log_step w s s'" "log_inv w M s pss"
  shows "\<exists>pss'. log_inv w M s' pss'"
  using assms(3)
proof (cases rule: log_step.cases)
  case (write_line l can_open stamp r wr)
  with log_inv_write [OF assms(1,2,4) write_line(2-6)] show ?thesis by blast
next
  case (read_lines n fs stamp r flt)
  with log_inv_read [OF assms(1,4) read_lines(2,3)] show ?thesis by blast
qed

lemma log_inv_reached:
  assumes "watch_ok w" "0 < M" "wt_first w < 100000" "log_start w M s0" "(log_step w)\<^sup>*\<^sup>* s0 s"
  shows "\<exists>pss. log_inv w M s pss"
  using assms(5)
proof (induction rule: rtranclp_induct)
  case base
  then show ?case using log_inv_start [OF assms(1,4,3)] by blast
next
  case (step s s')
  then show ?case using log_inv_step [OF assms(1,2)] by blast
qed

lemma seen_lines_part:
  assumes "j < length pss"
  shows "\<exists>rest. all_lines b e k0 pss = seen_lines b e k0 pss j m @ rest"
proof -
  let ?f = "\<lambda>i. map (Pair (rotated b e (k0 + i))) (pss ! i)"
  have "[0..<length pss] = [0..<j] @ j # [Suc j..<length pss]"
    using assms upt_add_eq_append [of 0 j "length pss - j"] by (simp add: upt_conv_Cons)
  then have "all_lines b e k0 pss = concat (map ?f [0..<j]) @ ?f j @ concat (map ?f [Suc j..<length pss])"
    by (simp add: all_lines_def)
  also have "?f j = map (Pair (rotated b e (k0 + j))) (take m (pss ! j)) @ map (Pair (rotated b e (k0 + j))) (drop m (pss ! j))"
    by (metis append_take_drop_id map_append)
  finally show ?thesis by (simp add: seen_lines_def)
qed

lemma seen_all:
  assumes "Suc j = length pss"
  shows "seen_lines b e k0 pss j (length (pss ! j)) = all_lines b e k0 pss"
proof -
  have "[0..<length pss] = [0..<j] @ [j]" unfolding assms [symmetric] by simp
  then show ?thesis by (simp add: seen_lines_def all_lines_def)
qed

section \<open>The filter catches up\<close>

text \<open>Rounds of the filter, with the number of characters each may read.\<close>

fun filter_rounds ::
  "'p regexes \<Rightarrow> file_system \<Rightarrow> (nat \<Rightarrow> string) \<Rightarrow> nat list \<Rightarrow> ('p log_filter, unit) stateful" where
  "filter_rounds re fs stamp [] = returnS ()"
| "filter_rounds re fs stamp (n # ns) =
     bindS (filter_do_work re fs stamp None n) (\<lambda>_. filter_rounds re fs stamp ns)"

lemma at_end:
  assumes ok: "watch_ok w" and hold: "wt_hold w pss (f_disk st)" and at: "at_place w pss st j m pos"
    and e: "length (event_text_of (f_disk st) (wt_log w j)) \<le> pos"
  shows "Suc j = length pss \<and> m = length (pss ! j)"
proof -
  let ?ps = "pss ! j" and ?buf = "f_buffer st"
  have j: "j < length pss" and m: "m \<le> length ?ps" and buf: "newline \<notin> set ?buf"
    using at by (simp_all add: at_place_def)
  obtain R where R: "f_disk st (wt_log w j) = Some (concat (?ps @ R))" "lined (?ps @ R)"
    "if Suc j < length pss then \<exists>r. R = [r] \<and> rotates r else R = []"
    using wt_hold_text [OF ok hold j] by blast
  have "concat (?ps @ R) = concat (take m ?ps) @ ?buf"
    using at e R(1) by (simp add: at_place_def event_text_of_def)
  moreover have "lined (take m ?ps)" using R(2) lined_take_drop by auto
  ultimately have split: "?ps @ R = take m ?ps @ (if ?buf = [] then [] else [?buf])"
    using text_lines_lined [OF R(2), of "[]"] text_lines_lined [OF _ buf] by simp
  have "?buf = []"
  proof (rule ccontr)
    assume b: "?buf \<noteq> []"
    with split R(2) have "lined [?buf]" by (simp only: if_False lined_simps(2))
    then have "last ?buf = newline" by simp
    with buf last_in_set [OF b] show False by simp
  qed
  with split have "?ps @ R = take m ?ps" by simp
  from arg_cong [OF this, of length] have "length ?ps + length R = m" using m by simp
  with m have "R = []" "m = length ?ps" by auto
  with R(3) j show ?thesis by (auto split: if_splits)
qed


text \<open>The characters that are still to be read.\<close>

definition unread :: "'p watch \<Rightarrow> string list list \<Rightarrow> disk \<Rightarrow> nat \<Rightarrow> nat \<Rightarrow> nat" where
  "unread w pss D j pos = (\<Sum>i = j..<length pss. length (event_text_of D (wt_log w i))) - pos"

lemma unread_steps:
  assumes ok: "watch_ok w" and hold: "wt_hold w pss (f_disk st)" and at: "at_place w pss st j m pos"
    and step: "filter_steps w pss st j pos st'" and at': "at_place w pss st' j' m' pos'"
    and way: "j' = j \<and> pos < pos' \<or> j' = Suc j \<and> pos' = 0 \<and> pos < length (event_text_of (f_disk st) (wt_log w j))"
  shows "unread w pss (f_disk st') j' pos' < unread w pss (f_disk st) j pos"
proof -
  have j: "j < length pss" using at by (simp add: at_place_def)
  have same: "event_text_of (f_disk st') (wt_log w i) = event_text_of (f_disk st) (wt_log w i)" if "i < length pss" for i
    using step event_file_other [OF ok hold that] unfolding filter_steps_def event_text_of_def by metis
  have sums: "(\<Sum>i = k..<length pss. length (event_text_of (f_disk st') (wt_log w i))) =
      (\<Sum>i = k..<length pss. length (event_text_of (f_disk st) (wt_log w i)))" for k
    using same by simp
  have first: "(\<Sum>i = j..<length pss. length (event_text_of (f_disk st) (wt_log w i))) =
      length (event_text_of (f_disk st) (wt_log w j)) + (\<Sum>i = Suc j..<length pss. length (event_text_of (f_disk st) (wt_log w i)))"
    using j by (rule sum.atLeast_Suc_lessThan)
  have "pos' \<le> length (event_text_of (f_disk st) (wt_log w j'))"
    using at' same [of j'] unfolding at_place_def by metis
  with way show ?thesis unfolding unread_def sums by (auto simp: first)
qed


lemma filter_rounds_end:
  assumes ok: "watch_ok w" and hold: "wt_hold w pss (f_disk st)" and at: "at_place w pss st j m pos"
    and ns: "list_all (\<lambda>n. 0 < n) ns" "unread w pss (f_disk st) j pos \<le> length ns"
  shows "\<exists>st' pos. filter_rounds (wt_re w) fs stamp ns st = (Inr (), st') \<and>
    at_place w pss st' (length pss - 1) (length (last pss)) pos"
  using hold at ns
proof (induction ns arbitrary: st j m pos)
  case Nil
  have j: "j < length pss" using Nil.prems(2) by (simp add: at_place_def)
  then have "(\<Sum>i = j..<length pss. length (event_text_of (f_disk st) (wt_log w i))) =
      length (event_text_of (f_disk st) (wt_log w j)) + (\<Sum>i = Suc j..<length pss. length (event_text_of (f_disk st) (wt_log w i)))"
    by (rule sum.atLeast_Suc_lessThan)
  with Nil.prems(4) have "length (event_text_of (f_disk st) (wt_log w j)) \<le> pos" by (simp add: unread_def)
  from at_end [OF ok Nil.prems(1,2) this] have e: "Suc j = length pss" "m = length (pss ! j)" by simp_all
  moreover have "last pss = pss ! j" using e(1) by (cases pss rule: rev_cases) auto
  ultimately have "j = length pss - 1" "m = length (last pss)" by simp_all
  with Nil.prems(2) show ?case by (auto simp: returnS_def)
next
  case (Cons n ns)
  have n: "0 < n" using Cons.prems(3) by simp
  obtain st' where run: "filter_do_work (wt_re w) fs stamp None n st = (Inr True, st')"
    and way: "filter_steps w pss st j pos st' \<or> no_step w pss st j m pos st'"
    using filter_round [OF ok Cons.prems(1,2) n] by blast
  have unfold: "filter_rounds (wt_re w) fs stamp (n # ns) st = filter_rounds (wt_re w) fs stamp ns st'"
    using run by simp
  show ?case
  proof (cases "filter_steps w pss st j pos st'")
    case True
    then obtain j' m' pos' where at': "at_place w pss st' j' m' pos'"
      and w: "j' = j \<and> pos < pos' \<or> j' = Suc j \<and> pos' = 0 \<and> pos < length (event_text_of (f_disk st) (wt_log w j))"
      and hold': "wt_hold w pss (f_disk st')"
      unfolding filter_steps_def by blast
    from unread_steps [OF ok Cons.prems(1,2) True at' w] Cons.prems(4)
    have "unread w pss (f_disk st') j' pos' \<le> length ns" by simp
    with Cons.IH [OF hold' at'] Cons.prems(3) show ?thesis unfolding unfold by simp
  next
    case False
    with way have n: "wt_hold w pss (f_disk st')" "at_place w pss st' j m pos"
        "length (event_text_of (f_disk st) (wt_log w j)) \<le> pos"
        "\<And>p. p \<noteq> wt_events w \<Longrightarrow> f_disk st' p = f_disk st p"
      unfolding no_step_def by blast+
    from at_end [OF ok Cons.prems(1,2) n(3)] have e: "Suc j = length pss" by simp
    have "f_disk st' (wt_log w j) = f_disk st (wt_log w j)"
      using n(4) event_file_other [OF ok Cons.prems(1), of j] e by auto
    then have "unread w pss (f_disk st') j pos = 0"
      using n(3) by (simp add: unread_def event_text_of_def flip: e)
    with Cons.IH [OF n(1,2)] Cons.prems(3) show ?thesis unfolding unfold by simp
  qed
qed

section \<open>The pipeline\<close>



text \<open>A small pipeline: one filter, a log with the size ten, and the line \<open>up\<close>.\<close>

definition sample_watch :: "string watch" where
  "sample_watch = \<lparr>wt_re = \<lparr>re_compile = Some,
       search = (\<lambda>p line. if contains p line \<and> \<not> rotates line then Some [Some p] else None), py_str = (\<lambda>_. [])\<rparr>,
     wt_filters = [(''basic.boot'', ''up'')], wt_dir = ''/tmp'', wt_base = ''echo'', wt_ext = ''txt'',
     wt_first = 0, wt_events = ''/tmp/echo-events.txt'', wt_old = []\<rparr>"

definition sample_start :: "string log_system" where
  "sample_start = \<lparr>ls_writer = sample_writer,
     ls_filter = new_log_filter [''/tmp/echo.txt'' \<mapsto> []] ''/tmp/echo.txt'' (wt_filters sample_watch), ls_written = []\<rparr>"

definition sample_written :: "string log_system" where
  "sample_written =
     (let wr = snd (writer_do_work (\<lambda>_. ''<t>'') (\<lambda>_. True) None (Some (''powered up'' @ [newline]))
                ((ls_writer sample_start)\<lparr>w_disk := ls_disk sample_start\<rparr>))
      in sample_start\<lparr>ls_writer := wr, ls_filter := (ls_filter sample_start)\<lparr>f_disk := w_disk wr\<rparr>,
           ls_written := ls_written sample_start @ [(w_filename (ls_writer sample_start), with_eol (''powered up'' @ [newline]))]\<rparr>)"

definition sample_read :: "string log_system" where
  "sample_read = sample_written\<lparr>ls_filter := snd (filter_do_work (wt_re sample_watch) sample_files (\<lambda>_. ''now'') None 12
     (ls_filter sample_written))\<rparr>"

lemma sample_watch_ok: "watch_ok sample_watch"
proof -
  have "log_names ''/tmp'' ''echo'' ''txt''" by code_simp
  moreover have "''/tmp/echo-events.txt'' \<noteq> nth_log ''/tmp'' ''echo'' ''txt'' i" for i
    by (simp add: nth_log_def rotated_def path_join_def starts_with_def)
  moreover have "process_line (wt_re sample_watch) (wt_filters sample_watch) now l h name = []" if "rotates l" for now l h name
    using that by (simp add: process_line_def generate_event_data_from_raw_log_line_def matches_def sample_watch_def
        List.map_filter_def)
  ultimately show ?thesis by (simp add: watch_ok_def sample_watch_def)
qed

lemma sample_runs:
  "log_start sample_watch 10 sample_start"
  "(log_step sample_watch)\<^sup>*\<^sup>* sample_start sample_written" "(log_step sample_watch)\<^sup>*\<^sup>* sample_start sample_read"
proof -
  have names: "log_names ''/tmp'' ''echo'' ''txt''" by code_simp
  have zero: "nth_log ''/tmp'' ''echo'' ''txt'' 0 = ''/tmp/echo.txt''" by code_simp
  have "ls_disk sample_start (nth_log ''/tmp'' ''echo'' ''txt'' i) = None" if "0 < i \<and> i < 100000" for i
    using nth_log_inj [OF names, of 0 i] that zero by (auto simp: sample_start_def new_log_filter_def)
  moreover have "writing ''/tmp'' ''echo'' ''txt'' 10 0 [] ((ls_writer sample_start)\<lparr>w_disk := ls_disk sample_start\<rparr>)"
    by code_simp
  moreover have "event_text_of (ls_disk sample_start) ''/tmp/echo-events.txt'' = []" by code_simp
  moreover have "dirname ''/tmp/echo.txt'' = ''/tmp''" "basename ''/tmp/echo.txt'' = rotated ''echo'' ''txt'' 0"
    "get_event_filename ''/tmp/echo.txt'' = ''/tmp/echo-events.txt''" by code_simp+
  ultimately show "log_start sample_watch 10 sample_start"
    by (simp add: log_start_def sample_watch_def sample_start_def new_log_filter_def)
  have ok: "log_line_ok (''powered up'' @ [newline])" by code_simp
  have "log_step sample_watch sample_start sample_written"
    unfolding sample_written_def Let_def
    by (rule log_step.write_line [OF ok _ _ _ prod.collapse [symmetric]])
      (simp_all add: sample_watch_def sample_start_def)
  then show w: "(log_step sample_watch)\<^sup>*\<^sup>* sample_start sample_written" by (rule r_into_rtranclp)
  have "log_step sample_watch sample_written sample_read"
    unfolding sample_read_def by (rule log_step.read_lines [OF _ prod.collapse [symmetric]]) simp
  with w show "(log_step sample_watch)\<^sup>*\<^sup>* sample_start sample_read" by (rule rtranclp.rtrancl_into_rtrancl)
qed



section \<open>A line that only looks like a rotation\<close>

lemma no_file_no_work:
  assumes "f_disk st (path_join (f_directory st) (f_filename st)) = None"
  shows "filter_rounds re fs stamp ns st = (Inr (), st)"
  using assms
proof (induction ns)
  case Nil
  then show ?case by (simp add: returnS_def)
next
  case (Cons n ns)
  then have "filter_do_work re fs stamp None n st = (Inr True, st)"
    by (simp add: filter_do_work_def returnS_def bindS_def)
  with Cons show ?case by simp
qed

text \<open>A line of the device that contains the text of the rotation message ends the work of the filter: it
  turns to the next file, and as long as the writer has not made that file, nothing that is
  appended to the log is looked at again, so that no later event is found.\<close>

theorem lookalike_line_stops_filter:
  assumes r: "ready_to_read P E (qs @ [l]) st pos c" "P = path_join (f_directory st) (f_filename st)" "pos < length c"
    and l: "list_all (\<lambda>q. \<not> rotates q) qs" "rotates l"
      "\<And>now. process_line re (f_filters st) now l HEADER_LENGTH (f_filename st) = []"
    and n: "length c \<le> pos + n"
  defines "nxt \<equiv> get_next_log_filename P"
  shows "\<exists>st'. filter_do_work re fs stamp None n st = (Inr True, st') \<and>
    (\<forall>D ns. D (path_join (dirname nxt) (basename nxt)) = None \<longrightarrow>
       filter_rounds re fs stamp ns (st'\<lparr>f_disk := D\<rparr>) = (Inr (), st'\<lparr>f_disk := D\<rparr>))"
proof -
  have d: "take n (drop pos c) = drop pos c" "drop pos c \<noteq> []" using n r(3) by simp_all
  have x: "f_buffer st @ drop pos c = concat qs @ l" "l \<noteq> []" "newline \<notin> set (butlast l)"
    using r(1) by (simp_all add: ready_to_read_def)
  from read_rotation [OF r(1) d x(1,2) l(2) x(3) l(1,3), of stamp]
  obtain ev k where "filter_log_lines re stamp n st = (Inr (), turned st E ev k)" by blast
  moreover have "is_open st" "f_disk st (path_join (f_directory st) (f_filename st)) \<noteq> None"
    using r(1,2) by (simp_all add: ready_to_read_def is_open_def)
  ultimately have "filter_do_work re fs stamp None n st = (Inr True, turned st E ev k)"
    by (simp add: filter_do_work_def returnS_def bindS_def)
  moreover have "filter_rounds re fs stamp ns ((turned st E ev k)\<lparr>f_disk := D\<rparr>) = (Inr (), (turned st E ev k)\<lparr>f_disk := D\<rparr>)"
    if "D (path_join (dirname nxt) (basename nxt)) = None" for D ns
    by (rule no_file_no_work) (use that in \<open>simp add: turned_def nxt_def r(2) Let_def\<close>)
  ultimately show ?thesis by blast
qed

definition misled_filter :: "string log_filter" where
  "misled_filter = (new_log_filter [''/tmp/echo.txt'' \<mapsto> ''Rotating from log file'' @ [newline], ''/tmp/echo-events.txt'' \<mapsto> []]
     ''/tmp/echo.txt'' (wt_filters sample_watch))\<lparr>f_log := Some (''/tmp/echo.txt'', 0), f_event := Some ''/tmp/echo-events.txt''\<rparr>"

theorem lookalike_line_stops_filter_witness:
  "\<exists>st'. filter_do_work (wt_re sample_watch) sample_files (\<lambda>_. ''now'') None 99 misled_filter = (Inr True, st') \<and>
     filter_rounds (wt_re sample_watch) sample_files (\<lambda>_. ''now'') [99, 99]
       (st'\<lparr>f_disk := [''/tmp/echo.txt'' \<mapsto> ''Rotating from log file'' @ [newline] @ ''up'' @ [newline]]\<rparr>) =
     (Inr (), st'\<lparr>f_disk := [''/tmp/echo.txt'' \<mapsto> ''Rotating from log file'' @ [newline] @ ''up'' @ [newline]]\<rparr>)"
proof -
  let ?l = "''Rotating from log file'' @ [newline]"
  have fields: "f_log misled_filter = Some (''/tmp/echo.txt'', 0)" "f_event misled_filter = Some ''/tmp/echo-events.txt''"
    "f_next misled_filter = []" "f_buffer misled_filter = []"
    "f_disk misled_filter = [''/tmp/echo.txt'' \<mapsto> ?l, ''/tmp/echo-events.txt'' \<mapsto> []]"
    by (simp_all add: misled_filter_def new_log_filter_def)
  have r: "ready_to_read ''/tmp/echo.txt'' ''/tmp/echo-events.txt'' ([] @ [?l]) misled_filter 0 ?l"
    by (simp add: ready_to_read_def fields contains_iff)
  have p: "''/tmp/echo.txt'' = path_join (f_directory misled_filter) (f_filename misled_filter)" by code_simp
  have rot: "rotates ?l" by code_simp
  have silent: "process_line (wt_re sample_watch) (f_filters misled_filter) now ?l h name = []" for now h name
    using rot by (simp add: process_line_def generate_event_data_from_raw_log_line_def matches_def sample_watch_def
        List.map_filter_def misled_filter_def new_log_filter_def)
  have absent: "[''/tmp/echo.txt'' \<mapsto> ''Rotating from log file'' @ [newline] @ ''up'' @ [newline]]
      (path_join (dirname (get_next_log_filename ''/tmp/echo.txt'')) (basename (get_next_log_filename ''/tmp/echo.txt''))) = None"
    by code_simp
  have "(0::nat) < length ?l" "list_all (\<lambda>q. \<not> rotates q) []" "length ?l \<le> 0 + 99" by simp_all
  from lookalike_line_stops_filter [OF r p this(1,2) rot silent this(3), of sample_files "\<lambda>_. ''now''"] absent
  show ?thesis by blast
qed

end
