(* ===== verification/Log_Parser.thy ===== *)
theory Log_Parser
  imports Log_Follow Event_Parser
begin

text \<open>
  \<open>gazoo_device/log_parser.py\<close>: the log parser, which writes the event file of a finished log and
  queries it. The state is the parser with its event file path, and the disk. What the calls
  of \<open>log_file.read\<close> return, in turn, is an argument (the empty string ends the loop), and so is
  \<open>due i\<close>, which tells whether the progress message is due at the i-th call.
\<close>

definition header_length_of :: "string \<Rightarrow> nat" where
  "header_length_of log_line = (if contains ''> GDM-'' log_line then HEADER_LENGTH else 29)"

text \<open>The text written to the event file, the number of time stamps taken, and the buffer.\<close>

record parsing =
  pr_events :: string
  pr_stamps :: nat
  pr_buffer :: string

fun parse_lines ::
  "'p regexes \<Rightarrow> 'p filters \<Rightarrow> (nat \<Rightarrow> string) \<Rightarrow> string \<Rightarrow> string list \<Rightarrow> (parsing, unit) stateful" where
  "parse_lines re filters stamp log_filename [] = returnS ()"
| "parse_lines re filters stamp log_filename (log_line # rest) =
     (\<lambda>st. if log_line = [] then (Inl IndexError, st)
       else parse_lines re filters stamp log_filename rest
         (if last log_line = newline then
            st\<lparr>pr_events := pr_events st @
                 process_line re filters (stamp (pr_stamps st)) log_line (header_length_of log_line) log_filename,
               pr_stamps := Suc (pr_stamps st)\<rparr>
          else st\<lparr>pr_buffer := pr_buffer st @ log_line\<rparr>))"

text \<open>The progress message divides by the size of the file.\<close>

fun parse_chunks ::
  "'p regexes \<Rightarrow> 'p filters \<Rightarrow> (nat \<Rightarrow> string) \<Rightarrow> (nat \<Rightarrow> bool) \<Rightarrow> nat \<Rightarrow> string \<Rightarrow> nat \<Rightarrow> string list \<Rightarrow>
   (parsing, unit) stateful" where
  "parse_chunks re filters stamp due total_bytes log_filename i [] = returnS ()"
| "parse_chunks re filters stamp due total_bytes log_filename i (log_data # rest) =
     (\<lambda>st. if due i \<and> total_bytes = 0 then (Inl ZeroDivisionError, st)
       else if log_data = [] then (Inr (), st)
       else
         let (ls, exc) = newline_get_lines \<lparr>nf_keepends = True, nf_cleanends = False\<rparr> (pr_buffer st @ log_data)
               (Idx (int (length (pr_buffer st)))) None
         in bindS (parse_lines re filters stamp log_filename ls) (\<lambda>_.
            bindS (liftS (case exc of Some e \<Rightarrow> Inl e | None \<Rightarrow> Inr ())) (\<lambda>_.
              parse_chunks re filters stamp due total_bytes log_filename (Suc i) rest))
            (st\<lparr>pr_buffer := []\<rparr>))"

text \<open>An \<open>IOError\<close> becomes a \<open>ParserError\<close>; the event file keeps what was written to it.\<close>

definition parse_events ::
  "'p regexes \<Rightarrow> (nat \<Rightarrow> string) \<Rightarrow> (nat \<Rightarrow> bool) \<Rightarrow> string \<Rightarrow> string list \<Rightarrow>
   ('p event_parser \<times> disk, unit) stateful" where
  "parse_events re stamp due log_path chunks = (\<lambda>(p, disk).
     case disk log_path of
       None \<Rightarrow> (Inl ParserError, (p, disk))
     | Some log \<Rightarrow>
         (case parse_chunks re (filters_dict p) stamp due (nat (utf8_size log)) (basename log_path) 0 chunks
                 \<lparr>pr_events = [], pr_stamps = 0, pr_buffer = []\<rparr> of
            (r, pr) \<Rightarrow> ((case r of Inl IOError \<Rightarrow> Inl ParserError | _ \<Rightarrow> r),
                        (p, disk(get_event_filename log_path \<mapsto> pr_events pr)))))"

definition new_log_parser ::
  "'p regexes \<Rightarrow> 'p event_parser option \<Rightarrow> (nat \<Rightarrow> string) \<Rightarrow> (nat \<Rightarrow> bool) \<Rightarrow> string \<Rightarrow> int \<Rightarrow> string list \<Rightarrow> disk \<Rightarrow>
   unit result \<times> 'p event_parser option \<times> disk" where
  "new_log_parser re parser_obj stamp due log_path display_refresh chunks disk =
     (case parser_obj of
        None \<Rightarrow> (Inl ParserError, None, disk)
      | Some p \<Rightarrow>
          if disk log_path = None then (Inl ParserError, Some p, disk)
          else
            let p' = p\<lparr>event_file_path := get_event_filename log_path\<rparr>
            in if disk (get_event_filename log_path) \<noteq> None then (Inl ParserError, Some p', disk)
               else if display_refresh < 0 then (Inl ParserError, Some p', disk)
               else (case parse_events re stamp due log_path chunks (p', disk) of
                       (r, p'', disk') \<Rightarrow> (r, Some p'', disk')))"

text \<open>\<open>Manager.create_log_parser\<close>; without a filter list the constructor of the parser loops over \<open>None\<close>.\<close>

definition create_log_parser ::
  "'p regexes \<Rightarrow> file_system \<Rightarrow> string list option \<Rightarrow> (nat \<Rightarrow> string) \<Rightarrow> (nat \<Rightarrow> bool) \<Rightarrow> string \<Rightarrow> string list \<Rightarrow> disk \<Rightarrow>
   unit result \<times> 'p event_parser option \<times> disk" where
  "create_log_parser re fs filter_list stamp due log_filename chunks disk =
     (case filter_list of
        None \<Rightarrow> (Inl TypeError, None, disk)
      | Some paths \<Rightarrow>
          (case load_filters re fs paths [] of
             (Inl e, _) \<Rightarrow> (Inl e, None, disk)
           | (Inr _, filters) \<Rightarrow>
               new_log_parser re (Some \<lparr>filters_dict = filters, event_file_path = ''unknown.txt''\<rparr>) stamp due
                 log_filename 3000000 chunks disk))"

section \<open>Queries\<close>

text \<open>\<open>NotAList\<close> stands for a true value that is no list.\<close>

definition check_event_labels :: "'p event_parser \<Rightarrow> labels_arg \<Rightarrow> unit result" where
  "check_event_labels p event_labels =
     (case event_labels of
        NoLabels \<Rightarrow> Inr ()
      | NotAList \<Rightarrow> Inl ParserError
      | Labels ls \<Rightarrow>
          if list_all (\<lambda>l. l \<in> Some ` set (get_event_labels p)) ls then Inr () else Inl ParserError)"

text \<open>
  \<open>get_last_event\<close> and \<open>get_event_history_count\<close> pass the event file name as a first argument, which
  the parser's methods do not have: the timeout is then given twice.
\<close>

definition log_parser_last_event :: "'p event_parser \<Rightarrow> labels_arg \<Rightarrow> parser_result result" where
  "log_parser_last_event p event_labels = bindE (check_event_labels p event_labels) (\<lambda>_. Inl TypeError)"

definition log_parser_history ::
  "tools \<Rightarrow> query_env \<Rightarrow> 'p event_parser \<Rightarrow> labels_arg \<Rightarrow> int option \<Rightarrow> int \<Rightarrow> parser_result result" where
  "log_parser_history t env p event_labels count timeout =
     bindE (check_event_labels p event_labels) (\<lambda>_. get_event_history t env p event_labels count None timeout)"

definition log_parser_history_count :: "'p event_parser \<Rightarrow> string \<Rightarrow> parser_result result" where
  "log_parser_history_count p event_label =
     (if event_label \<notin> set (get_event_labels p) then Inl ParserError else Inl TypeError)"

definition log_parser_label_dict ::
  "(string \<Rightarrow> (string \<Rightarrow> bool) option) \<Rightarrow> string option \<Rightarrow> 'p event_parser \<Rightarrow> 'p filters result" where
  "log_parser_label_dict re_match pattern p = get_event_label_dict re_match pattern p"

section \<open>The events do not depend on the chunks\<close>

text \<open>The reference: the events of the whole lines of the text, taken one after the other.\<close>

definition whole_lines :: "string \<Rightarrow> string list" where
  "whole_lines s = filter (\<lambda>l. last l = newline) (text_lines s)"

fun line_events ::
  "'p regexes \<Rightarrow> 'p filters \<Rightarrow> (nat \<Rightarrow> string) \<Rightarrow> string \<Rightarrow> nat \<Rightarrow> string list \<Rightarrow> string" where
  "line_events re filters stamp log_filename k [] = []"
| "line_events re filters stamp log_filename k (l # ls) =
     process_line re filters (stamp k) l (header_length_of l) log_filename @
     line_events re filters stamp log_filename (Suc k) ls"

lemma text_parts: "\<exists>ls t. s = concat ls @ t \<and> lined ls \<and> newline \<notin> set t"
proof (induction s rule: rev_induct)
  case Nil
  show ?case by (intro exI [of _ "[]"]) simp
next
  case (snoc c s)
  then obtain ls t where s: "s = concat ls @ t" "lined ls" "newline \<notin> set t" by blast
  show ?case
  proof (cases "c = newline")
    case True
    with s show ?thesis by (intro exI [of _ "ls @ [t @ [c]]"] exI [of _ "[]"]) simp
  next
    case False
    with s show ?thesis by (intro exI [of _ ls] exI [of _ "t @ [c]"]) simp
  qed
qed

lemma whole_lines_parts: "lined ls \<Longrightarrow> newline \<notin> set t \<Longrightarrow> whole_lines (concat ls @ t) = ls"
proof -
  assume a: "lined ls" "newline \<notin> set t"
  then have "filter (\<lambda>l. last l = newline) ls = ls" by (auto simp: lined_def list_all_iff)
  moreover have "t \<noteq> [] \<Longrightarrow> last t \<noteq> newline" using a(2) last_in_set [of t] by metis
  ultimately show ?thesis using text_lines_lined [OF a] by (simp add: whole_lines_def)
qed

lemma parse_lines_whole:
  assumes "lined ls"
  shows "parse_lines re filters stamp name ls st = (Inr (), st\<lparr>pr_events := pr_events st @
     line_events re filters stamp name (pr_stamps st) ls, pr_stamps := pr_stamps st + length ls\<rparr>)"
  using assms by (induction ls arbitrary: st) (simp_all add: returnS_def)


lemma parse_chunks_whole:
  assumes "\<And>i. due i \<Longrightarrow> bytes \<noteq> 0" and "list_all (\<lambda>c. c \<noteq> []) cs" and "newline \<notin> set (pr_buffer st)"
  shows "\<exists>buf. parse_chunks re filters stamp due bytes name i (cs @ [[]]) st = (Inr (), st\<lparr>pr_events := pr_events st @
      line_events re filters stamp name (pr_stamps st) (whole_lines (pr_buffer st @ concat cs)),
      pr_stamps := pr_stamps st + length (whole_lines (pr_buffer st @ concat cs)), pr_buffer := buf\<rparr>)"
  using assms(2,3)
proof (induction cs arbitrary: st i)
  case Nil
  have "whole_lines (pr_buffer st) = []" using whole_lines_parts [of "[]" "pr_buffer st"] Nil.prems(2) by simp
  with assms(1) [of i] show ?case by (intro exI [of _ "pr_buffer st"]) auto
next
  case (Cons c cs)
  obtain ls t where lt: "pr_buffer st @ c = concat ls @ t" "lined ls" "newline \<notin> set t" using text_parts by blast
  obtain ls' t' where lt': "t @ concat cs = concat ls' @ t'" "lined ls'" "newline \<notin> set t'" using text_parts by blast
  have w': "whole_lines (t @ concat cs) = ls'" using whole_lines_parts [OF lt'(2,3)] lt'(1) by simp
  have "pr_buffer st @ concat (c # cs) = concat (ls @ ls') @ t'"
    using lt(1) lt'(1) by (metis append_assoc concat.simps(2) concat_append)
  moreover have "lined (ls @ ls')" using lt(2) lt'(2) by simp
  ultimately have w: "whole_lines (pr_buffer st @ concat (c # cs)) = ls @ ls'"
    using whole_lines_parts [OF _ lt'(3)] by metis
  have c: "c \<noteq> []" using Cons.prems(1) by simp
  have fr: "newline_get_lines \<lparr>nf_keepends = True, nf_cleanends = False\<rparr> (pr_buffer st @ c)
      (Idx (int (length (pr_buffer st)))) None = (ls @ (if t = [] then [] else [t]), None)"
    using framer_exact [OF c Cons.prems(2)] text_lines_lined [OF lt(2,3)] lt(1) by simp
  define st1 where "st1 = st\<lparr>pr_events := pr_events st @ line_events re filters stamp name (pr_stamps st) ls,
     pr_stamps := pr_stamps st + length ls, pr_buffer := t\<rparr>"
  have app: "parse_lines re filters stamp name (xs @ ys) s =
      (case parse_lines re filters stamp name xs s of (Inl e, s') \<Rightarrow> (Inl e, s') | (Inr _, s') \<Rightarrow> parse_lines re filters stamp name ys s')"
    for xs ys s by (induction xs arbitrary: s) (simp_all add: returnS_def)
  have "t \<noteq> [] \<Longrightarrow> last t \<noteq> newline" using lt(3) last_in_set [of t] by metis
  then have p: "parse_lines re filters stamp name (ls @ (if t = [] then [] else [t])) (st\<lparr>pr_buffer := []\<rparr>) = (Inr (), st1)"
    unfolding app parse_lines_whole [OF lt(2)] by (simp add: st1_def returnS_def)
  have nd: "\<not> (due i \<and> bytes = 0)" using assms(1) by blast
  have step: "parse_chunks re filters stamp due bytes name i ((c # cs) @ [[]]) st =
      parse_chunks re filters stamp due bytes name (Suc i) (cs @ [[]]) st1"
    using nd c p by (auto simp add: fr liftS_def simp del: parse_lines.simps)
  have "newline \<notin> set (pr_buffer st1)" using lt(3) by (simp add: st1_def)
  from Cons.IH [OF _ this, of "Suc i"] Cons.prems(1) obtain buf where
    "parse_chunks re filters stamp due bytes name (Suc i) (cs @ [[]]) st1 = (Inr (), st1\<lparr>pr_events := pr_events st1 @
      line_events re filters stamp name (pr_stamps st1) (whole_lines (pr_buffer st1 @ concat cs)),
      pr_stamps := pr_stamps st1 + length (whole_lines (pr_buffer st1 @ concat cs)), pr_buffer := buf\<rparr>)"
    by auto
  moreover have "line_events re filters stamp name k (xs @ ys) =
      line_events re filters stamp name k xs @ line_events re filters stamp name (k + length xs) ys" for k xs ys
    by (induction xs arbitrary: k) simp_all
  moreover have "whole_lines (pr_buffer st1 @ concat cs) = ls'" using w' by (simp add: st1_def)
  ultimately show ?case unfolding step w by (intro exI [of _ buf]) (simp add: st1_def add.assoc)
qed



text \<open>The log parser cannot answer two of its queries: \<open>get_last_event\<close> and
  \<open>get_event_history_count\<close> always raise, with a label that exists a \<open>TypeError\<close>, since they give the
  parser's methods one argument too many.\<close>

theorem log_parser_queries_raise:
  "\<exists>e e'. log_parser_last_event p event_labels = Inl e \<and> log_parser_history_count p l = Inl e' \<and>
     (check_event_labels p event_labels = Inr () \<longleftrightarrow> e = TypeError) \<and>
     (l \<in> set (get_event_labels p) \<longleftrightarrow> e' = TypeError)"
  by (auto simp: log_parser_last_event_def log_parser_history_count_def check_event_labels_def
      split: labels_arg.split)

end
