(* ===== verification/Device_Detector.thy ===== *)
theory Device_Detector
  imports Common_Utils "HOL-Library.Multiset"
begin

text \<open>
  \<open>gazoo_device/device_detector.py\<close>: finding the communication addresses, identifying the device
  class behind each by its answers to the queries, and adding the devices found to the
  configurations. The queries, the regular expressions and the device classes are the environment.
\<close>

section \<open>Matching the answers\<close>

text \<open>An answer of another type is equal to no truth value.\<close>

datatype answer = ABool bool | AStr string | AOther

datatype criterion = CBool bool | CPattern string

record device_class =
  dc_type :: string
  dc_comm :: string
  dc_criteria :: "(string \<times> criterion) list"

text \<open>The addresses of a communication type, asked for with the static addresses and without.\<close>

record comm_type =
  ct_name :: string
  ct_with :: "string list option \<Rightarrow> string list result"
  ct_without :: "string list result"

record detect_env =
  de_comm_types :: "comm_type list"
  de_queries :: "string \<Rightarrow> (string \<times> (string \<Rightarrow> answer result)) list option"
  de_repr :: "exn \<Rightarrow> string"
  de_search :: "string \<Rightarrow> string \<Rightarrow> bool"
  de_auxiliary :: "device_class list"
  de_primary :: "device_class list"
  de_virtual :: "device_class list"
  de_new :: "device_class \<Rightarrow> string \<Rightarrow> string \<Rightarrow> unit result"
  de_ready :: "device_class \<Rightarrow> string \<Rightarrow> unit result"
  de_info :: "device_class \<Rightarrow> string \<Rightarrow> (props \<times> props) result"
  de_close :: "device_class \<Rightarrow> string \<Rightarrow> unit result"
  de_timestamp :: string

definition get_detect_query_response ::
  "detect_env \<Rightarrow> string \<Rightarrow> string \<Rightarrow> (string \<times> answer) list result" where
  "get_detect_query_response env address communication_type =
     (case de_queries env communication_type of
        None \<Rightarrow> Inl KeyError
      | Some queries \<Rightarrow>
          Inr (map (\<lambda>(query_name, query).
            (query_name, case query address of Inr a \<Rightarrow> a | Inl e \<Rightarrow> AStr (de_repr env e))) queries))"

fun matches_criteria ::
  "detect_env \<Rightarrow> (string \<times> answer) list \<Rightarrow> (string \<times> criterion) list \<Rightarrow> bool result" where
  "matches_criteria env responses [] = Inr True"
| "matches_criteria env responses ((entry, v) # rest) =
     (case map_of responses entry of
        None \<Rightarrow> Inr False
      | Some r \<Rightarrow>
          (case v of
             CBool b \<Rightarrow> if r \<noteq> ABool b then Inr False else matches_criteria env responses rest
           | CPattern p \<Rightarrow>
               (case r of
                  AStr s \<Rightarrow> if \<not> de_search env p s then Inr False else matches_criteria env responses rest
                | _ \<Rightarrow> Inl TypeError)))"

text \<open>The classes for which every criterion has an answer, and whose criteria match.\<close>

fun matching_classes ::
  "detect_env \<Rightarrow> (string \<times> answer) list \<Rightarrow> device_class list \<Rightarrow> device_class list result" where
  "matching_classes env responses [] = Inr []"
| "matching_classes env responses (c # cs) =
     (if \<not> list_all (\<lambda>(entry, _). entry \<in> fst ` set responses) (dc_criteria c) then
        matching_classes env responses cs
      else
        bindE (matches_criteria env responses (dc_criteria c)) (\<lambda>ok.
        bindE (matching_classes env responses cs) (\<lambda>rest. Inr (if ok then c # rest else rest))))"

definition find_matching_device_class ::
  "detect_env \<Rightarrow> string \<Rightarrow> string \<Rightarrow> device_class list \<Rightarrow> device_class list result" where
  "find_matching_device_class env address communication_type device_classes =
     bindE (get_detect_query_response env address communication_type) (\<lambda>responses.
       matching_classes env responses device_classes)"

definition get_communication_type_classes :: "detect_env \<Rightarrow> string \<Rightarrow> device_class list" where
  "get_communication_type_classes env communication_type =
     filter (\<lambda>c. dc_comm c = communication_type) (de_auxiliary env @ de_primary env @ de_virtual env)"

definition determine_device_class :: "detect_env \<Rightarrow> string \<Rightarrow> string \<Rightarrow> device_class list result" where
  "determine_device_class env address communication_type =
     find_matching_device_class env address communication_type (get_communication_type_classes env communication_type)"

section \<open>Communication addresses\<close>

definition validate_comm_types :: "detect_env \<Rightarrow> string list option \<Rightarrow> string list option" where
  "validate_comm_types env comm_types =
     map_option (\<lambda>ts. filter (\<lambda>t. t \<in> set (map (lower \<circ> ct_name) (de_comm_types env))) (map lower ts)) comm_types"

text \<open>A \<open>TypeError\<close> is taken to mean that the method does not accept static addresses.\<close>

definition comms_addresses :: "comm_type \<Rightarrow> string list option \<Rightarrow> string list result" where
  "comms_addresses t static_ips =
     (case ct_with t static_ips of Inl TypeError \<Rightarrow> ct_without t | r \<Rightarrow> r)"

text \<open>
  What is found for each type, empty when it is skipped or its method raises. The dictionary has the
  types in the order of their registration. That the ssh keys are there is only looked at.
\<close>

definition detect_connections ::
  "detect_env \<Rightarrow> string list option \<Rightarrow> string list option \<Rightarrow> string list option \<Rightarrow> (string \<times> string list) list" where
  "detect_connections env static_ips comm_types addresses =
     map (\<lambda>t. (ct_name t,
       if (case validate_comm_types env comm_types of None \<Rightarrow> False | Some ts \<Rightarrow> lower (ct_name t) \<notin> set ts) then []
       else (case comms_addresses t static_ips of
               Inl _ \<Rightarrow> []
             | Inr found \<Rightarrow> filter (\<lambda>a. case addresses of None \<Rightarrow> True | Some as \<Rightarrow> a \<in> set as) found)))
       (de_comm_types env)"

section \<open>The detector\<close>

record detector =
  dt_persistent :: config_file
  dt_options :: config_file
  dt_known :: "pval list"

text \<open>What a known device is connected to: its port, or else the address without the usual port number.\<close>

definition known_connection :: "string \<Rightarrow> (pval \<Rightarrow> pval result) \<Rightarrow> props \<Rightarrow> pval result" where
  "known_connection other convert entry =
     (case map_of entry ''console_port_name'' of
        Some v \<Rightarrow> if pv_true v then Inr v else bindE (dict_item entry other) convert
      | None \<Rightarrow> bindE (dict_item entry other) convert)"

abbreviation (input) without_port :: "string \<Rightarrow> string" where
  "without_port \<equiv> replace_all '':5555'' []"

definition create_known_connections :: "config_file \<Rightarrow> pval list result" where
  "create_known_connections conf =
     bindE (dict_item conf ''devices'') (\<lambda>devices.
     bindE (mapE (\<lambda>(_, entry). known_connection ''adb_serial''
       (\<lambda>v. case v of PStr s \<Rightarrow> Inr (PStr (without_port s)) | _ \<Rightarrow> Inl AttributeError) entry) devices) (\<lambda>known1.
     bindE (dict_item conf ''other_devices'') (\<lambda>other_devices.
     bindE (mapE (\<lambda>(_, entry). known_connection ''hub_port_name'' Inr entry) other_devices) (\<lambda>known2.
       Inr (known1 @ known2)))))"

definition new_detector :: "config_file \<Rightarrow> config_file \<Rightarrow> detector result" where
  "new_detector persistent_configs options_configs =
     bindE (create_known_connections persistent_configs) (\<lambda>known.
       Inr \<lparr>dt_persistent = persistent_configs, dt_options = options_configs, dt_known = known\<rparr>)"

definition filter_out_known_connections ::
  "(string \<times> string list) list \<Rightarrow> pval list \<Rightarrow> (string \<times> string list) list" where
  "filter_out_known_connections con_dict known_cons =
     map (\<lambda>(key, cons). (key, filter (\<lambda>con. PStr (without_port con) \<notin> set known_cons) cons)) con_dict"

definition detect_log_file_name :: "detect_env \<Rightarrow> string \<Rightarrow> string \<Rightarrow> string" where
  "detect_log_file_name env address kind =
     extract_posix_portable_characters (replace_all ''/'' ''_'' address) @ ''_'' @ kind @ ''_detect_'' @
     de_timestamp env @ ''.txt''"

text \<open>The messages of the summary.\<close>

datatype detect_message = MultipleTypes string | NoMatch string | InfoFailed device_class string exn

record identified =
  id_tuples :: "(device_class \<times> string) list"
  id_errs :: "detect_message list"
  id_none :: "string list"

definition identify_one :: "detect_env \<Rightarrow> string \<Rightarrow> string \<Rightarrow> identified \<Rightarrow> identified result" where
  "identify_one env communication_type connection r =
     bindE (determine_device_class env connection communication_type) (\<lambda>matching.
       let r1 = (if 1 < length matching then r\<lparr>id_errs := id_errs r @ [MultipleTypes connection]\<rparr> else r)
       in case matching of
            c # _ \<Rightarrow> Inr (r1\<lparr>id_tuples := id_tuples r1 @ [(c, connection)]\<rparr>)
          | [] \<Rightarrow> Inr (r1\<lparr>id_errs := id_errs r1 @ [NoMatch connection], id_none := id_none r1 @ [connection]\<rparr>))"

definition identify_connection_device_class ::
  "detect_env \<Rightarrow> (string \<times> string list) list \<Rightarrow> identified result" where
  "identify_connection_device_class env connections_dict =
     foldE (\<lambda>(t, cons). foldE (identify_one env t) (sort cons)) (sort_key fst connections_dict)
       \<lparr>id_tuples = [], id_errs = [], id_none = []\<rparr>"

section \<open>Adding the devices\<close>

definition is_auxiliary :: "detect_env \<Rightarrow> device_class \<Rightarrow> bool" where
  "is_auxiliary env c \<longleftrightarrow> c \<in> set (de_auxiliary env)"

definition devices_key :: "bool \<Rightarrow> string" where
  "devices_key aux = (if aux then ''other_devices'' else ''devices'')"

definition options_key :: "bool \<Rightarrow> string" where
  "options_key aux = (if aux then ''other_device_options'' else ''device_options'')"

definition option_attributes :: "bool \<Rightarrow> string list" where
  "option_attributes aux = (if aux then [''alias'']
     else [''alias'', ''power_switch'', ''power_port'', ''usb_hub'', ''location'', ''usb_port''])"

definition last_chars :: "nat \<Rightarrow> string \<Rightarrow> string" where
  "last_chars n s = drop (length s - n) s"

text \<open>The serial number is a string, or the \<open>TypeError\<close> is caught by the caller.\<close>

definition generate_device_name :: "detect_env \<Rightarrow> detector \<Rightarrow> device_class \<Rightarrow> pval \<Rightarrow> string result" where
  "generate_device_name env dt c serial_number =
     (case serial_number of
        PStr s \<Rightarrow>
          if length s < 4 then Inl RuntimeError
          else
            let name = dc_type c @ ''-'' @ lower (last_chars 4 s)
            in bindE (dict_item (dt_persistent dt) (devices_key (is_auxiliary env c))) (\<lambda>devices.
                 case map_of devices name of
                   None \<Rightarrow> Inr name
                 | Some entry \<Rightarrow>
                     bindE (dict_item entry ''serial_number'') (\<lambda>sn.
                       Inr (if serial_number \<noteq> sn then dc_type c @ ''-'' @ lower (last_chars 8 s) else name)))
      | _ \<Rightarrow> Inl TypeError)"

text \<open>\<open>finally: device.close()\<close>\<close>

definition detect_get_info ::
  "detect_env \<Rightarrow> detector \<Rightarrow> device_class \<Rightarrow> string \<Rightarrow> (string \<times> props \<times> props) result" where
  "detect_get_info env dt c connection =
     bindE (de_new env c connection (detect_log_file_name env connection (dc_type c))) (\<lambda>_.
     bindE (let r = bindE (de_ready env c connection) (\<lambda>_. de_info env c connection)
            in case de_close env c connection of Inl e \<Rightarrow> Inl e | Inr _ \<Rightarrow> r) (\<lambda>(persistent_props, options_props).
     bindE (dict_item persistent_props ''serial_number'') (\<lambda>serial_number.
     bindE (generate_device_name env dt c serial_number) (\<lambda>name.
       Inr (name, AList.update ''name'' (PStr name) persistent_props, options_props)))))"

definition add_to_configs ::
  "detect_env \<Rightarrow> device_class \<Rightarrow> string \<Rightarrow> props \<Rightarrow> props \<Rightarrow> (detector, unit) stateful" where
  "add_to_configs env c name persistent_props optional_props dt =
     (let aux = is_auxiliary env c;
          optional = dict_update optional_props (map (\<lambda>k. (k, PNone)) (option_attributes aux))
      in case dict_item (dt_persistent dt) (devices_key aux) of
           Inl e \<Rightarrow> (Inl e, dt)
         | Inr devices \<Rightarrow>
             (case map_of devices name of
                Some entry \<Rightarrow>
                  (bindE (dict_item persistent_props ''console_port_name'') (\<lambda>_.
                   bindE (dict_item entry ''console_port_name'') (\<lambda>_. Inl DeviceError)), dt)
              | None \<Rightarrow>
                  let dt1 = dt\<lparr>dt_persistent :=
                        AList.update (devices_key aux) (AList.update name persistent_props devices) (dt_persistent dt)\<rparr>
                  in case dict_item (dt_options dt) (options_key aux) of
                       Inl e \<Rightarrow> (Inl e, dt1)
                     | Inr options \<Rightarrow>
                         (Inr (), dt1\<lparr>dt_options :=
                           AList.update (options_key aux) (AList.update name optional options) (dt_options dt)\<rparr>)))"

text \<open>What the loop over the identified connections has collected for the summary.\<close>

record summary =
  su_names :: "string list"
  su_errs :: "detect_message list"
  su_none :: "string list"

definition add_device ::
  "detect_env \<Rightarrow> device_class \<times> string \<Rightarrow> detector \<times> summary \<Rightarrow> detector \<times> summary" where
  "add_device env = (\<lambda>(c, connection) (dt, su).
     case detect_get_info env dt c connection of
       Inl e \<Rightarrow> (dt, su\<lparr>su_errs := su_errs su @ [InfoFailed c connection e], su_none := su_none su @ [connection]\<rparr>)
     | Inr (name, persistent_props, optional_props) \<Rightarrow>
         let su1 = su\<lparr>su_names := su_names su @ [name]\<rparr>
         in (case add_to_configs env c name persistent_props optional_props dt of
               (Inl e, dt1) \<Rightarrow>
                 (dt1, su1\<lparr>su_errs := su_errs su1 @ [InfoFailed c connection e], su_none := su_none su1 @ [connection]\<rparr>)
             | (Inr _, dt1) \<Rightarrow> (dt1, su1)))"

definition detect_new_devices ::
  "detect_env \<Rightarrow> (string \<times> string list) list \<Rightarrow> detector \<Rightarrow> (detector \<times> summary) result" where
  "detect_new_devices env connections_dict dt =
     bindE (identify_connection_device_class env (filter_out_known_connections connections_dict (dt_known dt))) (\<lambda>r.
       Inr (fold (add_device env) (id_tuples r) (dt, \<lparr>su_names = [], su_errs = id_errs r, su_none = id_none r\<rparr>)))"

definition detect_all_new_devices ::
  "detect_env \<Rightarrow> string list option \<Rightarrow> string list option \<Rightarrow> string list option \<Rightarrow> detector \<Rightarrow>
   (detector \<times> summary) result" where
  "detect_all_new_devices env static_ips comm_types addresses =
     detect_new_devices env (detect_connections env static_ips comm_types addresses)"


section \<open>What detection does to the configurations\<close>

definition section_of :: "bool \<Rightarrow> detector \<Rightarrow> (string \<times> props) list" where
  "section_of aux dt = config_section (devices_key aux) (dt_persistent dt)"

definition options_of_kind :: "bool \<Rightarrow> detector \<Rightarrow> (string \<times> props) list" where
  "options_of_kind aux dt = config_section (options_key aux) (dt_options dt)"

text \<open>The second detector has the same sections, and the options of the given devices are as in the first.\<close>

definition same_options :: "(bool \<Rightarrow> string set) \<Rightarrow> detector \<Rightarrow> detector \<Rightarrow> bool" where
  "same_options names dt dt' \<longleftrightarrow> map fst (dt_persistent dt') = map fst (dt_persistent dt) \<and>
     map fst (dt_options dt') = map fst (dt_options dt) \<and>
     (\<forall>aux. \<forall>n\<in>names aux. map_of (options_of_kind aux dt') n = map_of (options_of_kind aux dt) n)"

text \<open>The sections are there, no device is twice in one, and every device has options.\<close>

definition sound_detector :: "detector \<Rightarrow> bool" where
  "sound_detector dt \<longleftrightarrow> (\<forall>aux. map_of (dt_persistent dt) (devices_key aux) \<noteq> None \<and>
     map_of (dt_options dt) (options_key aux) \<noteq> None \<and> distinct (map fst (section_of aux dt)) \<and>
     distinct (map fst (options_of_kind aux dt)) \<and>
     fst ` set (section_of aux dt) \<subseteq> fst ` set (options_of_kind aux dt))"

lemma keys_inj [simp]:
  "devices_key a = devices_key b \<longleftrightarrow> a = b" "options_key a = options_key b \<longleftrightarrow> a = b"
  by (cases a; cases b; simp add: devices_key_def options_key_def)+

lemma config_section_update:
  "config_section k (AList.update k' v conf) = (if k = k' then v else config_section k conf)"
  by (simp add: config_section_def map_of_update_if)

lemma update_keys_known: "map_of d k = Some v \<Longrightarrow> map fst (AList.update k w d) = map fst d"
  by (induction d) (auto split: if_splits)

lemma add_to_configs_adds:
  assumes s: "sound_detector dt" and run: "add_to_configs env c name pp op dt = (r, dt')"
  defines "aux \<equiv> is_auxiliary env c"
  shows "sound_detector dt' \<and> same_options (\<lambda>b. - (if b = aux then {name} else {})) dt dt' \<and>
    (case r of Inl e \<Rightarrow> dt' = dt
    | Inr _ \<Rightarrow> name \<notin> fst ` set (section_of aux dt) \<and>
        (\<forall>b. section_of b dt' = section_of b dt @ (if b = aux then [(name, pp)] else [])))"
proof -
  obtain devices where d: "map_of (dt_persistent dt) (devices_key aux) = Some devices" "section_of aux dt = devices"
    using s by (fastforce simp: sound_detector_def section_of_def config_section_def)
  obtain options where o: "map_of (dt_options dt) (options_key aux) = Some options" "options_of_kind aux dt = options"
    using s by (fastforce simp: sound_detector_def options_of_kind_def config_section_def)
  show ?thesis
  proof (cases "map_of devices name")
    case (Some entry)
    with run d obtain e where "r = Inl e" "dt' = dt"
      by (auto simp: add_to_configs_def dict_item_def bindE_def aux_def Let_def split: option.splits)
    with s show ?thesis by (simp add: same_options_def)
  next
    case None
    let ?opt = "dict_update op (map (\<lambda>k. (k, PNone)) (option_attributes aux))"
    have r: "r = Inr ()" and dt': "dt' = dt\<lparr>dt_persistent := AList.update (devices_key aux) (AList.update name pp devices) (dt_persistent dt),
        dt_options := AList.update (options_key aux) (AList.update name ?opt options) (dt_options dt)\<rparr>"
      using run d o None by (simp_all add: add_to_configs_def dict_item_def aux_def Let_def)
    have fresh: "name \<notin> fst ` set devices" using None by (simp add: map_of_eq_None_iff)
    have sec: "section_of b dt' = section_of b dt @ (if b = aux then [(name, pp)] else [])" for b
      using d(2) fresh by (simp add: dt' section_of_def config_section_update update_fresh)
    have opt: "options_of_kind b dt' = (if b = aux then AList.update name ?opt options else options_of_kind b dt)" for b
      by (simp add: dt' options_of_kind_def config_section_update)
    have mp: "map_of (dt_persistent dt') (devices_key b) \<noteq> None" "map_of (dt_options dt') (options_key b) \<noteq> None" for b
      using s by (auto simp: dt' map_of_update_if sound_detector_def)
    have "distinct (map fst (section_of b dt'))" for b
      using s fresh d(2) by (auto simp: sec sound_detector_def)
    moreover have "distinct (map fst (options_of_kind b dt'))" for b
      using s o(2) distinct_update by (auto simp: opt sound_detector_def)
    moreover have "fst ` set (section_of b dt') \<subseteq> fst ` set (options_of_kind b dt')" for b
      using s o(2) by (auto simp: sec opt dom_update sound_detector_def)
    ultimately have "sound_detector dt'" using mp by (simp add: sound_detector_def)
    moreover have "same_options (\<lambda>b. - (if b = aux then {name} else {})) dt dt'"
    proof -
      have "map fst (dt_persistent dt') = map fst (dt_persistent dt)" "map fst (dt_options dt') = map fst (dt_options dt)"
        using d(1) o(1) by (simp_all add: dt' update_keys_known)
      then show ?thesis using o(2) by (simp add: same_options_def opt map_of_update_if)
    qed
    ultimately show ?thesis using r sec fresh d(2) by simp
  qed
qed


lemma detect_get_info_name:
  assumes "detect_get_info env dt c connection = Inr (name, pp, op)"
  shows "map_of pp ''name'' = Some (PStr name)"
  using assms by (auto simp: detect_get_info_def result_simps map_of_update_if)

text \<open>
  What the loop has done so far: the devices \<open>new\<close> were added behind the ones there were, one for
  each connection in \<open>added\<close>; the other connections are in the list of failures.
\<close>

definition detected ::
  "detector \<Rightarrow> string list \<Rightarrow> (bool \<Rightarrow> (string \<times> props) list) \<Rightarrow> string list \<Rightarrow> detector \<times> summary \<Rightarrow> bool" where
  "detected dt cons new added = (\<lambda>(dt', su). sound_detector dt' \<and>
     same_options (\<lambda>aux. fst ` set (section_of aux dt)) dt dt' \<and>
     (\<forall>aux. section_of aux dt' = section_of aux dt @ new aux) \<and>
     (\<forall>aux. list_all (\<lambda>(n, p). map_of p ''name'' = Some (PStr n)) (new aux)) \<and>
     length (new False) + length (new True) = length added \<and>
     mset added + mset (su_none su) = mset cons)"

lemma add_device_detected:
  assumes "detected dt cons new added (dt', su)"
  shows "\<exists>new added. detected dt (cons @ [connection]) new added (add_device env (c, connection) (dt', su))"
proof (cases "detect_get_info env dt' c connection")
  case (Inl e)
  with assms show ?thesis by (intro exI [of _ new] exI [of _ added]) (simp add: add_device_def detected_def)
next
  case (Inr t)
  obtain name pp op where t: "t = (name, pp, op)" by (cases t)
  note n = detect_get_info_name [OF Inr [unfolded t]]
  obtain r dt1 where run: "add_to_configs env c name pp op dt' = (r, dt1)" by fastforce
  have s: "sound_detector dt'" using assms by (simp add: detected_def)
  let ?aux = "is_auxiliary env c"
  show ?thesis
  proof (cases r)
    case (Inl e)
    with add_to_configs_adds [OF s run] assms Inr t run show ?thesis
      by (intro exI [of _ new] exI [of _ added]) (simp add: add_device_def detected_def)
  next
    case Inr2: (Inr u)
    from add_to_configs_adds [OF s run] Inr2 have a: "sound_detector dt1" "name \<notin> fst ` set (section_of ?aux dt')"
      "same_options (\<lambda>b. - (if b = ?aux then {name} else {})) dt' dt1"
      "\<forall>b. section_of b dt1 = section_of b dt' @ (if b = ?aux then [(name, pp)] else [])" by simp_all
    define new' where "new' = (\<lambda>b. new b @ (if b = ?aux then [(name, pp)] else []))"
    have "length (new' False) + length (new' True) = Suc (length (new False) + length (new True))"
      by (simp add: new'_def)
    moreover have "list_all (\<lambda>(n, p). map_of p ''name'' = Some (PStr n)) (new' b)" for b
      using assms n by (simp add: detected_def new'_def)
    moreover have "same_options (\<lambda>b. fst ` set (section_of b dt)) dt dt1"
    proof -
      have same: "same_options (\<lambda>b. fst ` set (section_of b dt)) dt dt'"
        and old: "fst ` set (section_of b dt) \<subseteq> fst ` set (section_of b dt')" for b
        using assms by (auto simp: detected_def)
      have "map_of (options_of_kind b dt1) n = map_of (options_of_kind b dt) n"
        if n: "n \<in> fst ` set (section_of b dt)" for b n
      proof -
        have "n \<in> - (if b = ?aux then {name} else {})" using a(2) n old by auto
        with a(3) have "map_of (options_of_kind b dt1) n = map_of (options_of_kind b dt') n"
          unfolding same_options_def by blast
        also have "\<dots> = map_of (options_of_kind b dt) n" using same n unfolding same_options_def by blast
        finally show ?thesis .
      qed
      with same a(3) show ?thesis unfolding same_options_def by simp
    qed
    ultimately show ?thesis
      using a(1,4) assms Inr t run Inr2
      by (intro exI [of _ new'] exI [of _ "added @ [connection]"]) (simp add: add_device_def detected_def new'_def)
  qed
qed

lemma add_devices_detected:
  assumes "detected dt cons new added (dt', su)"
  shows "\<exists>new added. detected dt (cons @ map snd tuples) new added (fold (add_device env) tuples (dt', su))"
  using assms
proof (induction tuples arbitrary: cons new added dt' su)
  case Nil
  then show ?case by auto
next
  case (Cons t tuples)
  obtain c connection where t: "t = (c, connection)" by (cases t)
  obtain dt1 su1 where s1: "add_device env (c, connection) (dt', su) = (dt1, su1)" by fastforce
  from add_device_detected [OF Cons.prems, of connection env c] obtain new1 added1 where
    "detected dt (cons @ [connection]) new1 added1 (dt1, su1)" unfolding s1 by blast
  from Cons.IH [OF this] show ?case by (simp add: t s1)
qed

text \<open>Identification puts every connection either with a class or among the failures.\<close>

lemma identify_one_accounts:
  assumes "identify_one env t con r = Inr r'"
  shows "mset (map snd (id_tuples r')) + mset (id_none r') = mset (map snd (id_tuples r)) + mset (id_none r) + {#con#}"
proof -
  obtain ms where "determine_device_class env con t = Inr ms"
    using assms by (auto simp: identify_one_def result_simps)
  with assms show ?thesis by (cases ms) (auto simp: identify_one_def Let_def split: if_splits)
qed

lemma identify_each_accounts:
  assumes "foldE (identify_one env t) cons r = Inr r'"
  shows "mset (map snd (id_tuples r')) + mset (id_none r') = mset (map snd (id_tuples r)) + mset (id_none r) + mset cons"
  using assms
proof (induction cons arbitrary: r)
  case Nil
  then show ?case by simp
next
  case (Cons con cons)
  then obtain r1 where "identify_one env t con r = Inr r1" "foldE (identify_one env t) cons r1 = Inr r'"
    by (auto simp: result_simps)
  with identify_one_accounts Cons.IH show ?case by fastforce
qed

lemma identify_types_accounts:
  assumes "foldE (\<lambda>(t, cons). foldE (identify_one env t) (sort cons)) ts r = Inr r'"
  shows "mset (map snd (id_tuples r')) + mset (id_none r') =
    mset (map snd (id_tuples r)) + mset (id_none r) + mset (concat (map snd ts))"
  using assms
proof (induction ts arbitrary: r)
  case Nil
  then show ?case by simp
next
  case (Cons t ts)
  obtain k cons where t: "t = (k, cons)" by (cases t)
  with Cons.prems obtain r1 where "foldE (identify_one env k) (sort cons) r = Inr r1"
    "foldE (\<lambda>(t, cons). foldE (identify_one env t) (sort cons)) ts r1 = Inr r'" by (auto simp: result_simps)
  with identify_each_accounts [of env k "sort cons"] Cons.IH show ?case by (fastforce simp: t)
qed

lemma mset_concat_sorted: "mset (concat (map snd (sort_key f xs))) = mset (concat (map snd xs))"
proof -
  have "(\<Sum>p\<leftarrow>sort_key f xs. mset (snd p)) = (\<Sum>p\<leftarrow>xs. mset (snd p))"
    by (simp flip: sum_mset_sum_list)
  then show ?thesis by (simp add: mset_concat comp_def)
qed

lemma detection_accounts_lemma:
  assumes "sound_detector dt" and "detect_new_devices env connections_dict dt = Inr (dt', su)"
  shows "sound_detector dt' \<and> same_options (\<lambda>aux. fst ` set (section_of aux dt)) dt dt' \<and> (\<exists>new added.
    (\<forall>aux. section_of aux dt' = section_of aux dt @ new aux \<and>
       list_all (\<lambda>(n, p). map_of p ''name'' = Some (PStr n)) (new aux)) \<and>
    length (new False) + length (new True) = length added \<and>
    mset added + mset (su_none su) =
      mset (concat (map snd (filter_out_known_connections connections_dict (dt_known dt)))))"
proof -
  let ?cons = "filter_out_known_connections connections_dict (dt_known dt)"
  obtain r where r: "identify_connection_device_class env ?cons = Inr r"
    and f: "(dt', su) = fold (add_device env) (id_tuples r) (dt, \<lparr>su_names = [], su_errs = id_errs r, su_none = id_none r\<rparr>)"
    using assms(2) by (auto simp: detect_new_devices_def result_simps)
  have "detected dt (id_none r) (\<lambda>_. []) [] (dt, \<lparr>su_names = [], su_errs = id_errs r, su_none = id_none r\<rparr>)"
    using assms(1) by (simp add: detected_def same_options_def)
  from add_devices_detected [OF this, of "id_tuples r" env] obtain new added where
    d: "detected dt (id_none r @ map snd (id_tuples r)) new added (dt', su)" unfolding f [symmetric] by blast
  from identify_types_accounts [OF r [unfolded identify_connection_device_class_def]]
  have "mset (id_none r @ map snd (id_tuples r)) = mset (concat (map snd ?cons))"
    by (simp add: mset_concat_sorted add.commute)
  with d show ?thesis unfolding detected_def by auto
qed

text \<open>C24. Detection only adds: when it returns, every device that was configured is still there with the
  same properties and options and in the same place, the new ones have new names, which they carry, and
  options; and every connection that was not known has become exactly one new device or is in the
  list of connections that were not detected.\<close>

theorem detection_accounts:
  assumes "sound_detector dt" and "detect_new_devices env connections_dict dt = Inr (dt', su)"
  shows "sound_detector dt' \<and> same_options (\<lambda>aux. fst ` set (section_of aux dt)) dt dt' \<and> (\<exists>new added.
    (\<forall>aux. section_of aux dt' = section_of aux dt @ new aux \<and>
       list_all (\<lambda>(n, p). map_of p ''name'' = Some (PStr n)) (new aux)) \<and>
    length (new False) + length (new True) = length added \<and>
    mset added + mset (su_none su) =
      mset (concat (map snd (filter_out_known_connections connections_dict (dt_known dt)))))"
  by (rule detection_accounts_lemma [OF assms])

definition echo_class :: device_class where
  "echo_class = \<lparr>dc_type = ''echo'', dc_comm = ''SerialComms'', dc_criteria = [(''product'', CPattern ''echo'')]\<rparr>"

definition demo_detect :: detect_env where
  "demo_detect = \<lparr>de_comm_types = [\<lparr>ct_name = ''SerialComms'', ct_with = (\<lambda>_. Inl TypeError),
       ct_without = Inr [''/dev/b'', ''/dev/a'', ''/dev/old'']\<rparr>],
     de_queries = (\<lambda>t. if t = ''SerialComms'' then Some [(''product'', \<lambda>a. if a = ''/dev/a'' then Inr (AStr ''echo dot'') else Inl IOError)] else None),
     de_repr = (\<lambda>_. ''OSError()''), de_search = contains, de_auxiliary = [], de_primary = [echo_class], de_virtual = [],
     de_new = (\<lambda>_ _ _. Inr ()), de_ready = (\<lambda>_ _. Inr ()),
     de_info = (\<lambda>_ con. Inr ([(''serial_number'', PStr ''00ABCD''), (''console_port_name'', PStr con)], [])),
     de_close = (\<lambda>_ _. Inr ()), de_timestamp = ''20240101-000000''\<rparr>"

definition demo_detector :: detector where
  "demo_detector = \<lparr>dt_persistent = [(''devices'', [(''echo-old1'', [(''console_port_name'', PStr ''/dev/old'')])]), (''other_devices'', [])],
     dt_options = [(''device_options'', [(''echo-old1'', [])]), (''other_device_options'', [])], dt_known = [PStr ''/dev/old'']\<rparr>"

theorem detection_accounts_witness:
  "case detect_new_devices demo_detect (detect_connections demo_detect None None None) demo_detector of
     Inl _ \<Rightarrow> False
   | Inr (dt', su) \<Rightarrow> sound_detector dt' \<and> map fst (section_of False dt') = [''echo-old1'', ''echo-abcd''] \<and> su_none su = [''/dev/b'']"
proof -
  have s: "sound_detector demo_detector"
    by (simp add: sound_detector_def demo_detector_def devices_key_def options_key_def section_of_def options_of_kind_def
        config_section_def)
  obtain dt' su where r: "detect_new_devices demo_detect (detect_connections demo_detect None None None) demo_detector = Inr (dt', su)"
    "map fst (section_of False dt') = [''echo-old1'', ''echo-abcd'']" "su_none su = [''/dev/b'']"
  proof -
    have "case detect_new_devices demo_detect (detect_connections demo_detect None None None) demo_detector of
        Inl _ \<Rightarrow> False
      | Inr (dt', su) \<Rightarrow> map fst (section_of False dt') = [''echo-old1'', ''echo-abcd''] \<and> su_none su = [''/dev/b'']"
      by code_simp
    then show thesis using that by (auto split: sum.splits)
  qed
  with detection_accounts [OF s r(1)] show ?thesis by simp
qed

text \<open>
  A device whose name is configured already is refused, but is listed among the new devices of the
  summary.
\<close>

lemma refused_device_listed:
  assumes "detect_get_info env dt c connection = Inr (name, pp, op)" and "sound_detector dt"
    and "name \<in> fst ` set (section_of (is_auxiliary env c) dt)"
  shows "\<exists>su'. add_device env (c, connection) (dt, su) = (dt, su') \<and> name \<in> set (su_names su') \<and>
    connection \<in> set (su_none su')"
proof -
  obtain r dt1 where run: "add_to_configs env c name pp op dt = (r, dt1)" by fastforce
  with add_to_configs_adds [OF assms(2) run] assms(3) obtain e where "r = Inl e" "dt1 = dt"
    by (cases r) auto
  with run assms(1) show ?thesis by (simp add: add_device_def)
qed

end
