(* ===== verification/Manager_Detect.thy ===== *)
theory Manager_Detect
  imports Manager_Tables Manager_Open Device_Detector
begin

text \<open>
  Detection as the manager runs it (\<open>manager.py\<close>, \<open>detect\<close>): the detector works on the present
  configurations, its result is written to the files, and the files are read again.
\<close>

definition run_detector ::
  "detect_env \<Rightarrow> config_file \<times> config_file \<Rightarrow> string list \<Rightarrow> string list option \<Rightarrow> string list option \<Rightarrow>
   (config_file \<times> config_file) result" where
  "run_detector denv conf static_ips comm_types addresses =
     bindE (new_detector (fst conf) (snd conf)) (\<lambda>dt.
     bindE (detect_all_new_devices denv (Some static_ips) comm_types addresses dt) (\<lambda>(dt', _).
       Inr (dt_persistent dt', dt_options dt')))"

lemma current_configs_sound:
  assumes "catg_ok (m_gazoo st)" and "catg_ok (m_other st)"
    and "new_detector (fst (current_configs st)) (snd (current_configs st)) = Inr dt"
  shows "sound_detector dt"
    and "section_of other dt = c_persistent (category_of other st)"
    and "options_of_kind other dt = c_options (category_of other st)"
    and "map fst (dt_persistent dt) = [''devices'', ''other_devices'']"
    and "map fst (dt_options dt) = [''device_options'', ''other_device_options'']"
proof -
  have dt: "dt_persistent dt = fst (current_configs st)" "dt_options dt = snd (current_configs st)"
    using assms(3) by (auto simp: new_detector_def result_simps)
  show sec: "section_of other dt = c_persistent (category_of other st)" for other
    by (simp add: section_of_def dt current_configs_def devices_key_def category_of_def)
  show opt: "options_of_kind other dt = c_options (category_of other st)" for other
    by (simp add: options_of_kind_def dt current_configs_def options_key_def category_of_def)
  show "map fst (dt_persistent dt) = [''devices'', ''other_devices'']"
    "map fst (dt_options dt) = [''device_options'', ''other_device_options'']"
    by (simp_all add: dt current_configs_def make_device_configs_def)
  have ok: "catg_ok (category_of other st)" for other using assms(1,2) by (simp add: category_of_def)
  then have "map fst (c_options (category_of other st)) = map fst (c_persistent (category_of other st))" for other
    by (simp add: catg_ok_def)
  then have "fst ` set (c_persistent (category_of other st)) \<subseteq> fst ` set (c_options (category_of other st))" for other
    by (metis list.set_map order_refl)
  then show "sound_detector dt"
    using catg_ok_distinct(1,2) [OF ok]
    by (simp add: sound_detector_def sec opt dt current_configs_def make_device_configs_def devices_key_def options_key_def)
qed

lemma two_sections:
  assumes "map fst conf = [k, k']" and "k \<noteq> k'"
  shows "conf = [(k, config_section k conf), (k', config_section k' conf)]"
  using assms by (auto simp: map_eq_Cons_conv config_section_def)



definition one_cam :: mgr where
  "one_cam = demo_mgr\<lparr>m_gazoo := \<lparr>c_aliases = [(''cam-1'', ''cam-1'')],
     c_persistent = [(''cam-1'', [(''device_type'', PStr ''cam''), (''console_port_name'', PStr ''/dev/old''), (''name'', PStr ''cam-1'')])],
     c_options = [(''cam-1'', [(''alias'', PStr ''Kitchen'')])]\<rparr>\<rparr>"

definition detecting :: menv where
  "detecting = demo_env\<lparr>e_detect := run_detector demo_detect\<rparr>"


end
