(* ===== verification/Detect_Criteria.thy ===== *)
theory Detect_Criteria
  imports Device_Detector Event_Filters
begin

text \<open>
  \<open>gazoo_device/detect_criteria\<close>: the queries by which detection tells the device classes of the
  package apart, the table of them by communication type, and the criteria of the device
  classes. Commands, ssh, http and the USB descriptors are tools of the environment; ssh and http
  raise \<open>RuntimeError\<close> when they fail.
\<close>

abbreviation (input) CalledProcessError :: exn where "CalledProcessError \<equiv> OtherError 1"

record usb_device =
  ud_product :: string
  ud_vendor :: nat
  ud_id :: nat

record query_tools =
  qt_http_get :: "string \<Rightarrow> string result"
  qt_ssh :: "string \<Rightarrow> string list \<Rightarrow> string \<Rightarrow> string result"
  qt_check_output :: "string list \<Rightarrow> string result"
  qt_has_command :: "string \<Rightarrow> bool"
  qt_is_matter :: "string \<Rightarrow> bool result"
  qt_is_ip :: "string \<Rightarrow> bool"
  qt_model_search :: "string \<Rightarrow> string option"
  qt_path_serial :: "string \<Rightarrow> string result"
  qt_path_product :: "string \<Rightarrow> string result"
  qt_path_ids :: "string \<Rightarrow> (string \<times> string) result"
  qt_path_manufacturer :: "string \<Rightarrow> string result"
  qt_usb_device :: "string \<Rightarrow> usb_device option result"
  qt_create_switchboard :: "string \<Rightarrow> unit result"
  qt_send_invalid :: "string \<Rightarrow> (bool \<times> bool) result"

text \<open>What every \<open>except RuntimeError\<close> of the queries does.\<close>

definition or_false :: "bool result \<Rightarrow> bool result" where
  "or_false r = (case r of Inl RuntimeError \<Rightarrow> Inr False | _ \<Rightarrow> r)"

definition succeeds :: "'a result \<Rightarrow> bool result" where
  "succeeds r = or_false (bindE r (\<lambda>_. Inr True))"

section \<open>The queries\<close>

definition get_communication_address :: "string \<Rightarrow> string result" where
  "get_communication_address address = Inr address"

definition adb_is_serial_number_query :: "query_tools \<Rightarrow> string \<Rightarrow> bool result" where
  "adb_is_serial_number_query t address = Inr (\<not> qt_is_ip t address)"

definition split_words :: "string \<Rightarrow> string list" where
  "split_words s = filter (\<lambda>w. w \<noteq> []) (foldr (\<lambda>c ws. if c = CHR '' '' then [] # ws else (c # hd ws) # tl ws) s [[]])"

definition docker_product_name_query :: "query_tools \<Rightarrow> string \<Rightarrow> string result" where
  "docker_product_name_query t address =
     (case qt_check_output t (split_words (''docker ps --filter id='' @ address @ '' --format {{.Names}}'')) of
        Inl e \<Rightarrow> if e = CalledProcessError then Inr [] else Inl e
      | Inr name \<Rightarrow> Inr name)"

definition always_true_query :: "string \<Rightarrow> bool result" where
  "always_true_query address = Inr True"

definition is_chip_tool_installed_on_host_query :: "query_tools \<Rightarrow> string \<Rightarrow> bool result" where
  "is_chip_tool_installed_on_host_query t address = Inr (qt_has_command t ''chip-tool'')"

definition is_matter_device_query :: "query_tools \<Rightarrow> string \<Rightarrow> bool result" where
  "is_matter_device_query t address = qt_is_matter t address"

definition manufacturer_name_query :: "query_tools \<Rightarrow> string \<Rightarrow> string result" where
  "manufacturer_name_query t address = bindE (qt_path_manufacturer t address) (\<lambda>m. Inr (lower m))"

definition usb_serial_number_from_serial_port_path :: "query_tools \<Rightarrow> string \<Rightarrow> string result" where
  "usb_serial_number_from_serial_port_path t address = qt_path_serial t address"

definition usb_vendor_product_id_from_serial_port_path :: "query_tools \<Rightarrow> string \<Rightarrow> string result" where
  "usb_vendor_product_id_from_serial_port_path t address =
     bindE (qt_path_ids t address) (\<lambda>(vendor_id, product_id). Inr (vendor_id @ '':'' @ product_id))"

definition is_nrf_board :: "string \<Rightarrow> bool" where
  "is_nrf_board address \<longleftrightarrow> contains ''SEGGER_J-Link'' address \<or> contains ''tty.usbmodem'' address"

text \<open>The answer to the command \<open>invalid\<close>: whether it matched, and whether the time was up.\<close>

definition is_nrf_openthread :: "query_tools \<Rightarrow> string \<Rightarrow> bool result" where
  "is_nrf_openthread t address =
     (if \<not> is_nrf_board address then Inr False
      else bindE (qt_create_switchboard t address) (\<lambda>_.
           bindE (qt_send_invalid t address) (\<lambda>(matched, timed_out). Inr (matched \<and> \<not> timed_out))))"

definition usb_product_name_query :: "query_tools \<Rightarrow> string \<Rightarrow> string result" where
  "usb_product_name_query t address = bindE (qt_path_product t address) (\<lambda>p. Inr (lower p))"

definition snmp_get :: "string \<Rightarrow> string \<Rightarrow> string list" where
  "snmp_get ip_address oid = [''snmpget'', ''-v'', ''2c'', ''-c'', ''private'', ip_address @ '':161'', oid]"

definition get_dlink_model_name :: "query_tools \<Rightarrow> string \<Rightarrow> string result" where
  "get_dlink_model_name t ip_address =
     bindE (qt_check_output t (snmp_get ip_address ''1.3.6.1.2.1.1.1.0'')) (\<lambda>description.
       case qt_model_search t description of
         Some m \<Rightarrow> Inr m
       | None \<Rightarrow>
           bindE (qt_check_output t (snmp_get ip_address ''1.3.6.1.2.1.1.5.0'')) (\<lambda>name.
             case qt_model_search t name of Some m \<Rightarrow> Inr m | None \<Rightarrow> Inl DeviceError))"

definition is_dlink_query :: "query_tools \<Rightarrow> string \<Rightarrow> bool result" where
  "is_dlink_query t address =
     (case get_dlink_model_name t address of
        Inl e \<Rightarrow> if e = CalledProcessError \<or> is_device_error e then Inr False else Inl e
      | Inr _ \<Rightarrow> Inr True)"

definition is_dli_query :: "query_tools \<Rightarrow> string \<Rightarrow> bool result" where
  "is_dli_query t address =
     or_false (bindE (qt_http_get t (''http://'' @ address @ ''/restapi/config/=brand_name/'')) (\<lambda>name.
       Inr (contains ''Power Switch'' name)))"

definition strip_spaces :: "string \<Rightarrow> string" where
  "strip_spaces s = rstrip (dropWhile is_space s)"

definition is_raspbian_rpi_query :: "query_tools \<Rightarrow> string \<Rightarrow> bool result" where
  "is_raspbian_rpi_query t address =
     or_false (bindE (qt_ssh t address [''cat'', ''/proc/device-tree/model''] ''pi'') (\<lambda>name.
       or_false (bindE (qt_ssh t address [''whoami''] ''pi'') (\<lambda>user.
         Inr (strip_spaces user = ''pi'' \<and> contains ''Raspberry Pi'' name)))))"

definition is_ubuntu_rpi_query :: "query_tools \<Rightarrow> string \<Rightarrow> bool result" where
  "is_ubuntu_rpi_query t address = succeeds (qt_ssh t address [''cat'', ''/proc/device-tree/model''] ''ubuntu'')"

definition is_unifi_query :: "query_tools \<Rightarrow> string \<Rightarrow> bool result" where
  "is_unifi_query t address =
     or_false (bindE (qt_ssh t address [''mca-cli-op'', ''info''] ''admin'') (\<lambda>mca_info.
       Inr (list_ex (\<lambda>model_prefix. contains model_prefix mca_info) [''USW-'', ''US-''])))"

definition is_chip_tool_installed_on_rpi_query :: "query_tools \<Rightarrow> string \<Rightarrow> bool result" where
  "is_chip_tool_installed_on_rpi_query t address = succeeds (qt_ssh t address [''which'', ''chip-tool''] ''ubuntu'')"

definition is_matter_app_running_query :: "query_tools \<Rightarrow> string \<Rightarrow> bool result" where
  "is_matter_app_running_query t address =
     succeeds (qt_ssh t address [''pgrep'', ''-f'', ''matter-linux-app''] ''ubuntu'')"

definition usb_product_name_from_serial_number :: "query_tools \<Rightarrow> string \<Rightarrow> string result" where
  "usb_product_name_from_serial_number t address =
     bindE (qt_usb_device t address) (\<lambda>d. Inr (case d of Some u \<Rightarrow> ud_product u | None \<Rightarrow> []))"

text \<open>\<open>{:04x}\<close>\<close>

fun hex_digits :: "nat \<Rightarrow> string" where
  "hex_digits n = (if n < 16 then [''0123456789abcdef'' ! n] else hex_digits (n div 16) @ [''0123456789abcdef'' ! (n mod 16)])"

declare hex_digits.simps [simp del]

definition usb_vendor_product_id_query :: "query_tools \<Rightarrow> string \<Rightarrow> string result" where
  "usb_vendor_product_id_query t address =
     bindE (qt_usb_device t address) (\<lambda>d. Inr (case d of
         Some u \<Rightarrow> zero_pad 4 (hex_digits (ud_vendor u)) @ '':'' @ zero_pad 4 (hex_digits (ud_id u))
       | None \<Rightarrow> []))"

section \<open>The table of the queries\<close>

abbreviation ask_bool :: "('a \<Rightarrow> bool result) \<Rightarrow> 'a \<Rightarrow> answer result" where
  "ask_bool q a \<equiv> bindE (q a) (\<lambda>b. Inr (ABool b))"

abbreviation ask_str :: "('a \<Rightarrow> string result) \<Rightarrow> 'a \<Rightarrow> answer result" where
  "ask_str q a \<equiv> bindE (q a) (\<lambda>s. Inr (AStr s))"

type_synonym queries = "(string \<times> (string \<Rightarrow> answer result)) list"

definition SERIAL_QUERY_DICT :: "query_tools \<Rightarrow> queries" where
  "SERIAL_QUERY_DICT t =
     [(''ADDRESS'', ask_str get_communication_address), (''IS_NRF_OPENTHREAD'', ask_bool (is_nrf_openthread t)),
      (''PRODUCT_NAME'', ask_str (usb_product_name_query t)),
      (''SERIAL_NUMBER'', ask_str (usb_serial_number_from_serial_port_path t)),
      (''VENDOR_PRODUCT_ID'', ask_str (usb_vendor_product_id_from_serial_port_path t))]"

definition PIGWEED_QUERY_DICT :: "query_tools \<Rightarrow> queries" where
  "PIGWEED_QUERY_DICT t =
     [(''IS_MATTER'', ask_bool (is_matter_device_query t)), (''IS_NRF_OPENTHREAD'', ask_bool (is_nrf_openthread t)),
      (''PRODUCT_NAME'', ask_str (usb_product_name_query t)), (''MANUFACTURER_NAME'', ask_str (manufacturer_name_query t))]"

definition SSH_QUERY_DICT :: "query_tools \<Rightarrow> queries" where
  "SSH_QUERY_DICT t =
     [(''IS_DLI'', ask_bool (is_dli_query t)), (''IS_RASPBIAN_RPI'', ask_bool (is_raspbian_rpi_query t)),
      (''IS_UBUNTU_RPI'', ask_bool (is_ubuntu_rpi_query t)), (''IS_UNIFI'', ask_bool (is_unifi_query t)),
      (''IS_CHIP_TOOL_PRESENT'', ask_bool (is_chip_tool_installed_on_rpi_query t)),
      (''IS_MATTER_LINUX_APP_RUNNING'', ask_bool (is_matter_app_running_query t))]"

definition USB_QUERY_DICT :: "query_tools \<Rightarrow> queries" where
  "USB_QUERY_DICT t =
     [(''PRODUCT_NAME'', ask_str (usb_product_name_from_serial_number t)), (''SERIAL_NUMBER'', ask_str get_communication_address),
      (''VENDOR_PRODUCT_ID'', ask_str (usb_vendor_product_id_query t))]"

definition gdm_queries :: "query_tools \<Rightarrow> (string \<times> queries) list" where
  "gdm_queries t =
     [(''AdbComms'', [(''IS_SERIAL_NUMBER'', ask_bool (adb_is_serial_number_query t))]),
      (''HostShellComms'', [(''IS_CHIP_TOOL_PRESENT'', ask_bool (is_chip_tool_installed_on_host_query t))]),
      (''JlinkSerialComms'', SERIAL_QUERY_DICT t), (''PigweedSerialComms'', PIGWEED_QUERY_DICT t),
      (''PigweedSocketComms'', SSH_QUERY_DICT t), (''PtyProcessComms'', []), (''SerialComms'', SERIAL_QUERY_DICT t),
      (''SnmpComms'', [(''IS_DLINK'', ask_bool (is_dlink_query t))]), (''SshComms'', SSH_QUERY_DICT t),
      (''UsbComms'', USB_QUERY_DICT t), (''YepkitComms'', [(''ALWAYS_TRUE'', ask_bool always_true_query)])]"


section \<open>The device classes of the package\<close>

text \<open>The criteria \<open>DETECT_MATCH_CRITERIA\<close> of the classes, in the order in which they are exported.\<close>

definition primary_classes :: "device_class list" where
  "primary_classes =
     [\<lparr>dc_type = ''efr32matter'', dc_comm = ''PigweedSerialComms'', dc_criteria =
         [(''IS_MATTER'', CBool True), (''MANUFACTURER_NAME'', CPattern ''silicon(_| )labs''), (''PRODUCT_NAME'', CPattern ''j-link'')]\<rparr>,
      \<lparr>dc_type = ''esp32matter'', dc_comm = ''PigweedSerialComms'', dc_criteria =
         [(''IS_MATTER'', CBool True), (''MANUFACTURER_NAME'', CPattern ''(silicon(_| )labs|1a86|)''),
          (''PRODUCT_NAME'', CPattern ''(cp2104 usb to uart bridge controller|usb single serial)'')]\<rparr>,
      \<lparr>dc_type = ''nrfmatter'', dc_comm = ''PigweedSerialComms'', dc_criteria =
         [(''IS_MATTER'', CBool True), (''MANUFACTURER_NAME'', CPattern ''segger''), (''PRODUCT_NAME'', CPattern ''j-link'')]\<rparr>,
      \<lparr>dc_type = ''rpimatter'', dc_comm = ''PigweedSocketComms'', dc_criteria =
         [(''IS_UBUNTU_RPI'', CBool True), (''IS_MATTER_LINUX_APP_RUNNING'', CBool True)]\<rparr>]"

definition auxiliary_classes :: "device_class list" where
  "auxiliary_classes =
     [\<lparr>dc_type = ''cambrionix'', dc_comm = ''SerialComms'', dc_criteria =
         [(''PRODUCT_NAME'', CPattern ''(ft230x basic uart)|(ps15-usb3)|(supersync15)|(thundersync3-16)'')]\<rparr>,
      \<lparr>dc_type = ''chip_tool'', dc_comm = ''HostShellComms'', dc_criteria = [(''IS_CHIP_TOOL_PRESENT'', CBool True)]\<rparr>,
      \<lparr>dc_type = ''dc2200'', dc_comm = ''UsbComms'', dc_criteria =
         [(''VENDOR_PRODUCT_ID'', CPattern ''1313:80c8''), (''PRODUCT_NAME'', CPattern ''DC2200'')]\<rparr>,
      \<lparr>dc_type = ''powerswitch'', dc_comm = ''SshComms'', dc_criteria = [(''IS_DLI'', CBool True)]\<rparr>,
      \<lparr>dc_type = ''dlink_switch'', dc_comm = ''SnmpComms'', dc_criteria = [(''IS_DLINK'', CBool True)]\<rparr>,
      \<lparr>dc_type = ''efr32'', dc_comm = ''PigweedSerialComms'', dc_criteria =
         [(''IS_MATTER'', CBool False), (''MANUFACTURER_NAME'', CPattern ''silicon(_| )labs''), (''PRODUCT_NAME'', CPattern ''j-link'')]\<rparr>,
      \<lparr>dc_type = ''esp32'', dc_comm = ''PigweedSerialComms'', dc_criteria =
         [(''IS_MATTER'', CBool False), (''MANUFACTURER_NAME'', CPattern ''(silicon(_| )labs|1a86|)''),
          (''PRODUCT_NAME'', CPattern ''(cp2104 usb to uart bridge controller|usb single serial)'')]\<rparr>,
      \<lparr>dc_type = ''m5stick'', dc_comm = ''SerialComms'', dc_criteria =
         [(''ADDRESS'', CPattern ''/dev/serial/by-id/*''), (''PRODUCT_NAME'', CPattern ''m5stack'')]\<rparr>,
      \<lparr>dc_type = ''nrf52840'', dc_comm = ''PigweedSerialComms'', dc_criteria =
         [(''IS_MATTER'', CBool False), (''MANUFACTURER_NAME'', CPattern ''segger''), (''PRODUCT_NAME'', CPattern ''j-link''),
          (''IS_NRF_OPENTHREAD'', CBool False)]\<rparr>,
      \<lparr>dc_type = ''nrfopenthread'', dc_comm = ''JlinkSerialComms'', dc_criteria =
         [(''IS_NRF_OPENTHREAD'', CBool True), (''PRODUCT_NAME'', CPattern ''j-link'')]\<rparr>,
      \<lparr>dc_type = ''raspberrypi'', dc_comm = ''SshComms'', dc_criteria =
         [(''IS_RASPBIAN_RPI'', CBool True), (''IS_CHIP_TOOL_PRESENT'', CBool False), (''IS_MATTER_LINUX_APP_RUNNING'', CBool False)]\<rparr>,
      \<lparr>dc_type = ''rpi_matter_controller'', dc_comm = ''SshComms'', dc_criteria =
         [(''IS_UBUNTU_RPI'', CBool True), (''IS_CHIP_TOOL_PRESENT'', CBool True)]\<rparr>,
      \<lparr>dc_type = ''unifi_switch'', dc_comm = ''SshComms'', dc_criteria = [(''IS_UNIFI'', CBool True)]\<rparr>,
      \<lparr>dc_type = ''yepkit'', dc_comm = ''YepkitComms'', dc_criteria = [(''ALWAYS_TRUE'', CBool True)]\<rparr>]"

text \<open>The environment of the package without extensions.\<close>

definition gdm_only :: "query_tools \<Rightarrow> detect_env \<Rightarrow> bool" where
  "gdm_only t env \<longleftrightarrow> de_queries env = map_of (gdm_queries t) \<and> de_auxiliary env = auxiliary_classes \<and>
     de_primary env = primary_classes \<and> de_virtual env = []"

section \<open>The answers have the types the criteria ask for\<close>

definition string_query :: "string \<Rightarrow> bool" where
  "string_query name \<longleftrightarrow> name \<in> {''ADDRESS'', ''PRODUCT_NAME'', ''SERIAL_NUMBER'', ''VENDOR_PRODUCT_ID'', ''MANUFACTURER_NAME''}"

lemma string_answers:
  assumes "map_of (gdm_queries t) comm = Some qs" and "(name, q) \<in> set qs" and "string_query name" and "q a = Inr ans"
  shows "\<exists>s. ans = AStr s"
  using assms
  by (auto simp: gdm_queries_def SERIAL_QUERY_DICT_def PIGWEED_QUERY_DICT_def SSH_QUERY_DICT_def USB_QUERY_DICT_def
      string_query_def bindE_eq_Inr split: if_splits)

lemma class_patterns:
  "list_all (\<lambda>c. list_all (\<lambda>(name, v). case v of CBool _ \<Rightarrow> True | CPattern _ \<Rightarrow> string_query name) (dc_criteria c))
     (auxiliary_classes @ primary_classes)"
  by (simp add: auxiliary_classes_def primary_classes_def string_query_def)

lemma matches_total:
  assumes "\<And>name p a. (name, CPattern p) \<in> set criteria \<Longrightarrow> map_of responses name = Some a \<Longrightarrow> \<exists>s. a = AStr s"
  shows "\<exists>b. matches_criteria env responses criteria = Inr b"
  using assms
proof (induction criteria)
  case Nil
  show ?case by (rule exI [of _ True]) simp
next
  case (Cons e criteria)
  obtain name v where e: "e = (name, v)" by (cases e)
  have ih: "\<exists>b. matches_criteria env responses criteria = Inr b" using Cons by (meson list.set_intros(2))
  show ?case
  proof (cases "map_of responses name")
    case None
    then show ?thesis by (intro exI [of _ False]) (simp add: e)
  next
    case (Some a)
    have "\<exists>s. a = AStr s" if "v = CPattern p" for p
      using Cons.prems [of name p a] Some that by (simp add: e)
    with Some ih show ?thesis by (cases v) (auto simp: e)
  qed
qed

lemma matching_total:
  assumes "\<And>c. c \<in> set cs \<Longrightarrow> \<exists>b. matches_criteria env responses (dc_criteria c) = Inr b"
  shows "\<exists>ms. matching_classes env responses cs = Inr ms"
  using assms
proof (induction cs)
  case (Cons c cs)
  then obtain b ms where "matches_criteria env responses (dc_criteria c) = Inr b" "matching_classes env responses cs = Inr ms"
    by (meson list.set_intros)
  then show ?case by simp
qed simp

lemma determine_total:
  assumes "gdm_only t env" and "map_of (gdm_queries t) comm \<noteq> None"
  shows "\<exists>cs. determine_device_class env address comm = Inr cs"
proof -
  obtain qs where qs: "map_of (gdm_queries t) comm = Some qs" using assms(2) by blast
  let ?responses = "map (\<lambda>(n, q). (n, case q address of Inr a \<Rightarrow> a | Inl e \<Rightarrow> AStr (de_repr env e))) qs"
  have r: "get_detect_query_response env address comm = Inr ?responses"
    using assms(1) qs by (simp add: get_detect_query_response_def gdm_only_def)
  have "\<exists>b. matches_criteria env ?responses (dc_criteria c) = Inr b"
    if c: "c \<in> set (get_communication_type_classes env comm)" for c
  proof (rule matches_total)
    fix name p a
    assume p: "(name, CPattern p) \<in> set (dc_criteria c)" and a: "map_of ?responses name = Some a"
    have "c \<in> set (auxiliary_classes @ primary_classes)"
      using c assms(1) by (auto simp: get_communication_type_classes_def gdm_only_def)
    with class_patterns p have s: "string_query name" unfolding list_all_iff by fastforce
    obtain q where q: "(name, q) \<in> set qs" "a = (case q address of Inr a \<Rightarrow> a | Inl e \<Rightarrow> AStr (de_repr env e))"
      using map_of_SomeD [OF a] by auto
    show "\<exists>s. a = AStr s"
      using string_answers [OF qs q(1) s, of address] q(2) by (cases "q address") auto
  qed
  then show ?thesis
    using matching_total r by (simp add: determine_device_class_def find_matching_device_class_def)
qed



definition broken_tools :: query_tools where
  "broken_tools = \<lparr>qt_http_get = (\<lambda>_. Inl RuntimeError),
     qt_ssh = (\<lambda>_ cmd user. if user = ''pi'' then Inl RuntimeError else Inr (concat cmd)), qt_check_output = (\<lambda>_. Inl IOError),
     qt_has_command = (\<lambda>_. False), qt_is_matter = (\<lambda>_. Inl DeviceError), qt_is_ip = (\<lambda>_. False), qt_model_search = (\<lambda>_. None),
     qt_path_serial = (\<lambda>_. Inl KeyError), qt_path_product = (\<lambda>_. Inl KeyError), qt_path_ids = (\<lambda>_. Inl KeyError),
     qt_path_manufacturer = (\<lambda>_. Inl AttributeError), qt_usb_device = (\<lambda>_. Inl IOError),
     qt_create_switchboard = (\<lambda>_. Inl DeviceError), qt_send_invalid = (\<lambda>_. Inl DeviceError)\<rparr>"

definition gdm_detect :: detect_env where
  "gdm_detect = demo_detect\<lparr>de_queries := map_of (gdm_queries broken_tools), de_auxiliary := auxiliary_classes,
     de_primary := primary_classes, de_search := contains\<rparr>"


end
